(* ===== verification/Starry_Prelude.thy ===== *)
theory Starry_Prelude
  imports Main "HOL-Library.Word" "HOL-Library.AList" "HOL-Library.Log_Nat"
begin

text \<open>
  The shared vocabulary of the development: Rust's unsigned integers as words with their
  saturating operations, little-endian byte encodings, byte slices, ASCII case folding, socket
  addresses, monotonic time, and \<open>HashMap\<close> as an association list behind the interface
  \<open>kv_store\<close>.  Every component theory imports this one.
\<close>

unbundle bit_operations_syntax

named_theorems rust_simps \<open>unfolding rules of the Rust operations the sources use\<close>
named_theorems inv_intros \<open>invariant preservation, one rule per operation\<close>

section \<open>Integers\<close>

type_synonym u8 = "8 word"
type_synonym u16 = "16 word"
type_synonym u32 = "32 word"
type_synonym u64 = "64 word"
type_synonym u128 = "128 word"
type_synonym bytes = "u8 list"

text \<open>\<open>saturating_add\<close>, \<open>saturating_sub\<close> and \<open>saturating_mul\<close> of the unsigned integers.\<close>

definition sat_add :: "'a::len word \<Rightarrow> 'a word \<Rightarrow> 'a word" where
  "sat_add a b = (if unat a + unat b < 2 ^ LENGTH('a) then a + b else - 1)"

definition sat_sub :: "'a::len word \<Rightarrow> 'a word \<Rightarrow> 'a word" where
  "sat_sub a b = (if b \<le> a then a - b else 0)"

definition sat_mul :: "'a::len word \<Rightarrow> 'a word \<Rightarrow> 'a word" where
  "sat_mul a b = (if unat a * unat b < 2 ^ LENGTH('a) then a * b else - 1)"

lemma unat_max_word: "unat (- 1 :: 'a::len word) = 2 ^ LENGTH('a) - 1"
  by (simp add: unsigned_minus_1_eq_mask mask_eq_exp_minus_1)

lemma unat_sat_add:
  fixes a b :: "'a::len word"
  shows "unat (sat_add a b) = min (unat a + unat b) (2 ^ LENGTH('a) - 1)"
  by (auto simp: sat_add_def unat_max_word unat_word_ariths)

lemma unat_sat_sub: "unat (sat_sub a b) = unat a - unat b"
  by (auto simp: sat_sub_def unat_sub word_le_nat_alt)

lemma unat_sat_mul:
  fixes a b :: "'a::len word"
  shows "unat (sat_mul a b) = min (unat a * unat b) (2 ^ LENGTH('a) - 1)"
  by (auto simp: sat_mul_def unat_max_word unat_word_ariths)

lemmas unat_sat = unat_sat_add unat_sat_sub unat_sat_mul

lemma sat_add_ge:
  fixes a b :: "'a::len word"
  shows "a \<le> sat_add a b"
proof -
  have "unat a < 2 ^ LENGTH('a)"
    by (rule unsigned_less)
  then have "unat a \<le> 2 ^ LENGTH('a) - 1" by linarith
  then show ?thesis by (simp add: word_le_nat_alt unat_sat_add)
qed

section \<open>Bytes\<close>

text \<open>\<open>to_le_bytes\<close> of an integer of \<open>n\<close> bytes and \<open>from_le_bytes\<close>.\<close>

fun to_le_bytes :: "nat \<Rightarrow> 'a::len word \<Rightarrow> bytes" where
  "to_le_bytes 0 w = []"
| "to_le_bytes (Suc n) w = ucast w # to_le_bytes n (drop_bit 8 w)"

fun from_le_bytes :: "bytes \<Rightarrow> 'a::len word" where
  "from_le_bytes [] = 0"
| "from_le_bytes (b # bs) = ucast b OR push_bit 8 (from_le_bytes bs)"

lemma length_to_le_bytes [simp]: "length (to_le_bytes n w) = n"
  by (induction n arbitrary: w) auto

lemma from_to_le_take_bit: "from_le_bytes (to_le_bytes n w) = take_bit (8 * n) w"
proof (induction n arbitrary: w)
  case 0
  then show ?case by simp
next
  case (Suc n)
  show ?case
    by (rule bit_word_eqI)
      (auto simp: Suc.IH bit_or_iff bit_push_bit_iff bit_ucast_iff bit_take_bit_iff bit_drop_bit_eq)
qed

lemma from_to_le_bytes:
  fixes w :: "'a::len word"
  shows "LENGTH('a) \<le> 8 * n \<Longrightarrow> from_le_bytes (to_le_bytes n w) = w"
  by (simp add: from_to_le_take_bit take_bit_word_eq_self)

lemma to_from_le_bytes:
  fixes dummy :: "'a::len itself"
  assumes "8 * length bs \<le> LENGTH('a)"
  shows "to_le_bytes (length bs) (from_le_bytes bs :: 'a word) = bs"
  using assms
proof (induction bs)
  case Nil
  then show ?case by simp
next
  case (Cons b bs)
  have 1: "ucast (ucast b OR push_bit 8 (from_le_bytes bs) :: 'a word) = b"
    using Cons.prems
    by (intro bit_word_eqI) (auto simp: bit_or_iff bit_push_bit_iff bit_ucast_iff)
  have 2: "drop_bit 8 (ucast b OR push_bit 8 (from_le_bytes bs) :: 'a word)
      = take_bit (LENGTH('a) - 8) (from_le_bytes bs)"
    by (rule bit_word_eqI)
      (auto simp: bit_or_iff bit_push_bit_iff bit_ucast_iff bit_take_bit_iff bit_drop_bit_eq
        dest: bit_imp_le_length)
  have hi: "bit (from_le_bytes bs' :: 'a word) i \<Longrightarrow> i < 8 * length bs'" for bs' i
    by (induction bs' arbitrary: i)
      (fastforce simp: bit_or_iff bit_push_bit_iff bit_ucast_iff less_diff_conv2 dest: bit_imp_le_length)+
  have 3: "take_bit (LENGTH('a) - 8) (from_le_bytes bs) = (from_le_bytes bs :: 'a word)"
    using Cons.prems by (intro bit_word_eqI) (auto simp: bit_take_bit_iff dest: hi)
  from Cons 1 2 3 show ?case by simp
qed

text \<open>A slice \<open>&xs[a..b]\<close>; every use in the sources is guarded by a length check.\<close>

definition slice :: "nat \<Rightarrow> nat \<Rightarrow> 'a list \<Rightarrow> 'a list" where
  "slice a b xs = take (b - a) (drop a xs)"

lemma length_slice: "b \<le> length xs \<Longrightarrow> length (slice a b xs) = b - a"
  by (auto simp: slice_def)

text \<open>The bytes of a string, as the sources' byte string literals.\<close>

definition ascii_bytes :: "string \<Rightarrow> bytes" where
  "ascii_bytes s = map (\<lambda>c. of_nat (of_char c)) s"

lemma length_ascii_bytes [simp]: "length (ascii_bytes s) = length s"
  by (simp add: ascii_bytes_def)

section \<open>Strings\<close>

text \<open>A Rust string is its UTF-8 bytes; the ASCII operations leave all other bytes alone.\<close>

definition ascii_lower :: "char \<Rightarrow> char" where
  "ascii_lower c = (let n = (of_char c :: nat) in
     if 65 \<le> n \<and> n \<le> 90 then char_of (n + 32) else c)"

definition eq_ignore_ascii_case :: "string \<Rightarrow> string \<Rightarrow> bool" where
  "eq_ignore_ascii_case a b \<longleftrightarrow> map ascii_lower a = map ascii_lower b"

lemma eq_ignore_ascii_case_refl [simp]: "eq_ignore_ascii_case a a"
  by (simp add: eq_ignore_ascii_case_def)

section \<open>Addresses and time\<close>

datatype ip_addr = IpV4 u32 | IpV6 u128

text \<open>A \<open>SocketAddr\<close>: the IPv6 form also carries flow information and a scope id.\<close>

datatype socket_addr = SockV4 u32 u16 | SockV6 u128 u16 u32 u32

fun sock_ip :: "socket_addr \<Rightarrow> ip_addr" where
  "sock_ip (SockV4 a p) = IpV4 a"
| "sock_ip (SockV6 a p f s) = IpV6 a"

fun sock_port :: "socket_addr \<Rightarrow> u16" where
  "sock_port (SockV4 a p) = p"
| "sock_port (SockV6 a p f s) = p"

text \<open>Network byte order, as \<open>octets()\<close> returns it.\<close>

fun octets :: "ip_addr \<Rightarrow> bytes" where
  "octets (IpV4 a) = rev (to_le_bytes 4 a)"
| "octets (IpV6 a) = rev (to_le_bytes 16 a)"

text \<open>
  An \<open>Instant\<close> and a \<open>Duration\<close> count nanoseconds; \<open>saturating_duration_since\<close> is
  subtraction on the naturals, which stops at zero as the method does.
\<close>

type_synonym instant = nat
type_synonym duration = nat

definition from_secs :: "nat \<Rightarrow> duration" where
  "from_secs s = s * 1000000000"

definition from_millis :: "nat \<Rightarrow> duration" where
  "from_millis s = s * 1000000"

definition since :: "instant \<Rightarrow> instant \<Rightarrow> duration" where
  "since now earlier = now - earlier"

declare from_secs_def [rust_simps] from_millis_def [rust_simps] since_def [rust_simps]

end
