(* ===== verification/Fast_Media_Wire.thy ===== *)
theory Fast_Media_Wire
  imports Starry_Prelude
begin

text \<open>
  The AKR1 datagram format of the FastMedia relay (\<open>fast_media_relay.rs\<close>): the 32-byte header,
  the AKF1 payload check, the address cookie and the check of a signed grant.  Signature
  verification, the keyed MAC, SHA-256 and the generated protobuf decoder are not part of the
  repository: they are the fields of \<open>fm_crypto\<close>.
\<close>

abbreviation PROTOCOL_VERSION :: u32 where "PROTOCOL_VERSION \<equiv> 1"
abbreviation AKR_HEADER_BYTES :: nat where "AKR_HEADER_BYTES \<equiv> 32"
abbreviation HELLO_COOKIE_BYTES :: nat where "HELLO_COOKIE_BYTES \<equiv> 56"
abbreviation BIND_PREFIX_BYTES :: nat where "BIND_PREFIX_BYTES \<equiv> 58"
abbreviation MAX_AUTHORIZATION_BYTES :: nat where "MAX_AUTHORIZATION_BYTES \<equiv> 4096"
abbreviation MIN_RELAY_DATAGRAM :: u32 where "MIN_RELAY_DATAGRAM \<equiv> 608"
abbreviation MAX_RELAY_DATAGRAM :: u32 where "MAX_RELAY_DATAGRAM \<equiv> 1400"
abbreviation MIN_AKF1_BYTES :: nat where "MIN_AKF1_BYTES \<equiv> 89"
abbreviation MAX_GRANT_TTL_SECONDS :: u64 where "MAX_GRANT_TTL_SECONDS \<equiv> 300"
abbreviation COOKIE_EPOCH_SECONDS :: u64 where "COOKIE_EPOCH_SECONDS \<equiv> 10"
abbreviation ROLE_CONTROLLER :: u8 where "ROLE_CONTROLLER \<equiv> 1"
abbreviation ROLE_TARGET :: u8 where "ROLE_TARGET \<equiv> 2"

section \<open>Header\<close>

record header =
  h_kind :: u8
  h_role :: u8
  h_session_id :: u64
  h_allocation_id :: bytes

definition header_parse :: "bytes \<Rightarrow> header option" where
  "header_parse packet =
     (if length packet < AKR_HEADER_BYTES
         \<or> take 4 packet \<noteq> ascii_bytes ''AKR1''
         \<or> packet ! 4 \<noteq> ucast PROTOCOL_VERSION
         \<or> packet ! 7 \<noteq> 0
         \<or> packet ! 5 \<notin> {1, 3, 5}
         \<or> packet ! 6 \<notin> {ROLE_CONTROLLER, ROLE_TARGET}
      then None
      else
        (let session_id = from_le_bytes (slice 8 16 packet) in
         if session_id = 0 then None
         else
           (let allocation_id = slice 16 32 packet in
            if list_all (\<lambda>b. b = 0) allocation_id then None
            else Some \<lparr>h_kind = packet ! 5, h_role = packet ! 6,
                       h_session_id = session_id, h_allocation_id = allocation_id\<rparr>)))"

definition header_encode :: "header \<Rightarrow> u8 \<Rightarrow> bytes" where
  "header_encode h kind =
     ascii_bytes ''AKR1'' @ [ucast PROTOCOL_VERSION, kind, h_role h, 0]
       @ to_le_bytes 8 (h_session_id h) @ h_allocation_id h"

text \<open>What a parsed header satisfies.\<close>

definition header_ok :: "header \<Rightarrow> bool" where
  "header_ok h \<longleftrightarrow> h_kind h \<in> {1, 3, 5} \<and> h_role h \<in> {ROLE_CONTROLLER, ROLE_TARGET}
     \<and> h_session_id h \<noteq> 0 \<and> length (h_allocation_id h) = 16
     \<and> \<not> list_all (\<lambda>b. b = 0) (h_allocation_id h)"

lemma header_parse_ok: "header_parse packet = Some h \<Longrightarrow> header_ok h"
  by (auto simp: header_parse_def header_ok_def Let_def length_slice split: if_splits)

lemma header_parse_length: "header_parse packet = Some h \<Longrightarrow> AKR_HEADER_BYTES \<le> length packet"
  by (auto simp: header_parse_def split: if_splits)

lemma length_header_encode: "header_ok h \<Longrightarrow> length (header_encode h kind) = AKR_HEADER_BYTES"
  by (simp add: header_encode_def header_ok_def)

lemma header_parse_encode:
  assumes "header_ok h" "kind \<in> {1, 3, 5}"
  shows "header_parse (header_encode h kind @ rest) = Some (h\<lparr>h_kind := kind\<rparr>)"
proof -
  obtain k r s a where h: "h = \<lparr>h_kind = k, h_role = r, h_session_id = s, h_allocation_id = a\<rparr>"
    by (cases h)
  let ?p = "header_encode h kind @ rest"
  have len: "length a = 16" using assms by (simp add: header_ok_def h)
  have "drop 8 ?p = to_le_bytes 8 s @ a @ rest" "drop 16 ?p = a @ rest"
    by (simp_all add: header_encode_def h)
  then have sl: "slice 8 16 ?p = to_le_bytes 8 s" "slice 16 32 ?p = a"
    by (simp_all add: slice_def len)
  have "take 4 ?p = ascii_bytes ''AKR1''" "?p ! 4 = 1" "?p ! 5 = kind" "?p ! 6 = r" "?p ! 7 = 0"
    "\<not> length ?p < 32"
    using assms length_header_encode [of h kind] by (simp_all add: header_encode_def nth_append h)
  with sl assms show ?thesis
    by (auto simp: header_parse_def Let_def from_to_le_bytes header_ok_def h)
qed

text \<open>The header is the first 32 bytes of the packet, re-encoded with its own kind.\<close>

lemma nth_list_5_8:
  "8 \<le> length xs \<Longrightarrow> drop 4 (take 8 xs) = [xs ! 4, xs ! 5, xs ! 6, xs ! 7]"
  by (rule nth_equalityI) (auto simp: less_Suc_eq numeral_eq_Suc)

lemma header_encode_parse:
  assumes "header_parse packet = Some h"
  shows "header_encode h (h_kind h) = take 32 packet"
proof -
  have len: "32 \<le> length packet" using assms by (rule header_parse_length)
  have h: "take 4 packet = ascii_bytes ''AKR1''" "packet ! 4 = 1" "packet ! 7 = 0"
    "h_kind h = packet ! 5" "h_role h = packet ! 6"
    "h_session_id h = from_le_bytes (slice 8 16 packet)" "h_allocation_id h = slice 16 32 packet"
    using assms by (auto simp: header_parse_def Let_def split: if_splits)
  have sid: "to_le_bytes 8 (h_session_id h) = slice 8 16 packet"
    using to_from_le_bytes [of "slice 8 16 packet", where ?'a = 64] len h
    by (simp add: length_slice)
  have "header_encode h (h_kind h)
      = (take 4 packet @ drop 4 (take 8 packet)) @ slice 8 16 packet @ slice 16 32 packet"
    using len h sid by (simp add: header_encode_def nth_list_5_8)
  also have "take 4 packet @ drop 4 (take 8 packet) = take 8 packet"
    using append_take_drop_id [of 4 "take 8 packet"] by simp
  finally show ?thesis
    using take_add [of 8 24 packet] take_add [of 8 16 "drop 8 packet"] by (simp add: slice_def)
qed

section \<open>Payload\<close>

definition validate_akf1 :: "bytes \<Rightarrow> u8 \<Rightarrow> u64 \<Rightarrow> u64 option" where
  "validate_akf1 payload role session_id =
     (if length payload < MIN_AKF1_BYTES
         \<or> take 4 payload \<noteq> ascii_bytes ''AKF1''
         \<or> payload ! 4 \<noteq> 1
         \<or> payload ! 5 \<noteq> sat_sub role 1
         \<or> from_le_bytes (slice 6 14 payload) \<noteq> session_id
      then None
      else (let sequence = from_le_bytes (slice 14 22 payload) in
            if 0 < sequence then Some sequence else None))"

section \<open>Grants\<close>

text \<open>The generated message type; its fields are those of the protobuf contract.\<close>

record fast_relay_authorization =
  fa_version :: u32
  fa_session_uuid :: string
  fa_expires_at :: u64
  fa_allow_fast_compat :: bool
  fa_allow_fast_media_v1 :: bool
  fa_max_bitrate_kbps :: u32
  fa_relay_udp_protocol :: u32
  fa_relay_server :: string
  fa_relay_udp_port :: u32
  fa_relay_allocation_id :: bytes
  fa_relay_max_datagram :: u32
  fa_relay_endpoint_role :: u32

text \<open>
  Code outside the repository: libsodium's \<open>sign::verify\<close> (the message under a valid
  signature) and \<open>auth::authenticate\<close>, the protobuf decoder, and SHA-256.
\<close>

record fm_crypto =
  sign_verify :: "bytes \<Rightarrow> bytes \<Rightarrow> bytes option"
  parse_grant :: "bytes \<Rightarrow> fast_relay_authorization option"
  authenticate :: "bytes \<Rightarrow> bytes \<Rightarrow> bytes"
  sha256 :: "bytes \<Rightarrow> bytes"

record grant_invariant =
  gi_session_uuid_digest :: bytes
  gi_expires_at :: u64
  gi_max_bitrate_kbps :: u32
  gi_max_datagram :: u32

datatype grant_error = GrantRole | GrantAllocation | GrantOther

definition grant_validated ::
  "fm_crypto \<Rightarrow> fast_relay_authorization \<Rightarrow> header \<Rightarrow> string \<Rightarrow> u16 \<Rightarrow> u64 \<Rightarrow>
   grant_error + grant_invariant" where
  "grant_validated cr grant header relay_server udp_port unix =
     (if fa_relay_endpoint_role grant \<noteq> ucast (h_role header) then Inl GrantRole
      else if fa_relay_allocation_id grant \<noteq> h_allocation_id header then Inl GrantAllocation
      else if fa_version grant \<noteq> PROTOCOL_VERSION
         \<or> fa_session_uuid grant = []
         \<or> 128 < length (fa_session_uuid grant)
         \<or> \<not> fa_allow_fast_media_v1 grant
         \<or> \<not> fa_allow_fast_compat grant
         \<or> fa_relay_udp_protocol grant \<noteq> PROTOCOL_VERSION
         \<or> \<not> eq_ignore_ascii_case (fa_relay_server grant) relay_server
         \<or> fa_relay_udp_port grant \<noteq> ucast udp_port
         \<or> \<not> (MIN_RELAY_DATAGRAM \<le> fa_relay_max_datagram grant
              \<and> fa_relay_max_datagram grant \<le> MAX_RELAY_DATAGRAM)
         \<or> \<not> (1000 \<le> fa_max_bitrate_kbps grant \<and> fa_max_bitrate_kbps grant \<le> 200000)
         \<or> fa_expires_at grant \<le> unix
         \<or> sat_add unix MAX_GRANT_TTL_SECONDS < fa_expires_at grant
      then Inl GrantOther
      else Inr \<lparr>gi_session_uuid_digest = sha256 cr (ascii_bytes (fa_session_uuid grant)),
                gi_expires_at = fa_expires_at grant,
                gi_max_bitrate_kbps = fa_max_bitrate_kbps grant,
                gi_max_datagram = fa_relay_max_datagram grant\<rparr>)"

text \<open>The bounds every accepted grant satisfies.\<close>

definition grant_invariant_ok :: "grant_invariant \<Rightarrow> bool" where
  "grant_invariant_ok g \<longleftrightarrow> MIN_RELAY_DATAGRAM \<le> gi_max_datagram g
     \<and> gi_max_datagram g \<le> MAX_RELAY_DATAGRAM
     \<and> 1000 \<le> gi_max_bitrate_kbps g \<and> gi_max_bitrate_kbps g \<le> 200000"

lemma grant_validated_ok:
  "grant_validated cr grant h server port unix = Inr g \<Longrightarrow> grant_invariant_ok g \<and> unix < gi_expires_at g"
  by (auto simp: grant_validated_def grant_invariant_ok_def not_le split: if_splits)

section \<open>Cookie\<close>

definition cookie_canonical :: "socket_addr \<Rightarrow> header \<Rightarrow> bytes \<Rightarrow> u64 \<Rightarrow> bytes" where
  "cookie_canonical source header nonce epoch =
     ascii_bytes ''starry-akr1-cookie-v1'' @ [0] @ octets (sock_ip source)
       @ to_le_bytes 2 (sock_port source) @ [h_role header]
       @ to_le_bytes 8 (h_session_id header) @ h_allocation_id header @ nonce
       @ to_le_bytes 8 epoch"

definition cookie :: "fm_crypto \<Rightarrow> bytes \<Rightarrow> socket_addr \<Rightarrow> header \<Rightarrow> bytes \<Rightarrow> u64 \<Rightarrow> bytes" where
  "cookie cr key source header nonce epoch =
     take 8 (authenticate cr (cookie_canonical source header nonce epoch) key)"

lemma length_octets: "length (octets ip) = (case ip of IpV4 _ \<Rightarrow> 4 | IpV6 _ \<Rightarrow> 16)"
  by (cases ip) simp_all

lemma to_le_bytes_inj:
  fixes v w :: "'a::len word"
  assumes "LENGTH('a) \<le> 8 * n" "to_le_bytes n v = to_le_bytes n w"
  shows "v = w"
  using assms from_to_le_bytes by metis

lemma octets_inj: "length (octets a) = length (octets b) \<Longrightarrow> octets a = octets b \<Longrightarrow> a = b"
  by (cases a; cases b) (auto dest: to_le_bytes_inj [rotated])

text \<open>
  The MAC input determines every field the cookie binds: the encoding of addresses, role,
  session, allocation, nonce and epoch is injective.
\<close>

lemma cookie_canonical_inj:
  assumes eq: "cookie_canonical s h n e = cookie_canonical s' h' n' e'"
    and ok: "length (h_allocation_id h) = 16" "length (h_allocation_id h') = 16"
      "length n = 16" "length n' = 16"
  shows "sock_ip s = sock_ip s' \<and> sock_port s = sock_port s' \<and> h_role h = h_role h'
    \<and> h_session_id h = h_session_id h' \<and> h_allocation_id h = h_allocation_id h' \<and> n = n' \<and> e = e'"
proof -
  have "length (cookie_canonical s h n e) = length (cookie_canonical s' h' n' e')"
    using eq by simp
  then have "length (octets (sock_ip s)) = length (octets (sock_ip s'))"
    using ok by (simp add: cookie_canonical_def)
  with eq ok show ?thesis
    by (auto simp: cookie_canonical_def intro: octets_inj to_le_bytes_inj [rotated])
qed

end
