(* ===== verification/Rust_Float.thy ===== *)
theory Rust_Float
  imports Starry_Prelude
begin

text \<open>
  The \<open>f64\<close> arithmetic of the rate limiters.  A finite \<open>f64\<close> is the rational it denotes, and
  every operation is the exact operation followed by \<open>f64_round\<close>, IEEE 754 rounding to nearest,
  ties to even, on a 53-bit significand.  The exponent is left unbounded: the limiters only add,
  multiply and subtract durations of whole nanoseconds and 64-bit counts, which neither
  overflow nor fall into the subnormal range.  The lemmas show what the limiters need: rounding
  is monotone, keeps the sign, is idempotent, and is exact on integers up to \<open>2 ^ 53\<close>.
\<close>

definition round_half_even :: "rat \<Rightarrow> int" where
  "round_half_even x = (let f = \<lfloor>x\<rfloor>; r = x - of_int f in
     if r < 1 / 2 then f else if 1 / 2 < r then f + 1 else if even f then f else f + 1)"

text \<open>The binary exponent of a positive rational, from the bit lengths of its quotient.\<close>

definition f64_exp :: "rat \<Rightarrow> int" where
  "f64_exp x = (let (n, d) = quotient_of x; k = bitlen n - bitlen d in
     if 2 powi k \<le> x then k else k - 1)"

definition f64_round_pos :: "rat \<Rightarrow> rat" where
  "f64_round_pos x = (let u = 2 powi (f64_exp x - 52) in of_int (round_half_even (x / u)) * u)"

definition f64_round :: "rat \<Rightarrow> rat" where
  "f64_round x = (if x = 0 then 0 else if 0 < x then f64_round_pos x else - f64_round_pos (- x))"

definition f64_add :: "rat \<Rightarrow> rat \<Rightarrow> rat" where
  "f64_add a b = f64_round (a + b)"

definition f64_sub :: "rat \<Rightarrow> rat \<Rightarrow> rat" where
  "f64_sub a b = f64_round (a - b)"

definition f64_mul :: "rat \<Rightarrow> rat \<Rightarrow> rat" where
  "f64_mul a b = f64_round (a * b)"

definition f64_div :: "rat \<Rightarrow> rat \<Rightarrow> rat" where
  "f64_div a b = f64_round (a / b)"

definition f64_of_nat :: "nat \<Rightarrow> rat" where
  "f64_of_nat n = f64_round (of_nat n)"

text \<open>\<open>Duration::as_secs_f64\<close>: the whole seconds plus the subsecond nanoseconds over \<open>1e9\<close>.\<close>

definition as_secs_f64 :: "duration \<Rightarrow> rat" where
  "as_secs_f64 t = f64_add (f64_of_nat (t div 1000000000))
     (f64_div (f64_of_nat (t mod 1000000000)) (f64_of_nat 1000000000))"

section \<open>Rounding to an integer\<close>

lemma round_half_even_of_int [simp]: "round_half_even (of_int n) = n"
  by (simp add: round_half_even_def)

lemma round_half_even_mono:
  assumes "x \<le> y"
  shows "round_half_even x \<le> round_half_even y"
proof (cases "\<lfloor>x\<rfloor> = \<lfloor>y\<rfloor>")
  case True
  then show ?thesis using assms by (auto simp: round_half_even_def Let_def)
next
  case False
  then have "\<lfloor>x\<rfloor> + 1 \<le> \<lfloor>y\<rfloor>" using floor_mono [OF assms] by linarith
  moreover have "round_half_even x \<le> \<lfloor>x\<rfloor> + 1" "\<lfloor>y\<rfloor> \<le> round_half_even y"
    by (auto simp: round_half_even_def Let_def)
  ultimately show ?thesis by linarith
qed

section \<open>The exponent\<close>

lemma powi_2_mono: "a \<le> b \<Longrightarrow> (2 :: rat) powi a \<le> 2 powi b"
  by (simp add: power_int_increasing)

lemma powi_2_less_cancel: "(2 :: rat) powi a < 2 powi b \<Longrightarrow> a < b"
  using powi_2_mono [of b a] by linarith

lemma powi_2_le_cancel: "(2 :: rat) powi a \<le> 2 powi b \<Longrightarrow> a \<le> b"
  using power_int_strict_increasing [of b a "2 :: rat"] by linarith

lemma powi_2_nat: "0 \<le> k \<Longrightarrow> (2 :: rat) powi k = of_int (2 ^ nat k)"
  by (simp add: power_int_def)

lemma powi_2_split: "(2 :: rat) powi (a + b) = 2 powi a * 2 powi b"
  by (simp add: power_int_add)

lemma bitlen_rat_bounds:
  assumes "0 < n"
  shows "2 powi (bitlen n - 1) \<le> (of_int n :: rat)" "(of_int n :: rat) < 2 powi bitlen n"
proof -
  from bitlen_bounds [OF assms]
  have 1: "2 ^ nat (bitlen n - 1) \<le> n" and 2: "n < 2 ^ nat (bitlen n)" by auto
  have pos: "0 \<le> bitlen n - 1" using assms bitlen_eq_zero_iff [of n] bitlen_nonneg [of n] by linarith
  from 1 pos show "2 powi (bitlen n - 1) \<le> (of_int n :: rat)"
    by (simp add: powi_2_nat del: of_int_power)
  from 2 pos show "(of_int n :: rat) < 2 powi bitlen n"
    by (simp add: powi_2_nat del: of_int_power)
qed

lemma f64_exp_bounds:
  assumes "0 < x"
  shows "2 powi f64_exp x \<le> x" "x < 2 powi (f64_exp x + 1)"
proof -
  obtain n d where q: "quotient_of x = (n, d)" by (cases "quotient_of x")
  then have x: "x = of_int n / of_int d" and d: "0 < d"
    by (auto dest: quotient_of_div quotient_of_denom_pos)
  with assms have n: "0 < n" by (simp add: zero_less_divide_iff)
  let ?k = "bitlen n - bitlen d"
  note bn = bitlen_rat_bounds [OF n] and bd = bitlen_rat_bounds [OF d]
  have "x < 2 powi bitlen n / 2 powi (bitlen d - 1)"
    unfolding x using bn bd n d by (intro frac_less) auto
  then have hi: "x < 2 powi (?k + 1)"
    by (simp add: power_int_diff power_int_add)
  have "2 powi (bitlen n - 1) / 2 powi bitlen d \<le> x"
    unfolding x using bn bd n d by (intro frac_le) auto
  then have lo: "2 powi (?k - 1) \<le> x"
    by (simp add: power_int_diff)
  from hi lo show "2 powi f64_exp x \<le> x" "x < 2 powi (f64_exp x + 1)"
    by (auto simp: f64_exp_def q Let_def)
qed

section \<open>Rounding on the significand\<close>

lemma f64_round_pos_exact:
  assumes m: "0 < m" "m \<le> 2 ^ 53" and x: "x = of_int m * 2 powi k"
  shows "f64_round_pos x = x"
proof -
  let ?e = "f64_exp x"
  have pos: "0 < x" using m(1) by (simp add: x)
  have "2 powi ?e \<le> x" by (rule f64_exp_bounds [OF pos])
  obtain j :: int where j: "x / 2 powi (?e - 52) = of_int j"
  proof (cases "m = 2 ^ 53")
    case True
    then have xp: "x = 2 powi (53 + k)" by (simp add: x powi_2_split)
    with \<open>2 powi ?e \<le> x\<close> have "?e \<le> 53 + k"
      by (simp only: powi_2_le_cancel)
    have "x / 2 powi (?e - 52) = 2 powi (105 + k - ?e)"
      by (simp add: xp flip: power_int_diff) (simp add: algebra_simps)
    also have "\<dots> = of_int (2 ^ nat (105 + k - ?e))"
      using \<open>?e \<le> 53 + k\<close> by (intro powi_2_nat) simp
    finally show ?thesis by (rule that)
  next
    case False
    with m have "m < 2 ^ 53" by simp
    then have "(of_int m :: rat) < of_int (2 ^ 53)" unfolding of_int_less_iff .
    then have "x < 2 ^ 53 * 2 powi k" by (simp add: x)
    also have "\<dots> = 2 powi (53 + k)" by (simp add: powi_2_split)
    finally have "2 powi ?e < (2 :: rat) powi (53 + k)" using \<open>2 powi ?e \<le> x\<close> by simp
    then have "?e < 53 + k" by (rule powi_2_less_cancel)
    then have "x / 2 powi (?e - 52) = of_int (m * 2 ^ nat (k - ?e + 52))"
      by (simp add: x powi_2_nat [symmetric] flip: power_int_diff times_divide_eq_right)
        (simp add: algebra_simps power_int_def)
    then show ?thesis by (rule that)
  qed
  show ?thesis
    by (simp add: f64_round_pos_def j) (simp add: j [symmetric])
qed

lemma f64_round_pos_range:
  assumes "0 < x"
  shows "2 powi f64_exp x \<le> f64_round_pos x" "f64_round_pos x \<le> 2 powi (f64_exp x + 1)"
proof -
  let ?u = "(2 :: rat) powi (f64_exp x - 52)"
  have u: "0 < ?u" by simp
  have e: "2 powi f64_exp x = of_int (2 ^ 52) * ?u" "2 powi (f64_exp x + 1) = of_int (2 ^ 53) * ?u"
    using powi_2_split [of 52 "f64_exp x - 52"] powi_2_split [of 53 "f64_exp x - 52"]
    by (simp_all add: algebra_simps)
  have "of_int (2 ^ 52) \<le> x / ?u"
    using f64_exp_bounds(1) [OF assms] u by (simp only: e pos_le_divide_eq)
  from round_half_even_mono [OF this] have lo: "2 ^ 52 \<le> round_half_even (x / ?u)"
    by (simp only: round_half_even_of_int)
  have "x / ?u \<le> of_int (2 ^ 53)"
    using f64_exp_bounds(2) [OF assms] u by (simp only: e pos_divide_le_eq less_imp_le)
  from round_half_even_mono [OF this] have hi: "round_half_even (x / ?u) \<le> 2 ^ 53"
    by (simp only: round_half_even_of_int)
  from lo u show "2 powi f64_exp x \<le> f64_round_pos x"
    unfolding e f64_round_pos_def Let_def by (simp del: of_int_power add: mult_right_mono)
  from hi u show "f64_round_pos x \<le> 2 powi (f64_exp x + 1)"
    unfolding e f64_round_pos_def Let_def by (simp del: of_int_power add: mult_right_mono)
qed

lemma f64_round_pos_mono:
  assumes "0 < x" "x \<le> y"
  shows "f64_round_pos x \<le> f64_round_pos y"
proof (cases "f64_exp x = f64_exp y")
  case True
  let ?u = "(2 :: rat) powi (f64_exp y - 52)"
  have "x / ?u \<le> y / ?u" using assms(2) by (simp add: divide_right_mono)
  from round_half_even_mono [OF this] show ?thesis
    by (simp add: f64_round_pos_def True Let_def mult_right_mono)
next
  case False
  from assms have y: "0 < y" by simp
  have "2 powi f64_exp x \<le> x" "x \<le> y" "y < 2 powi (f64_exp y + 1)"
    using f64_exp_bounds [OF assms(1)] f64_exp_bounds [OF y] assms by auto
  then have "f64_exp x < f64_exp y + 1"
    by (intro powi_2_less_cancel) linarith
  with False have "f64_exp x + 1 \<le> f64_exp y" by linarith
  then have "(2 :: rat) powi (f64_exp x + 1) \<le> 2 powi f64_exp y" by (rule powi_2_mono)
  with f64_round_pos_range(2) [OF assms(1)] f64_round_pos_range(1) [OF y] show ?thesis by linarith
qed

lemma f64_round_pos_pos: "0 < x \<Longrightarrow> 0 < f64_round_pos x"
  using f64_round_pos_range(1) [of x] zero_less_power_int [of "2 :: rat" "f64_exp x"] by linarith

section \<open>The laws the limiters use\<close>

lemma f64_round_0 [simp]: "f64_round 0 = 0"
  by (simp add: f64_round_def)

lemma f64_round_minus: "f64_round (- x) = - f64_round x"
  by (simp add: f64_round_def)

lemma f64_round_mono:
  assumes "x \<le> y"
  shows "f64_round x \<le> f64_round y"
proof -
  consider "0 < x" | "x \<le> 0" "0 \<le> y" | "y < 0" by linarith
  then show ?thesis
  proof cases
    case 1
    then show ?thesis using assms by (simp add: f64_round_def f64_round_pos_mono)
  next
    case 2
    then show ?thesis
      using f64_round_pos_pos [of y] f64_round_pos_pos [of "- x"] by (auto simp: f64_round_def)
  next
    case 3
    then show ?thesis using assms f64_round_pos_mono [of "- y" "- x"] by (simp add: f64_round_def)
  qed
qed

lemma f64_round_nonneg [simp]: "0 \<le> x \<Longrightarrow> 0 \<le> f64_round x"
  using f64_round_mono [of 0 x] by simp

lemma f64_round_idem [simp]: "f64_round (f64_round x) = f64_round x"
proof -
  have pos: "f64_round (f64_round_pos y) = f64_round_pos y" if "0 < y" for y
  proof -
    let ?u = "(2 :: rat) powi (f64_exp y - 52)" and ?m = "round_half_even (y / 2 powi (f64_exp y - 52))"
    have eq: "f64_round_pos y = of_int ?m * ?u" by (simp add: f64_round_pos_def Let_def)
    have "0 < of_int ?m * ?u"
      using f64_round_pos_pos [OF that] by (simp add: eq)
    moreover have "0 < ?u" by simp
    ultimately have "0 < ?m" by (simp only: zero_less_mult_iff of_int_0_less_iff) linarith
    have "of_int ?m * ?u \<le> 2 ^ 53 * ?u"
      using f64_round_pos_range(2) [OF that] powi_2_split [of 53 "f64_exp y - 52"]
      by (simp add: eq algebra_simps)
    then have "(of_int ?m :: rat) \<le> of_int (2 ^ 53)" by simp
    then have "?m \<le> 2 ^ 53" by (simp only: of_int_le_iff)
    with \<open>0 < ?m\<close> have "f64_round_pos (f64_round_pos y) = f64_round_pos y"
      by (rule f64_round_pos_exact [OF _ _ eq])
    then show ?thesis using f64_round_pos_pos [OF that] by (simp add: f64_round_def)
  qed
  show ?thesis
    using pos [of x] pos [of "- x"] by (auto simp: f64_round_def [of x] f64_round_minus)
qed

text \<open>Integers of at most 53 bits are represented exactly.\<close>

lemma f64_of_nat_exact: "n \<le> 2 ^ 53 \<Longrightarrow> f64_of_nat n = of_nat n"
  using f64_round_pos_exact [of "int n" "of_nat n" 0]
  by (cases "n = 0") (auto simp: f64_of_nat_def f64_round_def)

lemma f64_of_nat_nonneg [simp]: "0 \<le> f64_of_nat n"
  by (simp add: f64_of_nat_def)

lemma f64_of_nat_mono: "m \<le> n \<Longrightarrow> f64_of_nat m \<le> f64_of_nat n"
  by (simp add: f64_of_nat_def f64_round_mono)

lemma as_secs_f64_nonneg [simp]: "0 \<le> as_secs_f64 t"
  by (simp add: as_secs_f64_def f64_add_def f64_div_def)

end
