(* ===== verification/Hash_Map.thy ===== *)
theory Hash_Map
  imports Starry_Prelude
begin

text \<open>
  \<open>HashMap\<close> and the interface the components use of it.  The locale \<open>kv_store\<close> states what a
  lookup returns after an insertion, a removal and a \<open>retain\<close>, and how the number of entries
  changes; the capacity lemmas the components share are proved once inside it.  The model of
  \<open>std::collections::HashMap\<close> is an association list with distinct keys, which interprets the
  locale as \<open>hm\<close>; its list order stands for the unspecified iteration order.
\<close>

type_synonym ('k, 'v) hmap = "('k \<times> 'v) list"

definition hm_ok :: "('k, 'v) hmap \<Rightarrow> bool" where
  "hm_ok m \<longleftrightarrow> distinct (map fst m)"

definition hm_get :: "('k, 'v) hmap \<Rightarrow> 'k \<Rightarrow> 'v option" where
  "hm_get m k = map_of m k"

definition hm_contains :: "('k, 'v) hmap \<Rightarrow> 'k \<Rightarrow> bool" where
  "hm_contains m k \<longleftrightarrow> hm_get m k \<noteq> None"

definition hm_insert :: "'k \<Rightarrow> 'v \<Rightarrow> ('k, 'v) hmap \<Rightarrow> ('k, 'v) hmap" where
  "hm_insert k v m = AList.update k v m"

definition hm_remove :: "'k \<Rightarrow> ('k, 'v) hmap \<Rightarrow> ('k, 'v) hmap" where
  "hm_remove k m = AList.delete k m"

definition hm_retain :: "('k \<Rightarrow> 'v \<Rightarrow> bool) \<Rightarrow> ('k, 'v) hmap \<Rightarrow> ('k, 'v) hmap" where
  "hm_retain P m = filter (\<lambda>(k, v). P k v) m"

definition hm_len :: "('k, 'v) hmap \<Rightarrow> nat" where
  "hm_len m = length m"

locale kv_store =
  fixes ok :: "'m \<Rightarrow> bool"
    and get :: "'m \<Rightarrow> 'k \<Rightarrow> 'v option"
    and put :: "'k \<Rightarrow> 'v \<Rightarrow> 'm \<Rightarrow> 'm"
    and del :: "'k \<Rightarrow> 'm \<Rightarrow> 'm"
    and retain :: "('k \<Rightarrow> 'v \<Rightarrow> bool) \<Rightarrow> 'm \<Rightarrow> 'm"
    and len :: "'m \<Rightarrow> nat"
    and none :: 'm
  assumes get_none [simp]: "get none k = None"
    and get_put [simp]: "get (put k v m) k' = (if k' = k then Some v else get m k')"
    and get_del [simp]: "get (del k m) k' = (if k' = k then None else get m k')"
    and get_retain: "ok m \<Longrightarrow> get (retain P m) k =
      (case get m k of None \<Rightarrow> None | Some v \<Rightarrow> if P k v then Some v else None)"
    and ok_none [simp]: "ok none"
    and ok_put [simp]: "ok m \<Longrightarrow> ok (put k v m)"
    and ok_del [simp]: "ok m \<Longrightarrow> ok (del k m)"
    and ok_retain [simp]: "ok m \<Longrightarrow> ok (retain P m)"
    and len_none [simp]: "len none = 0"
    and len_put: "len (put k v m) = (if get m k = None then Suc (len m) else len m)"
    and len_del: "ok m \<Longrightarrow> len (del k m) = (if get m k = None then len m else len m - 1)"
    and len_retain: "len (retain P m) \<le> len m"
    and len_pos: "get m k \<noteq> None \<Longrightarrow> 0 < len m"
begin

text \<open>The guard \<open>!contains_key(k) && len() >= cap\<close> before an insertion keeps the capacity.\<close>

lemma put_within_capacity:
  "len m \<le> cap \<Longrightarrow> get m k \<noteq> None \<or> len m < cap \<Longrightarrow> len (put k v m) \<le> cap"
  by (auto simp: len_put)

lemma del_within_capacity: "ok m \<Longrightarrow> len m \<le> cap \<Longrightarrow> len (del k m) \<le> cap"
  by (auto simp: len_del)

lemma retain_within_capacity: "len m \<le> cap \<Longrightarrow> len (retain P m) \<le> cap"
  using len_retain by (rule order_trans)

text \<open>Removing a present entry makes room for one more: the eviction step of the caches.\<close>

lemma evict_then_put:
  "ok m \<Longrightarrow> get m k \<noteq> None \<Longrightarrow> len m \<le> cap \<Longrightarrow> len (put k' v (del k m)) \<le> cap"
  using len_pos [of m k] by (auto simp: len_put len_del)

lemma retain_subset: "ok m \<Longrightarrow> get (retain P m) k = Some v \<longleftrightarrow> get m k = Some v \<and> P k v"
  by (auto simp: get_retain split: option.splits)

text \<open>An invariant on every entry survives insertions that establish it, removals and retains.\<close>

definition all_entries :: "('k \<Rightarrow> 'v \<Rightarrow> bool) \<Rightarrow> 'm \<Rightarrow> bool" where
  "all_entries I m \<longleftrightarrow> (\<forall>k v. get m k = Some v \<longrightarrow> I k v)"

lemma all_entries_none: "all_entries I none"
  by (simp add: all_entries_def)

lemma all_entries_put: "all_entries I m \<Longrightarrow> I k v \<Longrightarrow> all_entries I (put k v m)"
  by (simp add: all_entries_def)

lemma all_entries_del: "all_entries I m \<Longrightarrow> all_entries I (del k m)"
  by (simp add: all_entries_def)

lemma all_entries_retain: "ok m \<Longrightarrow> all_entries I m \<Longrightarrow> all_entries I (retain P m)"
  by (simp add: all_entries_def retain_subset)

lemma all_entriesD: "all_entries I m \<Longrightarrow> get m k = Some v \<Longrightarrow> I k v"
  by (simp add: all_entries_def)

end

interpretation hm: kv_store hm_ok hm_get hm_insert hm_remove hm_retain hm_len "[]"
proof
  show "hm_get (hm_retain P m) k = (case hm_get m k of None \<Rightarrow> None
      | Some v \<Rightarrow> if P k v then Some v else None)"
    if "hm_ok m" for P and m :: "('k, 'v) hmap" and k
    using that
    by (induction m) (auto simp: hm_ok_def hm_get_def hm_retain_def map_of_eq_None_iff
        rev_image_eqI split: option.splits)
  show "hm_ok (hm_retain P m)" if "hm_ok m" for P and m :: "('k, 'v) hmap"
    using that by (simp add: hm_ok_def hm_retain_def distinct_map_filter)
  show "hm_len (hm_insert k v m) = (if hm_get m k = None then Suc (hm_len m) else hm_len m)"
    for k v and m :: "('k, 'v) hmap"
    by (induction m) (auto simp: hm_len_def hm_insert_def hm_get_def)
  show "hm_len (hm_remove k m) = (if hm_get m k = None then hm_len m else hm_len m - 1)"
    if "hm_ok m" for k and m :: "('k, 'v) hmap"
    using that
  proof (induction m)
    case (Cons kv m)
    then have tail: "hm_len (hm_remove k m) = (if hm_get m k = None then hm_len m else hm_len m - 1)"
      by (simp add: hm_ok_def)
    show ?case
      using Cons.prems tail
      by (cases m) (auto simp: hm_len_def hm_remove_def hm_get_def hm_ok_def AList.delete_eq
          map_of_eq_None_iff image_iff)
  qed (simp add: hm_len_def hm_remove_def)
qed (auto simp: hm_get_def hm_insert_def hm_remove_def hm_ok_def hm_retain_def hm_len_def
    update_conv' AList.delete_conv' distinct_update distinct_delete)

declare hm_contains_def [rust_simps]

lemma hm_insert_insert [simp]: "hm_insert k v (hm_insert k v' m) = hm_insert k v m"
  by (simp add: hm_insert_def)

lemma hm_insert_same [simp]: "hm_get m k = Some v \<Longrightarrow> hm_insert k v m = m"
  by (simp add: hm_insert_def hm_get_def update_triv)

text \<open>Evaluation rules, for closed instances.\<close>

lemmas hm_eval = hm_get_def hm_insert_def hm_remove_def hm_retain_def hm_len_def hm_contains_def

text \<open>\<open>retain\<close> with a closure that also changes the value it keeps.\<close>

definition hm_retain_mut :: "('k \<Rightarrow> 'v \<Rightarrow> 'v option) \<Rightarrow> ('k, 'v) hmap \<Rightarrow> ('k, 'v) hmap" where
  "hm_retain_mut f m = List.map_filter (\<lambda>(k, v). map_option (Pair k) (f k v)) m"

lemma hm_retain_mut_simps [simp]:
  "hm_retain_mut f [] = []"
  "hm_retain_mut f ((k, v) # m) = (case f k v of None \<Rightarrow> hm_retain_mut f m
     | Some v' \<Rightarrow> (k, v') # hm_retain_mut f m)"
  by (simp_all add: hm_retain_mut_def List.map_filter_simps split: option.split)

lemma hm_retain_mut_keys: "set (map fst (hm_retain_mut f m)) \<subseteq> set (map fst m)"
proof (induction m)
  case (Cons kv m)
  then show ?case by (cases kv) (simp split: option.split, blast)
qed simp

lemma hm_ok_retain_mut [simp]: "hm_ok m \<Longrightarrow> hm_ok (hm_retain_mut f m)"
proof (induction m)
  case (Cons kv m)
  then show ?case using hm_retain_mut_keys [of f m]
    by (cases kv) (auto simp: hm_ok_def split: option.splits)
qed simp

lemma hm_get_retain_mut: "hm_ok m \<Longrightarrow> hm_get (hm_retain_mut f m) k = Option.bind (hm_get m k) (f k)"
proof (induction m)
  case (Cons kv m)
  obtain k0 v0 where kv: "kv = (k0, v0)" by (cases kv)
  have n: "k0 \<notin> set (map fst (hm_retain_mut f m))"
    using Cons.prems hm_retain_mut_keys [of f m] by (auto simp: hm_ok_def kv)
  then have "hm_get (hm_retain_mut f m) k0 = None" by (auto simp: hm_get_def map_of_eq_None_iff)
  with Cons show ?case by (auto simp: hm_ok_def hm_get_def kv split: option.splits)
qed (simp add: hm_get_def)

lemma hm_len_retain_mut: "hm_len (hm_retain_mut f m) \<le> hm_len m"
  by (induction m) (auto simp: hm_len_def le_SucI split: option.splits)

lemma hm_len_keys: "hm_ok m \<Longrightarrow> hm_len m = card {k. hm_get m k \<noteq> None}"
proof -
  assume "hm_ok m"
  then have "hm_len m = card (fst ` set m)"
    by (metis distinct_card hm_len_def hm_ok_def length_map set_map)
  moreover have "fst ` set m = {k. hm_get m k \<noteq> None}"
    by (force simp: hm_get_def map_of_eq_None_iff)
  ultimately show ?thesis by simp
qed

text \<open>A map collected from a list: the last element with a key gives its value.\<close>

lemma hm_get_collect:
  "hm_get (foldl (\<lambda>m c. hm_insert (f c) (g c) m) m0 cs) k =
     (case find (\<lambda>c. f c = k) (rev cs) of None \<Rightarrow> hm_get m0 k | Some c \<Rightarrow> Some (g c))"
  by (induction cs rule: rev_induct) auto

lemma hm_collect_keys:
  "hm_get (foldl (\<lambda>m c. hm_insert (f c) (g c) m) m0 cs) k \<noteq> None \<longleftrightarrow> hm_get m0 k \<noteq> None \<or> k \<in> f ` set cs"
  by (induction cs rule: rev_induct) auto

end
