(* ===== verification/Fast_Media_Limits.thy ===== *)
theory Fast_Media_Limits
  imports Rust_Float Hash_Map
begin

text \<open>
  The admission state of the FastMedia relay (\<open>fast_media_relay.rs\<close>): the token bucket and the
  limiters built from it, the rebind window, and the 128-packet replay window.  All of them are
  gates, which take a request, answer yes or no and change their own state; the locale \<open>gate\<close>
  proves once that an invariant kept by one request is kept by any sequence of them.  The replay
  window refines the set of accepted sequence numbers (\<open>replay_spec_accept\<close>).
\<close>

section \<open>Gates\<close>

text \<open>The state after a sequence of requests, with the requests that were let through.\<close>

fun gate_run :: "('s \<Rightarrow> 'i \<Rightarrow> 's \<times> bool) \<Rightarrow> 's \<Rightarrow> 'i list \<Rightarrow> 's \<times> 'i list" where
  "gate_run allow s [] = (s, [])"
| "gate_run allow s (i # is) = (let (s', ok) = allow s i; (s'', acc) = gate_run allow s' is
     in (s'', if ok then i # acc else acc))"

text \<open>
  \<open>inv\<close> is kept by every request that \<open>fits\<close> (some gates promise something only while the
  clock stays inside a window).
\<close>

locale gate =
  fixes inv :: "'s \<Rightarrow> bool"
    and fits :: "'i \<Rightarrow> bool"
    and allow :: "'s \<Rightarrow> 'i \<Rightarrow> 's \<times> bool"
  assumes inv_allow: "inv s \<Longrightarrow> fits i \<Longrightarrow> inv (fst (allow s i))"
begin

lemma run_inv: "inv s \<Longrightarrow> list_all fits is \<Longrightarrow> inv (fst (gate_run allow s is))"
proof (induction "is" arbitrary: s)
  case (Cons i "is")
  then show ?case
    using inv_allow [of s i] by (simp add: split_beta Let_def)
qed simp

end

text \<open>A gate with a budget: each accepted request uses up its cost.\<close>

locale budget_gate = gate inv fits allow
  for inv :: "'s \<Rightarrow> bool" and fits :: "'i \<Rightarrow> bool" and allow :: "'s \<Rightarrow> 'i \<Rightarrow> 's \<times> bool" +
  fixes cost :: "'i \<Rightarrow> nat"
    and budget :: "'s \<Rightarrow> nat"
  assumes pays: "inv s \<Longrightarrow> fits i \<Longrightarrow> snd (allow s i) \<Longrightarrow>
      cost i + budget (fst (allow s i)) \<le> budget s"
    and keeps: "inv s \<Longrightarrow> fits i \<Longrightarrow> \<not> snd (allow s i) \<Longrightarrow> budget (fst (allow s i)) \<le> budget s"
begin

lemma run_within_budget:
  "inv s \<Longrightarrow> list_all fits is \<Longrightarrow> sum_list (map cost (snd (gate_run allow s is))) \<le> budget s"
proof (induction "is" arbitrary: s)
  case (Cons i "is")
  then have i: "inv s" "fits i" and "list_all fits is" by auto
  with Cons.IH inv_allow have
    "sum_list (map cost (snd (gate_run allow (fst (allow s i)) is))) \<le> budget (fst (allow s i))"
    by blast
  then show ?case
    using pays [OF i] keeps [OF i] by (auto simp: split_beta Let_def)
qed simp

end

section \<open>Token bucket\<close>

record token_bucket =
  tb_rate :: u64
  tb_capacity :: u64
  tb_available :: rat
  tb_updated :: instant

definition token_bucket_new :: "u64 \<Rightarrow> u64 \<Rightarrow> instant \<Rightarrow> token_bucket" where
  "token_bucket_new rate capacity now =
     \<lparr>tb_rate = max rate 1, tb_capacity = max capacity 1,
      tb_available = f64_of_nat (unat (max capacity 1)), tb_updated = now\<rparr>"

definition token_bucket_allow :: "token_bucket \<Rightarrow> u64 \<Rightarrow> instant \<Rightarrow> token_bucket \<times> bool" where
  "token_bucket_allow b amount now =
     (let elapsed = as_secs_f64 (since now (tb_updated b));
          available = min (f64_add (tb_available b) (f64_mul elapsed (f64_of_nat (unat (tb_rate b)))))
                          (f64_of_nat (unat (tb_capacity b)));
          b' = b\<lparr>tb_available := available, tb_updated := now\<rparr>
      in if available < f64_of_nat (unat amount) then (b', False)
         else (b'\<lparr>tb_available := f64_sub available (f64_of_nat (unat amount))\<rparr>, True))"

definition token_bucket_inv :: "token_bucket \<Rightarrow> bool" where
  "token_bucket_inv b \<longleftrightarrow> 1 \<le> tb_rate b \<and> 1 \<le> tb_capacity b \<and> 0 \<le> tb_available b
     \<and> tb_available b \<le> f64_of_nat (unat (tb_capacity b))
     \<and> f64_round (tb_available b) = tb_available b"

lemma f64_of_nat_round [simp]: "f64_round (f64_of_nat n) = f64_of_nat n"
  by (simp add: f64_of_nat_def)

lemma f64_sub_le:
  "f64_round a = a \<Longrightarrow> 0 \<le> c \<Longrightarrow> f64_sub a c \<le> a"
  using f64_round_mono [of "a - c" a] by (simp add: f64_sub_def)

lemma f64_round_min: "f64_round (min a b) = min (f64_round a) (f64_round b)"
  by (metis f64_round_mono min.absorb1 min.absorb2 linear)

lemma token_bucket_new_inv [inv_intros]: "token_bucket_inv (token_bucket_new r c now)"
  by (simp add: token_bucket_inv_def token_bucket_new_def)

lemma token_bucket_allow_inv [inv_intros]:
  assumes "token_bucket_inv b"
  shows "token_bucket_inv (fst (token_bucket_allow b n now))"
proof -
  define e where "e = f64_mul (as_secs_f64 (since now (tb_updated b))) (f64_of_nat (unat (tb_rate b)))"
  define a where "a = min (f64_add (tb_available b) e) (f64_of_nat (unat (tb_capacity b)))"
  have "0 \<le> e" by (simp add: e_def f64_mul_def)
  with assms have a0: "0 \<le> a" by (simp add: a_def token_bucket_inv_def f64_add_def)
  have ar: "f64_round a = a" by (simp add: a_def f64_round_min f64_add_def)
  have ac: "a \<le> f64_of_nat (unat (tb_capacity b))" by (simp add: a_def)
  let ?n = "f64_of_nat (unat n)"
  have "f64_sub a ?n \<le> f64_of_nat (unat (tb_capacity b))"
    using f64_sub_le [OF ar, of ?n] ac by simp
  moreover have "\<not> a < ?n \<Longrightarrow> 0 \<le> f64_sub a ?n" by (simp add: f64_sub_def)
  moreover have "f64_round (f64_sub a ?n) = f64_sub a ?n" by (simp add: f64_sub_def)
  ultimately show ?thesis
    using assms a0 ar ac
    by (simp add: token_bucket_inv_def token_bucket_allow_def Let_def flip: e_def a_def)
qed

lemma token_bucket_allow_frame [simp]:
  "tb_rate (fst (token_bucket_allow b n now)) = tb_rate b"
  "tb_capacity (fst (token_bucket_allow b n now)) = tb_capacity b"
  "tb_updated (fst (token_bucket_allow b n now)) = now"
  by (simp_all add: token_bucket_allow_def Let_def)

lemma token_bucket_allow_burst:
  "token_bucket_inv b \<Longrightarrow> snd (token_bucket_allow b n now) \<Longrightarrow>
     f64_of_nat (unat n) \<le> f64_of_nat (unat (tb_capacity b))"
  by (simp add: token_bucket_allow_def Let_def split: if_splits)

interpretation bucket_gate: gate token_bucket_inv "\<lambda>_. True" "\<lambda>b (n, now). token_bucket_allow b n now"
  by unfold_locales (auto intro: inv_intros)

text \<open>
  At one instant a bucket whose level is a whole number of tokens lets through at most that
  many: the differences are exact on integers below \<open>2 ^ 53\<close>.
\<close>

lemma token_bucket_allow_whole:
  assumes "tb_updated b = now" "unat (tb_capacity b) < 2 ^ 53"
    "tb_available b = of_nat k" "k \<le> unat (tb_capacity b)"
  shows "token_bucket_allow b n now =
    (if k < unat n then (b, False) else (b\<lparr>tb_available := of_nat (k - unat n)\<rparr>, True))"
proof -
  have k: "k < 2 ^ 53" using assms by linarith
  have z: "as_secs_f64 0 = 0"
    by (simp add: as_secs_f64_def f64_of_nat_exact f64_add_def f64_div_def)
  have exact: "f64_round (of_nat j) = of_nat j" if "j \<le> 2 ^ 53" for j
    using f64_of_nat_exact [OF that] by (simp add: f64_of_nat_def)
  have refill: "min (f64_add (tb_available b) (f64_mul (as_secs_f64 (since now (tb_updated b)))
      (f64_of_nat (unat (tb_rate b))))) (f64_of_nat (unat (tb_capacity b))) = of_nat k"
    using assms k exact [of k] by (simp add: since_def z f64_mul_def f64_add_def f64_of_nat_exact del: of_nat_unat)
  have lt: "of_nat k < f64_of_nat (unat n) \<longleftrightarrow> k < unat n"
  proof (cases "unat n \<le> 2 ^ 53")
    case True
    then show ?thesis by (simp add: f64_of_nat_exact del: of_nat_unat)
  next
    case False
    then have "f64_of_nat (2 ^ 53) \<le> f64_of_nat (unat n)" by (intro f64_of_nat_mono) simp
    moreover have "(of_nat k :: rat) < of_nat (2 ^ 53)" using k by (simp only: of_nat_less_iff)
    ultimately show ?thesis using False k by (simp add: f64_of_nat_exact)
  qed
  have sub: "f64_sub (of_nat k) (f64_of_nat (unat n)) = of_nat (k - unat n)" if "unat n \<le> k"
    using that k exact [of "k - unat n"] by (simp add: f64_sub_def f64_of_nat_exact)
  show ?thesis
    unfolding token_bucket_allow_def refill Let_def lt
    using assms sub by (auto simp: not_less)
qed

text \<open>The whole tokens in a bucket.\<close>

definition tb_level :: "token_bucket \<Rightarrow> nat" where
  "tb_level b = nat \<lfloor>tb_available b\<rfloor>"

lemma tb_level_update [simp]: "tb_level (b\<lparr>tb_available := of_nat k\<rparr>) = k"
  by (simp add: tb_level_def)

definition whole_bucket :: "instant \<Rightarrow> token_bucket \<Rightarrow> bool" where
  "whole_bucket now b \<longleftrightarrow> tb_updated b = now \<and> unat (tb_capacity b) < 2 ^ 53
     \<and> tb_available b = of_nat (tb_level b) \<and> tb_level b \<le> unat (tb_capacity b)"

lemma whole_bucket_allow:
  assumes "whole_bucket now b"
  shows "token_bucket_allow b n now =
    (if tb_level b < unat n then (b, False)
     else (b\<lparr>tb_available := of_nat (tb_level b - unat n)\<rparr>, True))"
  using assms unfolding whole_bucket_def by (intro token_bucket_allow_whole) auto

interpretation burst: budget_gate "whole_bucket now" "\<lambda>_. True" "\<lambda>b n. token_bucket_allow b n now"
  unat tb_level for now
  by unfold_locales (auto simp: whole_bucket_allow whole_bucket_def simp del: of_nat_diff of_nat_unat split: if_splits)

lemma whole_bucket_new:
  "unat c < 2 ^ 53 \<Longrightarrow> 1 \<le> c \<Longrightarrow> whole_bucket now (token_bucket_new r c now)"
  by (simp add: whole_bucket_def tb_level_def token_bucket_new_def f64_of_nat_exact max_def del: of_nat_unat)

section \<open>Limiters\<close>

record role_limit =
  rl_bytes :: token_bucket

definition role_limit_new :: "u32 \<Rightarrow> instant \<Rightarrow> role_limit" where
  "role_limit_new source_kbps now =
     (let wire_kbps = sat_add (sat_mul (ucast source_kbps :: u64) 145) 99 div 100;
          bytes_per_second = sat_add (sat_mul wire_kbps 1000) 7 div 8;
          burst = max (256 * 1024) (sat_mul bytes_per_second 50 div 1000)
      in \<lparr>rl_bytes = token_bucket_new bytes_per_second burst now\<rparr>)"

definition role_limit_allow :: "role_limit \<Rightarrow> nat \<Rightarrow> instant \<Rightarrow> role_limit \<times> bool" where
  "role_limit_allow l bytes now =
     (let (b, ok) = token_bucket_allow (rl_bytes l) (of_nat bytes) now in (l\<lparr>rl_bytes := b\<rparr>, ok))"

record traffic_limit =
  tl_packets :: token_bucket
  tl_bytes :: token_bucket
  tl_last_seen :: instant

definition traffic_limit_new :: "u64 \<Rightarrow> u64 \<Rightarrow> instant \<Rightarrow> traffic_limit" where
  "traffic_limit_new packets_per_second bytes_per_second now =
     \<lparr>tl_packets = token_bucket_new packets_per_second (max packets_per_second 1) now,
      tl_bytes = token_bucket_new bytes_per_second (max bytes_per_second 1) now,
      tl_last_seen = now\<rparr>"

text \<open>The byte bucket is charged only when the packet bucket admits the packet (\<open>&&\<close>).\<close>

definition traffic_limit_allow :: "traffic_limit \<Rightarrow> nat \<Rightarrow> instant \<Rightarrow> traffic_limit \<times> bool" where
  "traffic_limit_allow l bytes now =
     (let l = l\<lparr>tl_last_seen := now\<rparr>;
          (p, ok) = token_bucket_allow (tl_packets l) 1 now;
          l = l\<lparr>tl_packets := p\<rparr>
      in if ok then
           (let (b, ok) = token_bucket_allow (tl_bytes l) (of_nat bytes) now
            in (l\<lparr>tl_bytes := b\<rparr>, ok))
         else (l, False))"

definition role_limit_inv :: "role_limit \<Rightarrow> bool" where
  "role_limit_inv l \<longleftrightarrow> token_bucket_inv (rl_bytes l)"

definition traffic_limit_inv :: "traffic_limit \<Rightarrow> bool" where
  "traffic_limit_inv l \<longleftrightarrow> token_bucket_inv (tl_packets l) \<and> token_bucket_inv (tl_bytes l)"

lemma role_limit_new_inv [inv_intros]: "role_limit_inv (role_limit_new k now)"
  by (simp add: role_limit_inv_def role_limit_new_def Let_def token_bucket_new_inv)

lemma role_limit_allow_inv [inv_intros]:
  "role_limit_inv l \<Longrightarrow> role_limit_inv (fst (role_limit_allow l n now))"
  by (simp add: role_limit_inv_def role_limit_allow_def split_beta Let_def token_bucket_allow_inv)

lemma traffic_limit_new_inv [inv_intros]: "traffic_limit_inv (traffic_limit_new p b now)"
  by (simp add: traffic_limit_inv_def traffic_limit_new_def token_bucket_new_inv)

lemma traffic_limit_allow_inv [inv_intros]:
  "traffic_limit_inv l \<Longrightarrow> traffic_limit_inv (fst (traffic_limit_allow l n now))"
  by (simp add: traffic_limit_inv_def traffic_limit_allow_def split_beta Let_def
      token_bucket_allow_inv)

lemma traffic_limit_allow_seen [simp]:
  "tl_last_seen (fst (traffic_limit_allow l n now)) = now"
  by (simp add: traffic_limit_allow_def split_beta Let_def)

interpretation role_gate: gate role_limit_inv "\<lambda>_. True" "\<lambda>l (n, now). role_limit_allow l n now"
  by unfold_locales (auto intro: inv_intros)

interpretation traffic_gate: gate traffic_limit_inv "\<lambda>_. True" "\<lambda>l (n, now). traffic_limit_allow l n now"
  by unfold_locales (auto intro: inv_intros)

section \<open>Rebind window\<close>

abbreviation REBINDS_PER_MINUTE :: u32 where "REBINDS_PER_MINUTE \<equiv> 12"

record rebind_window =
  rw_started :: instant
  rw_count :: u32

definition rebind_window_new :: "instant \<Rightarrow> rebind_window" where
  "rebind_window_new now = \<lparr>rw_started = now, rw_count = 0\<rparr>"

definition rebind_window_allow :: "rebind_window \<Rightarrow> instant \<Rightarrow> rebind_window \<times> bool" where
  "rebind_window_allow w now =
     (let w = (if from_secs 60 \<le> since now (rw_started w)
               then w\<lparr>rw_started := now, rw_count := 0\<rparr> else w)
      in if REBINDS_PER_MINUTE \<le> rw_count w then (w, False)
         else (w\<lparr>rw_count := sat_add (rw_count w) 1\<rparr>, True))"

definition rebind_window_inv :: "rebind_window \<Rightarrow> bool" where
  "rebind_window_inv w \<longleftrightarrow> rw_count w \<le> REBINDS_PER_MINUTE"

lemma rebind_window_new_inv [inv_intros]: "rebind_window_inv (rebind_window_new now)"
  by (simp add: rebind_window_inv_def rebind_window_new_def)

lemma unat_sat_add_1: "unat (c :: u32) < 2 ^ 32 - 1 \<Longrightarrow> unat (sat_add c 1) = Suc (unat c)"
  by (simp add: unat_sat_add)

lemma rebind_window_allow_inv [inv_intros]:
  "rebind_window_inv w \<Longrightarrow> rebind_window_inv (fst (rebind_window_allow w now))"
  by (auto simp: rebind_window_inv_def rebind_window_allow_def Let_def word_le_nat_alt not_le
      unat_sat_add)

text \<open>
  Inside one window (every request less than 60 seconds after its start) the accepted rebinds
  never exceed what is left of the twelve.
\<close>

interpretation rebind_budget: budget_gate
  "\<lambda>w. rebind_window_inv w \<and> rw_started w = t0"
  "\<lambda>now. now < t0 + from_secs 60" rebind_window_allow
  "\<lambda>_. 1" "\<lambda>w. 12 - unat (rw_count w)" for t0
  by unfold_locales
    (auto simp: rebind_window_inv_def rebind_window_allow_def Let_def word_le_nat_alt not_le
      unat_sat_add rust_simps split: if_splits)

section \<open>Replay window\<close>

record replay_window =
  rp_maximum :: u64
  rp_bitmap :: u128

definition replay_window_default :: replay_window where
  "replay_window_default = \<lparr>rp_maximum = 0, rp_bitmap = 0\<rparr>"

definition replay_accept :: "replay_window \<Rightarrow> u64 \<Rightarrow> replay_window \<times> bool" where
  "replay_accept w sequence =
     (if sequence = 0 then (w, False)
      else if rp_maximum w < sequence then
        (let shift = sat_sub sequence (rp_maximum w)
         in (w\<lparr>rp_bitmap := (if 128 \<le> shift then 1
                             else push_bit (unat shift) (rp_bitmap w) OR 1),
              rp_maximum := sequence\<rparr>, True))
      else
        (let distance = rp_maximum w - sequence
         in if 128 \<le> distance then (w, False)
            else (let b = push_bit (unat distance) 1
                  in if rp_bitmap w AND b \<noteq> 0 then (w, False)
                     else (w\<lparr>rp_bitmap := rp_bitmap w OR b\<rparr>, True))))"

text \<open>
  The abstract window is the set of accepted sequence numbers.  A number is new when it is
  positive, not yet accepted and less than 128 behind every accepted one.
\<close>

definition replay_spec_accept :: "nat set \<Rightarrow> nat \<Rightarrow> bool" where
  "replay_spec_accept A s \<longleftrightarrow> 0 < s \<and> s \<notin> A \<and> (\<forall>a \<in> A. a < s + 128)"

definition replay_rel :: "replay_window \<Rightarrow> nat set \<Rightarrow> bool" where
  "replay_rel w A \<longleftrightarrow> 0 \<notin> A \<and> (\<forall>a \<in> A. a \<le> unat (rp_maximum w))
     \<and> (rp_maximum w = 0 \<or> unat (rp_maximum w) \<in> A)
     \<and> (\<forall>d < 128. bit (rp_bitmap w) d \<longleftrightarrow>
          d \<le> unat (rp_maximum w) \<and> unat (rp_maximum w) - d \<in> A)"

lemma and_push_bit_1: "x AND push_bit d 1 \<noteq> 0 \<longleftrightarrow> bit (x :: 'a::len word) d"
  by (simp add: and_exp_eq_0_iff_not_bit)

lemma replay_rel_default: "replay_rel replay_window_default {}"
  by (simp add: replay_rel_def replay_window_default_def)

lemma replay_rel_advance:
  assumes R: "replay_rel w A" and s: "rp_maximum w < s"
  shows "replay_rel (fst (replay_accept w s)) (insert (unat s) A) \<and> snd (replay_accept w s)"
proof -
  let ?m = "unat (rp_maximum w)" and ?s = "unat s"
  have ms: "?m < ?s" using s by (simp add: word_less_nat_alt)
  then have s0: "s \<noteq> 0" by auto
  have sh: "unat (sat_sub s (rp_maximum w)) = ?s - ?m" by (rule unat_sat_sub)
  have big: "128 \<le> sat_sub s (rp_maximum w) \<longleftrightarrow> 128 \<le> ?s - ?m"
    by (simp add: word_le_nat_alt sh)
  have A: "\<forall>a \<in> A. a \<le> ?m" "0 \<notin> A" using R by (auto simp: replay_rel_def)
  have bits: "\<forall>d < 128. bit (rp_bitmap w) d \<longleftrightarrow> d \<le> ?m \<and> ?m - d \<in> A"
    using R by (simp add: replay_rel_def)
  define bm where "bm = (if 128 \<le> ?s - ?m then 1 else push_bit (?s - ?m) (rp_bitmap w) OR 1)"
  have acc: "replay_accept w s = (w\<lparr>rp_bitmap := bm, rp_maximum := s\<rparr>, True)"
    using s s0 by (simp add: replay_accept_def big sh bm_def Let_def)
  have "bit bm d \<longleftrightarrow> d \<le> ?s \<and> ?s - d \<in> insert ?s A" if d: "d < 128" for d
  proof (cases "128 \<le> ?s - ?m")
    case True
    then have "?s - d \<notin> A" using A d ms by fastforce
    then show ?thesis using True d ms by (auto simp: bm_def bit_1_iff)
  next
    case False
    show ?thesis
    proof (cases "?s - ?m \<le> d")
      case True
      then have "?s - d = ?m - (d - (?s - ?m))" "d \<le> ?s \<longleftrightarrow> d - (?s - ?m) \<le> ?m"
        using ms by auto
      then show ?thesis
        using True False d ms bits
        by (auto simp: bm_def bit_or_iff bit_push_bit_iff bit_1_iff)
    next
      case f: False
      then have "?s - d \<notin> A" using A ms by fastforce
      then show ?thesis
        using f False d ms by (auto simp: bm_def bit_or_iff bit_push_bit_iff bit_1_iff)
    qed
  qed
  then show ?thesis using A ms by (auto simp: acc replay_rel_def)
qed

lemma replay_rel_within:
  assumes R: "replay_rel w A" and s: "s \<noteq> 0" "s \<le> rp_maximum w"
  shows "snd (replay_accept w s) \<longleftrightarrow> replay_spec_accept A (unat s)"
    and "replay_rel (fst (replay_accept w s))
      (if replay_spec_accept A (unat s) then insert (unat s) A else A)"
proof -
  let ?m = "unat (rp_maximum w)" and ?s = "unat s"
  define d where "d = ?m - ?s"
  have sm: "?s \<le> ?m" "0 < ?s" using s by (auto simp: word_le_nat_alt unat_eq_0 intro: gr0I)
  have mA: "?m \<in> A" "\<forall>a \<in> A. a \<le> ?m" "0 \<notin> A"
    using R sm s by (auto simp: replay_rel_def)
  have dist: "unat (rp_maximum w - s) = d" using s by (simp add: unat_sub d_def)
  have big: "128 \<le> rp_maximum w - s \<longleftrightarrow> 128 \<le> d" by (simp add: word_le_nat_alt dist)
  have bits: "\<forall>e < 128. bit (rp_bitmap w) e \<longleftrightarrow> e \<le> ?m \<and> ?m - e \<in> A"
    using R by (simp add: replay_rel_def)
  have spec: "replay_spec_accept A ?s \<longleftrightarrow> d < 128 \<and> ?s \<notin> A"
    using mA sm by (fastforce simp: replay_spec_accept_def d_def)
  have seen: "rp_bitmap w AND push_bit d 1 \<noteq> 0 \<longleftrightarrow> ?s \<in> A" if "d < 128"
    using that bits sm by (subst and_push_bit_1) (auto simp: d_def)
  have acc: "replay_accept w s = (if replay_spec_accept A ?s
      then (w\<lparr>rp_bitmap := rp_bitmap w OR push_bit d 1\<rparr>, True) else (w, False))"
    using s seen by (auto simp: replay_accept_def Let_def big dist spec not_less not_le)
  show "snd (replay_accept w s) \<longleftrightarrow> replay_spec_accept A ?s" by (simp add: acc)
  have "replay_rel (w\<lparr>rp_bitmap := rp_bitmap w OR push_bit d 1\<rparr>) (insert ?s A)" if "d < 128"
  proof -
    have "bit (rp_bitmap w OR push_bit d 1) e \<longleftrightarrow> e \<le> ?m \<and> ?m - e \<in> insert ?s A"
      if e: "e < 128" for e
    proof -
      have "e \<le> ?m \<and> ?m - e = ?s \<longleftrightarrow> e = d" using sm by (auto simp: d_def)
      then show ?thesis
        using bits e \<open>d < 128\<close> by (auto simp: bit_or_iff bit_exp_iff)
    qed
    then show ?thesis using mA sm by (auto simp: replay_rel_def)
  qed
  then show "replay_rel (fst (replay_accept w s)) (if replay_spec_accept A ?s then insert ?s A else A)"
    using R by (simp add: acc spec)
qed

text \<open>One step of the window simulates one step of the abstract set.\<close>

lemma replay_accept_refines:
  assumes "replay_rel w A"
  shows "snd (replay_accept w s) \<longleftrightarrow> replay_spec_accept A (unat s)"
    and "replay_rel (fst (replay_accept w s))
      (if replay_spec_accept A (unat s) then insert (unat s) A else A)"
proof -
  consider "s = 0" | "s \<noteq> 0" "s \<le> rp_maximum w" | "rp_maximum w < s" by force
  then have "(snd (replay_accept w s) \<longleftrightarrow> replay_spec_accept A (unat s))
    \<and> replay_rel (fst (replay_accept w s))
      (if replay_spec_accept A (unat s) then insert (unat s) A else A)"
  proof cases
    case 1
    then show ?thesis
      using assms by (simp add: replay_accept_def replay_spec_accept_def)
  next
    case 2
    then show ?thesis using replay_rel_within [OF assms 2] by blast
  next
    case 3
    moreover from 3 assms have "replay_spec_accept A (unat s)"
      by (fastforce simp: replay_spec_accept_def replay_rel_def word_less_nat_alt)
    ultimately show ?thesis using replay_rel_advance [OF assms 3] by simp
  qed
  then show "snd (replay_accept w s) \<longleftrightarrow> replay_spec_accept A (unat s)"
    and "replay_rel (fst (replay_accept w s))
      (if replay_spec_accept A (unat s) then insert (unat s) A else A)"
    by blast+
qed

text \<open>Whole runs: the window accepts exactly what the abstract set accepts.\<close>

fun replay_spec_run :: "nat set \<Rightarrow> nat list \<Rightarrow> nat set \<times> nat list" where
  "replay_spec_run A [] = (A, [])"
| "replay_spec_run A (s # ss) =
     (if replay_spec_accept A s
      then (let (B, acc) = replay_spec_run (insert s A) ss in (B, s # acc))
      else replay_spec_run A ss)"

lemma replay_run_refines:
  assumes "replay_rel w A"
  shows "map unat (snd (gate_run replay_accept w ss)) = snd (replay_spec_run A (map unat ss))
    \<and> replay_rel (fst (gate_run replay_accept w ss)) (fst (replay_spec_run A (map unat ss)))"
  using assms
proof (induction ss arbitrary: w A)
  case (Cons s ss)
  note step = replay_accept_refines [OF Cons.prems, of s]
  from Cons.IH [OF step(2)] step(1) show ?case
    by (auto simp: split_beta Let_def)
qed simp

lemma replay_spec_run_accepted:
  "fst (replay_spec_run A ss) = A \<union> set (snd (replay_spec_run A ss))
   \<and> distinct (snd (replay_spec_run A ss)) \<and> set (snd (replay_spec_run A ss)) \<inter> A = {}"
proof (induction ss arbitrary: A)
  case (Cons s ss)
  from Cons.IH [of A] Cons.IH [of "insert s A"] show ?case
    by (auto simp: split_beta Let_def replay_spec_accept_def)
qed simp

interpretation replay_gate: gate "\<lambda>w. \<exists>A. replay_rel w A" "\<lambda>_. True" replay_accept
  by unfold_locales (blast dest: replay_accept_refines(2))

section \<open>Fresh limiters\<close>

text \<open>A fresh limiter admits exactly the packets that fit its byte burst.\<close>

lemma token_bucket_new_allow:
  assumes "unat c < 2 ^ 53" "1 \<le> c"
  shows "snd (token_bucket_allow (token_bucket_new r c now) n now) \<longleftrightarrow> unat n \<le> unat c"
proof -
  have "tb_level (token_bucket_new r c now) = unat c"
    using assms by (simp add: tb_level_def token_bucket_new_def max_def f64_of_nat_exact del: of_nat_unat)
  then show ?thesis
    using whole_bucket_allow [OF whole_bucket_new [OF assms, of now r], of n] by auto
qed

lemma traffic_limit_new_allow:
  assumes "unat p < 2 ^ 53" "1 \<le> p" "unat b < 2 ^ 53" "1 \<le> b" "n < 2 ^ 64"
  shows "snd (traffic_limit_allow (traffic_limit_new p b now) n now) \<longleftrightarrow> n \<le> unat b"
proof -
  have "snd (token_bucket_allow (token_bucket_new p p now) 1 now)"
    using assms by (simp add: token_bucket_new_allow word_le_nat_alt)
  then show ?thesis
    using assms token_bucket_new_allow [OF assms(3,4), of b now "of_nat n :: u64"]
    by (simp add: traffic_limit_allow_def traffic_limit_new_def split_beta Let_def max_def
        unat_of_nat)
qed

end
