(* ===== verification/Fast_Media_Engine.thy ===== *)
theory Fast_Media_Engine
  imports Fast_Media_Wire Fast_Media_Limits
begin

text \<open>
  The AKR1 engine of the FastMedia relay (\<open>fast_media_relay.rs\<close>, \<open>struct Engine\<close>): its
  allocations, cleanup queue, rate limiters and the process-wide counters, the handlers of
  HELLO, BIND and MEDIA datagrams, and the periodic cleanup.  A handler takes the engine and
  returns it updated together with the datagrams to send.  \<open>engine_step\<close> is one turn of the
  listener loop.
\<close>

abbreviation MAX_IP_BUCKETS :: nat where "MAX_IP_BUCKETS \<equiv> 4096"
abbreviation CLEANUP_PER_TICK :: nat where "CLEANUP_PER_TICK \<equiv> 64"

section \<open>State\<close>

record fm_config =
  fc_bind :: socket_addr
  fc_udp_port :: u16
  fc_relay_server :: string
  fc_public_key :: bytes
  fc_max_allocations :: nat
  fc_half_bind_ttl :: duration
  fc_idle_ttl :: duration
  fc_per_ip_packets_per_second :: u64
  fc_global_packets_per_second :: u64
  fc_per_ip_bytes_per_second :: u64
  fc_global_bytes_per_second :: u64

text \<open>The static atomics of the module.\<close>

record fm_counters =
  active_allocations :: nat
  active_streams :: nat
  hello_accepted :: u64
  cookie_rejected :: u64
  bind_succeeded :: u64
  bind_rejected :: u64
  grant_rejected :: u64
  role_mismatch :: u64
  session_mismatch :: u64
  allocation_mismatch :: u64
  rebinds :: u64
  forwarded_packets :: u64
  forwarded_bytes :: u64
  dropped_packets :: u64
  rate_limited :: u64
  replay_rejected :: u64
  expired_allocations :: u64

record binding =
  bd_source :: socket_addr
  bd_replay :: replay_window
  bd_limiter :: role_limit

record allocation =
  al_session_id :: u64
  al_invariant :: grant_invariant
  al_created :: instant
  al_last_activity :: instant
  al_controller :: "binding option"
  al_target :: "binding option"
  al_controller_rebind :: rebind_window
  al_target_rebind :: rebind_window

record engine =
  en_config :: fm_config
  en_cookie_key :: bytes
  en_allocations :: "(bytes, allocation) hmap"
  en_cleanup_order :: "bytes list"
  en_per_ip :: "(ip_addr, traffic_limit) hmap"
  en_global :: traffic_limit
  en_counters :: fm_counters

record outgoing =
  og_target :: socket_addr
  og_bytes :: bytes

definition increment :: "((u64 \<Rightarrow> u64) \<Rightarrow> fm_counters \<Rightarrow> fm_counters) \<Rightarrow> engine \<Rightarrow> engine" where
  "increment counter e = e\<lparr>en_counters := counter (\<lambda>v. sat_add v 1) (en_counters e)\<rparr>"

definition add_counter ::
  "((u64 \<Rightarrow> u64) \<Rightarrow> fm_counters \<Rightarrow> fm_counters) \<Rightarrow> u64 \<Rightarrow> engine \<Rightarrow> engine" where
  "add_counter counter amount e =
     e\<lparr>en_counters := counter (\<lambda>v. sat_add v amount) (en_counters e)\<rparr>"

lemma increment_frame [simp]:
  "en_config (increment c e) = en_config e"
  "en_cookie_key (increment c e) = en_cookie_key e"
  "en_allocations (increment c e) = en_allocations e"
  "en_cleanup_order (increment c e) = en_cleanup_order e"
  "en_per_ip (increment c e) = en_per_ip e"
  "en_global (increment c e) = en_global e"
  by (simp_all add: increment_def)

lemma add_counter_frame [simp]:
  "en_config (add_counter c n e) = en_config e"
  "en_cookie_key (add_counter c n e) = en_cookie_key e"
  "en_allocations (add_counter c n e) = en_allocations e"
  "en_cleanup_order (add_counter c n e) = en_cleanup_order e"
  "en_per_ip (add_counter c n e) = en_per_ip e"
  "en_global (add_counter c n e) = en_global e"
  by (simp_all add: add_counter_def)

section \<open>Allocations\<close>

definition allocation_new :: "u64 \<Rightarrow> grant_invariant \<Rightarrow> instant \<Rightarrow> allocation" where
  "allocation_new session_id invariant now =
     \<lparr>al_session_id = session_id, al_invariant = invariant, al_created = now,
      al_last_activity = now, al_controller = None, al_target = None,
      al_controller_rebind = rebind_window_new now, al_target_rebind = rebind_window_new now\<rparr>"

text \<open>\<open>binding_mut\<close>: the field it borrows, read and replaced.\<close>

definition al_binding :: "u8 \<Rightarrow> allocation \<Rightarrow> binding option" where
  "al_binding role a = (if role = ROLE_CONTROLLER then al_controller a else al_target a)"

definition set_binding :: "u8 \<Rightarrow> binding option \<Rightarrow> allocation \<Rightarrow> allocation" where
  "set_binding role b a =
     (if role = ROLE_CONTROLLER then a\<lparr>al_controller := b\<rparr> else a\<lparr>al_target := b\<rparr>)"

definition allow_rebind :: "allocation \<Rightarrow> u8 \<Rightarrow> instant \<Rightarrow> allocation \<times> bool" where
  "allow_rebind a role now =
     (if role = ROLE_CONTROLLER then
        (let (w, ok) = rebind_window_allow (al_controller_rebind a) now
         in (a\<lparr>al_controller_rebind := w\<rparr>, ok))
      else
        (let (w, ok) = rebind_window_allow (al_target_rebind a) now
         in (a\<lparr>al_target_rebind := w\<rparr>, ok)))"

definition allocation_expired ::
  "allocation \<Rightarrow> instant \<Rightarrow> u64 \<Rightarrow> duration \<Rightarrow> duration \<Rightarrow> bool" where
  "allocation_expired a now unix half_bind_ttl idle_ttl \<longleftrightarrow>
     gi_expires_at (al_invariant a) \<le> unix
     \<or> from_secs (unat MAX_GRANT_TTL_SECONDS) < since now (al_created a)
     \<or> idle_ttl < since now (al_last_activity a)
     \<or> ((al_controller a = None \<or> al_target a = None)
        \<and> half_bind_ttl < since now (al_created a))"

section \<open>Engine operations\<close>

definition engine_new :: "fm_config \<Rightarrow> bytes \<Rightarrow> fm_counters \<Rightarrow> instant \<Rightarrow> engine" where
  "engine_new config cookie_key counters now =
     \<lparr>en_config = config, en_cookie_key = cookie_key, en_allocations = [],
      en_cleanup_order = [], en_per_ip = [],
      en_global = traffic_limit_new (fc_global_packets_per_second config)
        (fc_global_bytes_per_second config) now,
      en_counters = counters\<rparr>"

definition update_active_counts :: "engine \<Rightarrow> engine" where
  "update_active_counts e = e\<lparr>en_counters := (en_counters e)
     \<lparr>active_allocations := hm_len (en_allocations e),
      active_streams := length (filter (\<lambda>(_, a). al_controller a \<noteq> None \<and> al_target a \<noteq> None)
        (en_allocations e))\<rparr>\<rparr>"

lemma update_active_counts_frame [simp]:
  "en_config (update_active_counts e) = en_config e"
  "en_cookie_key (update_active_counts e) = en_cookie_key e"
  "en_allocations (update_active_counts e) = en_allocations e"
  "en_cleanup_order (update_active_counts e) = en_cleanup_order e"
  "en_per_ip (update_active_counts e) = en_per_ip e"
  "en_global (update_active_counts e) = en_global e"
  by (simp_all add: update_active_counts_def)

definition allow_source :: "engine \<Rightarrow> ip_addr \<Rightarrow> nat \<Rightarrow> instant \<Rightarrow> engine \<times> bool" where
  "allow_source e ip bytes now =
     (let (g, ok) = traffic_limit_allow (en_global e) bytes now;
          e = e\<lparr>en_global := g\<rparr>
      in if \<not> ok then (e, False)
         else if \<not> hm_contains (en_per_ip e) ip \<and> MAX_IP_BUCKETS \<le> hm_len (en_per_ip e)
         then (e, False)
         else
           (let l = (case hm_get (en_per_ip e) ip of Some l \<Rightarrow> l
                     | None \<Rightarrow> traffic_limit_new (fc_per_ip_packets_per_second (en_config e))
                         (fc_per_ip_bytes_per_second (en_config e)) now);
                (l, ok) = traffic_limit_allow l bytes now
            in (e\<lparr>en_per_ip := hm_insert ip l (en_per_ip e)\<rparr>, ok)))"

definition handle_hello ::
  "fm_crypto \<Rightarrow> engine \<Rightarrow> socket_addr \<Rightarrow> bytes \<Rightarrow> header \<Rightarrow> u64 \<Rightarrow> engine \<times> outgoing list" where
  "handle_hello cr e source packet header unix =
     (if length packet \<noteq> HELLO_COOKIE_BYTES \<or> \<not> list_all (\<lambda>b. b = 0) (drop 48 packet)
      then (increment dropped_packets_update e, [])
      else
        (let nonce = slice AKR_HEADER_BYTES 48 packet;
             ck = cookie cr (en_cookie_key e) source header nonce (unix div COOKIE_EPOCH_SECONDS);
             response = header_encode header 2 @ nonce @ ck
         in (increment hello_accepted_update e, [\<lparr>og_target = source, og_bytes = response\<rparr>])))"

text \<open>
  \<open>handle_bind\<close> in two parts: the checks up to the validated grant, and what is done to the
  allocation table.
\<close>

definition bind_granted ::
  "engine \<Rightarrow> socket_addr \<Rightarrow> header \<Rightarrow> fast_relay_authorization \<Rightarrow> grant_invariant \<Rightarrow> instant \<Rightarrow>
   engine \<times> outgoing list" where
  "bind_granted e source header grant invariant now =
     (let aid = h_allocation_id header; role = h_role header;
          reply = [\<lparr>og_target = source, og_bytes = header_encode header 4\<rparr>]
      in
      if \<not> hm_contains (en_allocations e) aid
         \<and> fc_max_allocations (en_config e) \<le> hm_len (en_allocations e)
      then (increment bind_rejected_update e, [])
      else
        (let new_allocation = \<not> hm_contains (en_allocations e) aid;
             allocation = (case hm_get (en_allocations e) aid of Some a \<Rightarrow> a
               | None \<Rightarrow> allocation_new (h_session_id header) invariant now);
             e = e\<lparr>en_allocations := hm_insert aid allocation (en_allocations e)\<rparr>
         in
         if al_session_id allocation \<noteq> h_session_id header
         then (increment bind_rejected_update (increment session_mismatch_update e), [])
         else if al_invariant allocation \<noteq> invariant
         then (increment bind_rejected_update (increment allocation_mismatch_update e), [])
         else
           (let done = (\<lambda>e allocation.
                  (let allocation = allocation\<lparr>al_last_activity := now\<rparr>;
                       e = e\<lparr>en_allocations := hm_insert aid allocation (en_allocations e)\<rparr>;
                       e = (if new_allocation
                            then e\<lparr>en_cleanup_order := en_cleanup_order e @ [aid]\<rparr> else e)
                   in (increment bind_succeeded_update (update_active_counts e), reply)))
            in
            case al_binding role allocation of
              Some b \<Rightarrow>
                if bd_source b = source then
                  (e\<lparr>en_allocations := hm_insert aid (allocation\<lparr>al_last_activity := now\<rparr>)
                       (en_allocations e)\<rparr>, reply)
                else
                  (let (allocation, ok) = allow_rebind allocation role now;
                       e = e\<lparr>en_allocations := hm_insert aid allocation (en_allocations e)\<rparr>
                   in if \<not> ok
                      then (increment bind_rejected_update (increment rate_limited_update e), [])
                      else done (increment rebinds_update e)
                        (set_binding role (Some (b\<lparr>bd_source := source\<rparr>)) allocation))
            | None \<Rightarrow>
                done e (set_binding role
                  (Some \<lparr>bd_source = source, bd_replay = replay_window_default,
                         bd_limiter = role_limit_new (fa_max_bitrate_kbps grant) now\<rparr>)
                  allocation))))"

definition cookie_valid ::
  "fm_crypto \<Rightarrow> engine \<Rightarrow> socket_addr \<Rightarrow> header \<Rightarrow> bytes \<Rightarrow> u64 \<Rightarrow> bool" where
  "cookie_valid cr e source header packet unix =
     (let nonce = slice 32 48 packet; received_cookie = slice 48 56 packet;
          current_epoch = unix div COOKIE_EPOCH_SECONDS
      in list_ex (\<lambda>epoch. cookie cr (en_cookie_key e) source header nonce epoch = received_cookie)
           [current_epoch, sat_sub current_epoch 1])"

definition handle_bind ::
  "fm_crypto \<Rightarrow> engine \<Rightarrow> socket_addr \<Rightarrow> bytes \<Rightarrow> header \<Rightarrow> instant \<Rightarrow> u64 \<Rightarrow>
   engine \<times> outgoing list" where
  "handle_bind cr e source packet header now unix =
     (if length packet < BIND_PREFIX_BYTES then (increment bind_rejected_update e, [])
      else
        (let authorization_len = unat (from_le_bytes [packet ! 56, packet ! 57] :: u16) in
         if authorization_len = 0 \<or> MAX_AUTHORIZATION_BYTES < authorization_len
            \<or> length packet \<noteq> BIND_PREFIX_BYTES + authorization_len
         then (increment bind_rejected_update e, [])
         else if \<not> cookie_valid cr e source header packet unix
         then (increment cookie_rejected_update e, [])
         else
           (case sign_verify cr (drop BIND_PREFIX_BYTES packet) (fc_public_key (en_config e)) of
              None \<Rightarrow> (increment grant_rejected_update e, [])
            | Some payload \<Rightarrow>
                (case parse_grant cr payload of
                   None \<Rightarrow> (increment grant_rejected_update e, [])
                 | Some grant \<Rightarrow>
                     (case grant_validated cr grant header (fc_relay_server (en_config e))
                             (fc_udp_port (en_config e)) unix of
                        Inl GrantRole \<Rightarrow>
                          (increment grant_rejected_update (increment role_mismatch_update e), [])
                      | Inl GrantAllocation \<Rightarrow>
                          (increment grant_rejected_update
                             (increment allocation_mismatch_update e), [])
                      | Inl GrantOther \<Rightarrow> (increment grant_rejected_update e, [])
                      | Inr invariant \<Rightarrow> bind_granted e source header grant invariant now)))))"

text \<open>
  \<open>handle_media\<close>, in the same way: the replay window, the limiter and the forwarding of an
  admitted datagram, after the checks on the allocation and the payload.
\<close>

definition media_admit ::
  "engine \<Rightarrow> bytes \<Rightarrow> header \<Rightarrow> instant \<Rightarrow> allocation \<Rightarrow> binding \<Rightarrow> socket_addr \<Rightarrow> u64 \<Rightarrow>
   engine \<times> outgoing list" where
  "media_admit e packet header now allocation source_binding target sequence =
     (let payload = drop AKR_HEADER_BYTES packet;
          (replay, fresh) = replay_accept (bd_replay source_binding) sequence;
          source_binding = source_binding\<lparr>bd_replay := replay\<rparr>;
          store = (\<lambda>b a. e\<lparr>en_allocations := hm_insert (h_allocation_id header)
            (set_binding (h_role header) (Some b) a) (en_allocations e)\<rparr>)
      in if \<not> fresh
         then (increment dropped_packets_update (increment replay_rejected_update
                (store source_binding allocation)), [])
         else
           (let (limiter, ok) = role_limit_allow (bd_limiter source_binding) (length packet) now;
                source_binding = source_binding\<lparr>bd_limiter := limiter\<rparr>
            in if \<not> ok
               then (increment dropped_packets_update (increment rate_limited_update
                      (store source_binding allocation)), [])
               else (add_counter forwarded_bytes_update (of_nat (length payload))
                       (increment forwarded_packets_update
                         (store source_binding (allocation\<lparr>al_last_activity := now\<rparr>))),
                     [\<lparr>og_target = target, og_bytes = payload\<rparr>])))"

definition handle_media ::
  "engine \<Rightarrow> socket_addr \<Rightarrow> bytes \<Rightarrow> header \<Rightarrow> instant \<Rightarrow> u64 \<Rightarrow> engine \<times> outgoing list" where
  "handle_media e source packet header now unix =
     (case hm_get (en_allocations e) (h_allocation_id header) of
        None \<Rightarrow> (increment dropped_packets_update (increment allocation_mismatch_update e), [])
      | Some allocation \<Rightarrow>
          if al_session_id allocation \<noteq> h_session_id header
          then (increment dropped_packets_update (increment session_mismatch_update e), [])
          else if allocation_expired allocation now unix (fc_half_bind_ttl (en_config e))
                    (fc_idle_ttl (en_config e))
                  \<or> unat (gi_max_datagram (al_invariant allocation)) < length packet
          then (increment dropped_packets_update e, [])
          else if al_controller allocation = None \<or> al_target allocation = None
          then (increment dropped_packets_update e, [])
          else
            (case validate_akf1 (drop AKR_HEADER_BYTES packet) (h_role header) (h_session_id header) of
               None \<Rightarrow> (increment dropped_packets_update (increment role_mismatch_update e), [])
             | Some sequence \<Rightarrow>
                 (case (if h_role header = ROLE_CONTROLLER
                        then (al_controller allocation, map_option bd_source (al_target allocation))
                        else if h_role header = ROLE_TARGET
                        then (al_target allocation, map_option bd_source (al_controller allocation))
                        else (None, None)) of
                    (Some source_binding, Some target) \<Rightarrow>
                      if bd_source source_binding \<noteq> source
                      then (increment dropped_packets_update (increment role_mismatch_update e), [])
                      else media_admit e packet header now allocation source_binding target sequence
                  | _ \<Rightarrow> (increment dropped_packets_update e, []))))"

definition engine_handle ::
  "fm_crypto \<Rightarrow> engine \<Rightarrow> socket_addr \<Rightarrow> bytes \<Rightarrow> instant \<Rightarrow> u64 \<Rightarrow> engine \<times> outgoing list" where
  "engine_handle cr e source packet now unix =
     (case header_parse packet of
        None \<Rightarrow> (increment dropped_packets_update e, [])
      | Some header \<Rightarrow>
          (let (e, ok) = allow_source e (sock_ip source) (length packet) now in
           if \<not> ok then (increment rate_limited_update e, [])
           else if h_kind header = 1 then handle_hello cr e source packet header unix
           else if h_kind header = 3 then handle_bind cr e source packet header now unix
           else if h_kind header = 5 then handle_media e source packet header now unix
           else (increment dropped_packets_update e, [])))"

text \<open>One turn of the cleanup loop, and the loop itself.\<close>

definition cleanup_one :: "instant \<Rightarrow> u64 \<Rightarrow> engine \<Rightarrow> engine" where
  "cleanup_one now unix e =
     (case en_cleanup_order e of
        [] \<Rightarrow> e
      | aid # rest \<Rightarrow>
          (let e = e\<lparr>en_cleanup_order := rest\<rparr>;
               expired = (case hm_get (en_allocations e) aid of
                   Some a \<Rightarrow> allocation_expired a now unix (fc_half_bind_ttl (en_config e))
                     (fc_idle_ttl (en_config e))
                 | None \<Rightarrow> True)
           in if expired then
                (if hm_contains (en_allocations e) aid
                 then increment expired_allocations_update
                   (e\<lparr>en_allocations := hm_remove aid (en_allocations e)\<rparr>)
                 else e)
              else e\<lparr>en_cleanup_order := en_cleanup_order e @ [aid]\<rparr>))"

fun cleanup_loop :: "nat \<Rightarrow> instant \<Rightarrow> u64 \<Rightarrow> engine \<Rightarrow> engine" where
  "cleanup_loop 0 now unix e = e"
| "cleanup_loop (Suc n) now unix e =
     (if en_cleanup_order e = [] then e else cleanup_loop n now unix (cleanup_one now unix e))"

definition engine_cleanup :: "engine \<Rightarrow> instant \<Rightarrow> u64 \<Rightarrow> engine" where
  "engine_cleanup e now unix =
     (let e = update_active_counts (cleanup_loop CLEANUP_PER_TICK now unix e)
      in e\<lparr>en_per_ip := hm_retain (\<lambda>_ l. since now (tl_last_seen l) \<le> from_secs 60) (en_per_ip e)\<rparr>)"

end
