(* ===== verification/Fast_Media_Safety.thy ===== *)
theory Fast_Media_Safety
  imports Fast_Media_Engine
begin

text \<open>
  What the FastMedia engine guarantees.  \<open>engine_inv\<close> bounds its tables and ties the cleanup
  queue to the allocation table; every step keeps it.  The remaining lemmas describe the
  outcomes of a BIND and of a MEDIA datagram, from which the forwarding, replay and
  amplification properties follow.
\<close>

section \<open>Invariant\<close>

definition binding_ok :: "binding \<Rightarrow> bool" where
  "binding_ok b \<longleftrightarrow> role_limit_inv (bd_limiter b) \<and> (\<exists>A. replay_rel (bd_replay b) A)"

definition allocation_ok :: "allocation \<Rightarrow> bool" where
  "allocation_ok a \<longleftrightarrow> grant_invariant_ok (al_invariant a)
     \<and> rebind_window_inv (al_controller_rebind a) \<and> rebind_window_inv (al_target_rebind a)
     \<and> (al_controller a \<noteq> None \<or> al_target a \<noteq> None)
     \<and> (\<forall>b. al_controller a = Some b \<longrightarrow> binding_ok b)
     \<and> (\<forall>b. al_target a = Some b \<longrightarrow> binding_ok b)"

definition engine_inv :: "engine \<Rightarrow> bool" where
  "engine_inv e \<longleftrightarrow> hm_ok (en_allocations e) \<and> hm_ok (en_per_ip e)
     \<and> hm_len (en_allocations e) \<le> fc_max_allocations (en_config e)
     \<and> hm_len (en_per_ip e) \<le> MAX_IP_BUCKETS
     \<and> traffic_limit_inv (en_global e)
     \<and> (\<forall>ip l. hm_get (en_per_ip e) ip = Some l \<longrightarrow> traffic_limit_inv l)
     \<and> (\<forall>aid a. hm_get (en_allocations e) aid = Some a \<longrightarrow> allocation_ok a)
     \<and> distinct (en_cleanup_order e)
     \<and> (\<forall>aid. aid \<in> set (en_cleanup_order e) \<longleftrightarrow> hm_get (en_allocations e) aid \<noteq> None)"

text \<open>The invariant depends on the tables only, not on the counters.\<close>

lemma engine_inv_cong:
  "en_allocations e' = en_allocations e \<Longrightarrow> en_per_ip e' = en_per_ip e \<Longrightarrow>
   en_config e' = en_config e \<Longrightarrow> en_global e' = en_global e \<Longrightarrow>
   en_cleanup_order e' = en_cleanup_order e \<Longrightarrow> engine_inv e' \<longleftrightarrow> engine_inv e"
  by (simp add: engine_inv_def)

lemma engine_inv_increment [simp]: "engine_inv (increment c e) \<longleftrightarrow> engine_inv e"
  by (rule engine_inv_cong) simp_all

lemma engine_inv_add_counter [simp]: "engine_inv (add_counter c n e) \<longleftrightarrow> engine_inv e"
  by (rule engine_inv_cong) simp_all

lemma engine_inv_counts [simp]: "engine_inv (update_active_counts e) \<longleftrightarrow> engine_inv e"
  by (rule engine_inv_cong) simp_all

lemma engine_new_inv [inv_intros]: "engine_inv (engine_new cfg key counters now)"
  by (simp add: engine_inv_def engine_new_def traffic_limit_new_inv)

lemma engine_invD:
  assumes "engine_inv e"
  shows "hm_ok (en_allocations e)" "hm_ok (en_per_ip e)"
    "hm_get (en_allocations e) aid = Some a \<Longrightarrow> allocation_ok a"
    "aid \<in> set (en_cleanup_order e) \<longleftrightarrow> hm_get (en_allocations e) aid \<noteq> None"
  using assms by (auto simp: engine_inv_def)

text \<open>Replacing the entry of an allocation that is already in the table.\<close>

lemma engine_inv_update_allocation:
  assumes "engine_inv e" "hm_get (en_allocations e) aid \<noteq> None" "allocation_ok a"
  shows "engine_inv (e\<lparr>en_allocations := hm_insert aid a (en_allocations e)\<rparr>)"
  using assms by (auto simp: engine_inv_def hm.len_put)

text \<open>A new allocation goes into the table and at the end of the cleanup queue together.\<close>

lemma engine_inv_new_allocation:
  assumes "engine_inv e" "hm_get (en_allocations e) aid = None" "allocation_ok a"
    "hm_len (en_allocations e) < fc_max_allocations (en_config e)"
  shows "engine_inv (e\<lparr>en_allocations := hm_insert aid a (en_allocations e),
    en_cleanup_order := en_cleanup_order e @ [aid]\<rparr>)"
  using assms by (auto simp: engine_inv_def hm.len_put)

lemma allow_source_inv [inv_intros]:
  assumes "engine_inv e"
  shows "engine_inv (fst (allow_source e ip n now))"
proof -
  have g: "traffic_limit_inv (fst (traffic_limit_allow (en_global e) n now))"
    using assms by (simp add: engine_inv_def traffic_limit_allow_inv)
  have l: "traffic_limit_inv (fst (traffic_limit_allow l n now))"
    if "hm_get (en_per_ip e) ip = Some l \<or> l = traffic_limit_new p q now" for l p q
    using that assms by (auto simp: engine_inv_def intro!: inv_intros)
  from assms g l show ?thesis
    by (auto simp: allow_source_def split_beta Let_def engine_inv_def hm_contains_def
        hm.len_put split: option.splits)
qed

lemma allow_source_frame [simp]:
  "en_allocations (fst (allow_source e ip n now)) = en_allocations e"
  "en_config (fst (allow_source e ip n now)) = en_config e"
  "en_cookie_key (fst (allow_source e ip n now)) = en_cookie_key e"
  "en_cleanup_order (fst (allow_source e ip n now)) = en_cleanup_order e"
  by (simp_all add: allow_source_def split_beta Let_def)

section \<open>Bindings\<close>

definition role_ok :: "u8 \<Rightarrow> bool" where
  "role_ok r \<longleftrightarrow> r = ROLE_CONTROLLER \<or> r = ROLE_TARGET"

lemma header_parse_role: "header_parse p = Some h \<Longrightarrow> role_ok (h_role h)"
  by (drule header_parse_ok) (auto simp: header_ok_def role_ok_def)

lemma al_binding_set [simp]:
  "role_ok role \<Longrightarrow> role_ok role' \<Longrightarrow>
   al_binding role (set_binding role' b a) = (if role = role' then b else al_binding role a)"
  by (auto simp: al_binding_def set_binding_def role_ok_def)

lemma set_binding_frame [simp]:
  "al_session_id (set_binding r b a) = al_session_id a"
  "al_invariant (set_binding r b a) = al_invariant a"
  "al_created (set_binding r b a) = al_created a"
  "al_last_activity (set_binding r b a) = al_last_activity a"
  "al_controller_rebind (set_binding r b a) = al_controller_rebind a"
  "al_target_rebind (set_binding r b a) = al_target_rebind a"
  by (simp_all add: set_binding_def)

lemma al_binding_activity [simp]: "al_binding r (a\<lparr>al_last_activity := t\<rparr>) = al_binding r a"
  by (simp add: al_binding_def)

lemma allow_rebind_frame [simp]:
  "al_session_id (fst (allow_rebind a r now)) = al_session_id a"
  "al_invariant (fst (allow_rebind a r now)) = al_invariant a"
  "al_created (fst (allow_rebind a r now)) = al_created a"
  "al_controller (fst (allow_rebind a r now)) = al_controller a"
  "al_target (fst (allow_rebind a r now)) = al_target a"
  "al_binding r' (fst (allow_rebind a r now)) = al_binding r' a"
  by (simp_all add: allow_rebind_def split_beta Let_def al_binding_def)

lemma allocation_ok_activity [simp]:
  "allocation_ok (a\<lparr>al_last_activity := t\<rparr>) \<longleftrightarrow> allocation_ok a"
  by (simp add: allocation_ok_def)

lemma allocation_ok_binding: "allocation_ok a \<Longrightarrow> al_binding r a = Some b \<Longrightarrow> binding_ok b"
  by (auto simp: allocation_ok_def al_binding_def split: if_splits)

lemma allocation_ok_set_binding:
  "allocation_ok a \<Longrightarrow> binding_ok b \<Longrightarrow> allocation_ok (set_binding r (Some b) a)"
  by (auto simp: allocation_ok_def set_binding_def)

lemma allocation_ok_rebind: "allocation_ok a \<Longrightarrow> allocation_ok (fst (allow_rebind a r now))"
  by (auto simp: allocation_ok_def allow_rebind_def split_beta Let_def rebind_window_allow_inv)

lemma allocation_ok_new:
  "grant_invariant_ok g \<Longrightarrow> binding_ok b \<Longrightarrow>
   allocation_ok (set_binding r (Some b) (allocation_new sid g now))"
  by (auto simp: allocation_ok_def allocation_new_def set_binding_def rebind_window_new_inv)

lemma binding_ok_new: "binding_ok \<lparr>bd_source = s, bd_replay = replay_window_default,
    bd_limiter = role_limit_new k now\<rparr>"
  by (auto simp: binding_ok_def role_limit_new_inv intro: replay_rel_default)

lemma binding_ok_accept:
  "binding_ok b \<Longrightarrow> binding_ok (b\<lparr>bd_replay := fst (replay_accept (bd_replay b) s)\<rparr>)"
  by (auto simp: binding_ok_def dest: replay_accept_refines(2))

lemma binding_ok_limiter:
  "binding_ok b \<Longrightarrow> binding_ok (b\<lparr>bd_limiter := fst (role_limit_allow (bd_limiter b) n now)\<rparr>)"
  by (auto simp: binding_ok_def role_limit_allow_inv)

lemma binding_ok_admit:
  "binding_ok b \<Longrightarrow> binding_ok (b\<lparr>bd_replay := fst (replay_accept (bd_replay b) s),
     bd_limiter := fst (role_limit_allow (bd_limiter b) n now)\<rparr>)"
  using binding_ok_limiter [OF binding_ok_accept] by fastforce

lemma binding_ok_source [simp]: "binding_ok (b\<lparr>bd_source := s\<rparr>) \<longleftrightarrow> binding_ok b"
  by (simp add: binding_ok_def)

section \<open>Media\<close>

definition peer_role :: "u8 \<Rightarrow> u8" where
  "peer_role r = (if r = ROLE_CONTROLLER then ROLE_TARGET else ROLE_CONTROLLER)"

lemma media_admit_frame [simp]:
  "en_config (fst (media_admit e p h now a b t s)) = en_config e"
  "en_cookie_key (fst (media_admit e p h now a b t s)) = en_cookie_key e"
  "en_cleanup_order (fst (media_admit e p h now a b t s)) = en_cleanup_order e"
  "en_per_ip (fst (media_admit e p h now a b t s)) = en_per_ip e"
  "en_global (fst (media_admit e p h now a b t s)) = en_global e"
  by (simp_all add: media_admit_def Let_def split_beta)

lemma handle_media_frame [simp]:
  "en_config (fst (handle_media e src p h now unix)) = en_config e"
  "en_cookie_key (fst (handle_media e src p h now unix)) = en_cookie_key e"
  "en_cleanup_order (fst (handle_media e src p h now unix)) = en_cleanup_order e"
  "en_per_ip (fst (handle_media e src p h now unix)) = en_per_ip e"
  "en_global (fst (handle_media e src p h now unix)) = en_global e"
  by (simp_all add: handle_media_def split: option.split)

text \<open>What must hold for a MEDIA datagram to reach the replay window of its sender.\<close>

definition media_admissible ::
  "engine \<Rightarrow> socket_addr \<Rightarrow> bytes \<Rightarrow> header \<Rightarrow> instant \<Rightarrow> u64 \<Rightarrow>
   allocation \<Rightarrow> binding \<Rightarrow> binding \<Rightarrow> u64 \<Rightarrow> bool" where
  "media_admissible e src p h now unix a b peer sequence \<longleftrightarrow>
     hm_get (en_allocations e) (h_allocation_id h) = Some a
     \<and> al_session_id a = h_session_id h
     \<and> \<not> allocation_expired a now unix (fc_half_bind_ttl (en_config e)) (fc_idle_ttl (en_config e))
     \<and> length p \<le> unat (gi_max_datagram (al_invariant a))
     \<and> validate_akf1 (drop AKR_HEADER_BYTES p) (h_role h) (h_session_id h) = Some sequence
     \<and> al_binding (h_role h) a = Some b \<and> al_binding (peer_role (h_role h)) a = Some peer
     \<and> bd_source b = src"

text \<open>The sender's binding after the datagram, and the allocation it is stored in.\<close>

definition media_stored ::
  "engine \<Rightarrow> header \<Rightarrow> binding \<Rightarrow> allocation \<Rightarrow> (bytes, allocation) hmap" where
  "media_stored e h b a =
     hm_insert (h_allocation_id h) (set_binding (h_role h) (Some b) a) (en_allocations e)"

lemma handle_media_cases [consumes 2, case_names dropped replayed limited forwarded]:
  assumes "handle_media e src p h now unix = (e', out)" and "role_ok (h_role h)"
  obtains
    (dropped) "out = []" "en_allocations e' = en_allocations e"
  | (replayed) a b peer sequence where
      "media_admissible e src p h now unix a b peer sequence"
      "\<not> snd (replay_accept (bd_replay b) sequence)" "out = []"
      "en_allocations e' = media_stored e h
        (b\<lparr>bd_replay := fst (replay_accept (bd_replay b) sequence)\<rparr>) a"
  | (limited) a b peer sequence where
      "media_admissible e src p h now unix a b peer sequence"
      "snd (replay_accept (bd_replay b) sequence)" "out = []"
      "en_allocations e' = media_stored e h
        (b\<lparr>bd_replay := fst (replay_accept (bd_replay b) sequence),
           bd_limiter := fst (role_limit_allow (bd_limiter b) (length p) now)\<rparr>) a"
  | (forwarded) a b peer sequence where
      "media_admissible e src p h now unix a b peer sequence"
      "snd (replay_accept (bd_replay b) sequence)"
      "snd (role_limit_allow (bd_limiter b) (length p) now)"
      "out = [\<lparr>og_target = bd_source peer, og_bytes = drop AKR_HEADER_BYTES p\<rparr>]"
      "en_allocations e' = media_stored e h
        (b\<lparr>bd_replay := fst (replay_accept (bd_replay b) sequence),
           bd_limiter := fst (role_limit_allow (bd_limiter b) (length p) now)\<rparr>)
        (a\<lparr>al_last_activity := now\<rparr>)"
proof (cases "hm_get (en_allocations e) (h_allocation_id h)")
  case None
  with assms show ?thesis by (intro dropped) (auto simp: handle_media_def)
next
  case (Some a)
  show ?thesis
  proof (cases "\<exists>b peer s. media_admissible e src p h now unix a b peer s")
    case False
    with assms Some have "out = [] \<and> en_allocations e' = en_allocations e"
      by (auto simp: handle_media_def role_ok_def media_admissible_def al_binding_def peer_role_def
          split: option.splits if_splits)
    then show ?thesis by (intro dropped) auto
  next
    case True
    then obtain b peer s where adm: "media_admissible e src p h now unix a b peer s" by blast
    let ?b = "b\<lparr>bd_replay := fst (replay_accept (bd_replay b) s)\<rparr>"
    let ?l = "?b\<lparr>bd_limiter := fst (role_limit_allow (bd_limiter b) (length p) now)\<rparr>"
    let ?res = "if \<not> snd (replay_accept (bd_replay b) s) then ([], media_stored e h ?b a)
        else if \<not> snd (role_limit_allow (bd_limiter b) (length p) now)
        then ([], media_stored e h ?l a)
        else ([\<lparr>og_target = bd_source peer, og_bytes = drop 32 p\<rparr>],
          media_stored e h ?l (a\<lparr>al_last_activity := now\<rparr>))"
    have "(out, en_allocations e') = ?res"
      using assms adm
      by (auto simp: handle_media_def role_ok_def media_admit_def media_admissible_def media_stored_def
          al_binding_def peer_role_def Let_def split_beta not_less split: if_splits)
    then show ?thesis
      using replayed [OF adm] limited [OF adm] forwarded [OF adm] by (auto split: if_splits)
  qed
qed

lemma media_stored_inv:
  assumes "engine_inv e" "media_admissible e src p h now unix a b peer s"
    "binding_ok b'" "en_allocations e' = media_stored e h b' a'"
    "a' = a \<or> a' = a\<lparr>al_last_activity := now\<rparr>"
    "en_config e' = en_config e" "en_cleanup_order e' = en_cleanup_order e"
    "en_per_ip e' = en_per_ip e" "en_global e' = en_global e"
  shows "engine_inv e'"
proof -
  let ?e = "e\<lparr>en_allocations := media_stored e h b' a'\<rparr>"
  have get: "hm_get (en_allocations e) (h_allocation_id h) = Some a"
    using assms(2) by (simp add: media_admissible_def)
  with assms(1) have "allocation_ok a" by (rule engine_invD(3))
  with assms(3,5) have "allocation_ok (set_binding (h_role h) (Some b') a')"
    by (auto intro: allocation_ok_set_binding)
  with assms(1) get have "engine_inv ?e"
    unfolding media_stored_def by (intro engine_inv_update_allocation) auto
  then show ?thesis using assms by (subst engine_inv_cong [of _ ?e]) auto
qed

lemma handle_media_inv [inv_intros]:
  assumes inv: "engine_inv e" and role: "role_ok (h_role h)"
  shows "engine_inv (fst (handle_media e src p h now unix))"
proof -
  obtain e' out where res: "handle_media e src p h now unix = (e', out)" by fastforce
  note frame = handle_media_frame [of e src p h now unix, unfolded res fst_conv]
  have b: "binding_ok b" if "media_admissible e src p h now unix a b peer s" for a b peer s
    using that inv by (auto simp: media_admissible_def dest: engine_invD(3) allocation_ok_binding)
  from res role have "engine_inv e'"
  proof (cases rule: handle_media_cases)
    case dropped
    then show ?thesis using inv frame by (subst engine_inv_cong [of _ e]) auto
  next
    case (replayed a b peer s)
    then show ?thesis
      using b [OF replayed(1)] frame by (intro media_stored_inv [OF inv replayed(1) _ replayed(4)])
        (auto intro: binding_ok_accept)
  next
    case (limited a b peer s)
    show ?thesis
      using b [OF limited(1)] frame by (intro media_stored_inv [OF inv limited(1) _ limited(4)])
        (auto intro: binding_ok_admit)
  next
    case (forwarded a b peer s)
    show ?thesis
      using b [OF forwarded(1)] frame by (intro media_stored_inv [OF inv forwarded(1) _ forwarded(5)])
        (auto intro: binding_ok_admit)
  qed
  then show ?thesis by (simp add: res)
qed

section \<open>Bind\<close>

text \<open>The reply to a successful BIND, and the binding it installs.\<close>

definition bind_reply :: "socket_addr \<Rightarrow> header \<Rightarrow> outgoing list" where
  "bind_reply src h = [\<lparr>og_target = src, og_bytes = header_encode h 4\<rparr>]"

definition fresh_binding :: "socket_addr \<Rightarrow> fast_relay_authorization \<Rightarrow> instant \<Rightarrow> binding" where
  "fresh_binding src g now = \<lparr>bd_source = src, bd_replay = replay_window_default,
     bd_limiter = role_limit_new (fa_max_bitrate_kbps g) now\<rparr>"

lemma bind_granted_frame [simp]:
  "en_config (fst (bind_granted e src h g i now)) = en_config e"
  "en_cookie_key (fst (bind_granted e src h g i now)) = en_cookie_key e"
  "en_per_ip (fst (bind_granted e src h g i now)) = en_per_ip e"
  "en_global (fst (bind_granted e src h g i now)) = en_global e"
  by (simp_all add: bind_granted_def Let_def split_beta split: option.split)

lemma bind_granted_cases [consumes 1, case_names full mismatch refreshed limited rebound joined created]:
  assumes res: "bind_granted e src h g i now = (e', out)"
  obtains
    (full) "hm_get (en_allocations e) (h_allocation_id h) = None" "out = []"
      "fc_max_allocations (en_config e) \<le> hm_len (en_allocations e)"
      "en_allocations e' = en_allocations e" "en_cleanup_order e' = en_cleanup_order e"
  | (mismatch) a where "hm_get (en_allocations e) (h_allocation_id h) = Some a" "out = []"
      "al_session_id a \<noteq> h_session_id h \<or> al_invariant a \<noteq> i"
      "en_allocations e' = en_allocations e" "en_cleanup_order e' = en_cleanup_order e"
  | (refreshed) a b where "hm_get (en_allocations e) (h_allocation_id h) = Some a"
      "al_session_id a = h_session_id h" "al_invariant a = i"
      "al_binding (h_role h) a = Some b" "bd_source b = src" "out = bind_reply src h"
      "en_allocations e' = hm_insert (h_allocation_id h) (a\<lparr>al_last_activity := now\<rparr>) (en_allocations e)"
      "en_cleanup_order e' = en_cleanup_order e"
  | (limited) a b where "hm_get (en_allocations e) (h_allocation_id h) = Some a"
      "al_session_id a = h_session_id h" "al_invariant a = i"
      "al_binding (h_role h) a = Some b" "bd_source b \<noteq> src" "out = []"
      "\<not> snd (allow_rebind a (h_role h) now)"
      "en_allocations e' = hm_insert (h_allocation_id h) (fst (allow_rebind a (h_role h) now)) (en_allocations e)"
      "en_cleanup_order e' = en_cleanup_order e"
  | (rebound) a b where "hm_get (en_allocations e) (h_allocation_id h) = Some a"
      "al_session_id a = h_session_id h" "al_invariant a = i"
      "al_binding (h_role h) a = Some b" "bd_source b \<noteq> src" "out = bind_reply src h"
      "snd (allow_rebind a (h_role h) now)"
      "en_allocations e' = hm_insert (h_allocation_id h)
        ((set_binding (h_role h) (Some (b\<lparr>bd_source := src\<rparr>)) (fst (allow_rebind a (h_role h) now)))
          \<lparr>al_last_activity := now\<rparr>) (en_allocations e)"
      "en_cleanup_order e' = en_cleanup_order e"
  | (joined) a where "hm_get (en_allocations e) (h_allocation_id h) = Some a"
      "al_session_id a = h_session_id h" "al_invariant a = i"
      "al_binding (h_role h) a = None" "out = bind_reply src h"
      "en_allocations e' = hm_insert (h_allocation_id h)
        ((set_binding (h_role h) (Some (fresh_binding src g now)) a)\<lparr>al_last_activity := now\<rparr>)
        (en_allocations e)"
      "en_cleanup_order e' = en_cleanup_order e"
  | (created) "hm_get (en_allocations e) (h_allocation_id h) = None"
      "hm_len (en_allocations e) < fc_max_allocations (en_config e)" "out = bind_reply src h"
      "en_allocations e' = hm_insert (h_allocation_id h)
        ((set_binding (h_role h) (Some (fresh_binding src g now))
          (allocation_new (h_session_id h) i now))\<lparr>al_last_activity := now\<rparr>) (en_allocations e)"
      "en_cleanup_order e' = en_cleanup_order e @ [h_allocation_id h]"
proof (cases "hm_get (en_allocations e) (h_allocation_id h)")
  case None
  have nb: "al_binding r (allocation_new s i now) = None" for r s
    by (simp add: al_binding_def allocation_new_def)
  have "al_session_id (allocation_new s i now) = s" "al_invariant (allocation_new s i now) = i" for s
    by (simp_all add: allocation_new_def)
  with None res nb show ?thesis
    using full created
    by (auto simp: bind_granted_def hm_contains_def Let_def bind_reply_def fresh_binding_def
        split: if_splits)
next
  case (Some a)
  note unf = bind_granted_def hm_contains_def Let_def bind_reply_def fresh_binding_def split_beta
  show ?thesis
  proof (cases "al_session_id a = h_session_id h \<and> al_invariant a = i")
    case False
    with Some res show ?thesis by (intro mismatch [OF Some]) (auto simp: unf split: if_splits)
  next
    case ok: True
    show ?thesis
    proof (cases "al_binding (h_role h) a")
      case None
      with Some ok res show ?thesis
        by (intro joined [OF Some]) (auto simp: unf split: if_splits)
    next
      case (Some b)
      note S = \<open>hm_get (en_allocations e) (h_allocation_id h) = _\<close> \<open>al_binding (h_role h) a = _\<close>
      have r: "bind_granted e src h g i now = (e', out)" by (rule res)
      consider "bd_source b = src" | "bd_source b \<noteq> src" "snd (allow_rebind a (h_role h) now)"
        | "bd_source b \<noteq> src" "\<not> snd (allow_rebind a (h_role h) now)" by blast
      then show ?thesis
      proof cases
        case 1
        with S ok r show ?thesis by (intro refreshed [OF S(1)]) (auto simp: unf split: if_splits)
      next
        case 2
        with S ok r show ?thesis by (intro rebound [OF S(1)]) (auto simp: unf split: if_splits)
      next
        case 3
        with S ok r show ?thesis by (intro limited [OF S(1)]) (auto simp: unf split: if_splits)
      qed
    qed
  qed
qed

lemma bind_granted_inv [inv_intros]:
  assumes inv: "engine_inv e" and g: "grant_invariant_ok i"
  shows "engine_inv (fst (bind_granted e src h g i now))"
proof -
  obtain e' out where res: "bind_granted e src h g i now = (e', out)" by fastforce
  note frame = bind_granted_frame [of e src h g i now, unfolded res fst_conv]
  have upd: "engine_inv e'"
    if get: "hm_get (en_allocations e) (h_allocation_id h) = Some a" and ok: "allocation_ok a'"
      and eq: "en_allocations e' = hm_insert (h_allocation_id h) a' (en_allocations e)"
        "en_cleanup_order e' = en_cleanup_order e" for a a'
  proof -
    have "engine_inv (e\<lparr>en_allocations := hm_insert (h_allocation_id h) a' (en_allocations e)\<rparr>)"
      using inv get ok by (intro engine_inv_update_allocation) auto
    then show ?thesis using frame eq by (subst engine_inv_cong) auto
  qed
  have fresh: "binding_ok (fresh_binding src g now)"
    by (simp add: fresh_binding_def binding_ok_new)
  from res have "engine_inv e'"
  proof (cases rule: bind_granted_cases)
    case full
    then show ?thesis using inv frame by (subst engine_inv_cong [of _ e]) auto
  next
    case (mismatch a)
    then show ?thesis using inv frame by (subst engine_inv_cong [of _ e]) auto
  next
    case (refreshed a b)
    with engine_invD(3) [OF inv refreshed(1)] show ?thesis by (intro upd) auto
  next
    case (limited a b)
    with engine_invD(3) [OF inv limited(1)] show ?thesis
      by (intro upd [of a]) (auto intro: allocation_ok_rebind)
  next
    case (rebound a b)
    with engine_invD(3) [OF inv rebound(1)] show ?thesis
      by (intro upd [of a])
        (auto intro!: allocation_ok_set_binding allocation_ok_rebind dest: allocation_ok_binding)
  next
    case (joined a)
    with engine_invD(3) [OF inv joined(1)] fresh show ?thesis
      by (intro upd [of a]) (auto intro: allocation_ok_set_binding)
  next
    case created
    let ?a = "(set_binding (h_role h) (Some (fresh_binding src g now))
      (allocation_new (h_session_id h) i now))\<lparr>al_last_activity := now\<rparr>"
    have "engine_inv (e\<lparr>en_allocations := hm_insert (h_allocation_id h) ?a (en_allocations e),
        en_cleanup_order := en_cleanup_order e @ [h_allocation_id h]\<rparr>)"
      using inv created g fresh
      by (intro engine_inv_new_allocation) (auto intro: allocation_ok_new)
    then show ?thesis using frame created by (subst engine_inv_cong) auto
  qed
  then show ?thesis by (simp add: res)
qed

text \<open>A BIND gets past its checks only with a fresh cookie and a verified grant.\<close>

definition bind_authorised ::
  "fm_crypto \<Rightarrow> engine \<Rightarrow> socket_addr \<Rightarrow> bytes \<Rightarrow> header \<Rightarrow> u64 \<Rightarrow>
   fast_relay_authorization \<Rightarrow> grant_invariant \<Rightarrow> bool" where
  "bind_authorised cr e src p h unix g i \<longleftrightarrow>
     BIND_PREFIX_BYTES \<le> length p \<and> cookie_valid cr e src h p unix
     \<and> (\<exists>payload. sign_verify cr (drop BIND_PREFIX_BYTES p) (fc_public_key (en_config e)) = Some payload
          \<and> parse_grant cr payload = Some g)
     \<and> grant_validated cr g h (fc_relay_server (en_config e)) (fc_udp_port (en_config e)) unix = Inr i"

lemma handle_bind_cases [case_names refused granted]:
  obtains
    (refused) "snd (handle_bind cr e src p h now unix) = []"
      "en_allocations (fst (handle_bind cr e src p h now unix)) = en_allocations e"
      "engine_inv (fst (handle_bind cr e src p h now unix)) \<longleftrightarrow> engine_inv e"
  | (granted) g i where "bind_authorised cr e src p h unix g i"
      "handle_bind cr e src p h now unix = bind_granted e src h g i now"
proof (cases "\<exists>g i. bind_authorised cr e src p h unix g i
    \<and> handle_bind cr e src p h now unix = bind_granted e src h g i now")
  case True
  then show ?thesis using granted by blast
next
  case False
  then have "\<exists>e'. handle_bind cr e src p h now unix = (e', []) \<and> en_allocations e' = en_allocations e
      \<and> (engine_inv e' \<longleftrightarrow> engine_inv e)"
    by (auto simp: handle_bind_def bind_authorised_def Let_def
        split: option.splits sum.splits grant_error.splits)
  then show ?thesis using refused by fastforce
qed

lemma handle_bind_inv [inv_intros]:
  assumes "engine_inv e"
  shows "engine_inv (fst (handle_bind cr e src p h now unix))"
proof (cases rule: handle_bind_cases [of cr e src p h now unix])
  case refused
  with assms show ?thesis by simp
next
  case (granted g i)
  then have "grant_invariant_ok i" by (auto simp: bind_authorised_def dest: grant_validated_ok)
  with granted assms show ?thesis by (simp add: bind_granted_inv)
qed

lemma handle_hello_inv [simp]: "engine_inv (fst (handle_hello cr e src p h unix)) \<longleftrightarrow> engine_inv e"
  by (simp add: handle_hello_def Let_def)

lemma engine_handle_inv [inv_intros]:
  assumes "engine_inv e"
  shows "engine_inv (fst (engine_handle cr e src p now unix))"
proof (cases "header_parse p")
  case None
  with assms show ?thesis by (simp add: engine_handle_def)
next
  case (Some h)
  then have "role_ok (h_role h)" by (rule header_parse_role)
  with Some allow_source_inv [OF assms] show ?thesis
    by (simp add: engine_handle_def split_beta Let_def handle_bind_inv handle_media_inv)
qed

section \<open>Cleanup\<close>

lemma cleanup_one_inv [inv_intros]:
  assumes "engine_inv e"
  shows "engine_inv (cleanup_one now unix e)"
proof (cases "en_cleanup_order e")
  case Nil
  with assms show ?thesis by (simp add: cleanup_one_def)
next
  case (Cons aid rest)
  with engine_invD(4) [OF assms, of aid] obtain a where "hm_get (en_allocations e) aid = Some a"
    by auto
  with assms Cons show ?thesis
    by (auto simp: cleanup_one_def Let_def engine_inv_def hm_contains_def hm.len_del)
qed

lemma cleanup_loop_inv [inv_intros]: "engine_inv e \<Longrightarrow> engine_inv (cleanup_loop n now unix e)"
  by (induction n arbitrary: e) (auto intro: inv_intros)

lemma engine_cleanup_inv [inv_intros]:
  assumes "engine_inv e"
  shows "engine_inv (engine_cleanup e now unix)"
proof -
  have "engine_inv (cleanup_loop 64 now unix e)" by (rule cleanup_loop_inv [OF assms])
  then show ?thesis
    by (auto simp: engine_cleanup_def Let_def engine_inv_def hm.retain_subset
        intro: hm.retain_within_capacity)
qed

definition engine_expired :: "engine \<Rightarrow> instant \<Rightarrow> u64 \<Rightarrow> allocation \<Rightarrow> bool" where
  "engine_expired e now unix a \<longleftrightarrow>
     allocation_expired a now unix (fc_half_bind_ttl (en_config e)) (fc_idle_ttl (en_config e))"

lemma cleanup_one_config [simp]: "en_config (cleanup_one now unix e) = en_config e"
  by (simp add: cleanup_one_def Let_def split: list.split)

lemma cleanup_one_step:
  assumes "engine_inv e" "en_cleanup_order e = aid # rest" "hm_get (en_allocations e) aid = Some a"
  shows "hm_get (en_allocations (cleanup_one now unix e)) k =
      (if k = aid \<and> engine_expired e now unix a then None else hm_get (en_allocations e) k)"
    and "en_cleanup_order (cleanup_one now unix e) =
      (if engine_expired e now unix a then rest else rest @ [aid])"
  using assms by (auto simp: cleanup_one_def Let_def engine_expired_def hm_contains_def)

text \<open>
  \<open>xs\<close> are the queue entries not yet visited in this pass, \<open>ys\<close> those found alive.  Once the
  loop has made as many turns as \<open>xs\<close> is long, exactly the expired allocations are gone.
\<close>

lemma cleanup_loop_removes:
  assumes "engine_inv e" "en_cleanup_order e = xs @ ys" "length xs \<le> n"
    "\<forall>k \<in> set ys. \<forall>a. hm_get (en_allocations e) k = Some a \<longrightarrow> \<not> engine_expired e now unix a"
  shows "hm_get (en_allocations (cleanup_loop n now unix e)) k =
    (case hm_get (en_allocations e) k of None \<Rightarrow> None
     | Some a \<Rightarrow> if engine_expired e now unix a then None else Some a)"
  using assms
proof (induction n arbitrary: e xs ys)
  case 0
  then show ?case using engine_invD(4) [OF "0.prems"(1), of k]
    by (auto split: option.split)
next
  case (Suc n)
  note inv = Suc.prems(1)
  show ?case
  proof (cases "en_cleanup_order e")
    case Nil
    then show ?thesis using engine_invD(4) [OF inv, of k] by (auto split: option.split)
  next
    case (Cons aid rest)
    with engine_invD(4) [OF inv, of aid] obtain a where a: "hm_get (en_allocations e) aid = Some a"
      by auto
    let ?e = "cleanup_one now unix e"
    note step = cleanup_one_step [OF inv Cons a, where now = now and unix = unix]
    have exp: "engine_expired ?e now unix = engine_expired e now unix"
      by (simp add: engine_expired_def fun_eq_iff)
    obtain xs' ys' where order: "en_cleanup_order ?e = xs' @ ys'" "length xs' \<le> n"
      and ys': "\<forall>k \<in> set ys'. \<forall>a. hm_get (en_allocations ?e) k = Some a \<longrightarrow> \<not> engine_expired ?e now unix a"
    proof (cases xs)
      case Nil
      with Suc.prems(2) Cons have ys: "ys = aid # rest" by simp
      with Suc.prems(4) a have "\<not> engine_expired e now unix a" by simp
      then show ?thesis
        using that [of "[]" "rest @ [aid]"] Suc.prems(4) ys step a by (simp add: exp)
    next
      case (Cons x xs'')
      with Suc.prems \<open>en_cleanup_order e = aid # rest\<close> have x: "x = aid" "rest = xs'' @ ys"
        "length xs'' \<le> n" by auto
      show ?thesis
      proof (cases "engine_expired e now unix a")
        case True
        then show ?thesis using that [of xs'' ys] x step Suc.prems(4) by (auto simp: exp)
      next
        case False
        then show ?thesis
          using that [of xs'' "ys @ [aid]"] x step Suc.prems(4) a by (auto simp: exp)
      qed
    qed
    have "hm_get (en_allocations (cleanup_loop n now unix ?e)) k =
        (case hm_get (en_allocations ?e) k of None \<Rightarrow> None
         | Some a \<Rightarrow> if engine_expired ?e now unix a then None else Some a)"
      using Suc.IH [OF cleanup_one_inv [OF inv] order ys'] .
    then show ?thesis using Cons step(1) [of k] a by (auto simp: exp split: option.split)
  qed
qed

section \<open>Runs of the listener\<close>

datatype engine_event = Packet socket_addr bytes instant u64 | Tick instant u64

fun engine_react :: "fm_crypto \<Rightarrow> engine \<Rightarrow> engine_event \<Rightarrow> engine \<times> outgoing list" where
  "engine_react cr e (Packet src p now unix) = engine_handle cr e src p now unix"
| "engine_react cr e (Tick now unix) = (engine_cleanup e now unix, [])"

inductive engine_reachable :: "fm_crypto \<Rightarrow> engine \<Rightarrow> engine \<Rightarrow> bool" for cr e0 where
  start: "engine_reachable cr e0 e0"
| react: "engine_reachable cr e0 e \<Longrightarrow> engine_reachable cr e0 (fst (engine_react cr e ev))"

lemma engine_react_inv [inv_intros]: "engine_inv e \<Longrightarrow> engine_inv (fst (engine_react cr e ev))"
  by (cases ev) (auto intro: inv_intros)

lemma engine_reachable_inv: "engine_reachable cr e0 e \<Longrightarrow> engine_inv e0 \<Longrightarrow> engine_inv e"
  by (induction rule: engine_reachable.induct) (auto intro: inv_intros)

section \<open>Replay across a whole run\<close>

text \<open>A sequence number the window refuses stays refused.\<close>

lemma replay_refused_stable:
  assumes "replay_rel w A" "\<not> snd (replay_accept w s)"
  shows "\<not> snd (replay_accept (fst (replay_accept w t)) s)"
proof -
  let ?B = "if replay_spec_accept A (unat t) then insert (unat t) A else A"
  have "\<not> replay_spec_accept A (unat s)" using assms replay_accept_refines(1) by blast
  then have "\<not> replay_spec_accept ?B (unat s)" by (auto simp: replay_spec_accept_def)
  then show ?thesis
    using replay_accept_refines(1) [OF replay_accept_refines(2) [OF assms(1)]] by blast
qed

lemma replay_accepted_refused:
  assumes "replay_rel w A"
  shows "\<not> snd (replay_accept (fst (replay_accept w s)) s)"
proof -
  let ?B = "if replay_spec_accept A (unat s) then insert (unat s) A else A"
  have "\<not> replay_spec_accept ?B (unat s)" by (auto simp: replay_spec_accept_def)
  then show ?thesis
    using replay_accept_refines(1) [OF replay_accept_refines(2) [OF assms(1)]] by blast
qed

text \<open>The replay window of one role of one allocation.\<close>

definition media_window :: "engine \<Rightarrow> bytes \<Rightarrow> u8 \<Rightarrow> replay_window option" where
  "media_window e aid role = (case hm_get (en_allocations e) aid of None \<Rightarrow> None
     | Some a \<Rightarrow> map_option bd_replay (al_binding role a))"

lemma media_window_cong:
  "en_allocations e' = en_allocations e \<Longrightarrow> media_window e' aid role = media_window e aid role"
  by (simp add: media_window_def)

lemma media_window_rel:
  "engine_inv e \<Longrightarrow> media_window e aid role = Some w \<Longrightarrow> \<exists>A. replay_rel w A"
  by (auto simp: media_window_def binding_ok_def split: option.splits
      dest!: engine_invD(3) allocation_ok_binding)

lemma media_window_admissible:
  "media_admissible e src p h now unix a b peer t \<Longrightarrow>
   media_window e (h_allocation_id h) (h_role h) = Some (bd_replay b)"
  by (simp add: media_admissible_def media_window_def)

lemma media_window_stored:
  assumes "role_ok role" "role_ok (h_role h)" "en_allocations e' = media_stored e h b a'"
    "hm_get (en_allocations e) (h_allocation_id h) = Some a"
    "a' = a \<or> a' = a\<lparr>al_last_activity := now\<rparr>"
  shows "media_window e' aid role =
    (if aid = h_allocation_id h \<and> role = h_role h then Some (bd_replay b) else media_window e aid role)"
  using assms(3,4,5) al_binding_set [OF assms(1,2)] by (auto simp: media_window_def media_stored_def)

text \<open>A MEDIA datagram moves at most the window of its own sender, by one number.\<close>

lemma handle_media_window:
  assumes "role_ok role" "role_ok (h_role h)" "media_window e aid role = Some w"
  obtains t where "media_window (fst (handle_media e src p h now unix)) aid role = Some w
    \<or> media_window (fst (handle_media e src p h now unix)) aid role = Some (fst (replay_accept w t))"
proof -
  obtain e' out where res: "handle_media e src p h now unix = (e', out)" by fastforce
  have stored: "\<exists>t. media_window e' aid role = Some w
      \<or> media_window e' aid role = Some (fst (replay_accept w t))"
    if adm: "media_admissible e src p h now unix a b peer t"
      and eq: "en_allocations e' = media_stored e h b' a'"
      and a': "a' = a \<or> a' = a\<lparr>al_last_activity := now\<rparr>"
      and b': "bd_replay b' = fst (replay_accept (bd_replay b) t)" for a b peer t b' a'
  proof -
    have "hm_get (en_allocations e) (h_allocation_id h) = Some a"
      using adm by (simp add: media_admissible_def)
    from media_window_stored [OF assms(1,2) eq this a'] show ?thesis
      using assms(3) b' media_window_admissible [OF adm] by (cases "aid = h_allocation_id h \<and> role = h_role h") auto
  qed
  from res assms(2) have "\<exists>t. media_window e' aid role = Some w
      \<or> media_window e' aid role = Some (fst (replay_accept w t))"
  proof (cases rule: handle_media_cases)
    case dropped
    then show ?thesis using assms(3) media_window_cong by metis
  next
    case (replayed a b peer t)
    then show ?thesis by (intro stored [OF replayed(1,4)]) simp_all
  next
    case (limited a b peer t)
    then show ?thesis by (intro stored [OF limited(1,4)]) simp_all
  next
    case (forwarded a b peer t)
    then show ?thesis by (intro stored [OF forwarded(1,5)]) simp_all
  qed
  then show ?thesis using that by (auto simp: res)
qed

text \<open>A BIND never resets a window: a rebind moves the address and keeps the window.\<close>

lemma bind_granted_window:
  assumes "role_ok role" "role_ok (h_role h)" "media_window e aid role = Some w"
  shows "media_window (fst (bind_granted e src h g i now)) aid role = Some w"
proof -
  obtain e' out where res: "bind_granted e src h g i now = (e', out)" by fastforce
  note set = al_binding_set [OF assms(1,2)]
  have upd: "media_window e' aid role = Some w"
    if "en_allocations e' = hm_insert (h_allocation_id h) a (en_allocations e)"
      "aid = h_allocation_id h \<Longrightarrow> map_option bd_replay (al_binding role a) = Some w" for a
    using that assms(3) by (simp add: media_window_def)
  have old: "map_option bd_replay (al_binding role a) = Some w"
    if "hm_get (en_allocations e) (h_allocation_id h) = Some a" "aid = h_allocation_id h" for a
    using that assms(3) by (simp add: media_window_def)
  from res have "media_window e' aid role = Some w"
  proof (cases rule: bind_granted_cases)
    case full
    then show ?thesis using assms(3) by (simp add: media_window_def)
  next
    case (mismatch a)
    then show ?thesis using assms(3) by (simp add: media_window_def)
  next
    case (refreshed a b)
    show ?thesis by (rule upd [OF refreshed(7)]) (use old [OF refreshed(1)] in simp)
  next
    case (limited a b)
    show ?thesis by (rule upd [OF limited(8)]) (use old [OF limited(1)] in simp)
  next
    case (rebound a b)
    show ?thesis by (rule upd [OF rebound(8)]) (use old [OF rebound(1)] rebound(4) set in auto)
  next
    case (joined a)
    show ?thesis by (rule upd [OF joined(6)]) (use old [OF joined(1)] joined(4) set in auto)
  next
    case created
    show ?thesis by (rule upd [OF created(4)]) (use created(1) assms(3) in \<open>simp add: media_window_def\<close>)
  qed
  then show ?thesis by (simp add: res)
qed

lemma handle_bind_window:
  assumes "role_ok role" "role_ok (h_role h)" "media_window e aid role = Some w"
  shows "media_window (fst (handle_bind cr e src p h now unix)) aid role = Some w"
proof (cases rule: handle_bind_cases [of cr e src p h now unix])
  case refused
  then show ?thesis using assms(3) by (simp add: media_window_def)
next
  case (granted g i)
  then show ?thesis using bind_granted_window [OF assms] by simp
qed

lemma handle_hello_allocations [simp]:
  "en_allocations (fst (handle_hello cr e src p h unix)) = en_allocations e"
  by (simp add: handle_hello_def Let_def)

lemma engine_handle_window:
  assumes "role_ok role" "media_window e aid role = Some w"
  obtains t where "media_window (fst (engine_handle cr e src p now unix)) aid role = Some w
    \<or> media_window (fst (engine_handle cr e src p now unix)) aid role = Some (fst (replay_accept w t))"
proof (cases "header_parse p")
  case None
  then show ?thesis using that assms by (simp add: engine_handle_def media_window_def)
next
  case (Some h)
  note role = header_parse_role [OF Some]
  let ?e = "fst (allow_source e (sock_ip src) (length p) now)"
  have w: "media_window ?e aid role = Some w" using assms(2) by (simp add: media_window_def)
  obtain t where t: "media_window (fst (handle_media ?e src p h now unix)) aid role = Some w
    \<or> media_window (fst (handle_media ?e src p h now unix)) aid role = Some (fst (replay_accept w t))"
    using handle_media_window [OF assms(1) role w] .
  have "media_window (increment c ?e) aid role = Some w"
    "media_window (fst (handle_hello cr ?e src p h unix)) aid role = Some w" for c
    using w by (simp_all add: media_window_def)
  with t handle_bind_window [OF assms(1) role w] Some show ?thesis
    using that [of t] by (simp add: engine_handle_def split_beta Let_def split: if_splits)
qed

lemma cleanup_loop_get:
  "engine_inv e \<Longrightarrow> hm_get (en_allocations (cleanup_loop n now unix e)) k = Some a \<Longrightarrow>
   hm_get (en_allocations e) k = Some a"
proof (induction n arbitrary: e)
  case (Suc n)
  show ?case
  proof (cases "en_cleanup_order e")
    case (Cons aid rest)
    with engine_invD(4) [OF Suc.prems(1), of aid] obtain c where
      "hm_get (en_allocations e) aid = Some c" by auto
    note step = cleanup_one_step(1) [OF Suc.prems(1) Cons this, of now unix]
    have "hm_get (en_allocations (cleanup_one now unix e)) k = Some a"
      using Suc.IH [OF cleanup_one_inv [OF Suc.prems(1)]] Suc.prems(2) Cons by simp
    then show ?thesis using step [of k] by (simp split: if_splits)
  qed (use Suc.prems in simp)
qed simp

text \<open>Runs in which an allocation stays in the table.\<close>

inductive engine_alive :: "fm_crypto \<Rightarrow> bytes \<Rightarrow> engine \<Rightarrow> engine \<Rightarrow> bool" for cr aid e0 where
  here: "engine_alive cr aid e0 e0"
| onward: "engine_alive cr aid e0 e \<Longrightarrow>
     hm_get (en_allocations (fst (engine_react cr e ev))) aid \<noteq> None \<Longrightarrow>
     engine_alive cr aid e0 (fst (engine_react cr e ev))"

lemma engine_alive_refused:
  assumes "engine_alive cr aid e0 e" "engine_inv e0" "role_ok role"
    "media_window e0 aid role = Some w0" "\<not> snd (replay_accept w0 s)"
  shows "engine_inv e \<and> (\<exists>w. media_window e aid role = Some w \<and> \<not> snd (replay_accept w s))"
  using assms
proof (induction rule: engine_alive.induct)
  case (onward e ev)
  then obtain w where inv: "engine_inv e" and w: "media_window e aid role = Some w"
    "\<not> snd (replay_accept w s)" by auto
  from media_window_rel [OF inv w(1)] obtain A where A: "replay_rel w A" ..
  show ?case
  proof (cases ev)
    case (Packet src p now unix)
    obtain t where "media_window (fst (engine_handle cr e src p now unix)) aid role = Some w
      \<or> media_window (fst (engine_handle cr e src p now unix)) aid role = Some (fst (replay_accept w t))"
      using engine_handle_window [OF onward.prems(2) w(1)] .
    then show ?thesis
      using engine_react_inv [OF inv, of cr ev] replay_refused_stable [OF A w(2)] w(2) Packet
      by (metis engine_react.simps(1))
  next
    case (Tick now unix)
    with onward.hyps obtain a where a: "hm_get (en_allocations (cleanup_loop 64 now unix e)) aid = Some a"
      by (auto simp: engine_cleanup_def Let_def)
    from cleanup_loop_get [OF inv this] a w Tick
    have "media_window (fst (engine_react cr e ev)) aid role = Some w"
      by (simp add: media_window_def engine_cleanup_def Let_def)
    then show ?thesis using engine_react_inv [OF inv] w(2) by blast
  qed
qed blast

section \<open>Frames and replies\<close>

lemma handle_hello_frame [simp]:
  "en_config (fst (handle_hello cr e src p h unix)) = en_config e"
  "en_cookie_key (fst (handle_hello cr e src p h unix)) = en_cookie_key e"
  by (simp_all add: handle_hello_def Let_def)

lemma handle_bind_config [simp]: "en_config (fst (handle_bind cr e src p h now unix)) = en_config e"
  by (simp add: handle_bind_def Let_def split: option.split sum.split grant_error.split)

lemma cleanup_loop_config [simp]: "en_config (cleanup_loop n now unix e) = en_config e"
  by (induction n arbitrary: e) simp_all

lemma engine_react_config [simp]: "en_config (fst (engine_react cr e ev)) = en_config e"
  by (cases ev)
    (simp_all add: engine_handle_def engine_cleanup_def split_beta Let_def split: option.split)

lemma engine_reachable_config: "engine_reachable cr e0 e \<Longrightarrow> en_config e = en_config e0"
  by (induction rule: engine_reachable.induct) simp_all

text \<open>Every reply is at most one datagram, no longer than the datagram it answers.\<close>

definition small_reply :: "bytes \<Rightarrow> outgoing list \<Rightarrow> bool" where
  "small_reply p out \<longleftrightarrow> length out \<le> 1 \<and> (\<forall>o' \<in> set out. length (og_bytes o') \<le> length p)"

lemma small_reply_Nil [simp]: "small_reply p []"
  by (simp add: small_reply_def)

lemma handle_hello_small:
  "header_ok h \<Longrightarrow> small_reply p (snd (handle_hello cr e src p h unix))"
  by (auto simp: handle_hello_def small_reply_def Let_def length_header_encode cookie_def length_slice)

lemma bind_granted_small:
  assumes "header_ok h" "32 \<le> length p"
  shows "small_reply p (snd (bind_granted e src h g i now))"
proof -
  obtain e' out where res: "bind_granted e src h g i now = (e', out)" by fastforce
  then have "out = [] \<or> out = bind_reply src h" by (cases rule: bind_granted_cases) auto
  with assms res show ?thesis by (auto simp: small_reply_def bind_reply_def length_header_encode)
qed

lemma handle_bind_small:
  assumes "header_ok h"
  shows "small_reply p (snd (handle_bind cr e src p h now unix))"
proof (cases rule: handle_bind_cases [of cr e src p h now unix])
  case refused
  then show ?thesis by simp
next
  case (granted g i)
  with assms show ?thesis by (auto simp: bind_authorised_def intro: bind_granted_small)
qed

lemma handle_media_small:
  assumes "role_ok (h_role h)"
  shows "small_reply p (snd (handle_media e src p h now unix))"
proof -
  obtain e' out where res: "handle_media e src p h now unix = (e', out)" by fastforce
  then have "out = [] \<or> (\<exists>t. out = [\<lparr>og_target = t, og_bytes = drop 32 p\<rparr>])"
    using assms by (cases rule: handle_media_cases) auto
  with res show ?thesis by (auto simp: small_reply_def)
qed

text \<open>Only an authorised BIND gives a role of an allocation a new address.\<close>

lemma bind_granted_source:
  assumes "role_ok role" "role_ok (h_role h)"
    and "hm_get (en_allocations (fst (bind_granted e src h g i now))) aid = Some a'"
    and "al_binding role a' = Some b'"
    and "\<And>a b. hm_get (en_allocations e) aid = Some a \<Longrightarrow> al_binding role a = Some b \<Longrightarrow>
      bd_source b \<noteq> bd_source b'"
  shows "aid = h_allocation_id h \<and> role = h_role h \<and> bd_source b' = src"
proof -
  obtain e' out where res: "bind_granted e src h g i now = (e', out)" by fastforce
  note set = al_binding_set [OF assms(1,2)]
  have get: "hm_get (en_allocations e') aid = Some a'" using assms(3) res by simp
  have old: False if "hm_get (en_allocations e) aid = Some a" "al_binding role a = Some b'" for a
    using assms(5) [OF that] by simp
  from res show ?thesis
  proof (cases rule: bind_granted_cases)
    case (rebound a b)
    then show ?thesis using get assms(4) old set
      by (auto split: if_splits)
  next
    case (joined a)
    then show ?thesis using get assms(4) old set
      by (auto simp: fresh_binding_def split: if_splits)
  next
    case created
    have "al_binding role (allocation_new (h_session_id h) i now) = None"
      by (simp add: al_binding_def allocation_new_def)
    then show ?thesis using created get assms(4) old set
      by (auto simp: fresh_binding_def split: if_splits)
  qed (use get assms(4) old in \<open>auto split: if_splits\<close>)
qed

lemma handle_media_source:
  assumes "role_ok role" "role_ok (h_role h)"
    and "hm_get (en_allocations (fst (handle_media e src p h now unix))) aid = Some a'"
    and "al_binding role a' = Some b'"
  shows "\<exists>a b. hm_get (en_allocations e) aid = Some a \<and> al_binding role a = Some b
    \<and> bd_source b = bd_source b'"
proof -
  obtain e' out where res: "handle_media e src p h now unix = (e', out)" by fastforce
  note set = al_binding_set [OF assms(1,2)]
  have get: "hm_get (en_allocations e') aid = Some a'" using assms(3) res by simp
  from res assms(2) show ?thesis
    by (cases rule: handle_media_cases)
      (use get assms(4) set in \<open>auto simp: media_stored_def media_admissible_def split: if_splits\<close>)
qed

lemma engine_forwarded:
  assumes "header_parse p = Some h" "h_kind h = 5"
    and "snd (engine_handle cr e src p now unix) \<noteq> []"
  shows "\<exists>a b peer s. media_admissible e src p h now unix a b peer s
    \<and> snd (replay_accept (bd_replay b) s)
    \<and> snd (engine_handle cr e src p now unix)
        = [\<lparr>og_target = bd_source peer, og_bytes = drop AKR_HEADER_BYTES p\<rparr>]"
proof -
  let ?e = "fst (allow_source e (sock_ip src) (length p) now)"
  have eq: "snd (engine_handle cr e src p now unix) = snd (handle_media ?e src p h now unix)"
    using assms by (auto simp: engine_handle_def split_beta Let_def split: if_splits)
  obtain e' out where res: "handle_media ?e src p h now unix = (e', out)" by fastforce
  have adm: "media_admissible ?e src p h now unix = media_admissible e src p h now unix"
    by (simp add: media_admissible_def fun_eq_iff)
  from res header_parse_role [OF assms(1)] show ?thesis
    by (cases rule: handle_media_cases) (use assms(3) eq res adm in auto)
qed

end
