(* ===== verification/Fast_Media_Properties.thy ===== *)
theory Fast_Media_Properties
  imports Fast_Media_Safety "HOL-Library.Code_Target_Numeral"
begin

text \<open>
  The properties of the FastMedia relay, over its model: each is a few steps from the lemmas of
  \<open>Fast_Media_Safety\<close>, \<open>Fast_Media_Wire\<close> and \<open>Fast_Media_Limits\<close>.  A small relay with two
  bound endpoints (\<open>ex_engine\<close>) serves as the concrete input of the witnesses.
\<close>

section \<open>A relay with both endpoints bound\<close>

definition ex_crypto :: fm_crypto where
  "ex_crypto = \<lparr>sign_verify = (\<lambda>m k. Some m), parse_grant = (\<lambda>p. None),
     authenticate = (\<lambda>m k. replicate 32 7), sha256 = (\<lambda>m. replicate 32 9)\<rparr>"

definition ex_config :: fm_config where
  "ex_config = \<lparr>fc_bind = SockV4 0 22119, fc_udp_port = 22119, fc_relay_server = ''relay.example:21117'',
     fc_public_key = [], fc_max_allocations = 8, fc_half_bind_ttl = from_secs 10,
     fc_idle_ttl = from_secs 30, fc_per_ip_packets_per_second = 100000,
     fc_global_packets_per_second = 100000, fc_per_ip_bytes_per_second = 100000000,
     fc_global_bytes_per_second = 100000000\<rparr>"

definition ex_counters :: fm_counters where
  "ex_counters = \<lparr>active_allocations = 0, active_streams = 0, hello_accepted = 0, cookie_rejected = 0,
     bind_succeeded = 0, bind_rejected = 0, grant_rejected = 0, role_mismatch = 0,
     session_mismatch = 0, allocation_mismatch = 0, rebinds = 0, forwarded_packets = 0,
     forwarded_bytes = 0, dropped_packets = 0, rate_limited = 0, replay_rejected = 0,
     expired_allocations = 0\<rparr>"

definition ex_binding :: "u16 \<Rightarrow> binding" where
  "ex_binding port = \<lparr>bd_source = SockV4 2130706433 port, bd_replay = replay_window_default,
     bd_limiter = role_limit_new 50000 0\<rparr>"

definition ex_allocation :: allocation where
  "ex_allocation = (allocation_new 77 \<lparr>gi_session_uuid_digest = replicate 32 9, gi_expires_at = 190,
       gi_max_bitrate_kbps = 50000, gi_max_datagram = 1200\<rparr> 0)
     \<lparr>al_controller := Some (ex_binding 5001), al_target := Some (ex_binding 5002)\<rparr>"

definition ex_engine :: engine where
  "ex_engine = (engine_new ex_config [] ex_counters 0)
     \<lparr>en_allocations := [(replicate 16 3, ex_allocation)], en_cleanup_order := [replicate 16 3]\<rparr>"

definition ex_media :: "u8 \<Rightarrow> bytes" where
  "ex_media sequence = ascii_bytes ''AKR1'' @ [1, 5, 1, 0] @ to_le_bytes 8 (77 :: u64) @ replicate 16 3
     @ ascii_bytes ''AKF1'' @ [1, 0] @ to_le_bytes 8 (77 :: u64) @ [sequence] @ replicate 74 0"

lemma ex_engine_inv: "engine_inv ex_engine"
  by (simp add: engine_inv_def ex_engine_def engine_new_def hm_eval hm_ok_def ex_config_def
      traffic_limit_new_inv allocation_ok_def ex_allocation_def allocation_new_def
      grant_invariant_ok_def rebind_window_new_inv ex_binding_def binding_ok_new)

lemma ex_word [simp]: "from_le_bytes (to_le_bytes 8 (77 :: u64)) = (77 :: u64)"
  by (rule from_to_le_bytes) simp

lemma ex_header: "header_parse (ex_media 1) =
    Some \<lparr>h_kind = 5, h_role = 1, h_session_id = 77, h_allocation_id = replicate 16 3\<rparr>"
proof -
  have len: "length (ascii_bytes ''AKR1'') = 4" "length (ascii_bytes ''AKF1'') = 4" by (simp_all add: ascii_bytes_def)
  have "slice 8 16 (ex_media 1) = to_le_bytes 8 (77 :: u64)" "slice 16 32 (ex_media 1) = replicate 16 3"
    "take 4 (ex_media 1) = ascii_bytes ''AKR1''" "ex_media 1 ! 4 = 1" "ex_media 1 ! 5 = 5" "ex_media 1 ! 6 = 1" "ex_media 1 ! 7 = 0"
    "length (ex_media 1) = 121"
    by (simp_all add: ex_media_def slice_def len nth_append del: replicate.simps replicate_Suc)
  then show ?thesis by (simp add: header_parse_def Let_def list_all_iff)
qed
lemma ex_tail: "drop 32 (ex_media 1) = ascii_bytes ''AKF1'' @ [1, 0] @ to_le_bytes 8 (77 :: u64) @ [1] @ replicate 7 0 @ replicate 67 0"
proof -
  have "replicate 74 (0 :: u8) = replicate 7 0 @ replicate 67 0" by (simp only: replicate_add [symmetric]) simp
  then show ?thesis by (simp add: ex_media_def ascii_bytes_def del: replicate.simps replicate_Suc)
qed

lemma ex_payload: "validate_akf1 (drop 32 (ex_media 1)) 1 77 = Some 1"
proof -
  have len: "length (ascii_bytes ''AKF1'') = 4" by (simp add: ascii_bytes_def)
  have s: "slice 6 14 (drop 32 (ex_media 1)) = to_le_bytes 8 (77 :: u64)" "slice 14 22 (drop 32 (ex_media 1)) = 1 # replicate 7 0"
    "take 4 (drop 32 (ex_media 1)) = ascii_bytes ''AKF1''" "drop 32 (ex_media 1) ! 4 = 1" "drop 32 (ex_media 1) ! 5 = 0"
    "length (drop 32 (ex_media 1)) = 89"
    unfolding ex_tail by (simp_all add: slice_def len nth_append del: replicate.simps replicate_Suc)
  have "from_le_bytes (1 # replicate 7 0) = (1 :: u64)" "sat_sub (1 :: u8) 1 = 0"
    by (simp_all add: numeral_eq_Suc sat_sub_def)
  then show ?thesis unfolding validate_akf1_def s by simp
qed

lemma ex_role_limit: "snd (role_limit_allow (role_limit_new 50000 0) 121 0)"
  by code_simp

lemma ex_length: "length (ex_media s) = 121"
  by (simp add: ex_media_def)

lemma ex_allow_source: "snd (allow_source ex_engine ip 121 0)"
  by (simp add: allow_source_def split_beta Let_def ex_engine_def engine_new_def ex_config_def
      traffic_limit_new_allow word_le_nat_alt hm_eval)

lemma ex_forward:
  "snd (engine_handle ex_crypto ex_engine (SockV4 2130706433 5001) (ex_media 1) 0 100)
   = [\<lparr>og_target = SockV4 2130706433 5002, og_bytes = drop 32 (ex_media 1)\<rparr>]"
proof -
  let ?e = "fst (allow_source ex_engine (IpV4 2130706433) 121 0)"
  have "hm_get (en_allocations ?e) (replicate 16 3) = Some ex_allocation"
    by (simp add: ex_engine_def hm_eval)
  moreover have "\<not> allocation_expired ex_allocation 0 100 t u" for t u
    by (simp add: allocation_expired_def ex_allocation_def allocation_new_def rust_simps)
  moreover have "snd (replay_accept replay_window_default 1)"
    by (simp add: replay_accept_def replay_window_default_def Let_def)
  ultimately show ?thesis
    using ex_role_limit
    by (simp add: engine_handle_def ex_header ex_length ex_allow_source split_beta Let_def
        handle_media_def ex_payload media_admit_def ex_allocation_def ex_binding_def
        allocation_new_def del: replicate.simps replicate_Suc)
qed

section \<open>Properties\<close>

text \<open>C1. In every reachable state of the relay the allocation table stays within the configured
  maximum, the per-address limiter table within 4096 entries, and the cleanup queue holds every
  allocation exactly once, so that no allocation escapes expiry.\<close>

theorem engine_reachable_bounded:
  assumes "engine_reachable cr (engine_new cfg key counters t0) e"
  shows "hm_len (en_allocations e) \<le> fc_max_allocations cfg
    \<and> hm_len (en_per_ip e) \<le> MAX_IP_BUCKETS
    \<and> distinct (en_cleanup_order e)
    \<and> (\<forall>aid. aid \<in> set (en_cleanup_order e) \<longleftrightarrow> hm_contains (en_allocations e) aid)"
proof -
  have "engine_inv e" using engine_reachable_inv [OF assms engine_new_inv] .
  moreover have "en_config e = cfg"
    using engine_reachable_config [OF assms] by (simp add: engine_new_def)
  ultimately show ?thesis by (auto simp: engine_inv_def hm_contains_def)
qed

theorem engine_reachable_bounded_witness:
  "let e = fst (engine_react ex_crypto (engine_new ex_config [] ex_counters 0) (Tick 5 100))
   in hm_len (en_allocations e) \<le> 8 \<and> hm_len (en_per_ip e) \<le> 4096"
  using engine_reachable_bounded [OF engine_reachable.react [OF engine_reachable.start],
      of ex_crypto ex_config "[]" ex_counters 0 "Tick 5 100"]
  by (simp add: Let_def ex_config_def)

text \<open>C2. A MEDIA datagram is forwarded only when its allocation is live, both endpoints are
  bound, the datagram came from the address bound to its role, its AKF1 frame names the role and
  session, its sequence number is fresh, and its size is within the grant; then exactly its
  payload goes to the address bound to the other role, and nowhere else.\<close>

theorem media_forward_safe:
  assumes "header_parse p = Some h" "h_kind h = 5"
    and "snd (engine_handle cr e src p now unix) \<noteq> []"
  shows "\<exists>a b peer s. media_admissible e src p h now unix a b peer s
    \<and> snd (replay_accept (bd_replay b) s)
    \<and> snd (engine_handle cr e src p now unix)
        = [\<lparr>og_target = bd_source peer, og_bytes = drop AKR_HEADER_BYTES p\<rparr>]"
  using assms by (rule engine_forwarded)

theorem media_forward_safe_witness:
  "\<exists>h a b peer s. media_admissible ex_engine (SockV4 2130706433 5001) (ex_media 1) h 0 100 a b peer s
    \<and> snd (replay_accept (bd_replay b) s)"
  using media_forward_safe [OF ex_header, of ex_crypto ex_engine "SockV4 2130706433 5001" 0 100]
  by (simp add: ex_forward) blast

text \<open>C3. No sequence number is forwarded twice: once a MEDIA datagram of a role of an
  allocation has been forwarded, then after any further events during which the allocation stays
  in the table, rebinds included, a datagram of that role with the same sequence number is not
  forwarded.\<close>

theorem media_forwarded_once:
  assumes inv: "engine_inv e"
    and first: "header_parse p = Some h" "h_kind h = 5"
      "validate_akf1 (drop AKR_HEADER_BYTES p) (h_role h) (h_session_id h) = Some s"
      "snd (engine_handle cr e src p now unix) \<noteq> []"
    and run: "engine_alive cr (h_allocation_id h) (fst (engine_handle cr e src p now unix)) e2"
    and again: "header_parse p' = Some h'" "h_kind h' = 5" "h_role h' = h_role h"
      "h_allocation_id h' = h_allocation_id h"
      "validate_akf1 (drop AKR_HEADER_BYTES p') (h_role h') (h_session_id h') = Some s"
  shows "snd (engine_handle cr e2 src' p' now' unix') = []"
proof (rule ccontr)
  assume "snd (engine_handle cr e2 src' p' now' unix') \<noteq> []"
  from engine_forwarded [OF again(1,2) this] again(5) obtain a2 b2 peer2 where
    adm2: "media_admissible e2 src' p' h' now' unix' a2 b2 peer2 s" and
    acc2: "snd (replay_accept (bd_replay b2) s)"
    by (auto simp: media_admissible_def)
  let ?e = "fst (allow_source e (sock_ip src) (length p) now)"
  note role = header_parse_role [OF first(1)]
  have eq: "engine_handle cr e src p now unix = handle_media ?e src p h now unix"
    using first by (auto simp: engine_handle_def split_beta Let_def split: if_splits)
  obtain e' out where res: "handle_media ?e src p h now unix = (e', out)" by fastforce
  have "\<exists>w. media_window e' (h_allocation_id h) (h_role h) = Some w \<and> \<not> snd (replay_accept w s)"
    using res role
  proof (cases rule: handle_media_cases)
    case (forwarded a b peer t)
    have t: "t = s" and get: "hm_get (en_allocations ?e) (h_allocation_id h) = Some a"
      using forwarded(1) first(3) by (auto simp: media_admissible_def)
    from media_window_rel [OF allow_source_inv [OF inv] media_window_admissible [OF forwarded(1)]]
    obtain A where "replay_rel (bd_replay b) A" ..
    from replay_accepted_refused [OF this, of s] show ?thesis
      using media_window_stored [OF role role forwarded(5) get, of now "h_allocation_id h"] t by auto
  qed (use first(4) eq res in auto)
  moreover have "engine_inv e'"
    using handle_media_inv [OF allow_source_inv [OF inv] role, of "sock_ip src" "length p" now src p now unix]
    by (simp add: res)
  ultimately obtain w where "media_window e2 (h_allocation_id h) (h_role h) = Some w"
    "\<not> snd (replay_accept w s)"
    using engine_alive_refused [OF run] role eq res by (metis fst_conv)
  with media_window_admissible [OF adm2] acc2 again show False by simp
qed

theorem media_forwarded_once_witness:
  "snd (engine_handle ex_crypto
      (fst (engine_handle ex_crypto ex_engine (SockV4 2130706433 5001) (ex_media 1) 0 100))
      (SockV4 2130706433 5001) (ex_media 1) 1 100) = []"
  by (rule media_forwarded_once [OF ex_engine_inv ex_header _ _ _ _ ex_header, where s = 1
        and src = "SockV4 2130706433 5001" and now = 0 and unix = 100])
    (simp_all add: ex_payload ex_forward engine_alive.here)

text \<open>C4. The relay cannot be used for amplification: whatever the state, a datagram is answered
  by at most one datagram, which is no longer than the one received.\<close>

theorem engine_no_amplification:
  "length (snd (engine_handle cr e src p now unix)) \<le> 1
   \<and> (\<forall>out \<in> set (snd (engine_handle cr e src p now unix)). length (og_bytes out) \<le> length p)"
proof (cases "header_parse p")
  case None
  then show ?thesis by (simp add: engine_handle_def)
next
  case (Some h)
  note ok = header_parse_ok [OF Some] and role = header_parse_role [OF Some]
  have "small_reply p (snd (engine_handle cr e src p now unix))"
    using Some handle_hello_small [OF ok] handle_bind_small [OF ok] handle_media_small [OF role]
    by (simp add: engine_handle_def split_beta Let_def)
  then show ?thesis by (simp add: small_reply_def)
qed

theorem engine_no_amplification_witness:
  "length (og_bytes (hd (snd (engine_handle ex_crypto ex_engine (SockV4 2130706433 5001) (ex_media 1) 0 100)))) \<le> 121"
  using engine_no_amplification [of ex_crypto ex_engine "SockV4 2130706433 5001" "ex_media 1" 0 100]
  by (simp add: ex_forward ex_length)

text \<open>C5. An address becomes the binding of a role of an allocation only by a BIND datagram from
  that address for that role and allocation, carrying the cookie issued to the address in this or
  the previous epoch and a grant that verifies under the server key and passes every check.\<close>

theorem bind_requires_grant:
  assumes "role_ok role"
    and "hm_get (en_allocations (fst (engine_handle cr e src p now unix))) aid = Some a'"
    and "al_binding role a' = Some b'"
    and "\<And>a b. hm_get (en_allocations e) aid = Some a \<Longrightarrow> al_binding role a = Some b \<Longrightarrow>
      bd_source b \<noteq> bd_source b'"
  shows "\<exists>h g i. header_parse p = Some h \<and> h_kind h = 3 \<and> aid = h_allocation_id h
    \<and> role = h_role h \<and> bd_source b' = src \<and> bind_authorised cr e src p h unix g i"
proof -
  have unchanged: False if "hm_get (en_allocations e) aid = Some a'" using assms(3,4) that by blast
  obtain h where h: "header_parse p = Some h"
    using assms(2) unchanged by (auto simp: engine_handle_def split: option.splits)
  note role = header_parse_role [OF h]
  let ?e = "fst (allow_source e (sock_ip src) (length p) now)"
  have get: "hm_get (en_allocations ?e) k = hm_get (en_allocations e) k" for k by simp
  have no5: False if "fst (engine_handle cr e src p now unix) = fst (handle_media ?e src p h now unix)"
    using handle_media_source [OF assms(1) role, of ?e src p now unix aid a' b'] that assms(2-4) by auto
  have bind: "fst (engine_handle cr e src p now unix) = fst (handle_bind cr ?e src p h now unix)"
    and kind: "h_kind h = 3"
    using assms(2) unchanged no5 h
    by (auto simp: engine_handle_def split_beta Let_def split: if_splits)
  show ?thesis
  proof (cases rule: handle_bind_cases [of cr ?e src p h now unix])
    case refused
    then show ?thesis using assms(2) bind unchanged by simp
  next
    case (granted g i)
    have "aid = h_allocation_id h \<and> role = h_role h \<and> bd_source b' = src"
      using bind_granted_source [OF assms(1) role _ assms(3), of ?e src g i now aid]
        assms(2,4) bind granted(2) get by auto
    moreover have "bind_authorised cr e src p h unix g i"
      using granted(1) by (simp add: bind_authorised_def cookie_valid_def)
    ultimately show ?thesis using h kind by blast
  qed
qed

definition ex_bind :: bytes where
  "ex_bind = ascii_bytes ''AKR1'' @ [1, 3, 1, 0] @ to_le_bytes 8 (77 :: u64) @ replicate 16 3
     @ replicate 16 5 @ replicate 8 7 @ [2, 0] @ [42, 43]"

definition ex_grant :: fast_relay_authorization where
  "ex_grant = \<lparr>fa_version = 1, fa_session_uuid = ''session'', fa_expires_at = 190,
     fa_allow_fast_compat = True, fa_allow_fast_media_v1 = True, fa_max_bitrate_kbps = 50000,
     fa_relay_udp_protocol = 1, fa_relay_server = ''relay.example:21117'', fa_relay_udp_port = 22119,
     fa_relay_allocation_id = replicate 16 3, fa_relay_max_datagram = 1200,
     fa_relay_endpoint_role = 1\<rparr>"

lemma ex_bind_header: "header_parse ex_bind =
    Some \<lparr>h_kind = 3, h_role = 1, h_session_id = 77, h_allocation_id = replicate 16 3\<rparr>"
  by code_simp

lemma ex_bind_parts: "length ex_bind = 60" "slice 48 56 ex_bind = replicate 8 7"
  "unat (from_le_bytes [ex_bind ! 56, ex_bind ! 57] :: u16) = 2"
  by code_simp+

text \<open>A BIND to an empty relay creates the allocation with its sender bound.\<close>

lemma ex_bind_created:
  fixes src :: socket_addr
  defines "e \<equiv> fst (engine_handle (ex_crypto\<lparr>parse_grant := \<lambda>p. Some ex_grant\<rparr>)
    (engine_new ex_config [] ex_counters 0) src ex_bind 0 100)"
  shows "\<exists>a. hm_get (en_allocations e) (replicate 16 3) = Some a
    \<and> al_binding 1 a = Some (fresh_binding src ex_grant 0)"
proof -
  let ?e0 = "engine_new ex_config [] ex_counters 0"
  let ?h = "\<lparr>h_kind = 3, h_role = 1, h_session_id = 77, h_allocation_id = replicate 16 3\<rparr>"
  let ?cr = "ex_crypto\<lparr>parse_grant := \<lambda>p. Some ex_grant\<rparr>"
  let ?e1 = "fst (allow_source ?e0 (sock_ip src) 60 0)"
  have "snd (allow_source ?e0 (sock_ip src) 60 0)"
    by (simp add: allow_source_def split_beta Let_def engine_new_def ex_config_def
        traffic_limit_new_allow word_le_nat_alt hm_eval)
  then have "e = fst (handle_bind ?cr ?e1 src ex_bind ?h 0 100)"
    by (simp add: e_def engine_handle_def ex_bind_header ex_bind_parts split_beta Let_def)
  also obtain i where "grant_validated ?cr ex_grant ?h ''relay.example:21117'' 22119 100 = Inr i"
    by (auto simp: grant_validated_def ex_grant_def sat_add_def)
  then have "handle_bind ?cr ?e1 src ex_bind ?h 0 100 = bind_granted ?e1 src ?h ex_grant i 0"
    by (simp add: handle_bind_def ex_bind_parts cookie_valid_def Let_def cookie_def ex_crypto_def
        engine_new_def ex_config_def del: from_le_bytes.simps)
  finally show ?thesis
    by (simp add: bind_granted_def Let_def engine_new_def hm_eval ex_config_def allocation_new_def
        al_binding_def set_binding_def fresh_binding_def del: replicate.simps replicate_Suc)
qed

theorem bind_requires_grant_witness:
  "\<exists>h g i. header_parse ex_bind = Some h \<and> h_kind h = 3
    \<and> bind_authorised (ex_crypto\<lparr>parse_grant := \<lambda>p. Some ex_grant\<rparr>)
        (engine_new ex_config [] ex_counters 0) (SockV4 9 9) ex_bind h 100 g i"
proof -
  obtain a where "hm_get (en_allocations (fst (engine_handle
      (ex_crypto\<lparr>parse_grant := \<lambda>p. Some ex_grant\<rparr>) (engine_new ex_config [] ex_counters 0)
      (SockV4 9 9) ex_bind 0 100))) (replicate 16 3) = Some a"
    "al_binding 1 a = Some (fresh_binding (SockV4 9 9) ex_grant 0)"
    using ex_bind_created by blast
  from bind_requires_grant [OF _ this] show ?thesis
    by (auto simp: role_ok_def engine_new_def hm_eval)
qed

text \<open>C6. A cleanup tick that finds at most 64 queued allocations removes exactly the expired
  ones and keeps every other allocation unchanged.\<close>

theorem cleanup_removes_expired:
  assumes "engine_inv e" "length (en_cleanup_order e) \<le> CLEANUP_PER_TICK"
  shows "hm_get (en_allocations (engine_cleanup e now unix)) k =
    (case hm_get (en_allocations e) k of None \<Rightarrow> None
     | Some a \<Rightarrow> if allocation_expired a now unix (fc_half_bind_ttl (en_config e))
                    (fc_idle_ttl (en_config e)) then None else Some a)"
  using cleanup_loop_removes [OF assms(1), of "en_cleanup_order e" "[]" 64 now unix k] assms(2)
  by (simp add: engine_cleanup_def Let_def engine_expired_def split: option.split)

theorem cleanup_removes_expired_witness:
  "hm_get (en_allocations (engine_cleanup ex_engine (from_secs 40) 100)) (replicate 16 3) = None"
  using cleanup_removes_expired [OF ex_engine_inv, of "from_secs 40" 100 "replicate 16 3"]
  by (simp add: ex_engine_def engine_new_def hm_eval ex_allocation_def allocation_new_def
      allocation_expired_def rust_simps ex_config_def)

text \<open>C7. The 128-bit replay window decides exactly as the set of accepted sequence numbers:
  over any sequence of numbers from a fresh window it accepts the ones that are positive, not
  accepted before and less than 128 behind the newest, so it accepts no number twice.\<close>

theorem replay_window_exact:
  "map unat (snd (gate_run replay_accept replay_window_default ss))
     = snd (replay_spec_run {} (map unat ss))
   \<and> distinct (snd (gate_run replay_accept replay_window_default ss))"
proof -
  have eq: "map unat (snd (gate_run replay_accept replay_window_default ss))
      = snd (replay_spec_run {} (map unat ss))"
    using replay_run_refines [OF replay_rel_default, of ss] by blast
  moreover have "distinct (snd (replay_spec_run {} (map unat ss)))"
    using replay_spec_run_accepted [of "{}"] by blast
  ultimately show ?thesis by (metis distinct_map)
qed

text \<open>C8. Rate limits: a fresh token bucket admits in one instant no more than its capacity, and
  within one minute of its start a rebind window admits at most twelve rebinds.\<close>

theorem limiters_bound_bursts:
  assumes "1 \<le> c" "unat c < 2 ^ 53" "list_all (\<lambda>t. t < t0 + from_secs 60) ts"
  shows "sum_list (map unat (snd (gate_run (\<lambda>b n. token_bucket_allow b n now)
      (token_bucket_new r c now) ns))) \<le> unat c
    \<and> length (snd (gate_run rebind_window_allow (rebind_window_new t0) ts)) \<le> 12"
proof
  have "tb_level (token_bucket_new r c now) = unat c"
    using assms by (simp add: tb_level_def token_bucket_new_def max_def f64_of_nat_exact del: of_nat_unat)
  then show "sum_list (map unat (snd (gate_run (\<lambda>b n. token_bucket_allow b n now)
      (token_bucket_new r c now) ns))) \<le> unat c"
    using burst.run_within_budget [OF whole_bucket_new [OF assms(2,1)], of ns now r]
    by (simp add: list_all_iff)
  show "length (snd (gate_run rebind_window_allow (rebind_window_new t0) ts)) \<le> 12"
    using rebind_budget.run_within_budget [of "rebind_window_new t0" t0 ts] assms(3)
    by (simp add: rebind_window_new_def rebind_window_inv_def map_replicate_const sum_list_replicate)
qed

theorem limiters_bound_bursts_witness:
  "sum_list (map unat (snd (gate_run (\<lambda>b n. token_bucket_allow b n 0)
      (token_bucket_new 10 1000 0) [600, 300, 200, 100]))) \<le> 1000
    \<and> length (snd (gate_run rebind_window_allow (rebind_window_new 0) (replicate 20 5))) \<le> 12"
  using limiters_bound_bursts [of 1000 0 "replicate 20 5" 0 10 "[600, 300, 200, 100]"]
  by (simp add: word_le_nat_alt rust_simps list_all_iff)

end
