(* ===== verification/Rust_Text.thy ===== *)
theory Rust_Text
  imports Starry_Prelude
begin

text \<open>
  Text as the list of its Unicode scalar values, for the code that walks strings by \<open>chars()\<close>:
  white space, \<open>trim\<close>, ASCII case folding, substring search, UTF-8 lengths and
  \<open>parse::<u32>()\<close>, as the Rust standard library defines them.
\<close>

type_synonym uchar = nat
type_synonym utext = "uchar list"

definition lit :: "string \<Rightarrow> utext" where
  "lit s = map of_char s"

text \<open>The Unicode property \<open>White_Space\<close>.\<close>

definition is_whitespace :: "uchar \<Rightarrow> bool" where
  "is_whitespace c \<longleftrightarrow> (9 \<le> c \<and> c \<le> 13) \<or> c = 32 \<or> c = 133 \<or> c = 160 \<or> c = 5760
     \<or> (8192 \<le> c \<and> c \<le> 8202) \<or> c = 8232 \<or> c = 8233 \<or> c = 8239 \<or> c = 8287 \<or> c = 12288"

definition trim_start :: "utext \<Rightarrow> utext" where
  "trim_start s = dropWhile is_whitespace s"

definition trim :: "utext \<Rightarrow> utext" where
  "trim s = rev (dropWhile is_whitespace (rev (trim_start s)))"

definition len_utf8 :: "uchar \<Rightarrow> nat" where
  "len_utf8 c = (if c < 128 then 1 else if c < 2048 then 2 else if c < 65536 then 3 else 4)"

definition utf8_len :: "utext \<Rightarrow> nat" where
  "utf8_len s = sum_list (map len_utf8 s)"

definition to_lower :: "uchar \<Rightarrow> uchar" where
  "to_lower c = (if 65 \<le> c \<and> c \<le> 90 then c + 32 else c)"

definition to_upper :: "uchar \<Rightarrow> uchar" where
  "to_upper c = (if 97 \<le> c \<and> c \<le> 122 then c - 32 else c)"

definition to_ascii_lowercase :: "utext \<Rightarrow> utext" where
  "to_ascii_lowercase s = map to_lower s"

definition to_ascii_uppercase :: "utext \<Rightarrow> utext" where
  "to_ascii_uppercase s = map to_upper s"

definition text_eq_ignore_case :: "utext \<Rightarrow> utext \<Rightarrow> bool" where
  "text_eq_ignore_case a b \<longleftrightarrow> to_ascii_lowercase a = to_ascii_lowercase b"

definition is_ascii_alphabetic :: "uchar \<Rightarrow> bool" where
  "is_ascii_alphabetic c \<longleftrightarrow> (65 \<le> c \<and> c \<le> 90) \<or> (97 \<le> c \<and> c \<le> 122)"

text \<open>\<open>str::contains\<close>.\<close>

fun text_contains :: "utext \<Rightarrow> utext \<Rightarrow> bool" where
  "text_contains [] pat = (pat = [])"
| "text_contains (c # s) pat = (take (length pat) (c # s) = pat \<or> text_contains s pat)"

text \<open>\<open>split_once\<close>: the text before and after the first occurrence of a character.\<close>

fun split_once :: "uchar \<Rightarrow> utext \<Rightarrow> (utext \<times> utext) option" where
  "split_once d [] = None"
| "split_once d (c # s) = (if c = d then Some ([], s)
     else map_option (\<lambda>(a, b). (c # a, b)) (split_once d s))"

text \<open>
  \<open>parse::<u32>()\<close>: an optional plus sign and at least one decimal digit; a value outside the
  type is an error.
\<close>

definition is_digit :: "uchar \<Rightarrow> bool" where
  "is_digit c \<longleftrightarrow> 48 \<le> c \<and> c \<le> 57"

fun digits_value :: "nat \<Rightarrow> utext \<Rightarrow> nat" where
  "digits_value acc [] = acc"
| "digits_value acc (c # s) = digits_value (10 * acc + (c - 48)) s"

definition parse_unsigned :: "nat \<Rightarrow> utext \<Rightarrow> nat option" where
  "parse_unsigned limit s =
     (let ds = (case s of c # cs \<Rightarrow> if c = 43 \<and> cs \<noteq> [] then cs else s | [] \<Rightarrow> s)
      in if ds = [] \<or> \<not> list_all is_digit ds then None
         else (let v = digits_value 0 ds in if v \<le> limit then Some v else None))"

definition parse_u32 :: "utext \<Rightarrow> u32 option" where
  "parse_u32 s = map_option of_nat (parse_unsigned (2 ^ 32 - 1) s)"

section \<open>Trimmed text\<close>

lemma trim_start_suffix: "\<exists>ws. s = ws @ trim_start s"
  by (metis takeWhile_dropWhile_id trim_start_def)

lemma length_trim_start: "length (trim_start s) \<le> length s"
  by (simp add: trim_start_def length_dropWhile_le)

lemma trim_id_iff: "trim s = s \<longleftrightarrow> s = [] \<or> \<not> is_whitespace (hd s) \<and> \<not> is_whitespace (last s)"
proof (cases s)
  case Nil
  then show ?thesis by (simp add: trim_def trim_start_def)
next
  case (Cons c cs)
  have drop_id: "dropWhile P (x # xs) = x # xs \<longleftrightarrow> \<not> P x" for P and x :: nat and xs
    using length_dropWhile_le [of P xs] by (auto dest: arg_cong [of _ _ length])
  show ?thesis
  proof (cases "is_whitespace c")
    case True
    have "length (trim s) \<le> length (trim_start s)"
      unfolding trim_def by (metis length_rev length_dropWhile_le)
    also have "\<dots> < length s"
      using True length_dropWhile_le [of is_whitespace cs] by (simp add: Cons trim_start_def)
    finally show ?thesis using True Cons by auto
  next
    case False
    obtain xs x where r: "s = xs @ [x]" using Cons by (metis append_butlast_last_id list.distinct(1))
    have "trim s = s \<longleftrightarrow> dropWhile is_whitespace (rev s) = rev s"
      using False by (simp add: trim_def trim_start_def Cons)
    also have "\<dots> \<longleftrightarrow> \<not> is_whitespace x" by (simp add: r drop_id del: dropWhile.simps)
    also have "x = last s" by (simp add: r)
    finally have "trim s = s \<longleftrightarrow> \<not> is_whitespace (last s)" .
    then show ?thesis using False by (simp add: Cons)
  qed
qed

lemma to_upper_idem [simp]: "to_ascii_uppercase (to_ascii_uppercase s) = to_ascii_uppercase s"
  by (auto simp: to_ascii_uppercase_def to_upper_def)

lemma text_eq_ignore_case_refl [simp]: "text_eq_ignore_case s s"
  by (simp add: text_eq_ignore_case_def)

section \<open>Decimal numbers\<close>

function print_nat :: "nat \<Rightarrow> utext" where
  "print_nat n = (if n < 10 then [48 + n] else print_nat (n div 10) @ [48 + n mod 10])"
  by pat_completeness auto
termination
  by (relation "measure (\<lambda>n. n)") auto

declare print_nat.simps [simp del]

lemma digits_value_append: "digits_value a (xs @ [c]) = 10 * digits_value a xs + (c - 48)"
  by (induction xs arbitrary: a) simp_all

lemma print_nat_correct:
  "list_all is_digit (print_nat n) \<and> print_nat n \<noteq> [] \<and> digits_value 0 (print_nat n) = n"
proof (induction n rule: print_nat.induct)
  case (1 n)
  then show ?case
    by (cases "n < 10")
      (auto simp: print_nat.simps [of n] is_digit_def digits_value_append)
qed

lemma parse_print_nat:
  assumes "n \<le> limit"
  shows "parse_unsigned limit (print_nat n) = Some n"
proof -
  note p = print_nat_correct [of n]
  then have "(case print_nat n of c # cs \<Rightarrow> if c = 43 \<and> cs \<noteq> [] then cs else print_nat n
      | [] \<Rightarrow> print_nat n) = print_nat n"
    by (auto simp: is_digit_def split: list.splits)
  with p assms show ?thesis by (simp add: parse_unsigned_def Let_def)
qed

lemma parse_print_u32: "parse_u32 (print_nat (unat (n :: u32))) = Some n"
proof -
  have "unat n < 2 ^ 32" using unsigned_less [of n] by simp
  then have "unat n \<le> 2 ^ 32 - 1" by linarith
  then show ?thesis by (simp add: parse_u32_def parse_print_nat)
qed

section \<open>UTF-8\<close>

text \<open>\<open>as_bytes\<close>, and \<open>String::truncate\<close>, which panics (\<open>None\<close>) inside a character.\<close>

definition utf8_char :: "uchar \<Rightarrow> u8 list" where
  "utf8_char c =
     (if c < 128 then [of_nat c]
      else if c < 2048 then [of_nat (192 + c div 64), of_nat (128 + c mod 64)]
      else if c < 65536 then [of_nat (224 + c div 4096), of_nat (128 + c div 64 mod 64), of_nat (128 + c mod 64)]
      else [of_nat (240 + c div 262144), of_nat (128 + c div 4096 mod 64), of_nat (128 + c div 64 mod 64),
            of_nat (128 + c mod 64)])"

definition as_bytes :: "utext \<Rightarrow> u8 list" where
  "as_bytes s = concat (map utf8_char s)"

lemma length_as_bytes: "length (as_bytes s) = utf8_len s"
  by (induction s) (simp_all add: as_bytes_def utf8_len_def utf8_char_def len_utf8_def)

fun truncate_text :: "nat \<Rightarrow> utext \<Rightarrow> utext option" where
  "truncate_text n [] = Some []"
| "truncate_text n (c # s) = (if n = 0 then Some [] else if len_utf8 c \<le> n
     then map_option (\<lambda>t. c # t) (truncate_text (n - len_utf8 c) s)
     else None)"

definition is_ascii_alphanumeric :: "uchar \<Rightarrow> bool" where
  "is_ascii_alphanumeric c \<longleftrightarrow> is_ascii_alphabetic c \<or> is_digit c"

text \<open>\<open>split\<close> on one character.\<close>

fun split_char :: "uchar \<Rightarrow> utext \<Rightarrow> utext list" where
  "split_char d [] = [[]]"
| "split_char d (c # s) = (if c = d then [] # split_char d s
     else (case split_char d s of [] \<Rightarrow> [[c]] | part # parts \<Rightarrow> (c # part) # parts))"

end
