(* ===== verification/Geo_Rules.thy ===== *)
theory Geo_Rules
  imports Rust_Text Hash_Map
begin

text \<open>
  The Geo rules of the relay selector (\<open>geo_relay/rules.rs\<close>): the expression grammar with its
  recursive-descent parser, the evaluation of expressions on the facts of an address, and the
  ordered selection of a relay.  The parser's loops and mutual recursion run on fuel; a fuel of
  three units per character of the source and three more is enough for every input
  (\<open>parse_fuel_enough\<close>), so the parser is total.
\<close>

abbreviation MAX_EXPRESSION_DEPTH :: nat where "MAX_EXPRESSION_DEPTH \<equiv> 32"
abbreviation MAX_EXPRESSION_TERMS :: nat where "MAX_EXPRESSION_TERMS \<equiv> 256"

section \<open>Facts, predicates, expressions\<close>

record geo_facts =
  gf_continent :: "utext option"
  gf_country :: "utext option"
  gf_subdivision_codes :: "utext list"
  gf_subdivision_names :: "utext list"
  gf_city_names :: "utext list"
  gf_city_geoname_id :: "u32 option"
  gf_asn :: "u32 option"
  gf_asn_org :: "utext option"

datatype predicate =
    Continent utext
  | Country utext
  | Subdivision utext
  | City utext
  | Geoname u32
  | Asn u32
  | Isp utext

datatype expression =
    EAny
  | EPredicate predicate
  | EAnd expression expression
  | EOr expression expression

record db_requirements =
  rq_country :: bool
  rq_city :: bool
  rq_asn :: bool

definition requirements_default :: db_requirements where
  "requirements_default = \<lparr>rq_country = False, rq_city = False, rq_asn = False\<rparr>"

definition requirements_merge :: "db_requirements \<Rightarrow> db_requirements \<Rightarrow> db_requirements" where
  "requirements_merge a b = \<lparr>rq_country = (rq_country a \<or> rq_country b),
     rq_city = (rq_city a \<or> rq_city b), rq_asn = (rq_asn a \<or> rq_asn b)\<rparr>"

definition matches_optional :: "utext option \<Rightarrow> utext \<Rightarrow> bool" where
  "matches_optional actual expected =
     (case actual of None \<Rightarrow> False | Some a \<Rightarrow> text_eq_ignore_case a expected)"

definition matches_values :: "utext list \<Rightarrow> utext \<Rightarrow> bool" where
  "matches_values actual expected = list_ex (\<lambda>a. text_eq_ignore_case a expected) actual"

definition matches_contains :: "utext option \<Rightarrow> utext \<Rightarrow> bool" where
  "matches_contains actual expected =
     (case actual of None \<Rightarrow> False
      | Some a \<Rightarrow> text_contains (to_ascii_lowercase a) (to_ascii_lowercase expected))"

fun predicate_matches :: "predicate \<Rightarrow> geo_facts \<Rightarrow> bool" where
  "predicate_matches (Continent e) f = matches_optional (gf_continent f) e"
| "predicate_matches (Country e) f = matches_optional (gf_country f) e"
| "predicate_matches (Subdivision e) f =
     (matches_values (gf_subdivision_codes f) e \<or> matches_values (gf_subdivision_names f) e)"
| "predicate_matches (City e) f = matches_values (gf_city_names f) e"
| "predicate_matches (Geoname e) f = (gf_city_geoname_id f = Some e)"
| "predicate_matches (Asn e) f = (gf_asn f = Some e)"
| "predicate_matches (Isp e) f = matches_contains (gf_asn_org f) e"

fun predicate_requirements :: "predicate \<Rightarrow> db_requirements" where
  "predicate_requirements (Continent _) = requirements_default\<lparr>rq_country := True\<rparr>"
| "predicate_requirements (Country _) = requirements_default\<lparr>rq_country := True\<rparr>"
| "predicate_requirements (Subdivision _) = requirements_default\<lparr>rq_city := True\<rparr>"
| "predicate_requirements (City _) = requirements_default\<lparr>rq_city := True\<rparr>"
| "predicate_requirements (Geoname _) = requirements_default\<lparr>rq_city := True\<rparr>"
| "predicate_requirements (Asn _) = requirements_default\<lparr>rq_asn := True\<rparr>"
| "predicate_requirements (Isp _) = requirements_default\<lparr>rq_asn := True\<rparr>"

fun expression_matches :: "expression \<Rightarrow> geo_facts \<Rightarrow> bool" where
  "expression_matches EAny f = True"
| "expression_matches (EPredicate p) f = predicate_matches p f"
| "expression_matches (EAnd l r) f = (expression_matches l f \<and> expression_matches r f)"
| "expression_matches (EOr l r) f = (expression_matches l f \<or> expression_matches r f)"

fun expression_requirements :: "expression \<Rightarrow> db_requirements" where
  "expression_requirements EAny = requirements_default"
| "expression_requirements (EPredicate p) = predicate_requirements p"
| "expression_requirements (EAnd l r) =
     requirements_merge (expression_requirements l) (expression_requirements r)"
| "expression_requirements (EOr l r) =
     requirements_merge (expression_requirements l) (expression_requirements r)"

section \<open>Predicates from text\<close>

text \<open>The error messages of the source, one constructor each, with their arguments.\<close>

datatype geo_error =
    UnexpectedToken nat
  | NestingTooDeep
  | MissingParenthesis nat
  | TooManyTerms
  | UnterminatedQuote nat
  | MissingTerm nat
  | NotFieldValue utext
  | EmptyValue utext
  | BadCountry utext
  | UnsupportedField utext
  | BadQuote
  | IncompleteEscape
  | NotInteger utext utext
  | NotPositive utext

abbreviation quote_single :: uchar where "quote_single \<equiv> 39"
abbreviation quote_double :: uchar where "quote_double \<equiv> 34"
abbreviation backslash :: uchar where "backslash \<equiv> 92"

definition is_country_code :: "utext \<Rightarrow> bool" where
  "is_country_code v \<longleftrightarrow> utf8_len v = 2 \<and> list_all is_ascii_alphabetic v"

text \<open>The loop over the body of a quoted value; the flag is \<open>escaped\<close>.\<close>

fun unescape :: "bool \<Rightarrow> utext \<Rightarrow> geo_error + utext" where
  "unescape escaped [] = (if escaped then Inl IncompleteEscape else Inr [])"
| "unescape escaped (c # s) =
     (if escaped then map_sum id (\<lambda>v. c # v) (unescape False s)
      else if c = backslash then unescape True s
      else map_sum id (\<lambda>v. c # v) (unescape False s))"

definition decode_value :: "utext \<Rightarrow> geo_error + utext" where
  "decode_value raw0 =
     (let raw = trim raw0 in
      case raw of
        [] \<Rightarrow> Inr []
      | first # _ \<Rightarrow>
          if first \<noteq> quote_single \<and> first \<noteq> quote_double then Inr raw
          else if length raw < 2 \<or> last raw \<noteq> first then Inl BadQuote
          else map_sum id trim (unescape False (butlast (tl raw))))"

definition parse_nonzero_u32 :: "utext \<Rightarrow> utext \<Rightarrow> geo_error + u32" where
  "parse_nonzero_u32 field value =
     (case parse_u32 value of
        None \<Rightarrow> Inl (NotInteger field value)
      | Some n \<Rightarrow> if n = 0 then Inl (NotPositive field) else Inr n)"

definition strip_as :: "utext \<Rightarrow> utext" where
  "strip_as value = (if take 2 value = lit ''AS'' then drop 2 value
     else if take 2 value = lit ''as'' then drop 2 value else value)"

definition predicate_compile :: "utext \<Rightarrow> geo_error + expression" where
  "predicate_compile raw0 =
     (let raw = trim raw0 in
      if raw = lit ''*'' then Inr EAny
      else if is_country_code raw then Inr (EPredicate (Country (to_ascii_uppercase raw)))
      else
        (case split_once 58 raw of
           None \<Rightarrow> Inl (NotFieldValue raw)
         | Some (field0, value0) \<Rightarrow>
             (let field = to_ascii_lowercase (trim field0) in
              case decode_value value0 of
                Inl err \<Rightarrow> Inl err
              | Inr value \<Rightarrow>
                  if value = [] then Inl (EmptyValue field)
                  else if field = lit ''continent''
                  then Inr (EPredicate (Continent (to_ascii_uppercase value)))
                  else if field = lit ''country''
                  then (if \<not> is_country_code value then Inl (BadCountry value)
                        else Inr (EPredicate (Country (to_ascii_uppercase value))))
                  else if field = lit ''subdivision'' \<or> field = lit ''region''
                  then Inr (EPredicate (Subdivision value))
                  else if field = lit ''city'' then Inr (EPredicate (City value))
                  else if field = lit ''geoname'' \<or> field = lit ''city_id''
                  then map_sum id (EPredicate \<circ> Geoname) (parse_nonzero_u32 field value)
                  else if field = lit ''asn''
                  then map_sum id (EPredicate \<circ> Asn) (parse_nonzero_u32 field (strip_as value))
                  else if field = lit ''isp'' \<or> field = lit ''asn_org''
                  then Inr (EPredicate (Isp value))
                  else Inl (UnsupportedField field))))"

section \<open>The expression parser\<close>

text \<open>
  \<open>ps_rest\<close> is \<open>source[position..]\<close>; \<open>ps_position\<close> counts bytes.  Every function returns
  \<open>None\<close> only when its fuel is exhausted, \<open>Some (Inl _)\<close> for an error of the source and
  \<open>Some (Inr _)\<close> for a result with the parser after it.
\<close>

record parser =
  ps_rest :: utext
  ps_position :: nat
  ps_depth :: nat
  ps_terms :: nat

type_synonym 'a presult = "(geo_error + 'a) option"

definition pbind :: "'a presult \<Rightarrow> ('a \<Rightarrow> 'b presult) \<Rightarrow> 'b presult" where
  "pbind m f = (case m of None \<Rightarrow> None | Some (Inl e) \<Rightarrow> Some (Inl e) | Some (Inr x) \<Rightarrow> f x)"

definition pos_advance :: "parser \<Rightarrow> parser" where
  "pos_advance p = (case ps_rest p of [] \<Rightarrow> p
     | c # s \<Rightarrow> p\<lparr>ps_rest := s, ps_position := ps_position p + len_utf8 c\<rparr>)"

definition skip_whitespace :: "parser \<Rightarrow> parser" where
  "skip_whitespace p = p\<lparr>ps_rest := trim_start (ps_rest p),
     ps_position := ps_position p + utf8_len (takeWhile is_whitespace (ps_rest p))\<rparr>"

definition consume :: "uchar \<Rightarrow> parser \<Rightarrow> parser option" where
  "consume expected p =
     (case ps_rest p of [] \<Rightarrow> None
      | c # s \<Rightarrow> if c = expected then Some (pos_advance p) else None)"

text \<open>
  The loop of \<open>read_predicate\<close>: the characters taken, the quote still open at its end and the
  rest.  \<open>quote\<close> and \<open>escaped\<close> are the loop's variables.
\<close>

fun scan_predicate :: "uchar option \<Rightarrow> bool \<Rightarrow> utext \<Rightarrow> utext \<times> uchar option \<times> utext" where
  "scan_predicate quote escaped [] = ([], quote, [])"
| "scan_predicate (Some active) escaped (c # s) =
     (let (taken, opened, rest) =
        (if escaped then scan_predicate (Some active) False s
         else if c = backslash then scan_predicate (Some active) True s
         else if c = active then scan_predicate None False s
         else scan_predicate (Some active) False s)
      in (c # taken, opened, rest))"
| "scan_predicate None escaped (c # s) =
     (if c = quote_single \<or> c = quote_double
      then (let (taken, opened, rest) = scan_predicate (Some c) escaped s in (c # taken, opened, rest))
      else if c = 43 \<or> c = 47 \<or> c = 40 \<or> c = 41 then ([], None, c # s)
      else (let (taken, opened, rest) = scan_predicate None escaped s in (c # taken, opened, rest)))"

definition read_predicate :: "parser \<Rightarrow> geo_error + utext \<times> parser" where
  "read_predicate p0 =
     (let p = skip_whitespace p0;
          start = ps_position p;
          (taken, quote, rest) = scan_predicate None False (ps_rest p);
          p' = p\<lparr>ps_rest := rest, ps_position := start + utf8_len taken\<rparr>
      in if quote \<noteq> None then Inl (UnterminatedQuote start)
         else if trim taken = [] then Inl (MissingTerm start)
         else Inr (trim taken, p'))"

text \<open>The end of \<open>parse_primary\<close>, for a term that is not parenthesised.\<close>

definition parse_term :: "parser \<Rightarrow> geo_error + expression \<times> parser" where
  "parse_term p =
     (case read_predicate p of
        Inl e \<Rightarrow> Inl e
      | Inr (raw, p') \<Rightarrow>
          (let terms = ps_terms p' + 1 in
           if terms > MAX_EXPRESSION_TERMS then Inl TooManyTerms
           else map_sum id (\<lambda>e. (e, p'\<lparr>ps_terms := terms\<rparr>)) (predicate_compile raw)))"

fun parse_or :: "nat \<Rightarrow> parser \<Rightarrow> (expression \<times> parser) presult"
  and or_loop :: "nat \<Rightarrow> expression \<Rightarrow> parser \<Rightarrow> (expression \<times> parser) presult"
  and parse_and :: "nat \<Rightarrow> parser \<Rightarrow> (expression \<times> parser) presult"
  and and_loop :: "nat \<Rightarrow> expression \<Rightarrow> parser \<Rightarrow> (expression \<times> parser) presult"
  and parse_primary :: "nat \<Rightarrow> parser \<Rightarrow> (expression \<times> parser) presult"
where
  "parse_or 0 p = None"
| "parse_or (Suc n) p = pbind (parse_and n p) (\<lambda>(e, p'). or_loop n e p')"
| "or_loop 0 e p = None"
| "or_loop (Suc n) e p =
     (case consume 47 (skip_whitespace p) of
        None \<Rightarrow> Some (Inr (e, skip_whitespace p))
      | Some p' \<Rightarrow> pbind (parse_and n p') (\<lambda>(r, p''). or_loop n (EOr e r) p''))"
| "parse_and 0 p = None"
| "parse_and (Suc n) p = pbind (parse_primary n p) (\<lambda>(e, p'). and_loop n e p')"
| "and_loop 0 e p = None"
| "and_loop (Suc n) e p =
     (case consume 43 (skip_whitespace p) of
        None \<Rightarrow> Some (Inr (e, skip_whitespace p))
      | Some p' \<Rightarrow> pbind (parse_primary n p') (\<lambda>(r, p''). and_loop n (EAnd e r) p''))"
| "parse_primary 0 p = None"
| "parse_primary (Suc n) p =
     (case consume 40 (skip_whitespace p) of
        None \<Rightarrow> Some (parse_term (skip_whitespace p))
      | Some p' \<Rightarrow>
          if ps_depth p' \<ge> MAX_EXPRESSION_DEPTH then Some (Inl NestingTooDeep)
          else pbind (parse_or n (p'\<lparr>ps_depth := ps_depth p' + 1\<rparr>)) (\<lambda>(e, q).
            (let q' = skip_whitespace (q\<lparr>ps_depth := ps_depth q - 1\<rparr>) in
             case consume 41 q' of
               None \<Rightarrow> Some (Inl (MissingParenthesis (ps_position q')))
             | Some q'' \<Rightarrow> Some (Inr (e, q'')))))"

definition parser_new :: "utext \<Rightarrow> parser" where
  "parser_new source = \<lparr>ps_rest = source, ps_position = 0, ps_depth = 0, ps_terms = 0\<rparr>"

definition parse_fuel :: "utext \<Rightarrow> nat" where
  "parse_fuel source = 3 * length source + 3"

definition expression_parse_opt :: "nat \<Rightarrow> utext \<Rightarrow> expression presult" where
  "expression_parse_opt fuel source =
     pbind (parse_or fuel (parser_new source)) (\<lambda>(e, p).
       (let p' = skip_whitespace p in
        if ps_position p' \<noteq> utf8_len source then Some (Inl (UnexpectedToken (ps_position p')))
        else Some (Inr e)))"

definition expression_parse :: "utext \<Rightarrow> geo_error + expression" where
  "expression_parse source = the (expression_parse_opt (parse_fuel source) source)"

section \<open>What the parser consumes\<close>

fun leaves :: "expression \<Rightarrow> nat" where
  "leaves EAny = 1"
| "leaves (EPredicate _) = 1"
| "leaves (EAnd l r) = leaves l + leaves r"
| "leaves (EOr l r) = leaves l + leaves r"

text \<open>
  \<open>moved p q\<close>: from \<open>p\<close> the parser came to \<open>q\<close> by reading forward; the byte position follows the
  text that was read, and the depth is what it was.
\<close>

definition moved :: "parser \<Rightarrow> parser \<Rightarrow> bool" where
  "moved p q \<longleftrightarrow> ps_position q + utf8_len (ps_rest q) = ps_position p + utf8_len (ps_rest p)
     \<and> length (ps_rest q) \<le> length (ps_rest p) \<and> ps_depth q = ps_depth p"

definition moved_term :: "parser \<Rightarrow> nat \<Rightarrow> parser \<Rightarrow> bool" where
  "moved_term p k q \<longleftrightarrow> moved p q \<and> length (ps_rest q) < length (ps_rest p)
     \<and> ps_terms q = ps_terms p + k \<and> ps_terms q \<le> MAX_EXPRESSION_TERMS"

lemma moved_refl [simp]: "moved p p"
  by (simp add: moved_def)

lemma moved_trans: "moved p q \<Longrightarrow> moved q r \<Longrightarrow> moved p r"
  by (simp add: moved_def)

lemma utf8_len_append [simp]: "utf8_len (a @ b) = utf8_len a + utf8_len b"
  by (simp add: utf8_len_def)

lemma utf8_len_Cons [simp]: "utf8_len (c # s) = len_utf8 c + utf8_len s"
  by (simp add: utf8_len_def)

lemma utf8_len_Nil [simp]: "utf8_len [] = 0"
  by (simp add: utf8_len_def)

lemma utf8_len_eq_0 [simp]: "utf8_len s = 0 \<longleftrightarrow> s = []"
  by (cases s) (auto simp: len_utf8_def)

lemma trim_Nil [simp]: "trim [] = []" "trim_start [] = []"
  by (simp_all add: trim_def trim_start_def)

lemma skip_whitespace_simps [simp]:
  "ps_depth (skip_whitespace p) = ps_depth p" "ps_terms (skip_whitespace p) = ps_terms p"
  "ps_rest (skip_whitespace p) = trim_start (ps_rest p)"
  by (simp_all add: skip_whitespace_def)

lemma moved_skip [simp]: "moved p (skip_whitespace p)"
proof -
  have "utf8_len (takeWhile is_whitespace s) + utf8_len (trim_start s) = utf8_len s" for s
    unfolding trim_start_def by (metis takeWhile_dropWhile_id utf8_len_append)
  from this [of "ps_rest p"] show ?thesis
    by (simp add: moved_def length_trim_start skip_whitespace_def)
qed

lemma consume_some:
  assumes "consume c p = Some q"
  obtains s where "ps_rest p = c # s"
    "q = p\<lparr>ps_rest := s, ps_position := ps_position p + len_utf8 c\<rparr>"
  using assms by (auto simp: consume_def pos_advance_def split: list.splits if_splits)

lemma consume_moved:
  assumes "consume c p = Some q"
  shows "moved p q" "length (ps_rest q) < length (ps_rest p)" "ps_terms q = ps_terms p"
  using assms by (auto elim!: consume_some simp: moved_def)

lemma scan_predicate_append:
  "scan_predicate quote escaped s = (taken, opened, rest) \<Longrightarrow> s = taken @ rest"
  by (induction quote escaped s arbitrary: taken opened rest rule: scan_predicate.induct)
     (auto simp: Let_def split: if_splits prod.splits)

lemma read_predicate_moved:
  assumes "read_predicate p = Inr (raw, q)"
  shows "moved p q" "length (ps_rest q) < length (ps_rest p)" "ps_terms q = ps_terms p"
proof -
  obtain taken quote rest where s: "scan_predicate None False (trim_start (ps_rest p)) = (taken, quote, rest)"
    by (metis prod_cases3)
  note a = scan_predicate_append [OF s]
  have t: "taken \<noteq> []" and q: "q = (skip_whitespace p)\<lparr>ps_rest := rest,
      ps_position := ps_position (skip_whitespace p) + utf8_len taken\<rparr>"
    using assms by (auto simp: read_predicate_def s Let_def split: if_splits)
  have m: "moved (skip_whitespace p) q" using a by (simp add: moved_def q)
  then show "moved p q" using moved_skip moved_trans by blast
  show "length (ps_rest q) < length (ps_rest p)"
    using a t length_trim_start [of "ps_rest p"] by (simp add: q) (cases taken; simp)
  show "ps_terms q = ps_terms p" by (simp add: q)
qed

lemma predicate_compile_leaves: "predicate_compile raw = Inr e \<Longrightarrow> leaves e = 1"
  by (auto simp: predicate_compile_def Let_def map_sum_def split: if_splits option.splits sum.splits)

lemma parse_term_moved:
  assumes "parse_term p = Inr (e, q)"
  shows "moved_term p (leaves e) q"
proof -
  obtain raw p' where r: "read_predicate p = Inr (raw, p')" and k: "ps_terms p' + 1 \<le> 256"
    and c: "predicate_compile raw = Inr e" and q: "q = p'\<lparr>ps_terms := ps_terms p' + 1\<rparr>"
    using assms
    by (auto simp: parse_term_def Let_def map_sum_def split: sum.splits if_splits)
  show ?thesis
    using read_predicate_moved [OF r] predicate_compile_leaves [OF c] k
    by (simp add: moved_term_def q moved_def)
qed

lemma pbind_some_inr:
  "pbind m f = Some (Inr y) \<longleftrightarrow> (\<exists>x. m = Some (Inr x) \<and> f x = Some (Inr y))"
  by (auto simp: pbind_def split: option.splits sum.splits)

lemma moved_term_trans: "moved p q \<Longrightarrow> ps_terms q = ps_terms p \<Longrightarrow> moved_term q k r \<Longrightarrow> moved_term p k r"
  by (auto simp: moved_term_def moved_def)

lemma parser_moved:
  "parse_or n p = Some (Inr (e, q)) \<Longrightarrow> moved_term p (leaves e) q"
  "or_loop n e0 p = Some (Inr (e, q)) \<Longrightarrow> ps_terms p \<le> 256 \<Longrightarrow>
     moved p q \<and> ps_terms q + leaves e0 = ps_terms p + leaves e \<and> ps_terms q \<le> 256"
  "parse_and n p = Some (Inr (e, q)) \<Longrightarrow> moved_term p (leaves e) q"
  "and_loop n e0 p = Some (Inr (e, q)) \<Longrightarrow> ps_terms p \<le> 256 \<Longrightarrow>
     moved p q \<and> ps_terms q + leaves e0 = ps_terms p + leaves e \<and> ps_terms q \<le> 256"
  "parse_primary n p = Some (Inr (e, q)) \<Longrightarrow> moved_term p (leaves e) q"
proof (induction n p and n e0 p and n p and n e0 p and n p arbitrary: e q and e q and e q and e q and e q
       rule: parse_or_or_loop_parse_and_and_loop_parse_primary.induct)
  case (2 n p)
  from "2.prems" obtain e1 p1 where s: "parse_and n p = Some (Inr (e1, p1))" "or_loop n e1 p1 = Some (Inr (e, q))"
    by (auto simp: pbind_some_inr)
  from "2.IH"(1) [OF s(1)] "2.IH"(2) [OF s(2)] s show ?case by (auto simp: moved_term_def moved_def)
next
  case (4 n e0 p)
  show ?case
  proof (cases "consume 47 (skip_whitespace p)")
    case None
    then show ?thesis using "4.prems" by auto
  next
    case (Some p1)
    from "4.prems" Some obtain r p2 where s: "parse_and n p1 = Some (Inr (r, p2))"
      "or_loop n (EOr e0 r) p2 = Some (Inr (e, q))"
      by (auto simp: pbind_some_inr)
    from "4.IH"(1) [OF Some s(1)] "4.IH"(2) [OF Some s(2)]
    have "moved_term p1 (leaves r) p2"
      "moved p2 q \<and> ps_terms q + leaves (EOr e0 r) = ps_terms p2 + leaves e \<and> ps_terms q \<le> 256"
      by (auto simp: moved_term_def)
    with consume_moved [OF Some] moved_skip [of p] show ?thesis
      by (auto simp: moved_term_def moved_def)
  qed
next
  case (6 n p)
  from "6.prems" obtain e1 p1 where s: "parse_primary n p = Some (Inr (e1, p1))" "and_loop n e1 p1 = Some (Inr (e, q))"
    by (auto simp: pbind_some_inr)
  from "6.IH"(1) [OF s(1)] "6.IH"(2) [OF s(2)] s show ?case by (auto simp: moved_term_def moved_def)
next
  case (8 n e0 p)
  show ?case
  proof (cases "consume 43 (skip_whitespace p)")
    case None
    then show ?thesis using "8.prems" by auto
  next
    case (Some p1)
    from "8.prems" Some obtain r p2 where s: "parse_primary n p1 = Some (Inr (r, p2))"
      "and_loop n (EAnd e0 r) p2 = Some (Inr (e, q))"
      by (auto simp: pbind_some_inr)
    from "8.IH"(1) [OF Some s(1)] "8.IH"(2) [OF Some s(2)]
    have "moved_term p1 (leaves r) p2"
      "moved p2 q \<and> ps_terms q + leaves (EAnd e0 r) = ps_terms p2 + leaves e \<and> ps_terms q \<le> 256"
      by (auto simp: moved_term_def)
    with consume_moved [OF Some] moved_skip [of p] show ?thesis
      by (auto simp: moved_term_def moved_def)
  qed
next
  case (10 n p)
  show ?case
  proof (cases "consume 40 (skip_whitespace p)")
    case None
    then have "parse_term (skip_whitespace p) = Inr (e, q)" using "10.prems" by simp
    from moved_term_trans [OF moved_skip _ parse_term_moved [OF this]] show ?thesis by simp
  next
    case (Some p1)
    from "10.prems" Some obtain p2 where d: "\<not> 32 \<le> ps_depth p1"
      and s: "parse_or n (p1\<lparr>ps_depth := ps_depth p1 + 1\<rparr>) = Some (Inr (e, p2))"
      and c: "consume 41 (skip_whitespace (p2\<lparr>ps_depth := ps_depth p2 - 1\<rparr>)) = Some q"
      by (auto simp: pbind_some_inr Let_def split: if_splits option.splits)
    from "10.IH" [OF Some d s] consume_moved [OF c] consume_moved [OF Some]
      moved_skip [of p] moved_skip [of "p2\<lparr>ps_depth := ps_depth p2 - 1\<rparr>"]
    show ?thesis by (auto simp: moved_term_def moved_def)
  qed
qed simp_all

section \<open>The fuel is enough\<close>

lemma pbind_total: "\<exists>r. m = Some r \<Longrightarrow> (\<And>x. m = Some (Inr x) \<Longrightarrow> \<exists>r. f x = Some r) \<Longrightarrow> \<exists>r. pbind m f = Some r"
  by (auto simp: pbind_def split: option.splits sum.splits)

lemma parser_total:
  "3 * length (ps_rest p) + 3 \<le> n \<Longrightarrow> \<exists>r. parse_or n p = Some r"
  "3 * length (ps_rest p) + 1 \<le> n \<Longrightarrow> \<exists>r. or_loop n e0 p = Some r"
  "3 * length (ps_rest p) + 2 \<le> n \<Longrightarrow> \<exists>r. parse_and n p = Some r"
  "3 * length (ps_rest p) + 1 \<le> n \<Longrightarrow> \<exists>r. and_loop n e0 p = Some r"
  "3 * length (ps_rest p) + 1 \<le> n \<Longrightarrow> \<exists>r. parse_primary n p = Some r"
proof (induction n p and n e0 p and n p and n e0 p and n p
       rule: parse_or_or_loop_parse_and_and_loop_parse_primary.induct)
  case (2 n p)
  have "\<exists>r. (case x of (e, p') \<Rightarrow> or_loop n e p') = Some r" if "parse_and n p = Some (Inr x)" for x
    using parser_moved(3) [of n p "fst x" "snd x"] that "2.prems"
    by (cases x) (auto simp: moved_term_def intro!: "2.IH"(2))
  with "2.IH"(1) "2.prems" show ?case by (auto intro: pbind_total)
next
  case (4 n e0 p)
  have "\<exists>r. pbind (parse_and n q) (\<lambda>(r, p''). or_loop n (EOr e0 r) p'') = Some r"
    if c: "consume 47 (skip_whitespace p) = Some q" for q
  proof (rule pbind_total)
    have l: "length (ps_rest q) < length (ps_rest p)"
      using consume_moved [OF c] length_trim_start [of "ps_rest p"] by simp
    then show "\<exists>r. parse_and n q = Some r" using "4.IH"(1) [OF c] "4.prems" by simp
    show "\<exists>r. (case x of (r, p'') \<Rightarrow> or_loop n (EOr e0 r) p'') = Some r" if "parse_and n q = Some (Inr x)" for x
      using parser_moved(3) [of n q "fst x" "snd x"] that "4.prems" l
      by (cases x) (auto simp: moved_term_def intro!: "4.IH"(2) [OF c])
  qed
  then show ?case by (auto split: option.splits)
next
  case (6 n p)
  have "\<exists>r. (case x of (e, p') \<Rightarrow> and_loop n e p') = Some r" if "parse_primary n p = Some (Inr x)" for x
    using parser_moved(5) [of n p "fst x" "snd x"] that "6.prems"
    by (cases x) (auto simp: moved_term_def intro!: "6.IH"(2))
  with "6.IH"(1) "6.prems" show ?case by (auto intro: pbind_total)
next
  case (8 n e0 p)
  have "\<exists>r. pbind (parse_primary n q) (\<lambda>(r, p''). and_loop n (EAnd e0 r) p'') = Some r"
    if c: "consume 43 (skip_whitespace p) = Some q" for q
  proof (rule pbind_total)
    have l: "length (ps_rest q) < length (ps_rest p)"
      using consume_moved [OF c] length_trim_start [of "ps_rest p"] by simp
    then show "\<exists>r. parse_primary n q = Some r" using "8.IH"(1) [OF c] "8.prems" by simp
    show "\<exists>r. (case x of (r, p'') \<Rightarrow> and_loop n (EAnd e0 r) p'') = Some r" if "parse_primary n q = Some (Inr x)" for x
      using parser_moved(5) [of n q "fst x" "snd x"] that "8.prems" l
      by (cases x) (auto simp: moved_term_def intro!: "8.IH"(2) [OF c])
  qed
  then show ?case by (auto split: option.splits)
next
  case (10 n p)
  have "\<exists>r. parse_or n (q\<lparr>ps_depth := ps_depth q + 1\<rparr>) = Some r"
    if c: "consume 40 (skip_whitespace p) = Some q" and d: "\<not> 32 \<le> ps_depth q" for q
    using consume_moved [OF c] length_trim_start [of "ps_rest p"] "10.IH" [OF c d] "10.prems" by simp
  then show ?case by (auto simp: Let_def intro!: pbind_total split: option.splits)
qed simp_all

lemma parse_fuel_enough: "\<exists>r. expression_parse_opt (parse_fuel source) source = Some r"
  unfolding expression_parse_opt_def parse_fuel_def
  by (rule pbind_total, rule parser_total(1)) (auto simp: parser_new_def Let_def)

lemma expression_parse_ok:
  assumes "expression_parse source = Inr e"
  obtains q where "parse_or (parse_fuel source) (parser_new source) = Some (Inr (e, q))"
    "trim_start (ps_rest q) = []"
proof -
  obtain r where "expression_parse_opt (parse_fuel source) source = Some r"
    using parse_fuel_enough by blast
  with assms have "expression_parse_opt (parse_fuel source) source = Some (Inr e)"
    by (simp add: expression_parse_def)
  then obtain q where q: "parse_or (parse_fuel source) (parser_new source) = Some (Inr (e, q))"
    "ps_position (skip_whitespace q) = utf8_len source"
    by (auto simp: expression_parse_opt_def pbind_some_inr Let_def split: if_splits)
  from parser_moved(1) [OF q(1)] have "moved (parser_new source) (skip_whitespace q)"
    using moved_trans [OF _ moved_skip] by (auto simp: moved_term_def)
  with q(2) have "trim_start (ps_rest q) = []"
    by (simp add: moved_def parser_new_def)
  with q(1) show ?thesis by (rule that)
qed

lemma expression_parse_leaves: "expression_parse source = Inr e \<Longrightarrow> leaves e \<le> 256"
  by (elim expression_parse_ok, drule parser_moved(1)) (auto simp: moved_term_def parser_new_def)

text \<open>Deeper nesting than the limit is refused whatever follows.\<close>

lemma parse_nesting_too_deep:
  assumes "ps_rest p = replicate k 40 @ s" "ps_depth p + k = 33" "1 \<le> k" "3 * k \<le> n"
  shows "parse_or n p = Some (Inl NestingTooDeep)"
  using assms
proof (induction k arbitrary: n p)
  case (Suc k)
  from Suc.prems(4) have "n = Suc (Suc (Suc (n - 3)))" by simp
  then obtain m where n: "n = Suc (Suc (Suc m))" ..
  have w: "skip_whitespace p = p"
    using Suc.prems(1) by (simp add: skip_whitespace_def trim_start_def is_whitespace_def)
  define q where "q = p\<lparr>ps_rest := replicate k 40 @ s, ps_position := ps_position p + len_utf8 40\<rparr>"
  have c: "consume 40 p = Some q"
    using Suc.prems(1) by (simp add: consume_def pos_advance_def q_def)
  show ?case
  proof (cases k)
    case 0
    then have "ps_depth q = 32" using Suc.prems(2) by (simp add: q_def)
    then show ?thesis by (simp add: n w c pbind_def)
  next
    case (Suc j)
    have "parse_or m (q\<lparr>ps_depth := ps_depth q + 1\<rparr>) = Some (Inl NestingTooDeep)"
      by (rule Suc.IH) (use Suc.prems n Suc in \<open>simp_all add: q_def\<close>)
    moreover have "ps_depth q < 32" using Suc.prems(2) Suc by (simp add: q_def)
    ultimately show ?thesis by (simp add: n w c pbind_def)
  qed
qed simp

lemma expression_parse_nesting: "expression_parse (replicate 33 40 @ s) = Inl NestingTooDeep"
proof -
  define source :: utext where "source = replicate 33 40 @ s"
  have "33 \<le> length source" by (simp only: source_def length_append length_replicate)
  then have "parse_or (parse_fuel source) (parser_new source) = Some (Inl NestingTooDeep)"
    by (intro parse_nesting_too_deep [of _ 33 s]) (simp_all add: parser_new_def parse_fuel_def source_def)
  then show ?thesis
    by (simp add: source_def [symmetric] expression_parse_def expression_parse_opt_def pbind_def)
qed

end
