(* ===== verification/Geo_Select.thy ===== *)
theory Geo_Select
  imports Geo_Rules
begin

text \<open>
  The ordered Geo rule set (\<open>RuleSet\<close> of \<open>geo_relay/rules.rs\<close>), the facts that the MMDB readers
  give for an address and the selection of a relay on them (\<open>geo_relay.rs\<close>).  The readers
  themselves are a third-party package: a reader is a function from addresses to decoded records.
\<close>

section \<open>Rules\<close>

record endpoint_expressions =
  ee_client_a :: utext
  ee_client_b :: utext

record geo_rule_config =
  grc_name :: utext
  grc_symmetric :: bool
  grc_matches :: endpoint_expressions
  grc_relays :: "utext list"

record geo_config =
  gc_enabled :: bool
  gc_rules :: "geo_rule_config list"

record relay_rule =
  rr_name :: utext
  rr_symmetric :: bool
  rr_client_a :: expression
  rr_client_b :: expression
  rr_relays :: "utext list"

record rule_set =
  rs_rules :: "relay_rule list"
  rs_requirements :: db_requirements

datatype direction = Direct | Reverse

record selection =
  sel_relay :: utext
  sel_candidates :: "utext list"
  sel_rule_name :: utext
  sel_rule_index :: nat
  sel_direction :: direction

datatype rule_error = BadClientA utext geo_error | BadClientB utext geo_error

definition relay_rule_compile :: "geo_rule_config \<Rightarrow> rule_error + relay_rule" where
  "relay_rule_compile cfg =
     (case expression_parse (ee_client_a (grc_matches cfg)) of
        Inl e \<Rightarrow> Inl (BadClientA (grc_name cfg) e)
      | Inr a \<Rightarrow>
          (case expression_parse (ee_client_b (grc_matches cfg)) of
             Inl e \<Rightarrow> Inl (BadClientB (grc_name cfg) e)
           | Inr b \<Rightarrow> Inr \<lparr>rr_name = grc_name cfg, rr_symmetric = grc_symmetric cfg,
               rr_client_a = a, rr_client_b = b, rr_relays = grc_relays cfg\<rparr>))"

definition match_direction :: "relay_rule \<Rightarrow> geo_facts \<Rightarrow> geo_facts \<Rightarrow> direction option" where
  "match_direction rule facts_a facts_b =
     (if expression_matches (rr_client_a rule) facts_a \<and> expression_matches (rr_client_b rule) facts_b
      then Some Direct
      else if rr_symmetric rule \<and> expression_matches (rr_client_a rule) facts_b
        \<and> expression_matches (rr_client_b rule) facts_a
      then Some Reverse
      else None)"

definition rule_set_empty :: rule_set where
  "rule_set_empty = \<lparr>rs_rules = [], rs_requirements = requirements_default\<rparr>"

text \<open>The loop of \<open>RuleSet::compile\<close>, on the rules compiled and the requirements merged so far.\<close>

fun compile_rules :: "relay_rule list \<Rightarrow> db_requirements \<Rightarrow> geo_rule_config list \<Rightarrow> rule_error + rule_set" where
  "compile_rules rules req [] = Inr \<lparr>rs_rules = rules, rs_requirements = req\<rparr>"
| "compile_rules rules req (cfg # cfgs) =
     (case relay_rule_compile cfg of
        Inl e \<Rightarrow> Inl e
      | Inr rule \<Rightarrow> compile_rules (rules @ [rule])
          (requirements_merge (requirements_merge req (expression_requirements (rr_client_a rule)))
             (expression_requirements (rr_client_b rule))) cfgs)"

definition rule_set_compile :: "geo_config \<Rightarrow> rule_error + rule_set" where
  "rule_set_compile cfg =
     (if \<not> gc_enabled cfg then Inr rule_set_empty
      else compile_rules [] requirements_default (gc_rules cfg))"

definition select_ordered :: "utext list \<Rightarrow> utext list \<Rightarrow> utext list" where
  "select_ordered configured online =
     List.map_filter (\<lambda>c. find (\<lambda>o'. text_eq_ignore_case o' c) online) configured"

fun select_from :: "nat \<Rightarrow> relay_rule list \<Rightarrow> geo_facts \<Rightarrow> geo_facts \<Rightarrow> utext list \<Rightarrow> selection option" where
  "select_from i [] facts_a facts_b online = None"
| "select_from i (rule # rules) facts_a facts_b online =
     (case match_direction rule facts_a facts_b of
        None \<Rightarrow> select_from (Suc i) rules facts_a facts_b online
      | Some direction \<Rightarrow>
          (case select_ordered (rr_relays rule) online of
             [] \<Rightarrow> select_from (Suc i) rules facts_a facts_b online
           | relay # others \<Rightarrow> Some \<lparr>sel_relay = relay, sel_candidates = relay # others,
               sel_rule_name = rr_name rule, sel_rule_index = i, sel_direction = direction\<rparr>))"

definition rule_set_select :: "rule_set \<Rightarrow> geo_facts \<Rightarrow> geo_facts \<Rightarrow> utext list \<Rightarrow> selection option" where
  "rule_set_select rs facts_a facts_b online = select_from 0 (rs_rules rs) facts_a facts_b online"

section \<open>Facts of an address\<close>

record names =
  nm_english :: "utext option"
  nm_simplified_chinese :: "utext option"
  nm_japanese :: "utext option"
  nm_german :: "utext option"
  nm_spanish :: "utext option"
  nm_french :: "utext option"
  nm_brazilian_portuguese :: "utext option"
  nm_russian :: "utext option"

record subdivision =
  sd_iso_code :: "utext option"
  sd_names :: names

record city_record =
  cr_continent :: "utext option"
  cr_country :: "utext option"
  cr_city_geoname_id :: "u32 option"
  cr_city_names :: names
  cr_subdivisions :: "subdivision list"

record country_record =
  ctr_continent :: "utext option"
  ctr_country :: "utext option"

record asn_record =
  ar_number :: "u32 option"
  ar_organization :: "utext option"

text \<open>A reader gives the decoded record of an address, or \<open>None\<close> on a lookup or decoding failure.\<close>

type_synonym 'r reader = "ip_addr \<Rightarrow> 'r option"

record geo_readers =
  rd_country :: "country_record reader option"
  rd_city :: "city_record reader option"
  rd_asn :: "asn_record reader option"
  rd_loaded :: "utext list"

definition readers_default :: geo_readers where
  "readers_default = \<lparr>rd_country = None, rd_city = None, rd_asn = None, rd_loaded = []\<rparr>"

definition facts_default :: geo_facts where
  "facts_default = \<lparr>gf_continent = None, gf_country = None, gf_subdivision_codes = [],
     gf_subdivision_names = [], gf_city_names = [], gf_city_geoname_id = None, gf_asn = None,
     gf_asn_org = None\<rparr>"

definition non_empty :: "utext \<Rightarrow> utext option" where
  "non_empty v = (if v = [] then None else Some v)"

definition set_if_empty :: "utext option \<Rightarrow> utext option \<Rightarrow> utext option" where
  "set_if_empty target value =
     (if target = None
      then Option.bind value (\<lambda>v. non_empty (to_ascii_uppercase (trim v)))
      else target)"

definition push_unique :: "utext list \<Rightarrow> utext \<Rightarrow> utext list" where
  "push_unique target value =
     (let v = trim value in
      if v \<noteq> [] \<and> \<not> list_ex (\<lambda>old. text_eq_ignore_case old v) target then target @ [v] else target)"

definition append_names :: "utext list \<Rightarrow> names \<Rightarrow> utext list" where
  "append_names target n =
     foldl push_unique target (List.map_filter (\<lambda>x. x)
       [nm_english n, nm_simplified_chinese n, nm_japanese n, nm_german n, nm_spanish n,
        nm_french n, nm_brazilian_portuguese n, nm_russian n])"

definition add_subdivision :: "geo_facts \<Rightarrow> subdivision \<Rightarrow> geo_facts" where
  "add_subdivision facts sd =
     facts\<lparr>gf_subdivision_codes := (case sd_iso_code sd of None \<Rightarrow> gf_subdivision_codes facts
             | Some code \<Rightarrow> push_unique (gf_subdivision_codes facts) code),
           gf_subdivision_names := append_names (gf_subdivision_names facts) (sd_names sd)\<rparr>"

definition lookup_city :: "city_record reader \<Rightarrow> ip_addr \<Rightarrow> geo_facts \<Rightarrow> geo_facts" where
  "lookup_city reader ip facts =
     (case reader ip of None \<Rightarrow> facts
      | Some r \<Rightarrow> foldl add_subdivision
          (facts\<lparr>gf_continent := set_if_empty (gf_continent facts) (cr_continent r),
                 gf_country := set_if_empty (gf_country facts) (cr_country r),
                 gf_city_geoname_id := cr_city_geoname_id r,
                 gf_city_names := append_names (gf_city_names facts) (cr_city_names r)\<rparr>)
          (cr_subdivisions r))"

definition lookup_country :: "country_record reader \<Rightarrow> ip_addr \<Rightarrow> geo_facts \<Rightarrow> geo_facts" where
  "lookup_country reader ip facts =
     (case reader ip of None \<Rightarrow> facts
      | Some r \<Rightarrow> facts\<lparr>gf_continent := set_if_empty (gf_continent facts) (ctr_continent r),
                        gf_country := set_if_empty (gf_country facts) (ctr_country r)\<rparr>)"

definition lookup_asn :: "asn_record reader \<Rightarrow> ip_addr \<Rightarrow> geo_facts \<Rightarrow> geo_facts" where
  "lookup_asn reader ip facts =
     (case reader ip of None \<Rightarrow> facts
      | Some r \<Rightarrow> facts\<lparr>gf_asn := ar_number r,
                        gf_asn_org := Option.bind (ar_organization r) (\<lambda>v. non_empty (trim v))\<rparr>)"

definition readers_lookup :: "geo_readers \<Rightarrow> ip_addr \<Rightarrow> geo_facts" where
  "readers_lookup rd ip =
     (let f0 = facts_default;
          f1 = (case rd_city rd of None \<Rightarrow> f0 | Some r \<Rightarrow> lookup_city r ip f0);
          f2 = (case rd_country rd of None \<Rightarrow> f1 | Some r \<Rightarrow> lookup_country r ip f1)
      in case rd_asn rd of None \<Rightarrow> f2 | Some r \<Rightarrow> lookup_asn r ip f2)"

datatype geo_warning = CityUnavailable | AsnUnavailable | CountryUnavailable

definition missing_requirements :: "geo_readers \<Rightarrow> db_requirements \<Rightarrow> geo_warning list" where
  "missing_requirements rd req =
     (if rq_city req \<and> rd_city rd = None then [CityUnavailable] else [])
     @ (if rq_asn req \<and> rd_asn rd = None then [AsnUnavailable] else [])
     @ (if rq_country req \<and> rd_country rd = None \<and> rd_city rd = None then [CountryUnavailable] else [])"

section \<open>The state of the selector\<close>

record mmdb_paths =
  mp_country :: utext
  mp_city :: utext
  mp_asn :: utext

record geo_state =
  gs_enabled :: bool
  gs_readers :: geo_readers
  gs_rules :: rule_set
  gs_warnings :: "geo_warning list"

datatype geo_load_error = RuleError rule_error | ReaderError utext

text \<open>
  \<open>open_optional_reader\<close> on the three paths: \<open>Inr None\<close> for a path that is not a file, \<open>Inl\<close> for a
  file the package cannot open.
\<close>

record mmdb_files =
  mf_country :: "utext \<Rightarrow> utext + country_record reader option"
  mf_city :: "utext \<Rightarrow> utext + city_record reader option"
  mf_asn :: "utext \<Rightarrow> utext + asn_record reader option"

definition readers_from_config :: "mmdb_files \<Rightarrow> mmdb_paths \<Rightarrow> utext + geo_readers" where
  "readers_from_config fs cfg =
     (case mf_country fs (mp_country cfg) of Inl e \<Rightarrow> Inl e | Inr country \<Rightarrow>
     (case mf_city fs (mp_city cfg) of Inl e \<Rightarrow> Inl e | Inr city \<Rightarrow>
     (case mf_asn fs (mp_asn cfg) of Inl e \<Rightarrow> Inl e | Inr asn \<Rightarrow>
        Inr \<lparr>rd_country = country, rd_city = city, rd_asn = asn,
          rd_loaded = (if country \<noteq> None then [lit ''Country='' @ mp_country cfg] else [])
            @ (if city \<noteq> None then [lit ''City='' @ mp_city cfg] else [])
            @ (if asn \<noteq> None then [lit ''ASN='' @ mp_asn cfg] else [])\<rparr>)))"

definition geo_state_disabled :: geo_state where
  "geo_state_disabled = \<lparr>gs_enabled = False, gs_readers = readers_default,
     gs_rules = rule_set_empty, gs_warnings = []\<rparr>"

definition geo_state_from_config :: "mmdb_files \<Rightarrow> geo_config \<Rightarrow> mmdb_paths \<Rightarrow> geo_load_error + geo_state" where
  "geo_state_from_config fs geo mmdb =
     (if \<not> gc_enabled geo then Inr geo_state_disabled
      else (case rule_set_compile geo of Inl e \<Rightarrow> Inl (RuleError e) | Inr rules \<Rightarrow>
           (case readers_from_config fs mmdb of Inl e \<Rightarrow> Inl (ReaderError e) | Inr readers \<Rightarrow>
              Inr \<lparr>gs_enabled = True, gs_readers = readers, gs_rules = rules,
                gs_warnings = missing_requirements readers (rs_requirements rules)\<rparr>)))"

text \<open>
  \<open>reload\<close>: without a configuration the selector is disabled, a configuration that does not load
  leaves the state in place, one that loads replaces it.
\<close>

definition geo_reload :: "mmdb_files \<Rightarrow> (geo_config \<times> mmdb_paths) option \<Rightarrow> geo_state \<Rightarrow> geo_state" where
  "geo_reload fs snapshot state =
     (case snapshot of None \<Rightarrow> geo_state_disabled
      | Some (geo, mmdb) \<Rightarrow>
          (case geo_state_from_config fs geo mmdb of Inl _ \<Rightarrow> state | Inr new_state \<Rightarrow> new_state))"

definition select_relay_explained_from ::
  "geo_state \<Rightarrow> ip_addr \<Rightarrow> ip_addr \<Rightarrow> utext list \<Rightarrow> selection option" where
  "select_relay_explained_from state pa pb eligible =
     (if \<not> gs_enabled state \<or> eligible = [] then None
      else rule_set_select (gs_rules state) (readers_lookup (gs_readers state) pa)
             (readers_lookup (gs_readers state) pb) eligible)"

definition select_relay :: "geo_state \<Rightarrow> ip_addr \<Rightarrow> ip_addr \<Rightarrow> utext list \<Rightarrow> utext option" where
  "select_relay state pa pb eligible =
     map_option sel_relay (select_relay_explained_from state pa pb eligible)"

section \<open>Which rule decides\<close>

text \<open>
  What a rule means, without the code that decides it: it serves an ordered pair of clients when each
  expression holds of its client; a symmetric rule also applies to the pair the other way round; a
  configured relay is up when its name is online up to the case of its letters; and the candidates are
  the online spellings of the configured relays that are up, in the order of the configuration.
\<close>

definition rule_serves :: "relay_rule \<Rightarrow> geo_facts \<Rightarrow> geo_facts \<Rightarrow> bool" where
  "rule_serves rule first second \<longleftrightarrow> expression_matches (rr_client_a rule) first \<and> expression_matches (rr_client_b rule) second"

definition rule_applies :: "relay_rule \<Rightarrow> geo_facts \<Rightarrow> geo_facts \<Rightarrow> bool" where
  "rule_applies rule facts_a facts_b \<longleftrightarrow>
     rule_serves rule facts_a facts_b \<or> (rr_symmetric rule \<and> rule_serves rule facts_b facts_a)"

definition relay_up :: "utext list \<Rightarrow> utext \<Rightarrow> bool" where
  "relay_up online c \<longleftrightarrow> to_ascii_lowercase c \<in> set (map to_ascii_lowercase online)"

definition online_spelling :: "utext list \<Rightarrow> utext \<Rightarrow> utext" where
  "online_spelling online c = hd (filter (\<lambda>r. to_ascii_lowercase r = to_ascii_lowercase c) online)"

definition rule_offers :: "relay_rule \<Rightarrow> geo_facts \<Rightarrow> geo_facts \<Rightarrow> utext list \<Rightarrow> bool" where
  "rule_offers rule facts_a facts_b online \<longleftrightarrow>
     rule_applies rule facts_a facts_b \<and> list_ex (relay_up online) (rr_relays rule)"

lemma match_direction_applies:
  "match_direction rule fa fb =
     (if \<not> rule_applies rule fa fb then None else if rule_serves rule fa fb then Some Direct else Some Reverse)"
  by (auto simp: match_direction_def rule_applies_def rule_serves_def)

lemma select_ordered_simps [simp]:
  "select_ordered [] online = []"
  "select_ordered (c # cs) online =
     (case find (\<lambda>o'. text_eq_ignore_case o' c) online of None \<Rightarrow> select_ordered cs online
      | Some r \<Rightarrow> r # select_ordered cs online)"
  by (simp_all add: select_ordered_def List.map_filter_simps split: option.splits)

lemma find_SomeD: "find P xs = Some x \<Longrightarrow> x \<in> set xs \<and> P x"
  by (induction xs) (auto split: if_splits)

lemma select_ordered_online: "r \<in> set (select_ordered cs online) \<Longrightarrow>
    r \<in> set online \<and> (\<exists>c \<in> set cs. text_eq_ignore_case r c)"
  by (induction cs) (auto dest: find_SomeD split: option.splits)

lemma select_ordered_empty:
  "select_ordered cs online = [] \<longleftrightarrow> (\<forall>c \<in> set cs. \<forall>r \<in> set online. \<not> text_eq_ignore_case r c)"
  by (induction cs) (auto simp: find_None_iff dest: find_SomeD split: option.splits)

lemma find_relay_up:
  "find (\<lambda>o'. text_eq_ignore_case o' c) online = (if relay_up online c then Some (online_spelling online c) else None)"
  by (induction online) (auto simp: relay_up_def online_spelling_def text_eq_ignore_case_def)

lemma select_ordered_up: "select_ordered cs online = map (online_spelling online) (filter (relay_up online) cs)"
  by (induction cs) (simp_all add: find_relay_up)

lemma rule_offers_iff:
  "rule_offers rule fa fb online \<longleftrightarrow> match_direction rule fa fb \<noteq> None \<and> select_ordered (rr_relays rule) online \<noteq> []"
  by (auto simp: rule_offers_def match_direction_applies select_ordered_up filter_empty_conv list_ex_iff)

lemma select_from_none:
  "select_from i rules fa fb online = None \<longleftrightarrow> (\<forall>rule \<in> set rules. \<not> rule_offers rule fa fb online)"
  by (induction rules arbitrary: i) (auto simp: rule_offers_iff split: option.splits list.splits)

lemma select_from_some:
  assumes "select_from i rules fa fb online = Some s"
  obtains k where "k < length rules" "sel_rule_index s = i + k"
    "\<forall>j < k. \<not> rule_offers (rules ! j) fa fb online" "rule_offers (rules ! k) fa fb online"
    "match_direction (rules ! k) fa fb = Some (sel_direction s)"
    "sel_candidates s = select_ordered (rr_relays (rules ! k)) online"
    "sel_relay s = hd (sel_candidates s)" "sel_rule_name s = rr_name (rules ! k)"
  using assms
proof (induction rules arbitrary: i thesis)
  case (Cons rule rules)
  show ?case
  proof (cases "rule_offers rule fa fb online")
    case True
    then show ?thesis
      using Cons.prems(2) by (intro Cons.prems(1) [of 0]) (auto simp: rule_offers_iff split: list.splits)
  next
    case False
    then have "select_from (Suc i) rules fa fb online = Some s"
      using Cons.prems(2) by (auto simp: rule_offers_iff split: option.splits list.splits)
    then obtain k where k: "k < length rules" "sel_rule_index s = Suc i + k"
      "\<forall>j < k. \<not> rule_offers (rules ! j) fa fb online" "rule_offers (rules ! k) fa fb online"
      "match_direction (rules ! k) fa fb = Some (sel_direction s)"
      "sel_candidates s = select_ordered (rr_relays (rules ! k)) online"
      "sel_relay s = hd (sel_candidates s)" "sel_rule_name s = rr_name (rules ! k)"
      using Cons.IH by blast
    then show ?thesis using False
      by (intro Cons.prems(1) [of "Suc k"]) (auto simp: less_Suc_eq_0_disj)
  qed
qed simp

lemma match_direction_swap:
  "rr_symmetric rule \<Longrightarrow> (match_direction rule fb fa = None) = (match_direction rule fa fb = None)"
  by (auto simp: match_direction_def)

lemma select_from_swap:
  assumes "\<forall>rule \<in> set rules. rr_symmetric rule"
  shows "map_option (\<lambda>s. s\<lparr>sel_direction := Direct\<rparr>) (select_from i rules fb fa online)
       = map_option (\<lambda>s. s\<lparr>sel_direction := Direct\<rparr>) (select_from i rules fa fb online)"
  using assms
proof (induction rules arbitrary: i)
  case (Cons rule rules)
  then have "(match_direction rule fb fa = None) = (match_direction rule fa fb = None)"
    by (simp add: match_direction_swap)
  with Cons show ?case by (auto split: option.splits list.splits)
qed simp

section \<open>What the rules require\<close>

text \<open>\<open>facts_agree req f g\<close>: \<open>f\<close> and \<open>g\<close> give the same answers to every predicate that needs only \<open>req\<close>.\<close>

definition facts_agree :: "db_requirements \<Rightarrow> geo_facts \<Rightarrow> geo_facts \<Rightarrow> bool" where
  "facts_agree req f g \<longleftrightarrow>
     (rq_country req \<longrightarrow> gf_continent f = gf_continent g \<and> gf_country f = gf_country g)
   \<and> (rq_city req \<longrightarrow> gf_subdivision_codes f = gf_subdivision_codes g
        \<and> gf_subdivision_names f = gf_subdivision_names g \<and> gf_city_names f = gf_city_names g
        \<and> gf_city_geoname_id f = gf_city_geoname_id g)
   \<and> (rq_asn req \<longrightarrow> gf_asn f = gf_asn g \<and> gf_asn_org f = gf_asn_org g)"

definition requires_within :: "db_requirements \<Rightarrow> db_requirements \<Rightarrow> bool" where
  "requires_within a b \<longleftrightarrow> (rq_country a \<longrightarrow> rq_country b) \<and> (rq_city a \<longrightarrow> rq_city b) \<and> (rq_asn a \<longrightarrow> rq_asn b)"

lemma requires_within_merge [simp]:
  "requires_within (requirements_merge a b) c \<longleftrightarrow> requires_within a c \<and> requires_within b c"
  "requires_within a (requirements_merge a b)" "requires_within b (requirements_merge a b)"
  "requires_within a a"
  by (auto simp: requires_within_def requirements_merge_def)

lemma requires_within_trans: "requires_within a b \<Longrightarrow> requires_within b c \<Longrightarrow> requires_within a c"
  by (auto simp: requires_within_def)

lemma facts_agree_within: "requires_within a b \<Longrightarrow> facts_agree b f g \<Longrightarrow> facts_agree a f g"
  by (auto simp: requires_within_def facts_agree_def)

lemma facts_agree_merge [simp]:
  "facts_agree (requirements_merge a b) f g \<longleftrightarrow> facts_agree a f g \<and> facts_agree b f g"
  by (auto simp: facts_agree_def requirements_merge_def)

lemma expression_matches_agree:
  "facts_agree (expression_requirements e) f g \<Longrightarrow> expression_matches e f = expression_matches e g"
proof (induction e)
  case (EPredicate p)
  then show ?case by (cases p) (auto simp: facts_agree_def requirements_default_def)
qed simp_all

lemma compile_rules_requires:
  "compile_rules rules req cfgs = Inr rs \<Longrightarrow>
   (\<forall>r \<in> set rules. requires_within (expression_requirements (rr_client_a r)) req
      \<and> requires_within (expression_requirements (rr_client_b r)) req) \<Longrightarrow>
   requires_within req (rs_requirements rs)
   \<and> (\<forall>r \<in> set (rs_rules rs). requires_within (expression_requirements (rr_client_a r)) (rs_requirements rs)
      \<and> requires_within (expression_requirements (rr_client_b r)) (rs_requirements rs))"
proof (induction rules req cfgs rule: compile_rules.induct)
  case (2 rules req cfg cfgs)
  then obtain rule where rule: "relay_rule_compile cfg = Inr rule"
    by (auto split: sum.splits)
  define req' where "req' = requirements_merge (requirements_merge req (expression_requirements (rr_client_a rule)))
             (expression_requirements (rr_client_b rule))"
  have w: "requires_within req req'" "requires_within (expression_requirements (rr_client_a rule)) req'"
    "requires_within (expression_requirements (rr_client_b rule)) req'"
    unfolding req'_def by (blast intro: requires_within_merge requires_within_trans)+
  have "requires_within req' (rs_requirements rs)
   \<and> (\<forall>r \<in> set (rs_rules rs). requires_within (expression_requirements (rr_client_a r)) (rs_requirements rs)
      \<and> requires_within (expression_requirements (rr_client_b r)) (rs_requirements rs))"
    unfolding req'_def
    by (rule "2.IH" [OF rule])
       (use "2.prems" rule w requires_within_trans in \<open>auto simp: req'_def [symmetric]\<close>)
  with w(1) show ?case using requires_within_trans by blast
qed auto

lemma select_from_agree:
  assumes "\<forall>r \<in> set rules. requires_within (expression_requirements (rr_client_a r)) req
      \<and> requires_within (expression_requirements (rr_client_b r)) req"
    and "facts_agree req fa ga" "facts_agree req fb gb"
  shows "select_from i rules fa fb online = select_from i rules ga gb online"
  using assms(1)
proof (induction rules arbitrary: i)
  case (Cons r rules)
  have m: "expression_matches e f = expression_matches e g"
    if "e \<in> {rr_client_a r, rr_client_b r}" "facts_agree req f g" for e f g
    using Cons.prems that by (auto intro!: expression_matches_agree elim: facts_agree_within [rotated])
  have "match_direction r fa fb = match_direction r ga gb"
    using m [OF _ assms(2)] m [OF _ assms(3)] by (simp add: match_direction_def)
  with Cons show ?case by (simp split: option.split list.split)
qed simp

lemma rule_set_compile_requires:
  assumes "rule_set_compile cfg = Inr rs" "r \<in> set (rs_rules rs)"
  shows "requires_within (expression_requirements (rr_client_a r)) (rs_requirements rs)
      \<and> requires_within (expression_requirements (rr_client_b r)) (rs_requirements rs)"
  using assms compile_rules_requires [of "[]" requirements_default "gc_rules cfg" rs]
  by (auto simp: rule_set_compile_def rule_set_empty_def split: if_splits)

section \<open>What the readers supply\<close>

lemma add_subdivision_frame [simp]:
  "gf_continent (add_subdivision f sd) = gf_continent f" "gf_country (add_subdivision f sd) = gf_country f"
  "gf_asn (add_subdivision f sd) = gf_asn f" "gf_asn_org (add_subdivision f sd) = gf_asn_org f"
  "gf_city_names (add_subdivision f sd) = gf_city_names f"
  "gf_city_geoname_id (add_subdivision f sd) = gf_city_geoname_id f"
  by (simp_all add: add_subdivision_def)

lemma add_subdivisions_frame [simp]:
  "gf_continent (foldl add_subdivision f sds) = gf_continent f"
  "gf_country (foldl add_subdivision f sds) = gf_country f"
  "gf_asn (foldl add_subdivision f sds) = gf_asn f" "gf_asn_org (foldl add_subdivision f sds) = gf_asn_org f"
  "gf_city_names (foldl add_subdivision f sds) = gf_city_names f"
  "gf_city_geoname_id (foldl add_subdivision f sds) = gf_city_geoname_id f"
  by (induction sds arbitrary: f; simp)+

text \<open>Each group of facts comes from its own databases and from no other.\<close>

definition readers_agree :: "db_requirements \<Rightarrow> geo_readers \<Rightarrow> geo_readers \<Rightarrow> bool" where
  "readers_agree req r q \<longleftrightarrow>
     (rq_country req \<longrightarrow> rd_country r = rd_country q \<and> rd_city r = rd_city q)
   \<and> (rq_city req \<longrightarrow> rd_city r = rd_city q) \<and> (rq_asn req \<longrightarrow> rd_asn r = rd_asn q)"

definition city_facts :: "geo_readers \<Rightarrow> ip_addr \<Rightarrow> geo_facts" where
  "city_facts rd ip = (case rd_city rd of None \<Rightarrow> facts_default | Some r \<Rightarrow> lookup_city r ip facts_default)"

definition country_facts :: "geo_readers \<Rightarrow> ip_addr \<Rightarrow> geo_facts \<Rightarrow> geo_facts" where
  "country_facts rd ip f = (case rd_country rd of None \<Rightarrow> f | Some r \<Rightarrow> lookup_country r ip f)"

definition asn_facts :: "geo_readers \<Rightarrow> ip_addr \<Rightarrow> geo_facts \<Rightarrow> geo_facts" where
  "asn_facts rd ip f = (case rd_asn rd of None \<Rightarrow> f | Some r \<Rightarrow> lookup_asn r ip f)"

lemma readers_lookup_stages: "readers_lookup rd ip = asn_facts rd ip (country_facts rd ip (city_facts rd ip))"
  by (simp add: readers_lookup_def asn_facts_def country_facts_def city_facts_def Let_def)

lemma asn_facts_frame [simp]:
  "gf_continent (asn_facts rd ip f) = gf_continent f" "gf_country (asn_facts rd ip f) = gf_country f"
  "gf_subdivision_codes (asn_facts rd ip f) = gf_subdivision_codes f"
  "gf_subdivision_names (asn_facts rd ip f) = gf_subdivision_names f"
  "gf_city_names (asn_facts rd ip f) = gf_city_names f"
  "gf_city_geoname_id (asn_facts rd ip f) = gf_city_geoname_id f"
  by (simp_all add: asn_facts_def lookup_asn_def split: option.split)

lemma country_facts_frame [simp]:
  "gf_asn (country_facts rd ip f) = gf_asn f" "gf_asn_org (country_facts rd ip f) = gf_asn_org f"
  "gf_subdivision_codes (country_facts rd ip f) = gf_subdivision_codes f"
  "gf_subdivision_names (country_facts rd ip f) = gf_subdivision_names f"
  "gf_city_names (country_facts rd ip f) = gf_city_names f"
  "gf_city_geoname_id (country_facts rd ip f) = gf_city_geoname_id f"
  by (simp_all add: country_facts_def lookup_country_def split: option.split)

lemma city_facts_asn [simp]: "gf_asn (city_facts rd ip) = None" "gf_asn_org (city_facts rd ip) = None"
  by (simp_all add: city_facts_def lookup_city_def facts_default_def split: option.split)

lemma asn_facts_asn:
  "gf_asn f = gf_asn g \<Longrightarrow> gf_asn_org f = gf_asn_org g \<Longrightarrow> rd_asn r = rd_asn q \<Longrightarrow>
   gf_asn (asn_facts r ip f) = gf_asn (asn_facts q ip g) \<and> gf_asn_org (asn_facts r ip f) = gf_asn_org (asn_facts q ip g)"
  by (auto simp: asn_facts_def lookup_asn_def split: option.split)

lemma readers_lookup_agree:
  assumes "readers_agree req r q"
  shows "facts_agree req (readers_lookup r ip) (readers_lookup q ip)"
proof -
  have city: "city_facts r ip = city_facts q ip" if "rd_city r = rd_city q"
    using that by (simp add: city_facts_def)
  have country: "country_facts r ip f = country_facts q ip f" if "rd_country r = rd_country q" for f
    using that by (simp add: country_facts_def)
  show ?thesis
    using assms city country asn_facts_asn
    by (auto simp: facts_agree_def readers_lookup_stages readers_agree_def)
qed

text \<open>The invariant of looked-up facts: codes are trimmed upper case, names are non-empty and distinct up to case.\<close>

definition code_ok :: "utext option \<Rightarrow> bool" where
  "code_ok c \<longleftrightarrow> (case c of None \<Rightarrow> True | Some v \<Rightarrow> v \<noteq> [] \<and> to_ascii_uppercase v = v)"

definition names_ok :: "utext list \<Rightarrow> bool" where
  "names_ok ns \<longleftrightarrow> [] \<notin> set ns \<and> distinct (map to_ascii_lowercase ns)"

definition facts_ok :: "geo_facts \<Rightarrow> bool" where
  "facts_ok f \<longleftrightarrow> code_ok (gf_continent f) \<and> code_ok (gf_country f) \<and> names_ok (gf_subdivision_codes f)
     \<and> names_ok (gf_subdivision_names f) \<and> names_ok (gf_city_names f) \<and> gf_asn_org f \<noteq> Some []"

lemma set_if_empty_ok [intro]: "code_ok t \<Longrightarrow> code_ok (set_if_empty t v)"
  by (auto simp: code_ok_def set_if_empty_def non_empty_def split: option.splits Option.bind_splits if_splits)

lemma push_unique_ok [intro]: "names_ok ns \<Longrightarrow> names_ok (push_unique ns v)"
  by (auto simp: names_ok_def push_unique_def Let_def list_ex_iff text_eq_ignore_case_def)

lemma append_names_ok [intro]: "names_ok ns \<Longrightarrow> names_ok (append_names ns n)"
proof -
  have "names_ok ns \<Longrightarrow> names_ok (foldl push_unique ns vs)" for vs
    by (induction vs arbitrary: ns) auto
  then show "names_ok ns \<Longrightarrow> names_ok (append_names ns n)" by (simp add: append_names_def)
qed

lemma add_subdivision_ok: "facts_ok f \<Longrightarrow> facts_ok (add_subdivision f sd)"
  by (auto simp: facts_ok_def add_subdivision_def split: option.split)

lemma city_facts_ok: "facts_ok (city_facts rd ip)"
proof -
  have d: "facts_ok facts_default" by (simp add: facts_ok_def facts_default_def code_ok_def names_ok_def)
  have l: "facts_ok f \<Longrightarrow> facts_ok (foldl add_subdivision f sds)" for f sds
    by (induction sds arbitrary: f) (auto intro: add_subdivision_ok)
  have "facts_ok (lookup_city r ip facts_default)" for r
    unfolding lookup_city_def
    by (auto intro!: l split: option.split) (use d in \<open>auto simp: facts_ok_def\<close>)
  with d show ?thesis by (simp add: city_facts_def split: option.split)
qed

lemma readers_lookup_ok: "facts_ok (readers_lookup rd ip)"
proof -
  have "facts_ok f \<Longrightarrow> facts_ok (country_facts rd ip f)" for f
    by (auto simp: country_facts_def lookup_country_def facts_ok_def split: option.split)
  moreover have "facts_ok f \<Longrightarrow> facts_ok (asn_facts rd ip f)" for f
    by (auto simp: asn_facts_def lookup_asn_def facts_ok_def non_empty_def split: option.split Option.bind_splits if_splits)
  ultimately show ?thesis using city_facts_ok by (simp add: readers_lookup_stages)
qed

lemma reload_keeps_compiled:
  assumes "gs_enabled s \<Longrightarrow> \<exists>cfg. rule_set_compile cfg = Inr (gs_rules s)"
    and "gs_enabled (geo_reload fs snap s)"
  shows "\<exists>cfg. rule_set_compile cfg = Inr (gs_rules (geo_reload fs snap s))"
  using assms
  by (auto simp: geo_reload_def geo_state_from_config_def geo_state_disabled_def
      split: option.splits sum.splits if_splits)

end
