(* ===== verification/Geo_Print.thy ===== *)
theory Geo_Print
  imports Geo_Rules
begin

text \<open>
  The grammar of the Geo expressions, stated by a printer: \<open>+\<close> binds tighter than \<open>/\<close>, both
  associate to the left, parentheses override.  The parser reads every printed expression back
  (\<open>parse_print_expression\<close>), within the parser's own limits on nesting and terms.
\<close>

section \<open>The printer\<close>

fun escape :: "utext \<Rightarrow> utext" where
  "escape [] = []"
| "escape (c # s) = (if c = quote_double \<or> c = backslash then backslash # c # escape s else c # escape s)"

definition quoted :: "utext \<Rightarrow> utext" where
  "quoted v = quote_double # escape v @ [quote_double]"

fun field_name :: "predicate \<Rightarrow> string" where
  "field_name (Continent v) = ''continent''"
| "field_name (Country v) = ''country''"
| "field_name (Subdivision v) = ''subdivision''"
| "field_name (City v) = ''city''"
| "field_name (Geoname n) = ''geoname''"
| "field_name (Asn n) = ''asn''"
| "field_name (Isp v) = ''isp''"

fun print_value :: "predicate \<Rightarrow> utext" where
  "print_value (Geoname n) = print_nat (unat n)"
| "print_value (Asn n) = print_nat (unat n)"
| "print_value (Continent v) = quoted v"
| "print_value (Country v) = quoted v"
| "print_value (Subdivision v) = quoted v"
| "print_value (City v) = quoted v"
| "print_value (Isp v) = quoted v"

definition print_predicate :: "predicate \<Rightarrow> utext" where
  "print_predicate p = lit (field_name p) @ 58 # print_value p"

text \<open>The levels are those of the parser: 0 for \<open>parse_or\<close>, 1 for \<open>parse_and\<close>, 2 for \<open>parse_primary\<close>.\<close>

definition paren :: "bool \<Rightarrow> utext \<Rightarrow> utext" where
  "paren b t = (if b then 40 # t @ [41] else t)"

fun print_at :: "nat \<Rightarrow> expression \<Rightarrow> utext" where
  "print_at k EAny = [42]"
| "print_at k (EPredicate p) = print_predicate p"
| "print_at k (EAnd l r) = paren (1 < k) (print_at 1 l @ 43 # print_at 2 r)"
| "print_at k (EOr l r) = paren (0 < k) (print_at 0 l @ 47 # print_at 1 r)"

fun nesting :: "nat \<Rightarrow> expression \<Rightarrow> nat" where
  "nesting k EAny = 0"
| "nesting k (EPredicate p) = 0"
| "nesting k (EAnd l r) = (if 1 < k then 1 else 0) + max (nesting 1 l) (nesting 2 r)"
| "nesting k (EOr l r) = (if 0 < k then 1 else 0) + max (nesting 0 l) (nesting 1 r)"

definition value_ok :: "utext \<Rightarrow> bool" where
  "value_ok v \<longleftrightarrow> v \<noteq> [] \<and> trim v = v"

fun predicate_ok :: "predicate \<Rightarrow> bool" where
  "predicate_ok (Continent v) = (value_ok v \<and> to_ascii_uppercase v = v)"
| "predicate_ok (Country v) = (value_ok v \<and> is_country_code v \<and> to_ascii_uppercase v = v)"
| "predicate_ok (Subdivision v) = value_ok v"
| "predicate_ok (City v) = value_ok v"
| "predicate_ok (Geoname n) = (n \<noteq> 0)"
| "predicate_ok (Asn n) = (n \<noteq> 0)"
| "predicate_ok (Isp v) = value_ok v"

fun expression_ok :: "expression \<Rightarrow> bool" where
  "expression_ok EAny = True"
| "expression_ok (EPredicate p) = predicate_ok p"
| "expression_ok (EAnd l r) = (expression_ok l \<and> expression_ok r)"
| "expression_ok (EOr l r) = (expression_ok l \<and> expression_ok r)"

section \<open>Terms\<close>

definition delimited :: "utext \<Rightarrow> bool" where
  "delimited s \<longleftrightarrow> s = [] \<or> hd s \<in> {43, 47, 40, 41}"

text \<open>Characters that neither open a quote nor end a term.\<close>

definition plain :: "uchar \<Rightarrow> bool" where
  "plain c \<longleftrightarrow> c \<notin> {39, 34, 43, 47, 40, 41}"

lemma scan_delimited [simp]: "delimited s \<Longrightarrow> scan_predicate None False s = ([], None, s)"
  by (cases s) (auto simp: delimited_def)

lemma scan_plain:
  "list_all plain t \<Longrightarrow> scan_predicate None False (t @ s) =
     (let (a, q, r) = scan_predicate None False s in (t @ a, q, r))"
  by (induction t) (auto simp: plain_def Let_def split: prod.splits)

lemma scan_escape:
  "scan_predicate (Some quote_double) False (escape v @ quote_double # s) =
     (let (a, q, r) = scan_predicate None False s in (escape v @ quote_double # a, q, r))"
  by (induction v) (auto simp: Let_def split: prod.splits)

lemma scan_quoted: "delimited s \<Longrightarrow> scan_predicate None False (quoted v @ s) = (quoted v, None, s)"
  using scan_escape [of v s] by (simp add: quoted_def)

lemma digits_plain: "list_all is_digit t \<Longrightarrow> list_all plain t"
  by (auto simp: list_all_iff is_digit_def plain_def)

lemma lit_Cons: "lit (c # cs) = of_char c # lit cs" "lit [] = []"
  by (simp_all add: lit_def)

lemma scan_print_value: "delimited s \<Longrightarrow> scan_predicate None False (print_value p @ s) = (print_value p, None, s)"
  using scan_plain [OF digits_plain, of "print_nat _" s] print_nat_correct
  by (cases p) (simp_all add: scan_quoted)

lemma field_name_plain: "list_all plain (lit (field_name p))"
  by (cases p) (simp_all add: lit_Cons plain_def)

lemma scan_print_predicate:
  assumes "delimited s"
  shows "scan_predicate None False (print_predicate p @ s) = (print_predicate p, None, s)"
  using scan_plain [of "lit (field_name p) @ [58]" "print_value p @ s"] field_name_plain [of p]
    scan_print_value [OF assms, of p]
  by (simp add: print_predicate_def plain_def)

lemma unescape_escape: "unescape False (escape v) = Inr v"
  by (induction v) auto

lemma trim_quoted [simp]: "trim (quoted v) = quoted v"
  by (simp add: trim_id_iff quoted_def is_whitespace_def)

lemma decode_quoted: "trim v = v \<Longrightarrow> decode_value (quoted v) = Inr v"
proof -
  assume "trim v = v"
  moreover have "trim (quote_double # escape v @ [quote_double]) = quote_double # escape v @ [quote_double]"
    using trim_quoted by (simp add: quoted_def)
  ultimately show ?thesis
    by (simp add: decode_value_def quoted_def Let_def unescape_escape)
qed

lemma digits_trim: "list_all is_digit t \<Longrightarrow> trim t = t"
proof (cases "t = []")
  case False
  moreover assume "list_all is_digit t"
  ultimately have "is_digit (hd t)" "is_digit (last t)" by (auto simp: list_all_iff)
  then show ?thesis by (auto simp: trim_id_iff is_digit_def is_whitespace_def)
qed simp

lemma decode_number: "decode_value (print_nat n) = Inr (print_nat n)"
proof -
  have "list_all is_digit (print_nat n)" using print_nat_correct by blast
  with digits_trim [OF this] show ?thesis
    by (cases "print_nat n") (auto simp: decode_value_def is_digit_def Let_def)
qed

lemma strip_as_number: "strip_as (print_nat n) = print_nat n"
proof -
  have "list_all is_digit (print_nat n)" using print_nat_correct by blast
  then show ?thesis by (cases "print_nat n") (auto simp: strip_as_def lit_def is_digit_def)
qed

lemma parse_nonzero_print: "n \<noteq> 0 \<Longrightarrow> parse_nonzero_u32 f (print_nat (unat n)) = Inr n"
  by (simp add: parse_nonzero_u32_def parse_print_u32)

lemma compile_field:
  assumes "f \<noteq> []" "list_all is_ascii_alphabetic f" "t \<noteq> []" "\<not> is_whitespace (last t)"
  shows "trim (f @ 58 # t) = f @ 58 # t" "split_once 58 (f @ 58 # t) = Some (f, t)" "trim f = f"
proof -
  have w: "\<not> is_whitespace c" if "is_ascii_alphabetic c" for c
    using that by (auto simp: is_ascii_alphabetic_def is_whitespace_def)
  have "is_ascii_alphabetic (hd f)" "is_ascii_alphabetic (last f)"
    using assms(1,2) by (auto simp: list_all_iff)
  with assms(1,3,4) w show "trim (f @ 58 # t) = f @ 58 # t" "trim f = f"
    by (auto simp: trim_id_iff)
  from assms(2) show "split_once 58 (f @ 58 # t) = Some (f, t)"
    by (induction f) (auto simp: is_ascii_alphabetic_def)
qed

text \<open>The compilation of \<open>field:value\<close> once the field name and the decoded value are known.\<close>

lemma predicate_compile_field:
  assumes "f \<noteq> []" "list_all is_ascii_alphabetic f" "to_ascii_lowercase f = f"
    "t \<noteq> []" "\<not> is_whitespace (last t)" "decode_value t = Inr v" "v \<noteq> []"
  shows "predicate_compile (f @ 58 # t) =
    (if f = lit ''continent'' then Inr (EPredicate (Continent (to_ascii_uppercase v)))
     else if f = lit ''country''
     then (if \<not> is_country_code v then Inl (BadCountry v) else Inr (EPredicate (Country (to_ascii_uppercase v))))
     else if f = lit ''subdivision'' \<or> f = lit ''region'' then Inr (EPredicate (Subdivision v))
     else if f = lit ''city'' then Inr (EPredicate (City v))
     else if f = lit ''geoname'' \<or> f = lit ''city_id''
     then map_sum id (EPredicate \<circ> Geoname) (parse_nonzero_u32 f v)
     else if f = lit ''asn'' then map_sum id (EPredicate \<circ> Asn) (parse_nonzero_u32 f (strip_as v))
     else if f = lit ''isp'' \<or> f = lit ''asn_org'' then Inr (EPredicate (Isp v))
     else Inl (UnsupportedField f))"
proof -
  note c = compile_field [OF assms(1,2,4,5)]
  have "f @ 58 # t \<noteq> lit ''*''" using assms(1,4) by (cases f) (auto simp: lit_def)
  moreover have "\<not> is_country_code (f @ 58 # t)"
    by (simp add: is_country_code_def is_ascii_alphabetic_def)
  ultimately show ?thesis
    using assms(3,6,7) by (simp add: predicate_compile_def c)
qed

lemma print_nat_last: "print_nat n \<noteq> [] \<and> \<not> is_whitespace (last (print_nat n))"
proof -
  have "print_nat n \<noteq> []" "is_digit (last (print_nat n))"
    using print_nat_correct [of n] by (auto simp: list_all_iff)
  then show ?thesis by (auto simp: is_digit_def is_whitespace_def)
qed

lemma quoted_last: "quoted v \<noteq> [] \<and> \<not> is_whitespace (last (quoted v))"
  by (simp add: quoted_def is_whitespace_def)

lemma print_value_last: "print_value p \<noteq> [] \<and> \<not> is_whitespace (last (print_value p))"
  using quoted_last by (cases p) (simp_all add: print_nat_last)

lemma field_name_ok:
  "lit (field_name p) \<noteq> []" "list_all is_ascii_alphabetic (lit (field_name p))"
  "to_ascii_lowercase (lit (field_name p)) = lit (field_name p)"
  by (cases p; simp add: lit_Cons is_ascii_alphabetic_def to_ascii_lowercase_def to_lower_def)+

lemma compile_print_predicate: "predicate_ok p \<Longrightarrow> predicate_compile (print_predicate p) = Inr (EPredicate p)"
proof -
  assume ok: "predicate_ok p"
  note f = predicate_compile_field [OF field_name_ok [of p] conjunct1 [OF print_value_last [of p]]
      conjunct2 [OF print_value_last [of p]]]
  show ?thesis
    using ok print_nat_last f unfolding print_predicate_def
    by (cases p) (simp_all add: value_ok_def decode_quoted decode_number lit_Cons strip_as_number
        parse_nonzero_print)
qed

lemma print_predicate_trim: "trim (print_predicate p) = print_predicate p" "print_predicate p \<noteq> []"
  "\<not> is_whitespace (hd (print_predicate p))" "hd (print_predicate p) \<noteq> 40"
proof -
  show "trim (print_predicate p) = print_predicate p"
    using compile_field(1) [OF field_name_ok(1,2)] print_value_last by (simp add: print_predicate_def)
  show "print_predicate p \<noteq> []" by (simp add: print_predicate_def)
  show "\<not> is_whitespace (hd (print_predicate p))" "hd (print_predicate p) \<noteq> 40"
    by (cases p; simp add: print_predicate_def lit_Cons is_whitespace_def)+
qed

section \<open>Fuel\<close>

text \<open>A result does not depend on the fuel that sufficed for it.\<close>

lemma pbind_mono:
  "pbind m f = Some r \<Longrightarrow> (\<And>x. m = Some x \<Longrightarrow> m' = Some x) \<Longrightarrow> (\<And>x y. f x = Some y \<Longrightarrow> f' x = Some y)
   \<Longrightarrow> pbind m' f' = Some r"
  by (auto simp: pbind_def split: option.splits sum.splits)

lemma parser_mono:
  "parse_or n p = Some r \<Longrightarrow> n \<le> m \<Longrightarrow> parse_or m p = Some r"
  "or_loop n e p = Some r \<Longrightarrow> n \<le> m \<Longrightarrow> or_loop m e p = Some r"
  "parse_and n p = Some r \<Longrightarrow> n \<le> m \<Longrightarrow> parse_and m p = Some r"
  "and_loop n e p = Some r \<Longrightarrow> n \<le> m \<Longrightarrow> and_loop m e p = Some r"
  "parse_primary n p = Some r \<Longrightarrow> n \<le> m \<Longrightarrow> parse_primary m p = Some r"
proof (induction n p and n e p and n p and n e p and n p arbitrary: m r and m r and m r and m r and m r
       rule: parse_or_or_loop_parse_and_and_loop_parse_primary.induct)
  case (2 n p)
  from \<open>Suc n \<le> m\<close> obtain m' where m: "m = Suc m'" "n \<le> m'" by (cases m) auto
  from "2.prems"(1) show ?case unfolding m parse_or.simps
    by (rule pbind_mono) (auto split: prod.splits intro: "2.IH" m(2))
next
  case (4 n e p)
  from \<open>Suc n \<le> m\<close> obtain m' where m: "m = Suc m'" "n \<le> m'" by (cases m) auto
  show ?case
  proof (cases "consume 47 (skip_whitespace p)")
    case (Some q)
    have "pbind (parse_and n q) (\<lambda>(r, p''). or_loop n (EOr e r) p'') = Some r" using "4.prems"(1) Some by simp
    then have "pbind (parse_and m' q) (\<lambda>(r, p''). or_loop m' (EOr e r) p'') = Some r"
      by (rule pbind_mono) (auto split: prod.splits intro: "4.IH" [OF Some] m(2))
    with Some show ?thesis by (simp add: m)
  qed (use "4.prems" m in simp)
next
  case (6 n p)
  from \<open>Suc n \<le> m\<close> obtain m' where m: "m = Suc m'" "n \<le> m'" by (cases m) auto
  from "6.prems"(1) show ?case unfolding m parse_and.simps
    by (rule pbind_mono) (auto split: prod.splits intro: "6.IH" m(2))
next
  case (8 n e p)
  from \<open>Suc n \<le> m\<close> obtain m' where m: "m = Suc m'" "n \<le> m'" by (cases m) auto
  show ?case
  proof (cases "consume 43 (skip_whitespace p)")
    case (Some q)
    have "pbind (parse_primary n q) (\<lambda>(r, p''). and_loop n (EAnd e r) p'') = Some r" using "8.prems"(1) Some by simp
    then have "pbind (parse_primary m' q) (\<lambda>(r, p''). and_loop m' (EAnd e r) p'') = Some r"
      by (rule pbind_mono) (auto split: prod.splits intro: "8.IH" [OF Some] m(2))
    with Some show ?thesis by (simp add: m)
  qed (use "8.prems" m in simp)
next
  case (10 n p)
  from \<open>Suc n \<le> m\<close> obtain m' where m: "m = Suc m'" "n \<le> m'" by (cases m) auto
  show ?case
  proof (cases "consume 40 (skip_whitespace p)")
    case (Some q)
    show ?thesis
    proof (cases "32 \<le> ps_depth q")
      case False
      note IH = "10.IH" [OF Some False, unfolded Suc_eq_plus1 [symmetric]]
      from Some False "10.prems"(1) show ?thesis
        by (simp add: m, elim pbind_mono) (auto intro: IH m(2))
    qed (use Some "10.prems" m in simp)
  qed (use "10.prems" m in simp)
qed simp_all

definition settles :: "(nat \<Rightarrow> 'a option) \<Rightarrow> 'a \<Rightarrow> bool" where
  "settles f r \<longleftrightarrow> (\<exists>n0. \<forall>n \<ge> n0. f n = Some r)"

lemma settles_Suc: "settles (\<lambda>n. f (Suc n)) r \<Longrightarrow> settles f r"
  unfolding settles_def by (metis Suc_le_D Suc_le_mono)

lemma settles_pbind:
  "settles f (Inr x) \<Longrightarrow> settles (\<lambda>n. g n x) r \<Longrightarrow> settles (\<lambda>n. pbind (f n) (g n)) r"
  unfolding settles_def pbind_def
  by (metis (no_types, lifting) max.bounded_iff option.simps(5) sum.simps(6))

lemma settles_const [simp]: "settles (\<lambda>n. Some r) r"
  by (simp add: settles_def)

section \<open>The round trip\<close>

text \<open>The parser after reading \<open>t\<close> and \<open>k\<close> terms, with \<open>s\<close> left.\<close>

definition after :: "parser \<Rightarrow> utext \<Rightarrow> nat \<Rightarrow> utext \<Rightarrow> parser" where
  "after p t k s = p\<lparr>ps_rest := s, ps_position := ps_position p + utf8_len t, ps_terms := ps_terms p + k\<rparr>"

lemma after_simps [simp]:
  "ps_rest (after p t k s) = s" "ps_depth (after p t k s) = ps_depth p"
  "ps_terms (after p t k s) = ps_terms p + k"
  "after (after p t k s) t' k' s' = after p (t @ t') (k + k') s'"
  by (simp_all add: after_def)

lemma skip_none: "s = [] \<or> \<not> is_whitespace (hd s) \<Longrightarrow> ps_rest p = s \<Longrightarrow> skip_whitespace p = p"
  by (cases s) (auto simp: skip_whitespace_def trim_start_def)

lemma skip_delimited [simp]: "delimited (ps_rest p) \<Longrightarrow> skip_whitespace p = p"
  by (rule skip_none [OF _ refl]) (auto simp: delimited_def is_whitespace_def)

lemma consume_Cons [simp]: "ps_rest p = c # s \<Longrightarrow> consume c p = Some (after p [c] 0 s)"
  by (simp add: consume_def pos_advance_def after_def)

lemma consume_other: "ps_rest p = [] \<or> hd (ps_rest p) \<noteq> c \<Longrightarrow> consume c p = None"
  by (auto simp: consume_def split: list.splits)

lemma delimited_Cons [simp]: "delimited (c # s) \<longleftrightarrow> c \<in> {43, 47, 40, 41}"
  by (simp add: delimited_def)

lemma print_at_start: "print_at k e \<noteq> [] \<and> \<not> is_whitespace (hd (print_at k e))"
  by (induction k e rule: print_at.induct)
     (use print_predicate_trim in \<open>auto simp: paren_def is_whitespace_def\<close>)

lemma skip_print [simp]: "ps_rest p = print_at k e @ s \<Longrightarrow> skip_whitespace p = p"
  by (rule skip_none [OF _ refl]) (use print_at_start [of k e] in auto)

text \<open>A term that is neither parenthesised nor composed: \<open>*\<close> or a predicate.\<close>

lemma primary_atom:
  assumes "e = EAny \<or> (\<exists>q. e = EPredicate q \<and> predicate_ok q)" "ps_rest p = print_at k e @ s"
    "delimited s" "ps_terms p < 256"
  shows "settles (\<lambda>n. parse_primary n p) (Inr (e, after p (print_at k e) 1 s))"
proof -
  define t where "t = print_at k e"
  have t: "scan_predicate None False (t @ s) = (t, None, s) \<and> trim t = t \<and> t \<noteq> [] \<and> hd t \<noteq> 40
    \<and> predicate_compile t = Inr e"
  proof (cases "e = EAny")
    case True
    have "trim [42] = [42]" by (simp add: trim_id_iff is_whitespace_def)
    with True assms(3) scan_plain [of "[42]" s] show ?thesis
      by (simp add: t_def plain_def predicate_compile_def lit_def)
  next
    case False
    then show ?thesis
      using assms(1) scan_print_predicate [OF assms(3)] print_predicate_trim compile_print_predicate
      by (auto simp: t_def)
  qed
  have w: "skip_whitespace p = p" using assms(2) by (rule skip_print)
  have c: "consume 40 p = None" using t assms(2) by (intro consume_other) (auto simp: t_def)
  have "ps_rest p = t @ s" using assms(2) by (simp add: t_def)
  with t have "read_predicate p = Inr (t, after p t 0 s)"
    by (simp add: read_predicate_def w after_def)
  then have "parse_term p = Inr (e, after p t 1 s)"
    using assms(4) t by (simp add: parse_term_def Let_def after_def)
  then show ?thesis by - (rule settles_Suc, simp add: w c t_def)
qed

lemma primary_paren:
  assumes "settles (\<lambda>n. parse_or n (after (p\<lparr>ps_depth := Suc (ps_depth p)\<rparr>) [40] 0 (t @ 41 # s)))
      (Inr (e, after (p\<lparr>ps_depth := Suc (ps_depth p)\<rparr>) (40 # t) k (41 # s)))"
    and "ps_rest p = 40 # t @ 41 # s" "ps_depth p < 32"
  shows "settles (\<lambda>n. parse_primary n p) (Inr (e, after p (40 # t @ [41]) k s))"
proof -
  have p: "after p [40] 0 (t @ 41 # s)\<lparr>ps_depth := Suc (ps_depth p)\<rparr>
      = after (p\<lparr>ps_depth := Suc (ps_depth p)\<rparr>) [40] 0 (t @ 41 # s)"
    "after (p\<lparr>ps_depth := Suc (ps_depth p)\<rparr>) (40 # t) k (41 # s)\<lparr>ps_depth := ps_depth p\<rparr> = after p (40 # t) k (41 # s)"
    by (simp_all add: after_def)
  have c: "consume 41 (after p (40 # t) k (41 # s)) = Some (after p (40 # t @ [41]) k s)"
    by (simp add: consume_def pos_advance_def after_def)
  have w: "skip_whitespace p = p"
    using assms(2) by (rule skip_none [rotated]) (simp add: is_whitespace_def)
  show ?thesis
  proof (rule settles_Suc)
    show "settles (\<lambda>n. parse_primary (Suc n) p) (Inr (e, after p (40 # t @ [41]) k s))"
      using assms(2,3) by (simp add: w p) (rule settles_pbind [OF assms(1)], simp add: p c)
  qed
qed

lemma and_loop_stop: "delimited s \<Longrightarrow> s = [] \<or> hd s \<noteq> 43 \<Longrightarrow> ps_rest p = s \<Longrightarrow>
    settles (\<lambda>n. and_loop n e p) (Inr (e, p))"
  by (rule settles_Suc) (simp add: consume_other)

lemma or_loop_stop: "delimited s \<Longrightarrow> s = [] \<or> hd s \<noteq> 47 \<Longrightarrow> ps_rest p = s \<Longrightarrow>
    settles (\<lambda>n. or_loop n e p) (Inr (e, p))"
  by (rule settles_Suc) (simp add: consume_other)

lemma parse_and_from_primary:
  assumes "settles (\<lambda>n. parse_primary n p) (Inr (e, q))" "settles (\<lambda>n. and_loop n e q) r"
  shows "settles (\<lambda>n. parse_and n p) r"
  by (rule settles_Suc) (use settles_pbind [OF assms(1), of "\<lambda>n (e, p'). and_loop n e p'" r] assms(2) in simp)

lemma parse_or_from_and:
  assumes "settles (\<lambda>n. parse_and n p) (Inr (e, q))" "settles (\<lambda>n. or_loop n e q) r"
  shows "settles (\<lambda>n. parse_or n p) r"
  by (rule settles_Suc) (use settles_pbind [OF assms(1), of "\<lambda>n (e, p'). or_loop n e p'" r] assms(2) in simp)

lemma and_loop_next:
  assumes "ps_rest p = 43 # t @ s" "settles (\<lambda>n. parse_primary n (after p [43] 0 (t @ s))) (Inr (e', q))"
    "settles (\<lambda>n. and_loop n (EAnd e e') q) r"
  shows "settles (\<lambda>n. and_loop n e p) r"
  by (rule settles_Suc)
     (use assms settles_pbind [OF assms(2), of "\<lambda>n (r, p''). and_loop n (EAnd e r) p''" r] in simp)

lemma or_loop_next:
  assumes "ps_rest p = 47 # t @ s" "settles (\<lambda>n. parse_and n (after p [47] 0 (t @ s))) (Inr (e', q))"
    "settles (\<lambda>n. or_loop n (EOr e e') q) r"
  shows "settles (\<lambda>n. or_loop n e p) r"
  by (rule settles_Suc)
     (use assms settles_pbind [OF assms(2), of "\<lambda>n (r, p''). or_loop n (EOr e r) p''" r] in simp)

text \<open>What the parser of each level does on an expression printed at that level.\<close>

definition reads :: "nat \<Rightarrow> expression \<Rightarrow> bool" where
  "reads k e \<longleftrightarrow> (\<forall>p s. ps_rest p = print_at k e @ s \<longrightarrow> delimited s \<longrightarrow> ps_depth p + nesting k e \<le> 32
     \<longrightarrow> ps_terms p + leaves e \<le> 256 \<longrightarrow>
     (let q = after p (print_at k e) (leaves e) s in
      if k = 2 then settles (\<lambda>n. parse_primary n p) (Inr (e, q))
      else if k = 1 then (\<forall>r. settles (\<lambda>n. and_loop n e q) r \<longrightarrow> settles (\<lambda>n. parse_and n p) r)
      else (s = [] \<or> hd s \<noteq> 43) \<longrightarrow>
        (\<forall>r. settles (\<lambda>n. or_loop n e q) r \<longrightarrow> settles (\<lambda>n. parse_or n p) r)))"

lemma reads_primary:
  "reads 2 e \<Longrightarrow> ps_rest p = print_at 2 e @ s \<Longrightarrow> delimited s \<Longrightarrow> ps_depth p + nesting 2 e \<le> 32 \<Longrightarrow>
   ps_terms p + leaves e \<le> 256 \<Longrightarrow>
   settles (\<lambda>n. parse_primary n p) (Inr (e, after p (print_at 2 e) (leaves e) s))"
  by (simp add: reads_def)

lemma reads_and:
  "reads 1 e \<Longrightarrow> ps_rest p = print_at 1 e @ s \<Longrightarrow> delimited s \<Longrightarrow> ps_depth p + nesting 1 e \<le> 32 \<Longrightarrow>
   ps_terms p + leaves e \<le> 256 \<Longrightarrow> settles (\<lambda>n. and_loop n e (after p (print_at 1 e) (leaves e) s)) r \<Longrightarrow>
   settles (\<lambda>n. parse_and n p) r"
  by (simp add: reads_def)

lemma reads_or:
  "reads 0 e \<Longrightarrow> ps_rest p = print_at 0 e @ s \<Longrightarrow> delimited s \<Longrightarrow> ps_depth p + nesting 0 e \<le> 32 \<Longrightarrow>
   ps_terms p + leaves e \<le> 256 \<Longrightarrow> s = [] \<or> hd s \<noteq> 43 \<Longrightarrow>
   settles (\<lambda>n. or_loop n e (after p (print_at 0 e) (leaves e) s)) r \<Longrightarrow>
   settles (\<lambda>n. parse_or n p) r"
  unfolding reads_def Let_def by auto

text \<open>A level reads what the next tighter level reads when the expression prints the same there.\<close>

lemma reads_1_from_2:
  assumes "reads 2 e" "print_at 1 e = print_at 2 e" "nesting 1 e = nesting 2 e"
  shows "reads 1 e"
  using assms(2,3) unfolding reads_def
  by (auto simp: Let_def intro: parse_and_from_primary [OF reads_primary [OF assms(1)]])

lemma reads_0_from_1:
  assumes "reads 1 e" "print_at 0 e = print_at 1 e" "nesting 0 e = nesting 1 e"
  shows "reads 0 e"
  using assms(2,3) unfolding reads_def
  by (auto simp: Let_def intro!: parse_or_from_and [OF reads_and [OF assms(1)]] and_loop_stop [OF _ _ refl])

text \<open>A parenthesised expression at the tightest level.\<close>

lemma reads_2_paren:
  assumes "reads 0 e" "print_at 2 e = 40 # print_at 0 e @ [41]" "nesting 2 e = Suc (nesting 0 e)"
  shows "reads 2 e"
proof -
  have "settles (\<lambda>n. parse_primary n p) (Inr (e, after p (40 # print_at 0 e @ [41]) (leaves e) s))"
    if "ps_rest p = 40 # print_at 0 e @ 41 # s" "ps_depth p + Suc (nesting 0 e) \<le> 32"
      "ps_terms p + leaves e \<le> 256" for p s
    by (rule primary_paren)
       (use that in \<open>auto intro!: reads_or [OF assms(1)] or_loop_stop [OF _ _ refl, of "_"]\<close>)
  with assms(2,3) show ?thesis by (simp add: reads_def)
qed

lemma reads_atom:
  assumes "e = EAny \<or> (\<exists>q. e = EPredicate q \<and> predicate_ok q)"
  shows "reads 2 e"
proof -
  have "leaves e = 1" using assms by auto
  then show ?thesis unfolding reads_def using primary_atom [OF assms, of _ 2] by simp
qed

lemma reads_EAnd:
  assumes "reads 1 l" "reads 2 r"
  shows "reads 1 (EAnd l r)"
proof -
  have "settles (\<lambda>n. parse_and n p) x"
    if p: "ps_rest p = print_at 1 l @ 43 # print_at 2 r @ s" and s: "delimited s"
      and d: "ps_depth p + max (nesting 1 l) (nesting 2 r) \<le> 32" and t: "ps_terms p + (leaves l + leaves r) \<le> 256"
      and x: "settles (\<lambda>n. and_loop n (EAnd l r) (after p (print_at 1 l @ 43 # print_at 2 r) (leaves l + leaves r) s)) x"
    for p s x
  proof (rule reads_and [OF assms(1) p])
    let ?q = "after p (print_at 1 l) (leaves l) (43 # print_at 2 r @ s)"
    have "settles (\<lambda>n. parse_primary n (after ?q [43] 0 (print_at 2 r @ s)))
        (Inr (r, after (after ?q [43] 0 (print_at 2 r @ s)) (print_at 2 r) (leaves r) s))"
      by (rule reads_primary [OF assms(2)]) (use s d t in auto)
    then show "settles (\<lambda>n. and_loop n l ?q) x"
      by (rule and_loop_next [rotated]) (use x in simp_all)
  qed (use d t in auto)
  then show ?thesis by (simp add: reads_def paren_def)
qed

lemma reads_EOr:
  assumes "reads 0 l" "reads 1 r"
  shows "reads 0 (EOr l r)"
proof -
  have "settles (\<lambda>n. parse_or n p) x"
    if p: "ps_rest p = print_at 0 l @ 47 # print_at 1 r @ s" and s: "delimited s" "s = [] \<or> hd s \<noteq> 43"
      and d: "ps_depth p + max (nesting 0 l) (nesting 1 r) \<le> 32" and t: "ps_terms p + (leaves l + leaves r) \<le> 256"
      and x: "settles (\<lambda>n. or_loop n (EOr l r) (after p (print_at 0 l @ 47 # print_at 1 r) (leaves l + leaves r) s)) x"
    for p s x
  proof (rule reads_or [OF assms(1) p])
    let ?q = "after p (print_at 0 l) (leaves l) (47 # print_at 1 r @ s)"
    have "settles (\<lambda>n. parse_and n (after ?q [47] 0 (print_at 1 r @ s)))
        (Inr (r, after (after ?q [47] 0 (print_at 1 r @ s)) (print_at 1 r) (leaves r) s))"
      by (rule reads_and [OF assms(2)]) (use s d t in \<open>auto intro!: and_loop_stop [OF s]\<close>)
    then show "settles (\<lambda>n. or_loop n l ?q) x"
      by (rule or_loop_next [rotated]) (use x in simp_all)
  qed (use d t in auto)
  then show ?thesis by (simp add: reads_def paren_def)
qed

lemma reads_all: "expression_ok e \<Longrightarrow> reads 0 e \<and> reads 1 e \<and> reads 2 e"
proof (induction e)
  case (EAnd l r)
  then have "reads 1 (EAnd l r)" using reads_EAnd by simp
  moreover from this have "reads 0 (EAnd l r)" by (rule reads_0_from_1) (simp_all add: paren_def)
  ultimately show ?case by (auto intro: reads_2_paren simp: paren_def)
next
  case (EOr l r)
  then have "reads 0 (EOr l r)" using reads_EOr by simp
  moreover from this have "reads 2 (EOr l r)" by (rule reads_2_paren) (simp_all add: paren_def)
  ultimately show ?case using reads_1_from_2 [of "EOr l r"] by (simp add: paren_def)
next
  case EAny
  have "reads 2 EAny" by (simp add: reads_atom)
  with reads_1_from_2 [of EAny] reads_0_from_1 [of EAny] show ?case by simp
next
  case (EPredicate q)
  then have "reads 2 (EPredicate q)" by (simp add: reads_atom)
  with reads_1_from_2 [of "EPredicate q"] reads_0_from_1 [of "EPredicate q"] show ?case by simp
qed

lemma parse_print_expression:
  assumes "expression_ok e" "nesting 0 e \<le> 32" "leaves e \<le> 256"
  shows "expression_parse (print_at 0 e) = Inr e"
proof -
  define p where "p = parser_new (print_at 0 e)"
  define q where "q = after p (print_at 0 e) (leaves e) []"
  have "settles (\<lambda>n. parse_or n p) (Inr (e, q))"
    by (rule reads_or) (use assms reads_all in \<open>auto simp: p_def parser_new_def q_def delimited_def
        intro!: or_loop_stop [OF _ _ refl]\<close>)
  then obtain n where n: "parse_or n p = Some (Inr (e, q))" unfolding settles_def by blast
  obtain r where r: "parse_or (parse_fuel (print_at 0 e)) p = Some r"
    using parser_total(1) [of p "parse_fuel (print_at 0 e)"] by (auto simp: p_def parser_new_def parse_fuel_def)
  have "r = Inr (e, q)"
    using parser_mono(1) [OF n max.cobounded1] parser_mono(1) [OF r max.cobounded2]
    by (metis option.inject)
  moreover have "skip_whitespace q = q" by (simp add: q_def delimited_def)
  ultimately show ?thesis
    using r by (simp add: expression_parse_def expression_parse_opt_def pbind_def p_def [symmetric] Let_def)
       (simp add: q_def after_def p_def parser_new_def)
qed

end
