(* ===== verification/Geo_Properties.thy ===== *)
theory Geo_Properties
  imports Geo_Select Geo_Print "HOL-Library.Code_Target_Numeral"
begin

text \<open>
  The properties of the Geo relay selector: the parser is total within its limits and reads back
  every expression of the grammar; the selection is the first configured online relay of the first
  matching rule that has one; the databases that the rules require are all that it depends on.
\<close>

text \<open>C10. The expression parser always returns, whatever the text: enough fuel is three units per
character and three more, and more fuel never changes the result.  An accepted expression has at
most 256 terms, and a text that opens with 33 parentheses is refused for its nesting.\<close>

theorem expression_parse_total_bounded:
  "(\<forall>fuel \<ge> parse_fuel source. expression_parse_opt fuel source = Some (expression_parse source))
   \<and> (\<forall>e. expression_parse source = Inr e \<longrightarrow> leaves e \<le> MAX_EXPRESSION_TERMS)
   \<and> expression_parse (replicate (MAX_EXPRESSION_DEPTH + 1) 40 @ source) = Inl NestingTooDeep"
proof -
  obtain r where r: "parse_or (parse_fuel source) (parser_new source) = Some r"
    using parser_total(1) [of "parser_new source" "parse_fuel source"]
    by (auto simp: parser_new_def parse_fuel_def)
  have "expression_parse_opt fuel source = expression_parse_opt (parse_fuel source) source"
    if "parse_fuel source \<le> fuel" for fuel
    using parser_mono(1) [OF r that] r by (simp add: expression_parse_opt_def)
  with parse_fuel_enough [of source]
  have "\<forall>fuel \<ge> parse_fuel source. expression_parse_opt fuel source = Some (expression_parse source)"
    by (metis expression_parse_def option.sel)
  moreover have "MAX_EXPRESSION_DEPTH + 1 = 33" by simp
  then have "expression_parse (replicate (MAX_EXPRESSION_DEPTH + 1) 40 @ source) = Inl NestingTooDeep"
    using expression_parse_nesting by (simp only:)
  ultimately show ?thesis using expression_parse_leaves [of source] by blast
qed

theorem expression_parse_total_bounded_witness:
  "expression_parse_opt 12 (lit ''CN'') = Some (expression_parse (lit ''CN''))"
proof -
  have "parse_fuel (lit ''CN'') \<le> 12" by (simp add: parse_fuel_def lit_def)
  then show ?thesis using expression_parse_total_bounded [of "lit ''CN''"] by blast
qed

text \<open>C11. The parser reads back every expression printed with the precedence of the grammar:
\<open>+\<close> binds tighter than \<open>/\<close>, both associate to the left, parentheses override, and quoted values
with escapes stand for themselves.  The expression must be one the parser can build (non-empty
trimmed values, upper-case codes, positive numbers) and within the limits on nesting and terms.\<close>

theorem expression_round_trip:
  assumes "expression_ok e" "nesting 0 e \<le> MAX_EXPRESSION_DEPTH" "leaves e \<le> MAX_EXPRESSION_TERMS"
  shows "expression_parse (print_at 0 e) = Inr e"
  by (rule parse_print_expression [OF assms])

abbreviation sample_expression :: expression where
  "sample_expression \<equiv> EAnd (EOr (EPredicate (Country (lit ''CN''))) (EPredicate (Asn 4134)))
     (EPredicate (City (lit ''A + \"B\"'')))"

theorem expression_round_trip_witness:
  "expression_parse (print_at 0 sample_expression) = Inr sample_expression"
proof (rule expression_round_trip)
  show "expression_ok sample_expression" by code_simp
  show "nesting 0 sample_expression \<le> MAX_EXPRESSION_DEPTH" by simp
  show "leaves sample_expression \<le> MAX_EXPRESSION_TERMS" by simp
qed

text \<open>C9. A selection is made by the first rule that applies to the two clients, as given or, if it
is symmetric, swapped, and that has a configured relay online.  It names that rule, its direction
(direct whenever the rule serves the clients as given) and as candidates the online relays of the rule
in the order of the configuration, each with its first online spelling; the relay is the first of them.
When no selection is made, no rule both applies and has a relay online.\<close>

theorem select_first_offering_rule:
  "case rule_set_select rs facts_a facts_b online of
     None \<Rightarrow> list_all (\<lambda>rule. \<not> rule_offers rule facts_a facts_b online) (rs_rules rs)
   | Some s \<Rightarrow> sel_rule_index s < length (rs_rules rs)
       \<and> list_all (\<lambda>rule. \<not> rule_offers rule facts_a facts_b online) (take (sel_rule_index s) (rs_rules rs))
       \<and> rule_offers (rs_rules rs ! sel_rule_index s) facts_a facts_b online
       \<and> sel_direction s = (if rule_serves (rs_rules rs ! sel_rule_index s) facts_a facts_b then Direct else Reverse)
       \<and> sel_rule_name s = rr_name (rs_rules rs ! sel_rule_index s)
       \<and> sel_candidates s = map (online_spelling online) (filter (relay_up online) (rr_relays (rs_rules rs ! sel_rule_index s)))
       \<and> sel_relay s = online_spelling online (hd (filter (relay_up online) (rr_relays (rs_rules rs ! sel_rule_index s))))"
proof (cases "rule_set_select rs facts_a facts_b online")
  case None
  then have "list_all (\<lambda>rule. \<not> rule_offers rule facts_a facts_b online) (rs_rules rs)"
    by (simp add: rule_set_select_def select_from_none list_all_iff)
  with None show ?thesis by simp
next
  case (Some s)
  then obtain k where k: "k < length (rs_rules rs)" "sel_rule_index s = k"
    "\<forall>j < k. \<not> rule_offers (rs_rules rs ! j) facts_a facts_b online"
    "rule_offers (rs_rules rs ! k) facts_a facts_b online"
    "match_direction (rs_rules rs ! k) facts_a facts_b = Some (sel_direction s)"
    "sel_candidates s = select_ordered (rr_relays (rs_rules rs ! k)) online"
    "sel_relay s = hd (sel_candidates s)" "sel_rule_name s = rr_name (rs_rules rs ! k)"
    unfolding rule_set_select_def by (elim select_from_some) auto
  have "list_all (\<lambda>rule. \<not> rule_offers rule facts_a facts_b online) (take k (rs_rules rs))"
    using k(1,3) by (simp add: list_all_length)
  moreover have "sel_direction s = (if rule_serves (rs_rules rs ! k) facts_a facts_b then Direct else Reverse)"
    using k(5) by (simp add: match_direction_applies split: if_splits)
  moreover have "filter (relay_up online) (rr_relays (rs_rules rs ! k)) \<noteq> []"
    using k(4) by (auto simp: rule_offers_def list_ex_iff filter_empty_conv)
  ultimately show ?thesis using Some k by (simp add: select_ordered_up hd_map)
qed

text \<open>Swapping the two clients of a rule set whose rules are all symmetric changes at most
the reported direction: the rule, the candidates and the relay are the same.\<close>

theorem select_symmetric:
  assumes "\<forall>rule \<in> set (rs_rules rs). rr_symmetric rule"
  shows "map_option (\<lambda>s. (sel_relay s, sel_candidates s, sel_rule_name s, sel_rule_index s))
           (rule_set_select rs facts_b facts_a online)
       = map_option (\<lambda>s. (sel_relay s, sel_candidates s, sel_rule_name s, sel_rule_index s))
           (rule_set_select rs facts_a facts_b online)"
proof -
  let ?f = "\<lambda>s :: selection. (sel_relay s, sel_candidates s, sel_rule_name s, sel_rule_index s)"
  from select_from_swap [OF assms, of 0 facts_b facts_a online]
  have "map_option ?f (map_option (\<lambda>s. s\<lparr>sel_direction := Direct\<rparr>) (select_from 0 (rs_rules rs) facts_b facts_a online))
      = map_option ?f (map_option (\<lambda>s. s\<lparr>sel_direction := Direct\<rparr>) (select_from 0 (rs_rules rs) facts_a facts_b online))"
    by simp
  then show ?thesis by (simp add: rule_set_select_def option.map_comp o_def)
qed

abbreviation sample_rule :: relay_rule where
  "sample_rule \<equiv> \<lparr>rr_name = lit ''cn'', rr_symmetric = True, rr_client_a = EPredicate (Country (lit ''CN'')),
     rr_client_b = EAny, rr_relays = [lit ''r1'', lit ''r2'']\<rparr>"

abbreviation sample_rules :: rule_set where
  "sample_rules \<equiv> \<lparr>rs_rules = [sample_rule], rs_requirements = requirements_default\<lparr>rq_country := True\<rparr>\<rparr>"

theorem select_symmetric_witness:
  "map_option sel_relay (rule_set_select sample_rules facts_default (facts_default\<lparr>gf_country := Some (lit ''cn'')\<rparr>) [lit ''R2''])
     = Some (lit ''R2'')"
proof -
  let ?cn = "facts_default\<lparr>gf_country := Some (lit ''cn'')\<rparr>"
  have "map_option sel_relay (rule_set_select sample_rules ?cn facts_default [lit ''R2'']) = Some (lit ''R2'')"
    by code_simp
  with arg_cong [OF select_symmetric [of sample_rules facts_default ?cn "[lit ''R2'']"], of "map_option fst"]
  show ?thesis by (simp add: option.map_comp o_def)
qed

text \<open>The rules see the databases only through what they declare as required: two sets of
readers that agree on the required databases lead to the same selection for a compiled rule set,
and looked-up codes are upper case and names distinct up to case.\<close>

theorem select_requirements_sound:
  assumes "geo_state_from_config fs geo mmdb = Inr state"
    "readers_agree (rs_requirements (gs_rules state)) (gs_readers state) readers"
  shows "select_relay_explained_from (state\<lparr>gs_readers := readers\<rparr>) pa pb eligible
           = select_relay_explained_from state pa pb eligible
       \<and> facts_ok (readers_lookup readers pa)"
proof -
  have "rule_set_compile geo = Inr (gs_rules state) \<or> gs_rules state = rule_set_empty"
    using assms(1) by (auto simp: geo_state_from_config_def geo_state_disabled_def split: if_splits sum.splits)
  then have r: "\<forall>r \<in> set (rs_rules (gs_rules state)).
      requires_within (expression_requirements (rr_client_a r)) (rs_requirements (gs_rules state))
      \<and> requires_within (expression_requirements (rr_client_b r)) (rs_requirements (gs_rules state))"
    using rule_set_compile_requires by (auto simp: rule_set_empty_def)
  show ?thesis
    using select_from_agree [OF r readers_lookup_agree [OF assms(2)] readers_lookup_agree [OF assms(2)]]
      readers_lookup_ok
    by (simp add: select_relay_explained_from_def rule_set_select_def)
qed

abbreviation sample_country :: "country_record reader" where
  "sample_country ip \<equiv> (case ip of IpV4 _ \<Rightarrow> Some \<lparr>ctr_continent = None, ctr_country = Some (lit ''cn'')\<rparr> | IpV6 _ \<Rightarrow> None)"

abbreviation sample_asn :: "asn_record reader" where
  "sample_asn ip \<equiv> Some \<lparr>ar_number = Some 4134, ar_organization = None\<rparr>"

abbreviation sample_files :: mmdb_files where
  "sample_files \<equiv> \<lparr>mf_country = \<lambda>_. Inr (Some sample_country), mf_city = \<lambda>_. Inr None, mf_asn = \<lambda>_. Inr None\<rparr>"

abbreviation sample_geo :: geo_config where
  "sample_geo \<equiv> \<lparr>gc_enabled = True, gc_rules = [\<lparr>grc_name = lit ''cn'', grc_symmetric = True,
     grc_matches = \<lparr>ee_client_a = lit ''CN'', ee_client_b = lit ''*''\<rparr>, grc_relays = [lit ''r1'', lit ''r2'']\<rparr>]\<rparr>"

abbreviation sample_paths :: mmdb_paths where
  "sample_paths \<equiv> \<lparr>mp_country = lit ''c'', mp_city = lit ''t'', mp_asn = lit ''a''\<rparr>"

abbreviation sample_readers :: geo_readers where
  "sample_readers \<equiv> \<lparr>rd_country = Some sample_country, rd_city = None, rd_asn = None,
     rd_loaded = [lit ''Country='' @ lit ''c'']\<rparr>"

abbreviation sample_state :: geo_state where
  "sample_state \<equiv> \<lparr>gs_enabled = True, gs_readers = sample_readers, gs_rules = sample_rules, gs_warnings = []\<rparr>"

theorem select_requirements_sound_witness:
  "map_option sel_relay (select_relay_explained_from (sample_state\<lparr>gs_readers := sample_readers\<lparr>rd_asn := Some sample_asn\<rparr>\<rparr>)
     (IpV4 1) (IpV6 2) [lit ''r2'']) = Some (lit ''r2'')"
proof -
  have c: "rule_set_compile sample_geo = Inr sample_rules" by code_simp
  have "geo_state_from_config sample_files sample_geo sample_paths = Inr sample_state"
    by (simp add: geo_state_from_config_def c readers_from_config_def missing_requirements_def requirements_default_def)
  moreover have "readers_agree (rs_requirements (gs_rules sample_state)) (gs_readers sample_state)
      (sample_readers\<lparr>rd_asn := Some sample_asn\<rparr>)"
    by (simp add: readers_agree_def requirements_default_def)
  ultimately have "select_relay_explained_from (sample_state\<lparr>gs_readers := sample_readers\<lparr>rd_asn := Some sample_asn\<rparr>\<rparr>)
     (IpV4 1) (IpV6 2) [lit ''r2''] = select_relay_explained_from sample_state (IpV4 1) (IpV6 2) [lit ''r2'']"
    using select_requirements_sound by blast
  moreover have "map_option sel_relay (select_relay_explained_from sample_state (IpV4 1) (IpV6 2) [lit ''r2'']) = Some (lit ''r2'')"
    by code_simp
  ultimately show ?thesis by simp
qed

end
