(* ===== verification/Profile_Activation.thy ===== *)
theory Profile_Activation
  imports Hash_Map Rust_Text
begin

text \<open>
  The profile activation registry of HBBS (\<open>profile_activation.rs\<close>): route leases per peer,
  activation epochs, the legacy-downgrade memory, the registration bursts and the claims that hold
  a peer's lock between the start of a request and its commit.

  The registry's operations take the clock reading, the random lease and the peers whose lock is
  held by someone else (\<open>Arc::strong_count(lock) > 1\<close>) as arguments.  SHA-256 is the parameter
  \<open>sha256\<close>.  Strings are \<open>utext\<close>.
\<close>

abbreviation ACTIVATION_ID_BYTES :: nat where "ACTIVATION_ID_BYTES \<equiv> 16"
abbreviation ROUTE_LEASE_BYTES :: nat where "ROUTE_LEASE_BYTES \<equiv> 32"
abbreviation BURST_LIMIT :: nat where "BURST_LIMIT \<equiv> 12"
abbreviation PUBLIC_KEY_MAX_BYTES :: nat where "PUBLIC_KEY_MAX_BYTES \<equiv> 512"
definition LEASE_TTL :: duration where "LEASE_TTL = from_secs 45"
definition RECORD_RETENTION :: duration where "RECORD_RETENTION = from_secs (15 * 60)"
definition BURST_WINDOW :: duration where "BURST_WINDOW = from_secs 30"
definition MAX_PEER_LOCKS :: nat where "MAX_PEER_LOCKS = 100000"
definition MAX_LEASES :: nat where "MAX_LEASES = 100000"
definition MAX_V2_PEERS :: nat where "MAX_V2_PEERS = 100000"
definition MAX_BURST_IDENTITIES :: nat where "MAX_BURST_IDENTITIES = 100000"
abbreviation MAINTENANCE_INTERVAL :: u64 where "MAINTENANCE_INTERVAL \<equiv> 256"

section \<open>State\<close>

datatype route_kind = Native socket_addr | WebSocket (ws_generation: u64) (ws_connection: u64)

record lease_record =
  lr_uuid :: bytes
  lr_public_key :: bytes
  lr_activation_epoch :: u64
  lr_activation_id :: bytes
  lr_route_lease :: bytes
  lr_generation :: u64
  lr_route :: "route_kind option"
  lr_retired :: bool
  lr_updated_at :: instant

record identity_key =
  ik_peer_id :: utext
  ik_uuid :: bytes
  ik_public_key_sha256 :: bytes

record pa_counters =
  pc_leases_issued :: u64
  pc_leases_reused :: u64
  pc_ready_acks :: u64
  pc_fast_reregistrations :: u64
  pc_renewals :: u64
  pc_route_replacements :: u64
  pc_deactivations :: u64
  pc_disconnect_cleanups :: u64
  pc_ttl_expirations :: u64
  pc_invalid_requests :: u64
  pc_stale_rejections :: u64
  pc_rate_limited :: u64
  pc_capacity_rejections :: u64

record registry =
  rg_next_generation :: u64
  rg_peer_locks :: "utext list"
  rg_leases :: "(utext, lease_record) hmap"
  rg_v2_peers :: "utext list"
  rg_bursts :: "(identity_key, instant list) hmap"
  rg_pending_new_leases :: u64
  rg_maintenance_calls :: u64
  rg_counters :: pa_counters

definition registry_default :: registry where
  "registry_default = \<lparr>rg_next_generation = 1, rg_peer_locks = [], rg_leases = [], rg_v2_peers = [],
     rg_bursts = [], rg_pending_new_leases = 0, rg_maintenance_calls = 0,
     rg_counters = \<lparr>pc_leases_issued = 0, pc_leases_reused = 0, pc_ready_acks = 0,
       pc_fast_reregistrations = 0, pc_renewals = 0, pc_route_replacements = 0, pc_deactivations = 0,
       pc_disconnect_cleanups = 0, pc_ttl_expirations = 0, pc_invalid_requests = 0,
       pc_stale_rejections = 0, pc_rate_limited = 0, pc_capacity_rejections = 0\<rparr>\<rparr>"

datatype activation_error = Invalid | RateLimited | Capacity | Stale

record activation_claim =
  ac_peer_id :: utext
  ac_uuid :: bytes
  ac_public_key :: bytes
  ac_activation_epoch :: u64
  ac_activation_id :: bytes
  ac_route_lease :: bytes
  ac_generation :: u64
  ac_previous_route :: "route_kind option"
  ac_tracked :: bool
  ac_new_lease :: bool
  ac_fast_reregistration :: bool
  ac_capacity_reserved :: bool

record renewal_claim =
  rc_peer_id :: utext
  rc_generation :: u64
  rc_previous_route :: "route_kind option"
  rc_tracked :: bool

record deactivation_claim =
  dc_peer_id :: utext
  dc_activation_epoch :: u64
  dc_generation :: u64
  dc_route :: route_kind

text \<open>One counter changed by a function; \<open>fetch_add\<close> wraps.\<close>

definition count :: "(pa_counters \<Rightarrow> pa_counters) \<Rightarrow> registry \<Rightarrow> registry" where
  "count f r = r\<lparr>rg_counters := f (rg_counters r)\<rparr>"

definition invalid_inc :: "pa_counters \<Rightarrow> pa_counters" where
  "invalid_inc c = c\<lparr>pc_invalid_requests := pc_invalid_requests c + 1\<rparr>"
definition stale_inc :: "pa_counters \<Rightarrow> pa_counters" where
  "stale_inc c = c\<lparr>pc_stale_rejections := pc_stale_rejections c + 1\<rparr>"
definition capacity_inc :: "pa_counters \<Rightarrow> pa_counters" where
  "capacity_inc c = c\<lparr>pc_capacity_rejections := pc_capacity_rejections c + 1\<rparr>"
definition rate_inc :: "pa_counters \<Rightarrow> pa_counters" where
  "rate_inc c = c\<lparr>pc_rate_limited := pc_rate_limited c + 1\<rparr>"
definition reused_inc :: "pa_counters \<Rightarrow> pa_counters" where
  "reused_inc c = c\<lparr>pc_leases_reused := pc_leases_reused c + 1\<rparr>"
definition ttl_inc :: "nat \<Rightarrow> pa_counters \<Rightarrow> pa_counters" where
  "ttl_inc n c = c\<lparr>pc_ttl_expirations := pc_ttl_expirations c + of_nat n\<rparr>"
definition replaced_inc :: "bool \<Rightarrow> pa_counters \<Rightarrow> pa_counters" where
  "replaced_inc b c = c\<lparr>pc_route_replacements := pc_route_replacements c + of_bool b\<rparr>"
definition renewals_inc :: "pa_counters \<Rightarrow> pa_counters" where
  "renewals_inc c = c\<lparr>pc_renewals := pc_renewals c + 1\<rparr>"
definition deactivations_inc :: "pa_counters \<Rightarrow> pa_counters" where
  "deactivations_inc c = c\<lparr>pc_deactivations := pc_deactivations c + 1\<rparr>"
definition cleanups_inc :: "nat \<Rightarrow> pa_counters \<Rightarrow> pa_counters" where
  "cleanups_inc n c = c\<lparr>pc_disconnect_cleanups := pc_disconnect_cleanups c + of_nat n\<rparr>"
definition issued_inc :: "bool \<Rightarrow> bool \<Rightarrow> pa_counters \<Rightarrow> pa_counters" where
  "issued_inc new_lease fast c = c\<lparr>pc_leases_issued := pc_leases_issued c + of_bool new_lease,
     pc_fast_reregistrations := pc_fast_reregistrations c + of_bool fast\<rparr>"

section \<open>Locks, generations, expiry\<close>

definition next_generation :: "registry \<Rightarrow> registry \<times> u64" where
  "next_generation r = (r\<lparr>rg_next_generation := rg_next_generation r + 1\<rparr>, rg_next_generation r)"

text \<open>\<open>held\<close>: the peers whose lock is referenced from outside the table.\<close>

definition peer_lock :: "utext list \<Rightarrow> utext \<Rightarrow> registry \<Rightarrow> registry \<times> (activation_error + unit)" where
  "peer_lock held peer r =
     (if peer \<in> set (rg_peer_locks r) then (r, Inr ())
      else
        (let locks = (if length (rg_peer_locks r) \<ge> MAX_PEER_LOCKS
                      then filter (\<lambda>p. p \<in> set held) (rg_peer_locks r) else rg_peer_locks r)
         in if length locks \<ge> MAX_PEER_LOCKS
            then (count capacity_inc (r\<lparr>rg_peer_locks := locks\<rparr>), Inl Capacity)
            else (r\<lparr>rg_peer_locks := peer # locks\<rparr>, Inr ())))"

definition lease_due :: "instant \<Rightarrow> lease_record \<Rightarrow> bool" where
  "lease_due now l \<longleftrightarrow> lr_route l \<noteq> None \<and> since now (lr_updated_at l) \<ge> LEASE_TTL"

definition clear_route :: "instant \<Rightarrow> lease_record \<Rightarrow> lease_record" where
  "clear_route now l = l\<lparr>lr_route := None, lr_route_lease := [], lr_updated_at := now\<rparr>"

definition expire_route :: "utext \<Rightarrow> instant \<Rightarrow> registry \<Rightarrow> registry" where
  "expire_route peer now r =
     (case hm_get (rg_leases r) peer of
        None \<Rightarrow> r
      | Some l \<Rightarrow> if lease_due now l
          then count (ttl_inc 1) (r\<lparr>rg_leases := hm_insert peer (clear_route now l) (rg_leases r)\<rparr>)
          else r)"

definition maintain_lease :: "instant \<Rightarrow> utext \<Rightarrow> lease_record \<Rightarrow> lease_record option" where
  "maintain_lease now peer l =
     (let l' = (if lease_due now l then clear_route now l else l)
      in if lr_route l' \<noteq> None \<or> since now (lr_updated_at l') < RECORD_RETENTION then Some l' else None)"

definition maintain :: "instant \<Rightarrow> registry \<Rightarrow> registry" where
  "maintain now r =
     (let call = rg_maintenance_calls r; r = r\<lparr>rg_maintenance_calls := call + 1\<rparr>
      in if call mod MAINTENANCE_INTERVAL \<noteq> 0 then r
         else count (ttl_inc (length (filter (\<lambda>(_, l). lease_due now l) (rg_leases r))))
                (r\<lparr>rg_leases := hm_retain_mut (maintain_lease now) (rg_leases r)\<rparr>))"

section \<open>Admission limits\<close>

definition reserve_lease_capacity :: "registry \<Rightarrow> registry \<times> (activation_error + bool)" where
  "reserve_lease_capacity r =
     (if unat (sat_add (of_nat (hm_len (rg_leases r))) (rg_pending_new_leases r)) \<ge> MAX_LEASES
      then (count capacity_inc r, Inl Capacity)
      else (r\<lparr>rg_pending_new_leases := rg_pending_new_leases r + 1\<rparr>, Inr True))"

definition remember_v2_peer :: "utext \<Rightarrow> registry \<Rightarrow> registry \<times> (activation_error + unit)" where
  "remember_v2_peer peer r =
     (if peer \<in> set (rg_v2_peers r) then (r, Inr ())
      else if length (rg_v2_peers r) \<ge> MAX_V2_PEERS then (count capacity_inc r, Inl Capacity)
      else (r\<lparr>rg_v2_peers := peer # rg_v2_peers r\<rparr>, Inr ()))"

text \<open>The loop that pops the entries at the front that have left the window.\<close>

definition drop_old :: "instant \<Rightarrow> instant list \<Rightarrow> instant list" where
  "drop_old now es = dropWhile (\<lambda>e. since now e \<ge> BURST_WINDOW) es"

definition prune_bursts :: "instant \<Rightarrow> (identity_key, instant list) hmap \<Rightarrow> (identity_key, instant list) hmap" where
  "prune_bursts now b =
     hm_retain_mut (\<lambda>_ es. let es' = drop_old now es in if es' = [] then None else Some es') b"

definition burst_full :: "identity_key \<Rightarrow> (identity_key, instant list) hmap \<Rightarrow> bool" where
  "burst_full key b \<longleftrightarrow> \<not> hm_contains b key \<and> hm_len b \<ge> MAX_BURST_IDENTITIES"

definition burst_table :: "identity_key \<Rightarrow> instant \<Rightarrow> registry \<Rightarrow> (identity_key, instant list) hmap" where
  "burst_table key now r =
     (if rg_maintenance_calls r mod MAINTENANCE_INTERVAL = 0 \<or> burst_full key (rg_bursts r)
      then prune_bursts now (rg_bursts r) else rg_bursts r)"

text \<open>\<open>entry(key).or_default()\<close>, with the old entries popped.\<close>

definition burst_entries :: "identity_key \<Rightarrow> instant \<Rightarrow> (identity_key, instant list) hmap \<Rightarrow> instant list" where
  "burst_entries key now b = drop_old now (case hm_get b key of None \<Rightarrow> [] | Some es \<Rightarrow> es)"

definition check_burst ::
  "(bytes \<Rightarrow> bytes) \<Rightarrow> utext \<Rightarrow> bytes \<Rightarrow> bytes \<Rightarrow> instant \<Rightarrow> registry \<Rightarrow> registry \<times> (activation_error + unit)" where
  "check_burst sha256 peer uuid public_key now r =
     (let key = \<lparr>ik_peer_id = peer, ik_uuid = uuid, ik_public_key_sha256 = sha256 public_key\<rparr>;
          bursts = burst_table key now r
      in if burst_full key bursts then (count capacity_inc (r\<lparr>rg_bursts := bursts\<rparr>), Inl Capacity)
         else
           (let entries = burst_entries key now bursts
            in if length entries \<ge> BURST_LIMIT
               then (count rate_inc (r\<lparr>rg_bursts := hm_insert key entries bursts\<rparr>), Inl RateLimited)
               else (r\<lparr>rg_bursts := hm_insert key (entries @ [now]) bursts\<rparr>, Inr ())))"

section \<open>Registration\<close>

definition registration_valid :: "utext \<Rightarrow> bytes \<Rightarrow> bytes \<Rightarrow> u64 \<Rightarrow> bytes \<Rightarrow> bool" where
  "registration_valid peer uuid public_key epoch activation_id \<longleftrightarrow>
     \<not> (peer = [] \<or> uuid = [] \<or> public_key = [] \<or> length public_key > PUBLIC_KEY_MAX_BYTES
        \<or> (activation_id = [] \<and> epoch \<noteq> 0)
        \<or> (activation_id \<noteq> [] \<and> (length activation_id \<noteq> ACTIVATION_ID_BYTES \<or> epoch = 0 \<or> length uuid \<noteq> 16)))"

text \<open>A registration without an activation: refused for a peer that has used one.\<close>

definition register_legacy ::
  "utext \<Rightarrow> bytes \<Rightarrow> bytes \<Rightarrow> registry \<Rightarrow> registry \<times> (activation_error + activation_claim)" where
  "register_legacy peer uuid public_key r =
     (if peer \<in> set (rg_v2_peers r) then (count stale_inc r, Inl Stale)
      else (let (r', generation) = next_generation r in
        (r', Inr \<lparr>ac_peer_id = peer, ac_uuid = uuid, ac_public_key = public_key,
           ac_activation_epoch = 0, ac_activation_id = [], ac_route_lease = [],
           ac_generation = generation, ac_previous_route = None, ac_tracked = False,
           ac_new_lease = False, ac_fast_reregistration = False, ac_capacity_reserved = False\<rparr>)))"

text \<open>The answer of the current record to an activation: refuse, reuse its lease, or issue a new one.\<close>

datatype lease_answer = Refuse | Reuse lease_record | Issue "route_kind option"

definition lease_answer_of :: "lease_record option \<Rightarrow> bytes \<Rightarrow> bytes \<Rightarrow> u64 \<Rightarrow> bytes \<Rightarrow> lease_answer" where
  "lease_answer_of current uuid public_key epoch activation_id =
     (case current of
        None \<Rightarrow> Issue None
      | Some l \<Rightarrow>
          if lr_uuid l \<noteq> uuid \<or> epoch < lr_activation_epoch l then Refuse
          else if epoch = lr_activation_epoch l
            \<and> (lr_activation_id l \<noteq> activation_id \<or> lr_public_key l \<noteq> public_key \<or> lr_retired l) then Refuse
          else if epoch = lr_activation_epoch l \<and> lr_route l \<noteq> None then Reuse l
          else Issue (lr_route l))"

definition burst_if :: "(bytes \<Rightarrow> bytes) \<Rightarrow> bool \<Rightarrow> utext \<Rightarrow> bytes \<Rightarrow> bytes \<Rightarrow> instant \<Rightarrow> registry \<Rightarrow>
    registry \<times> (activation_error + unit)" where
  "burst_if sha256 fast peer uuid public_key now r =
     (if fast then check_burst sha256 peer uuid public_key now r else (r, Inr ()))"

definition issue_lease ::
  "utext \<Rightarrow> bytes \<Rightarrow> bytes \<Rightarrow> u64 \<Rightarrow> bytes \<Rightarrow> bool \<Rightarrow> bytes \<Rightarrow> route_kind option \<Rightarrow> bool \<Rightarrow> registry \<Rightarrow>
     registry \<times> (activation_error + activation_claim)" where
  "issue_lease peer uuid public_key epoch activation_id fast fresh previous existing r0 =
     (case remember_v2_peer peer r0 of
        (r1, Inl e) \<Rightarrow> (r1, Inl e)
      | (r1, Inr _) \<Rightarrow>
          (case (if existing then (r1, Inr False) else reserve_lease_capacity r1) of
             (r2, Inl e) \<Rightarrow> (r2, Inl e)
           | (r2, Inr reserved) \<Rightarrow>
               (let (r3, generation) = next_generation r2 in
                (r3, Inr \<lparr>ac_peer_id = peer, ac_uuid = uuid, ac_public_key = public_key,
                   ac_activation_epoch = epoch, ac_activation_id = activation_id,
                   ac_route_lease = fresh, ac_generation = generation,
                   ac_previous_route = previous, ac_tracked = True, ac_new_lease = True,
                   ac_fast_reregistration = fast, ac_capacity_reserved = reserved\<rparr>))))"

definition register_activation ::
  "(bytes \<Rightarrow> bytes) \<Rightarrow> utext \<Rightarrow> bytes \<Rightarrow> bytes \<Rightarrow> u64 \<Rightarrow> bytes \<Rightarrow> bool \<Rightarrow> bytes \<Rightarrow> instant \<Rightarrow> registry \<Rightarrow>
     registry \<times> (activation_error + activation_claim)" where
  "register_activation sha256 peer uuid public_key epoch activation_id fast fresh now r =
     (case lease_answer_of (hm_get (rg_leases r) peer) uuid public_key epoch activation_id of
        Refuse \<Rightarrow> (count stale_inc r, Inl Stale)
      | Reuse l \<Rightarrow>
          (case burst_if sha256 fast peer uuid public_key now r of
             (r1, Inl e) \<Rightarrow> (r1, Inl e)
           | (r1, Inr _) \<Rightarrow>
               (count reused_inc r1,
                Inr \<lparr>ac_peer_id = peer, ac_uuid = uuid, ac_public_key = public_key,
                  ac_activation_epoch = epoch, ac_activation_id = activation_id,
                  ac_route_lease = lr_route_lease l, ac_generation = lr_generation l,
                  ac_previous_route = lr_route l, ac_tracked = True, ac_new_lease = False,
                  ac_fast_reregistration = fast, ac_capacity_reserved = False\<rparr>))
      | Issue previous \<Rightarrow>
          (case burst_if sha256 fast peer uuid public_key now r of
             (r1, Inl e) \<Rightarrow> (r1, Inl e)
           | (r1, Inr _) \<Rightarrow>
               issue_lease peer uuid public_key epoch activation_id fast fresh previous
                 (hm_contains (rg_leases r) peer) r1))"

definition begin_registration ::
  "(bytes \<Rightarrow> bytes) \<Rightarrow> utext list \<Rightarrow> utext \<Rightarrow> bytes \<Rightarrow> bytes \<Rightarrow> u64 \<Rightarrow> bytes \<Rightarrow> bool \<Rightarrow> bytes \<Rightarrow> instant \<Rightarrow>
     registry \<Rightarrow> registry \<times> (activation_error + activation_claim)" where
  "begin_registration sha256 held peer uuid public_key epoch activation_id fast fresh now r =
     (if \<not> registration_valid peer uuid public_key epoch activation_id
      then (count invalid_inc r, Inl Invalid)
      else
        (case peer_lock held peer r of
           (r1, Inl e) \<Rightarrow> (r1, Inl e)
         | (r1, Inr _) \<Rightarrow>
             (let r2 = expire_route peer now (maintain now r1) in
              if activation_id = [] then register_legacy peer uuid public_key r2
              else register_activation sha256 peer uuid public_key epoch activation_id fast fresh now r2)))"

text \<open>\<open>ActivationClaim::commit\<close>, and \<open>drop\<close> of a claim that was not committed.\<close>

definition activation_commit :: "activation_claim \<Rightarrow> route_kind \<Rightarrow> instant \<Rightarrow> registry \<Rightarrow> registry" where
  "activation_commit c route now r =
     (if \<not> ac_tracked c then r
      else
        (let replaced = (case ac_previous_route c of None \<Rightarrow> False | Some p \<Rightarrow> p \<noteq> route);
             r1 = r\<lparr>rg_leases := hm_insert (ac_peer_id c)
               \<lparr>lr_uuid = ac_uuid c, lr_public_key = ac_public_key c,
                 lr_activation_epoch = ac_activation_epoch c, lr_activation_id = ac_activation_id c,
                 lr_route_lease = ac_route_lease c, lr_generation = ac_generation c,
                 lr_route = Some route, lr_retired = False, lr_updated_at = now\<rparr> (rg_leases r)\<rparr>;
             r2 = (if ac_capacity_reserved c
               then r1\<lparr>rg_pending_new_leases := rg_pending_new_leases r1 - 1\<rparr> else r1)
         in count (replaced_inc replaced \<circ> issued_inc (ac_new_lease c) (ac_fast_reregistration c)) r2))"

definition activation_drop :: "activation_claim \<Rightarrow> registry \<Rightarrow> registry" where
  "activation_drop c r =
     (if ac_capacity_reserved c then r\<lparr>rg_pending_new_leases := rg_pending_new_leases r - 1\<rparr> else r)"

section \<open>Renewal\<close>

definition renewal_valid :: "utext \<Rightarrow> u64 \<Rightarrow> bytes \<Rightarrow> bytes \<Rightarrow> u64 \<Rightarrow> bool" where
  "renewal_valid peer epoch activation_id route_lease generation \<longleftrightarrow>
     \<not> (peer = [] \<or> (activation_id = [] \<and> (epoch \<noteq> 0 \<or> route_lease \<noteq> [] \<or> generation \<noteq> 0))
        \<or> (activation_id \<noteq> [] \<and> (length activation_id \<noteq> ACTIVATION_ID_BYTES \<or> epoch = 0
             \<or> length route_lease \<noteq> ROUTE_LEASE_BYTES \<or> generation = 0)))"

definition begin_renewal ::
  "utext list \<Rightarrow> utext \<Rightarrow> u64 \<Rightarrow> bytes \<Rightarrow> bytes \<Rightarrow> u64 \<Rightarrow> instant \<Rightarrow> registry \<Rightarrow>
     registry \<times> (activation_error + renewal_claim)" where
  "begin_renewal held peer epoch activation_id route_lease generation now r =
     (if \<not> renewal_valid peer epoch activation_id route_lease generation
      then (count invalid_inc r, Inl Invalid)
      else
        (case peer_lock held peer r of
           (r1, Inl e) \<Rightarrow> (r1, Inl e)
         | (r1, Inr _) \<Rightarrow>
             (let r2 = expire_route peer now r1;
                  claim = (\<lambda>g p t. \<lparr>rc_peer_id = peer, rc_generation = g, rc_previous_route = p, rc_tracked = t\<rparr>)
              in case hm_get (rg_leases r2) peer of
                   None \<Rightarrow> if activation_id = [] then (r2, Inr (claim 0 None False))
                           else (count stale_inc r2, Inl Stale)
                 | Some l \<Rightarrow>
                     if activation_id = [] \<and> (lr_route l = None \<or> lr_retired l)
                     then (r2, Inr (claim 0 None False))
                     else if \<not> lr_retired l \<and> lr_route l \<noteq> None \<and> lr_activation_epoch l = epoch
                       \<and> lr_activation_id l = activation_id \<and> lr_route_lease l = route_lease
                       \<and> lr_generation l = generation
                     then (r2, Inr (claim (lr_generation l) (lr_route l) True))
                     else (count stale_inc r2, Inl Stale))))"

definition reject_route_change :: "renewal_claim \<Rightarrow> registry \<Rightarrow> registry" where
  "reject_route_change c r = (if rc_tracked c then count stale_inc r else r)"

definition renewal_commit :: "renewal_claim \<Rightarrow> route_kind \<Rightarrow> instant \<Rightarrow> registry \<Rightarrow> registry" where
  "renewal_commit c route now r =
     (if \<not> rc_tracked c then r
      else case hm_get (rg_leases r) (rc_peer_id c) of
        None \<Rightarrow> r
      | Some l \<Rightarrow>
          if lr_generation l = rc_generation c \<and> \<not> lr_retired l
          then count (renewals_inc \<circ> replaced_inc (case lr_route l of None \<Rightarrow> False | Some p \<Rightarrow> p \<noteq> route))
                 (r\<lparr>rg_leases := hm_insert (rc_peer_id c)
                    (l\<lparr>lr_route := Some route, lr_updated_at := now\<rparr>) (rg_leases r)\<rparr>)
          else r)"

section \<open>Deactivation and disconnection\<close>

definition begin_deactivation ::
  "utext list \<Rightarrow> utext \<Rightarrow> bytes \<Rightarrow> u64 \<Rightarrow> bytes \<Rightarrow> bytes \<Rightarrow> u64 \<Rightarrow> instant \<Rightarrow> registry \<Rightarrow>
     registry \<times> (activation_error + deactivation_claim)" where
  "begin_deactivation held peer uuid epoch activation_id route_lease generation now r =
     (if peer = [] \<or> length uuid \<noteq> 16 \<or> epoch = 0 \<or> length activation_id \<noteq> ACTIVATION_ID_BYTES
         \<or> length route_lease \<noteq> ROUTE_LEASE_BYTES \<or> generation = 0
      then (count invalid_inc r, Inl Invalid)
      else
        (case peer_lock held peer r of
           (r1, Inl e) \<Rightarrow> (r1, Inl e)
         | (r1, Inr _) \<Rightarrow>
             (let r2 = expire_route peer now r1 in
              case hm_get (rg_leases r2) peer of
                None \<Rightarrow> (count stale_inc r2, Inl Stale)
              | Some l \<Rightarrow>
                  if lr_uuid l \<noteq> uuid \<or> lr_activation_epoch l \<noteq> epoch \<or> lr_activation_id l \<noteq> activation_id
                     \<or> lr_route_lease l \<noteq> route_lease \<or> lr_generation l \<noteq> generation \<or> lr_retired l
                  then (count stale_inc r2, Inl Stale)
                  else case lr_route l of
                    None \<Rightarrow> (count stale_inc r2, Inl Stale)
                  | Some route \<Rightarrow> (r2, Inr \<lparr>dc_peer_id = peer, dc_activation_epoch = epoch,
                      dc_generation = lr_generation l, dc_route = route\<rparr>))))"

definition deactivation_commit :: "deactivation_claim \<Rightarrow> bool \<Rightarrow> instant \<Rightarrow> registry \<Rightarrow> registry \<times> bool" where
  "deactivation_commit c route_removed now r =
     (if \<not> route_removed then (r, False)
      else case hm_get (rg_leases r) (dc_peer_id c) of
        None \<Rightarrow> (count stale_inc r, False)
      | Some l \<Rightarrow>
          if lr_activation_epoch l = dc_activation_epoch c \<and> lr_generation l = dc_generation c
             \<and> lr_route l = Some (dc_route c) \<and> \<not> lr_retired l
          then (count deactivations_inc (r\<lparr>rg_leases := hm_insert (dc_peer_id c)
                  ((clear_route now l)\<lparr>lr_retired := True\<rparr>) (rg_leases r)\<rparr>), True)
          else (count stale_inc r, False))"

definition touch_route :: "utext list \<Rightarrow> utext \<Rightarrow> route_kind \<Rightarrow> instant \<Rightarrow> registry \<Rightarrow> registry \<times> bool" where
  "touch_route held peer route now r =
     (case peer_lock held peer r of
        (r1, Inl _) \<Rightarrow> (r1, False)
      | (r1, Inr _) \<Rightarrow>
          (case hm_get (rg_leases r1) peer of
             None \<Rightarrow> (r1, False)
           | Some l \<Rightarrow>
               if \<not> lr_retired l \<and> lr_route l = Some route
               then (r1\<lparr>rg_leases := hm_insert peer (l\<lparr>lr_updated_at := now\<rparr>) (rg_leases r1)\<rparr>, True)
               else (r1, False)))"

text \<open>The change that \<open>disconnect_route\<close> and \<open>disconnect_websocket_routes_now\<close> share.\<close>

definition disconnect_lease :: "utext \<Rightarrow> route_kind \<Rightarrow> instant \<Rightarrow> registry \<Rightarrow> registry \<times> bool" where
  "disconnect_lease peer route now r =
     (case hm_get (rg_leases r) peer of
        None \<Rightarrow> (r, False)
      | Some l \<Rightarrow>
          if \<not> lr_retired l \<and> lr_route l = Some route
          then (r\<lparr>rg_leases := hm_insert peer (clear_route now l) (rg_leases r)\<rparr>, True)
          else (r, False))"

definition disconnect_route :: "utext list \<Rightarrow> utext \<Rightarrow> route_kind \<Rightarrow> instant \<Rightarrow> registry \<Rightarrow> registry \<times> bool" where
  "disconnect_route held peer route now r =
     (case peer_lock held peer r of
        (r1, Inl _) \<Rightarrow> (r1, False)
      | (r1, Inr _) \<Rightarrow>
          (case disconnect_lease peer route now r1 of
             (r2, True) \<Rightarrow> (count (cleanups_inc 1) r2, True)
           | (r2, False) \<Rightarrow> (r2, False)))"

fun disconnect_each :: "(utext \<times> u64 \<times> u64) list \<Rightarrow> instant \<Rightarrow> registry \<Rightarrow> registry \<times> nat" where
  "disconnect_each [] now r = (r, 0)"
| "disconnect_each ((peer, generation, connection) # routes) now r =
     (let (r1, hit) = disconnect_lease peer (WebSocket generation connection) now r;
          (r2, n) = disconnect_each routes now r1
      in (r2, if hit then Suc n else n))"

text \<open>\<open>locked\<close>: the lease table could not be taken (\<open>try_write\<close>).\<close>

definition disconnect_websocket_routes_now ::
  "bool \<Rightarrow> (utext \<times> u64 \<times> u64) list \<Rightarrow> instant \<Rightarrow> registry \<Rightarrow> registry \<times> nat" where
  "disconnect_websocket_routes_now locked routes now r =
     (if locked then (r, 0)
      else (let (r1, n) = disconnect_each routes now r in (count (cleanups_inc n) r1, n)))"

section \<open>Verification of a lease, and the snapshot\<close>

definition lease_verifies :: "lease_record \<Rightarrow> bytes \<Rightarrow> u64 \<Rightarrow> bytes \<Rightarrow> bytes list \<Rightarrow> bool" where
  "lease_verifies l uuid epoch activation_id route_leases \<longleftrightarrow>
     \<not> lr_retired l \<and> lr_route l \<noteq> None \<and> lr_uuid l = uuid \<and> lr_activation_epoch l = epoch
     \<and> lr_activation_id l = activation_id \<and> lr_route_lease l \<in> set route_leases"

definition verify_active ::
  "utext list \<Rightarrow> utext \<Rightarrow> bytes \<Rightarrow> u64 \<Rightarrow> bytes \<Rightarrow> bytes list \<Rightarrow> instant \<Rightarrow> registry \<Rightarrow> registry \<times> bool" where
  "verify_active held peer uuid epoch activation_id route_leases now r =
     (if peer = [] \<or> length uuid \<noteq> 16 \<or> epoch = 0 \<or> length activation_id \<noteq> ACTIVATION_ID_BYTES
         \<or> route_leases = [] \<or> length route_leases > 16
         \<or> list_ex (\<lambda>l. length l \<noteq> ROUTE_LEASE_BYTES) route_leases
      then (r, False)
      else
        (case peer_lock held peer r of
           (r1, Inl _) \<Rightarrow> (r1, False)
         | (r1, Inr _) \<Rightarrow>
             (let r2 = expire_route peer now r1 in
              (r2, case hm_get (rg_leases r2) peer of None \<Rightarrow> False
                   | Some l \<Rightarrow> lease_verifies l uuid epoch activation_id route_leases))))"

definition active_leases :: "registry \<Rightarrow> nat" where
  "active_leases r = length (filter (\<lambda>(_, l). \<not> lr_retired l \<and> lr_route l \<noteq> None) (rg_leases r))"

end
