(* ===== verification/Profile_Activation_System.thy ===== *)
theory Profile_Activation_System
  imports Profile_Activation
begin

text \<open>
  The activation registry under concurrent requests.  A request that holds a peer's lock is two
  steps, its start and its commit (or drop); in between the claim is in flight and any other step
  of another peer may happen, as may the steps that do not take the lock: the clean-up of a
  WebSocket generation and the maintenance run by another peer's registration.  The invariant of
  the reachable systems is proved by rule induction over the steps.
\<close>

section \<open>Steps\<close>

datatype claim = ActClaim activation_claim | RenClaim renewal_claim | DeactClaim deactivation_claim

record act_system =
  as_registry :: registry
  as_claims :: "(utext, claim) hmap"

definition system_default :: act_system where
  "system_default = \<lparr>as_registry = registry_default, as_claims = []\<rparr>"

datatype act_event =
    Register utext bytes bytes u64 bytes bool bytes
  | CommitActivation utext route_kind
  | DropActivation utext
  | Renew utext u64 bytes bytes u64
  | CommitRenewal utext socket_addr
  | RejectRenewal utext socket_addr
  | DropRenewal utext
  | Deactivate utext bytes u64 bytes bytes u64
  | CommitDeactivation utext bool
  | Touch utext route_kind
  | Disconnect utext route_kind
  | DisconnectNow bool "(utext \<times> u64 \<times> u64) list"
  | Verify utext bytes u64 bytes "bytes list"
  | NextGeneration

text \<open>The system after a request has started: its claim is in flight if it was granted.\<close>

definition begun :: "utext \<Rightarrow> ('c \<Rightarrow> claim) \<Rightarrow> act_system \<Rightarrow> registry \<times> (activation_error + 'c) \<Rightarrow> act_system" where
  "begun peer wrap s out =
     s\<lparr>as_registry := fst out,
       as_claims := (case snd out of Inl _ \<Rightarrow> as_claims s | Inr c \<Rightarrow> hm_insert peer (wrap c) (as_claims s))\<rparr>"

definition ended :: "utext \<Rightarrow> act_system \<Rightarrow> registry \<Rightarrow> act_system" where
  "ended peer s r = s\<lparr>as_registry := r, as_claims := hm_remove peer (as_claims s)\<rparr>"

definition lock_free :: "act_system \<Rightarrow> utext \<Rightarrow> bool" where
  "lock_free s peer \<longleftrightarrow> hm_get (as_claims s) peer = None"

text \<open>
  \<open>waiting\<close> are the peers whose lock is waited for, \<open>now\<close> is the clock.  A new lease is
  \<open>ROUTE_LEASE_BYTES\<close> random bytes.  A renewal is asked for by a UDP message from \<open>addr\<close>, whose handler
  rejects the claim of a tracked lease that is on another route, commits the native route of that
  address otherwise, and drops the claim when the address could not be updated.
\<close>

definition renewal_admits :: "renewal_claim \<Rightarrow> socket_addr \<Rightarrow> bool" where
  "renewal_admits c addr \<longleftrightarrow> \<not> rc_tracked c \<or> rc_previous_route c = Some (Native addr)"

inductive act_step :: "(bytes \<Rightarrow> bytes) \<Rightarrow> act_system \<Rightarrow> act_event \<Rightarrow> act_system \<Rightarrow> bool"
  for sha256 where
  register: "lock_free s peer \<Longrightarrow> length fresh = ROUTE_LEASE_BYTES \<Longrightarrow>
    act_step sha256 s (Register peer uuid key epoch aid fast fresh)
      (begun peer ActClaim s (begin_registration sha256 (map fst (as_claims s) @ waiting) peer uuid key
         epoch aid fast fresh now (as_registry s)))"
| commit_activation: "hm_get (as_claims s) peer = Some (ActClaim c) \<Longrightarrow>
    act_step sha256 s (CommitActivation peer route)
      (ended peer s (activation_commit c route now (as_registry s)))"
| drop_activation: "hm_get (as_claims s) peer = Some (ActClaim c) \<Longrightarrow>
    act_step sha256 s (DropActivation peer) (ended peer s (activation_drop c (as_registry s)))"
| renew: "lock_free s peer \<Longrightarrow>
    act_step sha256 s (Renew peer epoch aid lease generation)
      (begun peer RenClaim s (begin_renewal (map fst (as_claims s) @ waiting) peer epoch aid lease
         generation now (as_registry s)))"
| commit_renewal: "hm_get (as_claims s) peer = Some (RenClaim c) \<Longrightarrow> renewal_admits c addr \<Longrightarrow>
    act_step sha256 s (CommitRenewal peer addr)
      (ended peer s (renewal_commit c (Native addr) now (as_registry s)))"
| reject_renewal: "hm_get (as_claims s) peer = Some (RenClaim c) \<Longrightarrow> \<not> renewal_admits c addr \<Longrightarrow>
    act_step sha256 s (RejectRenewal peer addr) (ended peer s (reject_route_change c (as_registry s)))"
| drop_renewal: "hm_get (as_claims s) peer = Some (RenClaim c) \<Longrightarrow>
    act_step sha256 s (DropRenewal peer) (ended peer s (as_registry s))"
| deactivate: "lock_free s peer \<Longrightarrow>
    act_step sha256 s (Deactivate peer uuid epoch aid lease generation)
      (begun peer DeactClaim s (begin_deactivation (map fst (as_claims s) @ waiting) peer uuid epoch
         aid lease generation now (as_registry s)))"
| commit_deactivation: "hm_get (as_claims s) peer = Some (DeactClaim c) \<Longrightarrow>
    act_step sha256 s (CommitDeactivation peer removed)
      (ended peer s (fst (deactivation_commit c removed now (as_registry s))))"
| touch: "lock_free s peer \<Longrightarrow>
    act_step sha256 s (Touch peer route)
      (s\<lparr>as_registry := fst (touch_route (map fst (as_claims s) @ waiting) peer route now (as_registry s))\<rparr>)"
| disconnect: "lock_free s peer \<Longrightarrow>
    act_step sha256 s (Disconnect peer route)
      (s\<lparr>as_registry := fst (disconnect_route (map fst (as_claims s) @ waiting) peer route now (as_registry s))\<rparr>)"
| disconnect_now:
    "act_step sha256 s (DisconnectNow locked routes)
      (s\<lparr>as_registry := fst (disconnect_websocket_routes_now locked routes now (as_registry s))\<rparr>)"
| verify: "lock_free s peer \<Longrightarrow>
    act_step sha256 s (Verify peer uuid epoch aid leases)
      (s\<lparr>as_registry := fst (verify_active (map fst (as_claims s) @ waiting) peer uuid epoch aid leases
         now (as_registry s))\<rparr>)"
| next_generation:
    "act_step sha256 s NextGeneration (s\<lparr>as_registry := fst (next_generation (as_registry s))\<rparr>)"

inductive act_reach :: "(bytes \<Rightarrow> bytes) \<Rightarrow> nat \<Rightarrow> act_system \<Rightarrow> bool" for sha256 where
  start: "act_reach sha256 0 system_default"
| step: "act_reach sha256 n s \<Longrightarrow> act_step sha256 s ev s' \<Longrightarrow> act_reach sha256 (Suc n) s'"

section \<open>How the lease table changes\<close>

text \<open>
  \<open>lease_kept l l'\<close>: the same activation of the same peer; the route may have changed, the lease
  token is kept or cleared.
\<close>

definition lease_ok :: "lease_record \<Rightarrow> bool" where
  "lease_ok l \<longleftrightarrow> (lr_route l = None \<longrightarrow> lr_route_lease l = []) \<and> (lr_retired l \<longrightarrow> lr_route l = None)
     \<and> length (lr_route_lease l) \<in> {0, ROUTE_LEASE_BYTES}"

definition lease_kept :: "lease_record \<Rightarrow> lease_record \<Rightarrow> bool" where
  "lease_kept l l' \<longleftrightarrow> lr_uuid l' = lr_uuid l \<and> lr_public_key l' = lr_public_key l
     \<and> lr_activation_epoch l' = lr_activation_epoch l \<and> lr_activation_id l' = lr_activation_id l
     \<and> lr_generation l' = lr_generation l \<and> lr_retired l' = lr_retired l
     \<and> (lease_ok l \<longrightarrow> lease_ok l')"

definition leases_kept :: "(utext, lease_record) hmap \<Rightarrow> (utext, lease_record) hmap \<Rightarrow> bool" where
  "leases_kept m m' \<longleftrightarrow> (\<forall>p l'. hm_get m' p = Some l' \<longrightarrow> (\<exists>l. hm_get m p = Some l \<and> lease_kept l l'))
     \<and> (hm_ok m \<longrightarrow> hm_ok m')"

lemma lease_kept_refl [simp]: "lease_kept l l"
  by (simp add: lease_kept_def)

lemma lease_kept_trans: "lease_kept l l' \<Longrightarrow> lease_kept l' l'' \<Longrightarrow> lease_kept l l''"
  by (auto simp: lease_kept_def)

lemma leases_kept_refl [simp]: "leases_kept m m"
  by (auto simp: leases_kept_def intro: lease_kept_refl)

lemma leases_kept_trans: "leases_kept m m' \<Longrightarrow> leases_kept m' m'' \<Longrightarrow> leases_kept m m''"
  unfolding leases_kept_def by (meson lease_kept_trans)

lemma leases_kept_insert:
  "hm_get m p = Some l \<Longrightarrow> lease_kept l l' \<Longrightarrow> leases_kept m (hm_insert p l' m)"
  by (auto simp: leases_kept_def intro: lease_kept_refl)

lemma clear_route_kept [simp]: "lease_kept l (clear_route now l)"
  by (auto simp: lease_kept_def clear_route_def lease_ok_def)

lemma maintain_lease_kept: "maintain_lease now p l = Some l' \<Longrightarrow> lease_kept l l'"
  by (auto simp: maintain_lease_def Let_def split: if_splits)

lemma leases_kept_retain_mut:
  assumes "hm_ok m" "\<And>p l l'. f p l = Some l' \<Longrightarrow> lease_kept l l'"
  shows "leases_kept m (hm_retain_mut f m)"
  using assms by (auto simp: leases_kept_def hm_get_retain_mut split: Option.bind_splits)

text \<open>
  What the steps other than an activation keep: the lease table only loses records or routes, the
  legacy memory, the pending reservations and the generations only grow.
\<close>

definition calm :: "registry \<Rightarrow> registry \<Rightarrow> bool" where
  "calm r r' \<longleftrightarrow> leases_kept (rg_leases r) (rg_leases r') \<and> rg_v2_peers r' = rg_v2_peers r
     \<and> rg_pending_new_leases r' = rg_pending_new_leases r \<and> rg_next_generation r' = rg_next_generation r
     \<and> rg_bursts r' = rg_bursts r"

lemma calm_refl [simp]: "calm r r" by (simp add: calm_def)

lemma calm_trans [trans]: "calm r r' \<Longrightarrow> calm r' r'' \<Longrightarrow> calm r r''"
  by (auto simp: calm_def intro: leases_kept_trans)

lemma count_simps [simp]:
  "rg_leases (count f r) = rg_leases r" "rg_v2_peers (count f r) = rg_v2_peers r"
  "rg_pending_new_leases (count f r) = rg_pending_new_leases r" "rg_bursts (count f r) = rg_bursts r"
  "rg_next_generation (count f r) = rg_next_generation r" "rg_peer_locks (count f r) = rg_peer_locks r"
  "rg_maintenance_calls (count f r) = rg_maintenance_calls r"
  by (simp_all add: count_def)

lemma calm_count [simp]: "calm r (count f r')  \<longleftrightarrow> calm r r'"
  by (simp add: calm_def)

lemma calm_peer_lock: "calm r (fst (peer_lock held peer r))"
  by (simp add: peer_lock_def Let_def calm_def)

lemma peer_lock_cases:
  obtains (granted) r1 where "peer_lock held peer r = (r1, Inr ())" "calm r r1"
  | (full) r1 e where "peer_lock held peer r = (r1, Inl e)" "calm r r1"
  using calm_peer_lock [of r held peer]
  by (cases "peer_lock held peer r"; cases "snd (peer_lock held peer r)") auto

lemma calm_expire: "calm r (expire_route peer now r)"
  by (auto simp: expire_route_def calm_def intro: leases_kept_insert split: option.split)

lemma calm_maintain: "hm_ok (rg_leases r) \<Longrightarrow> calm r (maintain now r)"
  by (auto simp: maintain_def Let_def calm_def intro: leases_kept_retain_mut maintain_lease_kept)

lemma calm_disconnect_lease: "calm r (fst (disconnect_lease peer route now r))"
  by (auto simp: disconnect_lease_def calm_def intro: leases_kept_insert split: option.split)

lemma calm_disconnect_each: "calm r (fst (disconnect_each routes now r))"
proof (induction routes now r rule: disconnect_each.induct)
  case (2 peer generation connection routes now r)
  let ?d = "disconnect_lease peer (WebSocket generation connection) now r"
  have "calm (fst ?d) (fst (disconnect_each routes now (fst ?d)))"
    by (rule "2.IH" [OF refl, of _ "snd ?d"]) simp
  with calm_trans [OF calm_disconnect_lease this] show ?case by (simp add: split_beta Let_def)
qed simp

lemma calm_disconnect_now: "calm r (fst (disconnect_websocket_routes_now locked routes now r))"
  using calm_disconnect_each by (auto simp: disconnect_websocket_routes_now_def split_beta)

lemma calm_disconnect_route: "calm r (fst (disconnect_route held peer route now r))"
proof (cases rule: peer_lock_cases [of held peer r])
  case (granted r1)
  have "calm r (fst (disconnect_lease peer route now r1))"
    by (rule calm_trans [OF granted(2) calm_disconnect_lease])
  then show ?thesis by (auto simp: disconnect_route_def granted(1) split: prod.split bool.split)
qed (simp add: disconnect_route_def)

lemma calm_touch: "calm r (fst (touch_route held peer route now r))"
proof (cases rule: peer_lock_cases [of held peer r])
  case (granted r1)
  have "calm r1 (r1\<lparr>rg_leases := hm_insert peer (l\<lparr>lr_updated_at := now\<rparr>) (rg_leases r1)\<rparr>)"
    if "hm_get (rg_leases r1) peer = Some l" for l
    using that by (auto simp: calm_def lease_kept_def lease_ok_def intro: leases_kept_insert)
  note calm_trans [OF granted(2) this]
  with granted(2) show ?thesis by (simp add: touch_route_def granted(1) split: option.split)
qed (simp add: touch_route_def)

lemma calm_lock_expire: "calm r r1 \<Longrightarrow> calm r (expire_route peer now r1)"
  by (rule calm_trans [OF _ calm_expire])

lemma calm_verify: "calm r (fst (verify_active held peer uuid epoch aid leases now r))"
  by (cases rule: peer_lock_cases [of held peer r])
     (simp_all add: verify_active_def Let_def calm_lock_expire)

lemma calm_begin_renewal: "calm r (fst (begin_renewal held peer epoch aid lease generation now r))"
  by (cases rule: peer_lock_cases [of held peer r])
     (simp_all add: begin_renewal_def Let_def calm_lock_expire split: option.split)

lemma calm_begin_deactivation:
  "calm r (fst (begin_deactivation held peer uuid epoch aid lease generation now r))"
  by (cases rule: peer_lock_cases [of held peer r])
     (simp_all add: begin_deactivation_def Let_def calm_lock_expire split: option.split)

lemma calm_renewal_commit: "calm r (renewal_commit c route now r)"
  by (auto simp: renewal_commit_def calm_def lease_kept_def lease_ok_def
      intro!: leases_kept_insert split: option.split)

section \<open>The invariant\<close>

definition bursts_ok :: "(identity_key, instant list) hmap \<Rightarrow> bool" where
  "bursts_ok b \<longleftrightarrow> hm_ok b \<and> hm_len b \<le> MAX_BURST_IDENTITIES
     \<and> hm.all_entries (\<lambda>_ es. length es \<le> BURST_LIMIT) b"

definition reg_ok :: "registry \<Rightarrow> bool" where
  "reg_ok r \<longleftrightarrow> hm_ok (rg_leases r) \<and> distinct (rg_v2_peers r) \<and> length (rg_v2_peers r) \<le> MAX_V2_PEERS
     \<and> hm.all_entries (\<lambda>p l. p \<in> set (rg_v2_peers r) \<and> lease_ok l) (rg_leases r)
     \<and> bursts_ok (rg_bursts r)"

definition locks_ok :: "utext list \<Rightarrow> registry \<Rightarrow> bool" where
  "locks_ok held r \<longleftrightarrow> distinct (rg_peer_locks r) \<and> length (rg_peer_locks r) \<le> MAX_PEER_LOCKS
     \<and> set held \<subseteq> set (rg_peer_locks r)"

text \<open>The record that an activation in flight will replace belongs to it, or to an earlier epoch.\<close>

definition supersedes :: "activation_claim \<Rightarrow> lease_record \<Rightarrow> bool" where
  "supersedes c l \<longleftrightarrow> lr_uuid l = ac_uuid c \<and> lr_activation_epoch l \<le> ac_activation_epoch c
     \<and> (lr_activation_epoch l = ac_activation_epoch c \<longrightarrow> lr_activation_id l = ac_activation_id c
          \<and> lr_public_key l = ac_public_key c \<and> \<not> lr_retired l)"

definition act_claim_ok :: "registry \<Rightarrow> utext \<Rightarrow> activation_claim \<Rightarrow> bool" where
  "act_claim_ok r p c \<longleftrightarrow> ac_peer_id c = p
     \<and> (ac_tracked c \<longrightarrow> p \<in> set (rg_v2_peers r) \<and> length (ac_route_lease c) \<in> {0, ROUTE_LEASE_BYTES}
          \<and> (case hm_get (rg_leases r) p of None \<Rightarrow> True | Some l \<Rightarrow> supersedes c l))
     \<and> (ac_capacity_reserved c \<longrightarrow> ac_tracked c \<and> hm_get (rg_leases r) p = None)"

fun claim_ok :: "registry \<Rightarrow> utext \<Rightarrow> claim \<Rightarrow> bool" where
  "claim_ok r p (ActClaim c) = act_claim_ok r p c"
| "claim_ok r p (RenClaim c) = (rc_peer_id c = p)"
| "claim_ok r p (DeactClaim c) = (dc_peer_id c = p)"

fun reserved :: "claim \<Rightarrow> bool" where
  "reserved (ActClaim c) = ac_capacity_reserved c"
| "reserved _ = False"

definition reserved_claims :: "(utext, claim) hmap \<Rightarrow> nat" where
  "reserved_claims m = length (filter (\<lambda>(_, c). reserved c) m)"

definition act_inv :: "act_system \<Rightarrow> bool" where
  "act_inv s \<longleftrightarrow> reg_ok (as_registry s) \<and> hm_ok (as_claims s)
     \<and> locks_ok (map fst (as_claims s)) (as_registry s)
     \<and> hm.all_entries (claim_ok (as_registry s)) (as_claims s)
     \<and> rg_pending_new_leases (as_registry s) = of_nat (reserved_claims (as_claims s))"

subsection \<open>Calm steps keep it\<close>

lemma leases_keptD:
  "leases_kept m m' \<Longrightarrow> hm_get m' p = Some l' \<Longrightarrow> \<exists>l. hm_get m p = Some l \<and> lease_kept l l'"
  by (simp add: leases_kept_def)

lemma reg_ok_kept:
  assumes "reg_ok r" "leases_kept (rg_leases r) (rg_leases r')" "rg_v2_peers r' = rg_v2_peers r"
    "bursts_ok (rg_bursts r')"
  shows "reg_ok r'"
proof -
  have "p \<in> set (rg_v2_peers r') \<and> lease_ok l'" if "hm_get (rg_leases r') p = Some l'" for p l'
    using assms(1,3) leases_keptD [OF assms(2) that]
    by (auto simp: reg_ok_def hm.all_entries_def lease_kept_def)
  then show ?thesis using assms by (simp add: reg_ok_def hm.all_entries_def leases_kept_def)
qed

lemma calm_reg_ok: "calm r r' \<Longrightarrow> reg_ok r \<Longrightarrow> reg_ok r'"
  by (rule reg_ok_kept) (simp_all add: calm_def reg_ok_def)

lemma leases_kept_none: "leases_kept m m' \<Longrightarrow> hm_get m p = None \<Longrightarrow> hm_get m' p = None"
  by (metis leases_keptD not_None_eq)

lemma act_claim_ok_mono:
  assumes "act_claim_ok r p c" "leases_kept (rg_leases r) (rg_leases r')" "set (rg_v2_peers r) \<subseteq> set (rg_v2_peers r')"
  shows "act_claim_ok r' p c"
proof -
  have "supersedes c l'" if "ac_tracked c" "hm_get (rg_leases r') p = Some l'" for l'
    using assms(1) that(1) leases_keptD [OF assms(2) that(2)]
    by (auto simp: act_claim_ok_def supersedes_def lease_kept_def)
  then show ?thesis
    using assms leases_kept_none [OF assms(2), of p]
    by (auto simp: act_claim_ok_def split: option.splits)
qed

lemma claim_ok_mono:
  "claim_ok r p c \<Longrightarrow> leases_kept (rg_leases r) (rg_leases r') \<Longrightarrow> set (rg_v2_peers r) \<subseteq> set (rg_v2_peers r') \<Longrightarrow>
   claim_ok r' p c"
  by (cases c) (auto intro: act_claim_ok_mono)

lemma claims_ok_calm:
  "calm r r' \<Longrightarrow> hm.all_entries (claim_ok r) m \<Longrightarrow> hm.all_entries (claim_ok r') m"
  using claim_ok_mono [of r _ _ r'] unfolding hm.all_entries_def by (simp add: calm_def)

lemma locks_ok_lock:
  assumes "locks_ok held r" "peer_lock (held @ waiting) peer r = (r', out)"
  shows "locks_ok held r'" "out = Inr () \<Longrightarrow> locks_ok (peer # held) r'"
proof -
  define kept where "kept = filter (\<lambda>p. p \<in> set (held @ waiting)) (rg_peer_locks r)"
  have kept: "distinct kept" "set held \<subseteq> set kept" "length kept \<le> MAX_PEER_LOCKS"
    "peer \<in> set kept \<Longrightarrow> peer \<in> set (rg_peer_locks r)"
    using assms(1) le_trans [OF length_filter_le] by (auto simp: kept_def locks_ok_def)
  show "locks_ok held r'" "out = Inr () \<Longrightarrow> locks_ok (peer # held) r'"
    using assms(1) assms(2) [unfolded peer_lock_def, folded kept_def] kept
    by (auto simp: Let_def locks_ok_def split: if_splits)
qed

lemma locks_ok_same: "rg_peer_locks r' = rg_peer_locks r \<Longrightarrow> locks_ok held r \<Longrightarrow> locks_ok held r'"
  by (simp add: locks_ok_def)

lemma locks_ok_subset: "set held' \<subseteq> set held \<Longrightarrow> locks_ok held r \<Longrightarrow> locks_ok held' r"
  by (auto simp: locks_ok_def)

lemma expire_locks [simp]: "rg_peer_locks (expire_route peer now r) = rg_peer_locks r"
  by (simp add: expire_route_def split: option.split)

lemma maintain_locks [simp]: "rg_peer_locks (maintain now r) = rg_peer_locks r"
  by (simp add: maintain_def Let_def)

subsection \<open>Registration\<close>

lemma drop_old_length: "length (drop_old now es) \<le> length es"
  by (simp add: drop_old_def length_dropWhile_le)

lemma prune_bursts_ok: "bursts_ok b \<Longrightarrow> bursts_ok (prune_bursts now b)"
  using le_trans [OF hm_len_retain_mut] le_trans [OF drop_old_length]
  by (auto simp: bursts_ok_def prune_bursts_def hm.all_entries_def hm_get_retain_mut Let_def
      split: Option.bind_splits if_splits)

lemma burst_insert_ok:
  assumes "bursts_ok b" "hm_get b k \<noteq> None \<or> hm_len b < MAX_BURST_IDENTITIES" "length es \<le> BURST_LIMIT"
  shows "bursts_ok (hm_insert k es b)"
  using assms hm.put_within_capacity [of b MAX_BURST_IDENTITIES k es]
  by (auto simp: bursts_ok_def intro: hm.all_entries_put)

text \<open>\<open>check_burst\<close> changes the bursts and a counter only.\<close>

lemma check_burst_frame:
  assumes "check_burst sha256 peer uuid key now r = (r', out)"
  shows "rg_leases r' = rg_leases r" "rg_v2_peers r' = rg_v2_peers r" "rg_peer_locks r' = rg_peer_locks r"
    "rg_pending_new_leases r' = rg_pending_new_leases r" "rg_next_generation r' = rg_next_generation r"
  using assms by (auto simp: check_burst_def Let_def split: if_splits)

lemma check_burst_ok:
  assumes "bursts_ok (rg_bursts r)" "check_burst sha256 peer uuid public_key now r = (r', out)"
  shows "bursts_ok (rg_bursts r')"
proof -
  let ?key = "\<lparr>ik_peer_id = peer, ik_uuid = uuid, ik_public_key_sha256 = sha256 public_key\<rparr>"
  let ?b = "burst_table ?key now r"
  have b: "bursts_ok ?b" using assms(1) prune_bursts_ok by (simp add: burst_table_def)
  then have "length (burst_entries ?key now ?b) \<le> BURST_LIMIT"
    using le_trans [OF drop_old_length]
    by (auto simp: burst_entries_def bursts_ok_def hm.all_entries_def drop_old_def split: option.split)
  with b burst_insert_ok [OF b, of ?key] show ?thesis using assms(2)
    by (auto simp: check_burst_def Let_def burst_full_def hm_contains_def split: if_splits)
qed

lemma burst_if_frame:
  assumes "burst_if sha256 fast peer uuid key now r = (r', out)"
  shows "rg_leases r' = rg_leases r" "rg_v2_peers r' = rg_v2_peers r" "rg_peer_locks r' = rg_peer_locks r"
    "rg_pending_new_leases r' = rg_pending_new_leases r" "rg_next_generation r' = rg_next_generation r"
    "bursts_ok (rg_bursts r) \<Longrightarrow> bursts_ok (rg_bursts r')"
  using assms check_burst_frame [of sha256 peer uuid key now r r' out] check_burst_ok [of r sha256 peer uuid key now r' out]
  by (auto simp: burst_if_def split: if_splits)

text \<open>
  What a registration does to the registry: the lease table only loses, the peer may be added to
  the legacy memory, a reservation is made for a reserved claim, a generation may be drawn.
\<close>

definition registers :: "utext \<Rightarrow> registry \<Rightarrow> registry \<Rightarrow> (activation_error + activation_claim) \<Rightarrow> bool" where
  "registers peer r r' out \<longleftrightarrow> leases_kept (rg_leases r) (rg_leases r')
     \<and> (rg_v2_peers r' = rg_v2_peers r
        \<or> rg_v2_peers r' = peer # rg_v2_peers r \<and> peer \<notin> set (rg_v2_peers r) \<and> length (rg_v2_peers r) < MAX_V2_PEERS)
     \<and> (bursts_ok (rg_bursts r) \<longrightarrow> bursts_ok (rg_bursts r'))
     \<and> rg_pending_new_leases r' = rg_pending_new_leases r
         + (case out of Inr c \<Rightarrow> of_bool (ac_capacity_reserved c) | Inl _ \<Rightarrow> 0)
     \<and> rg_next_generation r' \<in> {rg_next_generation r, rg_next_generation r + 1}"

lemma registers_calm: "calm r r1 \<Longrightarrow> registers peer r1 r2 out \<Longrightarrow> registers peer r r2 out"
  by (auto simp: registers_def calm_def intro: leases_kept_trans)

lemma registers_reg_ok: "registers peer r r' out \<Longrightarrow> reg_ok r \<Longrightarrow> reg_ok r'"
proof -
  assume reg: "registers peer r r' out" and ok: "reg_ok r"
  have "p \<in> set (rg_v2_peers r') \<and> lease_ok l'" if "hm_get (rg_leases r') p = Some l'" for p l'
    using ok reg leases_keptD [of "rg_leases r" "rg_leases r'", OF _ that]
    by (auto simp: reg_ok_def hm.all_entries_def lease_kept_def registers_def)
  then show ?thesis using ok reg
    by (auto simp: reg_ok_def registers_def hm.all_entries_def leases_kept_def)
qed

lemma issue_lease_registers:
  assumes "issue_lease peer uuid key epoch aid fast fresh previous existing r = (r', out)"
  shows "registers peer r r' out" "rg_peer_locks r' = rg_peer_locks r" "rg_leases r' = rg_leases r"
    "out = Inr c \<Longrightarrow> peer \<in> set (rg_v2_peers r') \<and> ac_tracked c \<and> ac_capacity_reserved c = (\<not> existing)
       \<and> c = \<lparr>ac_peer_id = peer, ac_uuid = uuid, ac_public_key = key, ac_activation_epoch = epoch,
          ac_activation_id = aid, ac_route_lease = fresh, ac_generation = rg_next_generation r,
          ac_previous_route = previous, ac_tracked = True, ac_new_lease = True,
          ac_fast_reregistration = fast, ac_capacity_reserved = \<not> existing\<rparr>"
  using assms
  by (auto simp: issue_lease_def remember_v2_peer_def reserve_lease_capacity_def next_generation_def
      Let_def registers_def split: if_splits)

lemma lease_answer_supersedes:
  "lease_answer_of (Some l) uuid key epoch aid \<noteq> Refuse \<Longrightarrow> ac_uuid c = uuid \<Longrightarrow> ac_public_key c = key \<Longrightarrow>
   ac_activation_epoch c = epoch \<Longrightarrow> ac_activation_id c = aid \<Longrightarrow> supersedes c l"
  by (auto simp: lease_answer_of_def supersedes_def not_less split: if_splits)

lemma register_activation_registers:
  assumes "register_activation sha256 peer uuid key epoch aid fast fresh now r = (r', out)"
  shows "registers peer r r' out \<and> rg_peer_locks r' = rg_peer_locks r \<and> rg_leases r' = rg_leases r"
proof (cases "lease_answer_of (hm_get (rg_leases r) peer) uuid key epoch aid")
  case Refuse
  then show ?thesis using assms by (auto simp: register_activation_def registers_def)
next
  case (Reuse l)
  obtain r1 b where b: "burst_if sha256 fast peer uuid key now r = (r1, b)" by fastforce
  show ?thesis using assms burst_if_frame [OF b]
    by (auto simp: register_activation_def Reuse b registers_def split: sum.splits)
next
  case (Issue previous)
  obtain r1 b where b: "burst_if sha256 fast peer uuid key now r = (r1, b)" by fastforce
  show ?thesis
  proof (cases b)
    case (Inl e)
    then show ?thesis using assms burst_if_frame [OF b]
      by (auto simp: register_activation_def Issue b registers_def)
  next
    case (Inr u)
    then have i: "issue_lease peer uuid key epoch aid fast fresh previous (hm_contains (rg_leases r) peer) r1 = (r', out)"
      using assms by (simp add: register_activation_def Issue b)
    show ?thesis using issue_lease_registers(1,2,3) [OF i] burst_if_frame [OF b]
      by (auto simp: registers_def)
  qed
qed

lemma register_activation_claim:
  assumes "register_activation sha256 peer uuid key epoch aid fast fresh now r = (r', Inr c)"
    "reg_ok r" "length fresh = ROUTE_LEASE_BYTES"
  shows "act_claim_ok r' peer c"
proof (cases "lease_answer_of (hm_get (rg_leases r) peer) uuid key epoch aid")
  case Refuse
  then show ?thesis using assms by (simp add: register_activation_def)
next
  case (Reuse l)
  obtain r1 b where b: "burst_if sha256 fast peer uuid key now r = (r1, b)" by fastforce
  have l: "hm_get (rg_leases r) peer = Some l"
    using Reuse by (auto simp: lease_answer_of_def split: option.splits if_splits)
  then have "lease_ok l" "peer \<in> set (rg_v2_peers r)" using assms(2) by (auto simp: reg_ok_def hm.all_entries_def)
  with l show ?thesis
    using assms(1) burst_if_frame [OF b] lease_answer_supersedes [of l uuid key epoch aid c] Reuse
    by (auto simp: register_activation_def b act_claim_ok_def lease_ok_def split: sum.splits)
next
  case (Issue previous)
  obtain r1 b where b: "burst_if sha256 fast peer uuid key now r = (r1, b)" by fastforce
  with assms(1) Issue have i: "issue_lease peer uuid key epoch aid fast fresh previous
      (hm_contains (rg_leases r) peer) r1 = (r', Inr c)"
    by (auto simp: register_activation_def split: sum.splits)
  show ?thesis
    using issue_lease_registers(3,4) [OF i] burst_if_frame [OF b] assms(3) Issue
      lease_answer_supersedes [of _ uuid key epoch aid c]
    by (auto simp: act_claim_ok_def hm_contains_def split: option.splits)
qed

lemma register_legacy_registers:
  assumes "register_legacy peer uuid key r = (r', out)"
  shows "registers peer r r' out \<and> rg_peer_locks r' = rg_peer_locks r \<and> (\<forall>c. out = Inr c \<longrightarrow> act_claim_ok r' peer c)"
  using assms by (auto simp: register_legacy_def next_generation_def registers_def act_claim_ok_def split: if_splits)

lemma begin_registration_registers:
  assumes ok: "reg_ok r" "locks_ok held r"
    and out: "begin_registration sha256 (held @ waiting) peer uuid key epoch aid fast fresh now r = (r', out)"
    and fresh: "length fresh = ROUTE_LEASE_BYTES"
  shows "registers peer r r' out \<and> locks_ok held r'
    \<and> (\<forall>c. out = Inr c \<longrightarrow> act_claim_ok r' peer c \<and> locks_ok (peer # held) r')"
proof (cases "registration_valid peer uuid key epoch aid")
  case False
  then show ?thesis using ok out by (auto simp: begin_registration_def registers_def intro: locks_ok_same [rotated])
next
  case True
  show ?thesis
  proof (cases rule: peer_lock_cases [of "held @ waiting" peer r])
    case (full r1 e)
    then show ?thesis using True out locks_ok_lock(1) [OF ok(2)]
      by (auto simp: begin_registration_def registers_def calm_def)
  next
    case (granted r1)
    define r2 where "r2 = expire_route peer now (maintain now r1)"
    have r1: "reg_ok r1" "calm r r1" using granted ok(1) calm_reg_ok by auto
    then have "calm r (maintain now r1)" using calm_trans calm_maintain by (auto simp: reg_ok_def)
    then have c2: "calm r r2" unfolding r2_def by (rule calm_lock_expire)
    then have ok2: "reg_ok r2" using ok(1) by (rule calm_reg_ok)
    have l2: "locks_ok (peer # held) r2"
      using locks_ok_lock(2) [OF ok(2) granted(1)] by (auto simp: r2_def intro: locks_ok_same [rotated])
    have "registers peer r2 r' out \<and> rg_peer_locks r' = rg_peer_locks r2 \<and> (\<forall>c. out = Inr c \<longrightarrow> act_claim_ok r' peer c)"
    proof (cases "aid = []")
      case True
      then have "register_legacy peer uuid key r2 = (r', out)"
        using out granted \<open>registration_valid _ _ _ _ _\<close> by (simp add: begin_registration_def r2_def Let_def)
      then show ?thesis by (rule register_legacy_registers)
    next
      case False
      then have a: "register_activation sha256 peer uuid key epoch aid fast fresh now r2 = (r', out)"
        using out granted \<open>registration_valid _ _ _ _ _\<close> by (simp add: begin_registration_def r2_def Let_def)
      show ?thesis
        using register_activation_registers [OF a] register_activation_claim [OF _ ok2 fresh] a by blast
    qed
    moreover from this l2 have "locks_ok (peer # held) r'" by (auto intro: locks_ok_same [rotated])
    ultimately show ?thesis using registers_calm [OF c2] by (auto intro: locks_ok_subset [rotated])
  qed
qed

subsection \<open>Every step keeps the invariant\<close>

lemma reserved_claims_insert:
  "hm_get m p = None \<Longrightarrow> reserved_claims (hm_insert p c m) = reserved_claims m + of_bool (reserved c)"
  by (induction m) (auto simp: reserved_claims_def hm_insert_def hm_get_def split: if_splits)

lemma reserved_claims_remove:
  "hm_ok m \<Longrightarrow> hm_get m p = Some c \<Longrightarrow> reserved_claims m = reserved_claims (hm_remove p m) + of_bool (reserved c)"
proof (induction m)
  case (Cons kv m)
  obtain k d where kv: "kv = (k, d)" by (cases kv)
  have "hm_remove p m = m" if "k = p"
    using that Cons.prems(1) by (simp add: hm_remove_def kv hm_ok_def)
  with Cons show ?case
    by (auto simp: reserved_claims_def hm_remove_def hm_get_def hm_ok_def kv split: if_splits)
qed (simp add: hm_get_def)

lemma set_keys_insert: "set (map fst (hm_insert p c m)) = insert p (set (map fst m))"
  by (simp add: hm_insert_def dom_update)

lemma set_keys_remove: "set (map fst (hm_remove p m)) \<subseteq> set (map fst m)"
  by (auto simp: hm_remove_def AList.delete_eq)

lemma act_inv_calm:
  assumes "act_inv s" "calm (as_registry s) r" "locks_ok (map fst (as_claims s)) r"
  shows "act_inv (s\<lparr>as_registry := r\<rparr>)"
  using assms calm_reg_ok [OF assms(2)] claims_ok_calm [OF assms(2), of "as_claims s"]
  by (simp add: act_inv_def) (simp add: calm_def)

lemma act_inv_ended:
  assumes "act_inv s" "hm_get (as_claims s) peer = Some c" "reg_ok r"
    "rg_peer_locks r = rg_peer_locks (as_registry s)"
    "\<And>p d. p \<noteq> peer \<Longrightarrow> hm_get (as_claims s) p = Some d \<Longrightarrow> claim_ok r p d"
    "rg_pending_new_leases r = rg_pending_new_leases (as_registry s) - of_bool (reserved c)"
  shows "act_inv (ended peer s r)"
  using assms reserved_claims_remove [of "as_claims s" peer c]
    locks_ok_subset [OF set_keys_remove [of peer "as_claims s"] locks_ok_same [OF assms(4)]]
  by (simp add: act_inv_def ended_def hm.all_entries_def)

lemma act_inv_ended_calm:
  assumes "act_inv s" "hm_get (as_claims s) peer = Some c" "\<not> reserved c" "calm (as_registry s) r"
    "rg_peer_locks r = rg_peer_locks (as_registry s)"
  shows "act_inv (ended peer s r)"
proof (rule act_inv_ended [OF assms(1,2) _ assms(5)])
  show "reg_ok r" using assms(1,4) calm_reg_ok by (auto simp: act_inv_def)
  show "claim_ok r p d" if "p \<noteq> peer" "hm_get (as_claims s) p = Some d" for p d
    using claims_ok_calm [OF assms(4), of "as_claims s"] assms(1) that by (auto simp: act_inv_def hm.all_entries_def)
qed (use assms in \<open>simp_all add: calm_def\<close>)

lemma act_inv_begun_calm:
  assumes "act_inv s" "lock_free s peer" "calm (as_registry s) (fst out)"
    "locks_ok (map fst (as_claims s)) (fst out)"
    "\<And>c. snd out = Inr c \<Longrightarrow> locks_ok (peer # map fst (as_claims s)) (fst out) \<and> claim_ok (fst out) peer (wrap c) \<and> \<not> reserved (wrap c)"
  shows "act_inv (begun peer wrap s out)"
proof (cases "snd out")
  case (Inl e)
  then show ?thesis using act_inv_calm [OF assms(1,3,4)] by (simp add: begun_def)
next
  case (Inr c)
  have "act_inv (s\<lparr>as_registry := fst out\<rparr>)" by (rule act_inv_calm [OF assms(1,3,4)])
  with Inr assms(2) assms(5) [OF Inr] show ?thesis
    by (auto simp: act_inv_def begun_def lock_free_def reserved_claims_insert hm.all_entries_put
        intro: locks_ok_subset [rotated] simp: set_keys_insert simp del: set_map)
qed

lemma disconnect_lease_locks [simp]: "rg_peer_locks (fst (disconnect_lease peer route now r)) = rg_peer_locks r"
  by (simp add: disconnect_lease_def split: option.split)

lemma disconnect_each_locks [simp]: "rg_peer_locks (fst (disconnect_each routes now r)) = rg_peer_locks r"
proof (induction routes arbitrary: r)
  case (Cons route routes)
  then show ?case by (cases route) (simp add: split_beta Let_def)
qed simp

lemma disconnect_now_locks [simp]:
  "rg_peer_locks (fst (disconnect_websocket_routes_now locked routes now r)) = rg_peer_locks r"
  by (simp add: disconnect_websocket_routes_now_def split_beta)

lemma locked_ops_locks:
  assumes "locks_ok held r"
  shows "locks_ok held (fst (touch_route (held @ waiting) peer route now r))" (is ?touch)
    and "locks_ok held (fst (disconnect_route (held @ waiting) peer route now r))" (is ?disc)
    and "locks_ok held (fst (verify_active (held @ waiting) peer uuid epoch aid leases now r))" (is ?verify)
proof -
  obtain r1 out where l: "peer_lock (held @ waiting) peer r = (r1, out)" by fastforce
  note ok = locks_ok_lock(1) [OF assms l]
  then have same: "rg_peer_locks r2 = rg_peer_locks r1 \<Longrightarrow> locks_ok held r2" for r2 by (rule locks_ok_same [rotated])
  show ?touch using ok by (auto simp: touch_route_def l intro!: same split: sum.split option.split)
  have d: "rg_peer_locks r2 = rg_peer_locks r1" if "disconnect_lease peer route now r1 = (r2, b)" for r2 b
    using disconnect_lease_locks [of peer route now r1] that by simp
  show ?disc using ok by (auto simp: disconnect_route_def l d intro!: same split: sum.split prod.split bool.split)
  show ?verify using ok assms by (auto simp: verify_active_def l Let_def intro!: same split: sum.split)
qed

lemma begin_renewal_locks:
  assumes "locks_ok held r" "begin_renewal (held @ waiting) peer epoch aid lease generation now r = (r', out)"
  shows "locks_ok held r'" "out = Inr c \<Longrightarrow> locks_ok (peer # held) r' \<and> rc_peer_id c = peer"
proof -
  obtain r1 l where l: "peer_lock (held @ waiting) peer r = (r1, l)" by fastforce
  have r': "rg_peer_locks r' = rg_peer_locks r1 \<or> (rg_peer_locks r' = rg_peer_locks r \<and> out = Inl Invalid)"
    "out = Inr c \<Longrightarrow> l = Inr () \<and> rg_peer_locks r' = rg_peer_locks r1 \<and> rc_peer_id c = peer"
    using assms(2) by (auto simp: begin_renewal_def l Let_def split: if_splits sum.splits option.splits)
  then show "locks_ok held r'" "out = Inr c \<Longrightarrow> locks_ok (peer # held) r' \<and> rc_peer_id c = peer"
    using locks_ok_lock [OF assms(1) l] assms(1) locks_ok_same by blast+
qed

lemma begin_deactivation_locks:
  assumes "locks_ok held r" "begin_deactivation (held @ waiting) peer uuid epoch aid lease generation now r = (r', out)"
  shows "locks_ok held r'" "out = Inr c \<Longrightarrow> locks_ok (peer # held) r' \<and> dc_peer_id c = peer"
proof -
  obtain r1 l where l: "peer_lock (held @ waiting) peer r = (r1, l)" by fastforce
  have r': "rg_peer_locks r' = rg_peer_locks r1 \<or> (rg_peer_locks r' = rg_peer_locks r \<and> out = Inl Invalid)"
    "out = Inr c \<Longrightarrow> l = Inr () \<and> rg_peer_locks r' = rg_peer_locks r1 \<and> dc_peer_id c = peer"
    using assms(2) by (auto simp: begin_deactivation_def l Let_def split: if_splits sum.splits option.splits)
  then show "locks_ok held r'" "out = Inr c \<Longrightarrow> locks_ok (peer # held) r' \<and> dc_peer_id c = peer"
    using locks_ok_lock [OF assms(1) l] assms(1) locks_ok_same by blast+
qed

lemma claim_ok_other:
  "claim_ok r p d \<Longrightarrow> hm_get (rg_leases r') p = hm_get (rg_leases r) p \<Longrightarrow> rg_v2_peers r' = rg_v2_peers r \<Longrightarrow>
   claim_ok r' p d"
  by (cases d) (simp_all add: act_claim_ok_def)

lemma reg_ok_insert:
  "reg_ok r \<Longrightarrow> p \<in> set (rg_v2_peers r) \<Longrightarrow> lease_ok l \<Longrightarrow> rg_leases r' = hm_insert p l (rg_leases r) \<Longrightarrow>
   rg_v2_peers r' = rg_v2_peers r \<Longrightarrow> rg_bursts r' = rg_bursts r \<Longrightarrow> reg_ok r'"
  by (simp add: reg_ok_def hm.all_entries_put)

lemma act_inv_claimD: "act_inv s \<Longrightarrow> hm_get (as_claims s) p = Some c \<Longrightarrow> claim_ok (as_registry s) p c"
  by (simp add: act_inv_def hm.all_entries_def)

lemma act_inv_commit_activation:
  assumes "act_inv s" "hm_get (as_claims s) peer = Some (ActClaim c)"
  shows "act_inv (ended peer s (activation_commit c route now (as_registry s)))"
proof (rule act_inv_ended [OF assms])
  note inv = assms(1) [unfolded act_inv_def]
  have c: "act_claim_ok (as_registry s) peer c"
    using act_inv_claimD [OF assms] by simp
  then show "reg_ok (activation_commit c route now (as_registry s))"
    using inv by (auto simp: activation_commit_def act_claim_ok_def Let_def lease_ok_def
        intro!: reg_ok_insert [where r = "as_registry s" and p = peer])
  show "claim_ok (activation_commit c route now (as_registry s)) p d"
    if "p \<noteq> peer" "hm_get (as_claims s) p = Some d" for p d
    by (rule claim_ok_other [where r = "as_registry s"])
      (use that c act_inv_claimD [OF assms(1)] in \<open>auto simp: activation_commit_def act_claim_ok_def Let_def\<close>)
  show "rg_pending_new_leases (activation_commit c route now (as_registry s))
      = rg_pending_new_leases (as_registry s) - of_bool (reserved (ActClaim c))"
    using c by (auto simp: activation_commit_def Let_def act_claim_ok_def)
qed (simp add: activation_commit_def Let_def)

lemma act_inv_drop_activation:
  assumes "act_inv s" "hm_get (as_claims s) peer = Some (ActClaim c)"
  shows "act_inv (ended peer s (activation_drop c (as_registry s)))"
proof (rule act_inv_ended [OF assms])
  note inv = assms(1) [unfolded act_inv_def]
  show "claim_ok (activation_drop c (as_registry s)) p d"
    if "p \<noteq> peer" "hm_get (as_claims s) p = Some d" for p d
    by (rule claim_ok_other [where r = "as_registry s"])
      (use that act_inv_claimD [OF assms(1)] in \<open>auto simp: activation_drop_def\<close>)
qed (use assms in \<open>auto simp: activation_drop_def act_inv_def reg_ok_def\<close>)

lemma reg_ok_count [simp]: "reg_ok (count f r) = reg_ok r"
  by (simp add: reg_ok_def)

lemma act_inv_commit_deactivation:
  assumes "act_inv s" "hm_get (as_claims s) peer = Some (DeactClaim c)"
  shows "act_inv (ended peer s (fst (deactivation_commit c removed now (as_registry s))))"
proof (rule act_inv_ended [OF assms])
  note inv = assms(1) [unfolded act_inv_def]
  have c: "dc_peer_id c = peer" using act_inv_claimD [OF assms] by simp
  have l: "peer \<in> set (rg_v2_peers (as_registry s))" if "hm_get (rg_leases (as_registry s)) peer = Some l" for l
    using inv that by (auto simp: reg_ok_def hm.all_entries_def)
  have ins: "reg_ok ((as_registry s)\<lparr>rg_leases := hm_insert peer l (rg_leases (as_registry s))\<rparr>)"
    if "peer \<in> set (rg_v2_peers (as_registry s))" "lease_ok l" for l
    by (rule reg_ok_insert [where r = "as_registry s"]) (use inv that in simp_all)
  show "reg_ok (fst (deactivation_commit c removed now (as_registry s)))"
    using inv l by (auto simp: deactivation_commit_def c clear_route_def lease_ok_def split: option.split intro!: ins)
  show "claim_ok (fst (deactivation_commit c removed now (as_registry s))) p d"
    if "p \<noteq> peer" "hm_get (as_claims s) p = Some d" for p d
    by (rule claim_ok_other [where r = "as_registry s"])
      (use that c act_inv_claimD [OF assms(1)] in \<open>auto simp: deactivation_commit_def split: option.split\<close>)
qed (simp_all add: deactivation_commit_def split: option.split)

lemma act_inv_register:
  assumes "act_inv s" "lock_free s peer" "length fresh = ROUTE_LEASE_BYTES"
  shows "act_inv (begun peer ActClaim s (begin_registration sha256 (map fst (as_claims s) @ waiting) peer uuid key
         epoch aid fast fresh now (as_registry s)))"
proof -
  note inv = assms(1) [unfolded act_inv_def]
  obtain r out where o: "begin_registration sha256 (map fst (as_claims s) @ waiting) peer uuid key
         epoch aid fast fresh now (as_registry s) = (r, out)" by fastforce
  note b = begin_registration_registers [OF conjunct1 [OF inv] _ o assms(3)]
  have reg: "registers peer (as_registry s) r out" and locks: "locks_ok (map fst (as_claims s)) r"
    and c: "\<And>c. out = Inr c \<Longrightarrow> act_claim_ok r peer c \<and> locks_ok (peer # map fst (as_claims s)) r"
    using b inv by auto
  have claims: "hm.all_entries (claim_ok r) (as_claims s)"
    unfolding hm.all_entries_def
  proof (intro allI impI)
    show "claim_ok r p d" if "hm_get (as_claims s) p = Some d" for p d
      by (rule claim_ok_mono [OF act_inv_claimD [OF assms(1) that]]) (use reg in \<open>auto simp: registers_def\<close>)
  qed
  show ?thesis
  proof (cases out)
    case (Inl e)
    then show ?thesis
      using inv registers_reg_ok [OF reg] locks claims reg by (simp add: o begun_def act_inv_def registers_def)
  next
    case (Inr d)
    then show ?thesis
      using inv registers_reg_ok [OF reg] c [OF Inr] claims reg assms(2)
      by (auto simp: o begun_def act_inv_def registers_def lock_free_def reserved_claims_insert
          hm.all_entries_put intro: locks_ok_subset [rotated] simp: set_keys_insert simp del: set_map)
  qed
qed

lemma act_inv_step: "act_step sha256 s ev s' \<Longrightarrow> act_inv s \<Longrightarrow> act_inv s'"
proof (induction rule: act_step.induct)
  case (renew s peer epoch aid lease generation waiting now)
  obtain r out where o: "begin_renewal (map fst (as_claims s) @ waiting) peer epoch aid lease generation now (as_registry s) = (r, out)"
    by fastforce
  have l: "locks_ok (map fst (as_claims s)) (as_registry s)" using renew(2) by (simp add: act_inv_def)
  have "calm (as_registry s) r" using calm_begin_renewal o by (metis fst_conv)
  then show ?case unfolding o
    by (intro act_inv_begun_calm [OF renew(2,1)]) (use begin_renewal_locks [OF l o] in auto)
next
  case (deactivate s peer uuid epoch aid lease generation waiting now)
  obtain r out where o: "begin_deactivation (map fst (as_claims s) @ waiting) peer uuid epoch aid lease generation now (as_registry s) = (r, out)"
    by fastforce
  have l: "locks_ok (map fst (as_claims s)) (as_registry s)" using deactivate(2) by (simp add: act_inv_def)
  have "calm (as_registry s) r" using calm_begin_deactivation o by (metis fst_conv)
  then show ?case unfolding o
    by (intro act_inv_begun_calm [OF deactivate(2,1)]) (use begin_deactivation_locks [OF l o] in auto)
next
  case (next_generation s)
  then show ?case
    using claim_ok_other [where r = "as_registry s"]
    by (auto simp: act_inv_def next_generation_def reg_ok_def locks_ok_def hm.all_entries_def)
next
  case (reject_renewal s peer c addr)
  then show ?case by (intro act_inv_ended_calm) (auto simp: reject_route_change_def)
next
  case (drop_renewal s peer c)
  then show ?case by (intro act_inv_ended_calm) auto
next
  case (commit_renewal s peer c addr now)
  have "rg_peer_locks (renewal_commit c (Native addr) now (as_registry s)) = rg_peer_locks (as_registry s)"
    by (simp add: renewal_commit_def split: option.split)
  with commit_renewal show ?case by (intro act_inv_ended_calm calm_renewal_commit) auto
next
  case (touch s peer route waiting now)
  then show ?case by (intro act_inv_calm calm_touch locked_ops_locks) (simp_all add: act_inv_def)
next
  case (disconnect s peer route waiting now)
  then show ?case by (intro act_inv_calm calm_disconnect_route locked_ops_locks) (simp_all add: act_inv_def)
next
  case (disconnect_now s locked routes now)
  have "locks_ok (map fst (as_claims s)) (as_registry s)" using disconnect_now by (simp add: act_inv_def)
  then show ?case using disconnect_now
    by (intro act_inv_calm calm_disconnect_now locks_ok_same [OF disconnect_now_locks])
next
  case (verify s peer uuid epoch aid leases waiting now)
  then show ?case by (intro act_inv_calm calm_verify locked_ops_locks) (simp_all add: act_inv_def)
qed (simp_all add: act_inv_register act_inv_commit_activation act_inv_drop_activation act_inv_commit_deactivation)

lemma act_inv_default: "act_inv system_default"
  by (simp add: act_inv_def system_default_def registry_default_def reg_ok_def locks_ok_def bursts_ok_def
      hm.all_entries_none reserved_claims_def MAX_V2_PEERS_def MAX_BURST_IDENTITIES_def)

lemma act_reach_inv: "act_reach sha256 n s \<Longrightarrow> act_inv s"
  by (induction rule: act_reach.induct) (auto intro: act_inv_default act_inv_step)

end
