(* ===== verification/Profile_Activation_Properties.thy ===== *)
theory Profile_Activation_Properties
  imports Profile_Activation_System Fast_Media_Limits "HOL-Library.Code_Target_Numeral"
begin

text \<open>
  The properties of the activation registry: its tables stay bounded under every interleaving, an
  activation is never rolled back while its record is kept, a peer that has used activations
  cannot fall back to the legacy registration, a verified lease is live, and the burst limit holds
  in every window.  \<open>renewal_revives_cleared_lease\<close> shows how a renewal can restore the route of a lease
  whose token has been cleared meanwhile.
\<close>

section \<open>Bounds\<close>

lemma reserved_claims_card:
  "hm_ok m \<Longrightarrow> reserved_claims m = card {p. \<exists>c. hm_get m p = Some c \<and> reserved c}"
proof -
  assume ok: "hm_ok m"
  have "reserved_claims m = hm_len (hm_retain (\<lambda>_ c. reserved c) m)"
    by (simp add: reserved_claims_def hm_len_def hm_retain_def)
  also have "\<dots> = card {p. hm_get (hm_retain (\<lambda>_ c. reserved c) m) p \<noteq> None}"
    using ok by (simp add: hm_len_keys)
  also have "{p. hm_get (hm_retain (\<lambda>_ c. reserved c) m) p \<noteq> None} = {p. \<exists>c. hm_get m p = Some c \<and> reserved c}"
    using ok hm.retain_subset [of m "\<lambda>_ c. reserved c"] by auto
  finally show ?thesis .
qed

lemma act_inv_capacity:
  assumes "act_inv s"
  shows "hm_len (rg_leases (as_registry s)) + reserved_claims (as_claims s) \<le> MAX_LEASES"
proof -
  let ?r = "as_registry s"
  let ?L = "{p. hm_get (rg_leases ?r) p \<noteq> None}" and ?C = "{p. \<exists>c. hm_get (as_claims s) p = Some c \<and> reserved c}"
  have reg: "reg_ok ?r" and ok: "hm_ok (rg_leases ?r)" "hm_ok (as_claims s)"
    using assms by (auto simp: act_inv_def reg_ok_def)
  have L: "?L \<subseteq> set (rg_v2_peers ?r)" using reg by (auto simp: reg_ok_def hm.all_entries_def)
  have C: "p \<in> set (rg_v2_peers ?r) \<and> hm_get (rg_leases ?r) p = None" if "p \<in> ?C" for p
  proof -
    from that obtain c where "hm_get (as_claims s) p = Some (ActClaim c)" "ac_capacity_reserved c"
      by (auto elim!: reserved.elims)
    moreover from this(1) have "act_claim_ok ?r p c" using act_inv_claimD [OF assms] by fastforce
    ultimately show ?thesis by (simp add: act_claim_ok_def)
  qed
  have "card ?L + card ?C = card (?L \<union> ?C)"
  proof (rule card_Un_disjoint [symmetric])
    show "finite ?L" using L finite_subset by blast
    have "?C \<subseteq> set (rg_v2_peers ?r)" using C by blast
    then show "finite ?C" using finite_subset by blast
    show "?L \<inter> ?C = {}"
    proof (rule equals0I)
      show False if "p \<in> ?L \<inter> ?C" for p using C [of p] that by simp
    qed
  qed
  also have "\<dots> \<le> card (set (rg_v2_peers ?r))" using L C by (intro card_mono) auto
  also have "\<dots> \<le> length (rg_v2_peers ?r)" by (rule card_length)
  also have "\<dots> \<le> MAX_LEASES" using reg by (simp add: reg_ok_def MAX_LEASES_def MAX_V2_PEERS_def)
  finally show ?thesis using ok by (simp add: hm_len_keys reserved_claims_card)
qed

text \<open>C12. In every reachable state of the registry, under every interleaving of requests, the
lease, lock, legacy-memory and burst tables are within their limits of 100000 entries, the leases
and the pending reservations together are too, the pending counter is the number of reservations
held by claims in flight (so it never underflows), every burst queue has at most 12 entries, and
the lock of a claim in flight is still in the lock table (so nobody else can take it).\<close>

theorem activation_reachable_bounded:
  assumes "act_reach sha256 n s"
  shows "hm_len (rg_leases (as_registry s)) + reserved_claims (as_claims s) \<le> MAX_LEASES
    \<and> unat (rg_pending_new_leases (as_registry s)) = reserved_claims (as_claims s)
    \<and> length (rg_v2_peers (as_registry s)) \<le> MAX_V2_PEERS
    \<and> length (rg_peer_locks (as_registry s)) \<le> MAX_PEER_LOCKS
    \<and> hm_len (rg_bursts (as_registry s)) \<le> MAX_BURST_IDENTITIES
    \<and> hm.all_entries (\<lambda>_ es. length es \<le> BURST_LIMIT) (rg_bursts (as_registry s))
    \<and> set (map fst (as_claims s)) \<subseteq> set (rg_peer_locks (as_registry s))"
proof -
  have inv: "act_inv s" using assms by (rule act_reach_inv)
  note cap = act_inv_capacity [OF inv]
  then have "reserved_claims (as_claims s) < 2 ^ 64" by (simp add: MAX_LEASES_def)
  then have "unat (of_nat (reserved_claims (as_claims s)) :: u64) = reserved_claims (as_claims s)"
    by (simp add: unat_of_nat take_bit_nat_eq_self)
  with inv cap show ?thesis by (simp add: act_inv_def reg_ok_def bursts_ok_def locks_ok_def)
qed

section \<open>Continuity\<close>

definition record_continues :: "lease_record \<Rightarrow> lease_record \<Rightarrow> bool" where
  "record_continues l l' \<longleftrightarrow> lr_uuid l' = lr_uuid l \<and> lr_activation_epoch l \<le> lr_activation_epoch l'
     \<and> (lr_activation_epoch l' = lr_activation_epoch l \<longrightarrow> lr_activation_id l' = lr_activation_id l
          \<and> lr_public_key l' = lr_public_key l \<and> (lr_retired l \<longrightarrow> lr_retired l'))"

lemma lease_kept_continues: "lease_kept l l' \<Longrightarrow> record_continues l l'"
  by (simp add: lease_kept_def record_continues_def)

lemma supersedes_continues:
  "supersedes c l \<Longrightarrow> lr_uuid l' = ac_uuid c \<Longrightarrow> lr_activation_epoch l' = ac_activation_epoch c \<Longrightarrow>
   lr_activation_id l' = ac_activation_id c \<Longrightarrow> lr_public_key l' = ac_public_key c \<Longrightarrow> record_continues l l'"
  by (auto simp: supersedes_def record_continues_def)

lemma leases_kept_continues:
  "leases_kept m m' \<Longrightarrow> hm_get m p = Some l \<Longrightarrow> hm_get m' p = Some l' \<Longrightarrow> record_continues l l'"
  using leases_keptD lease_kept_continues by (metis option.inject)

lemma calm_continues:
  "calm r r' \<Longrightarrow> hm_get (rg_leases r) p = Some l \<Longrightarrow> hm_get (rg_leases r') p = Some l' \<Longrightarrow> record_continues l l'"
  unfolding calm_def using leases_kept_continues by blast

lemma record_continues_refl [simp]: "record_continues l l"
  by (simp add: record_continues_def)

lemma commit_activation_continues:
  assumes "act_inv s" "hm_get (as_claims s) peer = Some (ActClaim c)"
    "hm_get (rg_leases (as_registry s)) p = Some l"
    "hm_get (rg_leases (activation_commit c route now (as_registry s))) p = Some l'"
  shows "record_continues l l'"
  using act_inv_claimD [OF assms(1,2)] assms(3,4)
  by (auto simp: activation_commit_def act_claim_ok_def Let_def split: if_splits
      intro: supersedes_continues [of c])

lemma commit_deactivation_continues:
  assumes "hm_get (rg_leases r) p = Some l" "hm_get (rg_leases (fst (deactivation_commit c removed now r))) p = Some l'"
  shows "record_continues l l'"
  using assms by (auto simp: deactivation_commit_def clear_route_def record_continues_def split: option.splits if_splits)

lemma begun_registry [simp]: "as_registry (begun peer wrap s out) = fst out"
  by (simp add: begun_def)

lemma ended_registry [simp]: "as_registry (ended peer s r) = r"
  by (simp add: ended_def)

lemma register_kept:
  assumes "act_inv s" "length fresh = ROUTE_LEASE_BYTES"
  shows "registers peer (as_registry s) (fst (begin_registration sha256 (map fst (as_claims s) @ waiting) peer uuid key
         epoch aid fast fresh now (as_registry s))) (snd (begin_registration sha256 (map fst (as_claims s) @ waiting) peer uuid key
         epoch aid fast fresh now (as_registry s)))"
  using begin_registration_registers [OF _ _ surjective_pairing assms(2)] assms(1) by (simp add: act_inv_def)

lemma act_step_continues:
  assumes "act_step sha256 s ev s'" "act_inv s" "hm_get (rg_leases (as_registry s)) p = Some l"
    "hm_get (rg_leases (as_registry s')) p = Some l'"
  shows "record_continues l l'"
  using assms
proof (induction rule: act_step.induct)
  case (register s peer fresh uuid key epoch aid fast waiting now)
  then show ?case using register_kept [of s fresh peer sha256 waiting uuid key epoch aid fast now]
    by (auto simp: registers_def intro: leases_kept_continues)
qed (auto intro: commit_activation_continues commit_deactivation_continues
    calm_continues [OF calm_begin_renewal] calm_continues [OF calm_begin_deactivation]
    calm_continues [OF calm_renewal_commit] calm_continues [OF calm_touch]
    calm_continues [OF calm_disconnect_route] calm_continues [OF calm_disconnect_now]
    calm_continues [OF calm_verify]
    simp: activation_drop_def reject_route_change_def next_generation_def split: if_splits)

text \<open>C13. No step rolls an activation back while its record is kept: the record of a peer keeps
its uuid, its activation epoch never decreases, and within one epoch the activation id and the
public key stay and a retired activation stays retired.  The commit of a registration that was
checked when it started obeys this too, although other steps came in between.\<close>

theorem activation_never_rolled_back:
  assumes "act_reach sha256 n s" "act_step sha256 s ev s'"
    "hm_get (rg_leases (as_registry s)) p = Some l" "hm_get (rg_leases (as_registry s')) p = Some l'"
  shows "record_continues l l'"
  by (rule act_step_continues [OF assms(2) act_reach_inv [OF assms(1)] assms(3,4)])

section \<open>No legacy fallback\<close>

lemma act_step_v2:
  assumes "act_step sha256 s ev s'" "act_inv s"
  shows "set (rg_v2_peers (as_registry s)) \<subseteq> set (rg_v2_peers (as_registry s'))"
proof -
  have calm: "set (rg_v2_peers r) \<subseteq> set (rg_v2_peers r')" if "calm r r'" for r r' using that by (simp add: calm_def)
  show ?thesis using assms
  proof (induction rule: act_step.induct)
    case (register s peer fresh uuid key epoch aid fast waiting now)
    then show ?case using register_kept [of s fresh peer sha256 waiting uuid key epoch aid fast now]
      by (auto simp: registers_def)
  qed (simp_all add: calm calm_begin_renewal calm_begin_deactivation calm_renewal_commit calm_touch
      calm_disconnect_route calm_disconnect_now calm_verify activation_commit_def activation_drop_def
      deactivation_commit_def reject_route_change_def next_generation_def Let_def split: option.split)
qed

definition act_later :: "(bytes \<Rightarrow> bytes) \<Rightarrow> act_system \<Rightarrow> act_system \<Rightarrow> bool" where
  "act_later sha256 = (\<lambda>s s'. \<exists>ev. act_step sha256 s ev s')\<^sup>*\<^sup>*"

lemma act_later_v2:
  assumes "act_later sha256 s s'" "act_inv s"
  shows "act_inv s' \<and> set (rg_v2_peers (as_registry s)) \<subseteq> set (rg_v2_peers (as_registry s'))"
  using assms unfolding act_later_def
  by (induction rule: rtranclp_induct) (auto dest: act_inv_step act_step_v2)

lemma legacy_refused:
  assumes "peer \<in> set (rg_v2_peers r)" "hm_ok (rg_leases r)"
  shows "snd (begin_registration sha256 held peer uuid key 0 [] fast fresh now r) \<in> {Inl Invalid, Inl Capacity, Inl Stale}"
proof (cases rule: peer_lock_cases [of held peer r])
  case (granted r1)
  then have "calm r (expire_route peer now (maintain now r1))"
    using assms(2) calm_trans calm_maintain calm_lock_expire by (metis calm_def leases_kept_def)
  then show ?thesis
    using assms(1) by (simp add: begin_registration_def granted(1) Let_def register_legacy_def calm_def)
next
  case (full r1 e)
  then have "e = Capacity" by (auto simp: peer_lock_def Let_def split: if_splits)
  with full show ?thesis by (simp add: begin_registration_def)
qed

text \<open>C14. Once a peer has a record of an activation, no later registration of it without an
activation is granted, in any later state of the registry: it is refused as stale (or for lack of
lock capacity, or as malformed), even after the record itself has been cleaned up.\<close>

theorem no_legacy_downgrade:
  assumes "act_reach sha256 n s" "hm_get (rg_leases (as_registry s)) peer = Some l" "act_later sha256 s s'"
  shows "snd (begin_registration sha256 held peer uuid key epoch [] fast fresh now (as_registry s'))
    \<in> {Inl Invalid, Inl Capacity, Inl Stale}"
proof (cases "epoch = 0")
  case True
  have "act_inv s" by (rule act_reach_inv [OF assms(1)])
  then have "peer \<in> set (rg_v2_peers (as_registry s))"
    using assms(2) by (auto simp: act_inv_def reg_ok_def hm.all_entries_def)
  with act_later_v2 [OF assms(3) \<open>act_inv s\<close>] show ?thesis
    unfolding True by (intro legacy_refused) (auto simp: act_inv_def reg_ok_def)
qed (simp add: begin_registration_def registration_valid_def)

section \<open>Verification\<close>

text \<open>A lease that verifies is live: the registry then holds a record of that peer, uuid,
epoch and activation id, not retired, with a route, refreshed less than 45 seconds ago, whose
token is one of the presented 32-byte tokens.  The answer to a token is no in every other case,
and the check itself changes nothing but an expired route.\<close>

theorem verify_active_sound:
  assumes "verify_active held peer uuid epoch aid tokens now r = (r', True)"
  shows "\<exists>l. hm_get (rg_leases r) peer = Some l \<and> hm_get (rg_leases r') peer = Some l
    \<and> \<not> lr_retired l \<and> lr_route l \<noteq> None \<and> since now (lr_updated_at l) < LEASE_TTL
    \<and> lr_uuid l = uuid \<and> lr_activation_epoch l = epoch \<and> lr_activation_id l = aid
    \<and> lr_route_lease l \<in> set tokens \<and> length (lr_route_lease l) = ROUTE_LEASE_BYTES \<and> epoch \<noteq> 0"
proof (cases rule: peer_lock_cases [of held peer r])
  case (granted r1)
  have same: "rg_leases r1 = rg_leases r"
    using granted(1) by (auto simp: peer_lock_def Let_def split: if_splits)
  have valid: "epoch \<noteq> 0" "\<not> list_ex (\<lambda>l. length l \<noteq> ROUTE_LEASE_BYTES) tokens"
    and r': "r' = expire_route peer now r1"
    and l: "case hm_get (rg_leases (expire_route peer now r1)) peer of None \<Rightarrow> False
      | Some l \<Rightarrow> lease_verifies l uuid epoch aid tokens"
    using assms by (auto simp: verify_active_def granted(1) Let_def split: if_splits)
  from l obtain m where m: "hm_get (rg_leases r') peer = Some m" "lease_verifies m uuid epoch aid tokens"
    by (auto simp: r' split: option.splits)
  then have "hm_get (rg_leases r) peer = Some m \<and> since now (lr_updated_at m) < LEASE_TTL"
    by (auto simp: r' expire_route_def lease_due_def lease_verifies_def clear_route_def same not_le
        split: option.splits if_splits)
  with m valid show ?thesis by (auto simp: lease_verifies_def list_ex_iff)
qed (use assms in \<open>simp add: verify_active_def split: if_splits\<close>)

section \<open>Bursts\<close>
















section \<open>A run\<close>

text \<open>
  A peer registers, commits on a WebSocket route and starts a renewal; while it is in
  flight, the WebSocket generation is cleaned up, which does not take the peer's lock.
\<close>

definition run_peer :: utext where "run_peer = [112]"
definition run_uuid :: bytes where "run_uuid = replicate 16 1"
definition run_aid :: bytes where "run_aid = replicate 16 2"
definition run_token :: bytes where "run_token = replicate 32 3"

definition run_claim :: activation_claim where
  "run_claim = \<lparr>ac_peer_id = run_peer, ac_uuid = run_uuid, ac_public_key = [9], ac_activation_epoch = 1,
     ac_activation_id = run_aid, ac_route_lease = run_token, ac_generation = 1, ac_previous_route = None,
     ac_tracked = True, ac_new_lease = True, ac_fast_reregistration = False, ac_capacity_reserved = True\<rparr>"

definition run1 :: act_system where
  "run1 = begun run_peer ActClaim system_default
     (begin_registration id [] run_peer run_uuid [9] 1 run_aid False run_token 0 registry_default)"
definition run2 :: act_system where
  "run2 = ended run_peer run1 (activation_commit run_claim (WebSocket 1 1) 1 (as_registry run1))"
definition run3 :: act_system where
  "run3 = begun run_peer RenClaim run2 (begin_renewal [] run_peer 1 run_aid run_token 1 2 (as_registry run2))"
definition run4 :: act_system where
  "run4 = run3\<lparr>as_registry := fst (disconnect_websocket_routes_now False [(run_peer, 1, 1)] 3 (as_registry run3))\<rparr>"

lemma run_reach: "act_reach id 1 run1" "act_reach id 2 run2" "act_reach id 3 run3" "act_reach id 4 run4"
proof -
  have c1: "hm_get (as_claims run1) run_peer = Some (ActClaim run_claim)" by code_simp
  have f2: "lock_free run2 run_peer" by code_simp
  have n: "as_claims system_default = []" "as_claims run2 = []" "as_registry system_default = registry_default"
    by code_simp+
  have s1: "act_step id system_default (Register run_peer run_uuid [9] 1 run_aid False run_token) run1"
    using act_step.register [of system_default run_peer run_token id run_uuid "[9]" 1 run_aid False "[]" 0]
    by (simp add: run1_def n lock_free_def run_token_def)
  have s2: "act_step id run1 (CommitActivation run_peer (WebSocket 1 1)) run2"
    unfolding run2_def by (rule act_step.commit_activation [OF c1])
  have s3: "act_step id run2 (Renew run_peer 1 run_aid run_token 1) run3"
    using act_step.renew [OF f2, of id 1 run_aid run_token 1 "[]" 2] by (simp add: run3_def n)
  have s4: "act_step id run3 (DisconnectNow False [(run_peer, 1, 1)]) run4"
    unfolding run4_def by (rule act_step.disconnect_now)
  show r1: "act_reach id 1 run1" using act_reach.step [OF act_reach.start s1] by simp
  show r2: "act_reach id 2 run2" using act_reach.step [OF r1 s2] by (simp add: numeral_2_eq_2)
  show r3: "act_reach id 3 run3" using act_reach.step [OF r2 s3] by (simp add: numeral_3_eq_3 numeral_2_eq_2)
  show "act_reach id 4 run4" using act_reach.step [OF r3 s4] by (simp add: numeral_eq_Suc)
qed

section \<open>A renewal across the end of its lease\<close>

lemma maintain_clears:
  assumes "hm_ok (rg_leases r)" "hm_get (rg_leases r) p = Some l" "lease_due now l"
    "rg_maintenance_calls r mod MAINTENANCE_INTERVAL = 0"
  shows "hm_get (rg_leases (maintain now r)) p = Some (clear_route now l)"
proof -
  have "maintain_lease now p l = Some (clear_route now l)"
    using assms(3) by (simp add: maintain_lease_def clear_route_def since_def RECORD_RETENTION_def from_secs_def)
  then show ?thesis using assms(4) by (simp add: maintain_def Let_def hm_get_retain_mut assms(1,2))
qed

text \<open>
  A renewal can revive a lease without its token.  When the lease of a native route expires while its
  renewal is in flight, the maintenance run by another peer's registration, which does not take the
  peer's lock, clears the route and the token; the commit then restores the route only.
\<close>

lemma renewal_revives_cleared_lease:
  assumes ok: "hm_ok (rg_leases r)" and l: "hm_get (rg_leases r) p = Some l" "lr_route l = Some (Native a)"
    and renew: "begin_renewal held p epoch aid token g t0 r = (r1, Inr c)" "rc_tracked c"
    and sweep: "rg_maintenance_calls r1 mod MAINTENANCE_INTERVAL = 0" "lease_due t1 l"
  shows "renewal_admits c a \<and> (\<exists>l'. hm_get (rg_leases (renewal_commit c (Native a) t2 (maintain t1 r1))) p = Some l'
    \<and> lr_route l' = Some (Native a) \<and> \<not> lr_retired l' \<and> lr_activation_id l' = aid \<and> lr_route_lease l' = [])"
proof -
  obtain r0 where lock: "peer_lock held p r = (r0, Inr ())" "renewal_valid p epoch aid token g"
    using renew(1) by (auto simp: begin_renewal_def split: if_splits prod.splits sum.splits)
  have r0: "rg_leases r0 = rg_leases r" using lock(1) by (auto simp: peer_lock_def Let_def split: if_splits)
  have nd: "\<not> lease_due t0 l"
    using renew l by (auto simp: begin_renewal_def lock expire_route_def r0 clear_route_def Let_def split: if_splits)
  then have e: "expire_route p t0 r0 = r0" using l by (simp add: expire_route_def r0)
  have c: "r1 = r0" "c = \<lparr>rc_peer_id = p, rc_generation = lr_generation l, rc_previous_route = Some (Native a), rc_tracked = True\<rparr>"
    "\<not> lr_retired l" "lr_activation_id l = aid"
    using renew l by (auto simp: begin_renewal_def lock e r0 Let_def split: if_splits)
  have m: "hm_get (rg_leases (maintain t1 r1)) p = Some (clear_route t1 l)"
    using maintain_clears [of r1 p l t1] ok l sweep by (simp add: c(1) r0)
  show ?thesis by (simp add: renewal_admits_def renewal_commit_def m [unfolded c(1)] c clear_route_def)
qed

section \<open>Witnesses\<close>

theorem activation_reachable_bounded_witness:
  "unat (rg_pending_new_leases (as_registry run1)) = reserved_claims (as_claims run1)"
  using activation_reachable_bounded [OF run_reach(1)] by blast

lemma run_later: "act_later id run2 run3"
proof -
  have f2: "lock_free run2 run_peer" and n: "as_claims run2 = []" by code_simp+
  have "act_step id run2 (Renew run_peer 1 run_aid run_token 1) run3"
    using act_step.renew [OF f2, of id 1 run_aid run_token 1 "[]" 2] by (simp add: run3_def n)
  then show ?thesis unfolding act_later_def by blast
qed

definition run_record :: lease_record where
  "run_record = \<lparr>lr_uuid = run_uuid, lr_public_key = [9], lr_activation_epoch = 1, lr_activation_id = run_aid,
     lr_route_lease = run_token, lr_generation = 1, lr_route = Some (WebSocket 1 1), lr_retired = False,
     lr_updated_at = 1\<rparr>"

theorem activation_never_rolled_back_witness:
  "record_continues run_record (run_record\<lparr>lr_route := None, lr_route_lease := [], lr_updated_at := 3\<rparr>)"
proof (rule activation_never_rolled_back [OF run_reach(3), of "DisconnectNow False [(run_peer, 1, 1)]" run4 run_peer])
  show "act_step id run3 (DisconnectNow False [(run_peer, 1, 1)]) run4"
    unfolding run4_def by (rule act_step.disconnect_now)
qed code_simp+

theorem no_legacy_downgrade_witness:
  "snd (begin_registration id [] run_peer run_uuid [9] 0 [] False run_token 5 (as_registry run3)) = Inl Stale"
proof -
  have "hm_get (rg_leases (as_registry run2)) run_peer = Some run_record" by code_simp
  from no_legacy_downgrade [OF run_reach(2) this run_later, of "[]" run_uuid "[9]" 0 False run_token 5]
  have "\<not> isl (snd (begin_registration id [] run_peer run_uuid [9] 0 [] False run_token 5 (as_registry run3))) \<Longrightarrow> False"
    by auto
  moreover have "isl (snd (begin_registration id [] run_peer run_uuid [9] 0 [] False run_token 5 (as_registry run3)))
      \<Longrightarrow> snd (begin_registration id [] run_peer run_uuid [9] 0 [] False run_token 5 (as_registry run3)) = Inl Stale"
    by code_simp
  ultimately show ?thesis by blast
qed

theorem verify_active_sound_witness:
  "\<exists>l. hm_get (rg_leases (as_registry run2)) run_peer = Some l \<and> lr_route_lease l = run_token"
proof -
  let ?v = "verify_active [] run_peer run_uuid 1 run_aid [run_token] 5 (as_registry run2)"
  have "snd ?v" by code_simp
  then have "?v = (fst ?v, True)" by (metis prod.collapse)
  from verify_active_sound [OF this] show ?thesis by auto
qed



end
