(* ===== verification/Starry_Config_Data.thy ===== *)
theory Starry_Config_Data
  imports Geo_Select
begin

text \<open>
  The configuration document of HBBS (\<open>starry_config.rs\<close>): the structures with their defaults.
  A \<open>usize\<close> is a 64-bit word.  \<open>FastModeConfig\<close> is its one field \<open>relay\<close>.
\<close>

type_synonym usize = "64 word"

datatype secure_tcp_mode = SecureTcpOff | SecureTcpAuto

record secure_tcp_config =
  st_mode :: secure_tcp_mode
  st_handshake_timeout_ms :: u64
  st_idle_timeout_ms :: u64
  st_max_frame_bytes :: usize

definition secure_tcp_config_default :: secure_tcp_config where
  "secure_tcp_config_default = \<lparr>st_mode = SecureTcpOff, st_handshake_timeout_ms = 18000,
     st_idle_timeout_ms = 30000, st_max_frame_bytes = 65536\<rparr>"

record relay_endpoint_config =
  ec_relay :: utext
  ec_url :: utext
  ec_telemetry_secret_file :: "utext option"
  ec_fast_media_udp_port :: "u16 option"

record relay_health_config =
  hc_interval_seconds :: u64
  hc_timeout_ms :: u64
  hc_success_threshold :: u32
  hc_failure_threshold :: u32
  hc_endpoints :: "relay_endpoint_config list"

definition relay_health_config_default :: relay_health_config where
  "relay_health_config_default = \<lparr>hc_interval_seconds = 60, hc_timeout_ms = 5000,
     hc_success_threshold = 1, hc_failure_threshold = 2, hc_endpoints = []\<rparr>"

record websocket_signal_config =
  ws_enabled :: bool
  ws_registration_timeout_ms :: u64
  ws_keepalive_interval_ms :: u64
  ws_idle_timeout_ms :: u64
  ws_max_frame_bytes :: usize
  ws_outbound_queue_capacity :: usize
  ws_max_sessions :: usize
  ws_max_sessions_per_effective_ip :: usize
  ws_registration_rate_per_minute :: usize
  ws_trusted_proxies :: "utext list"
  ws_allowed_origins :: "utext list"
  ws_relay_health :: relay_health_config

definition websocket_signal_config_default :: websocket_signal_config where
  "websocket_signal_config_default = \<lparr>ws_enabled = False,
     ws_registration_timeout_ms = 10000, ws_keepalive_interval_ms = 12000,
     ws_idle_timeout_ms = 45000, ws_max_frame_bytes = 65536, ws_outbound_queue_capacity = 64,
     ws_max_sessions = 10000, ws_max_sessions_per_effective_ip = 512,
     ws_registration_rate_per_minute = 300, ws_trusted_proxies = [lit ''127.0.0.1/32'',
     lit ''::1/128''], ws_allowed_origins = [],
     ws_relay_health = relay_health_config_default\<rparr>"

datatype relay_quality_strategy = Adaptive | Eager

record relay_quality_weights =
  qw_rtt :: u32
  qw_jitter :: u32
  qw_loss :: u32
  qw_load :: u32

definition relay_quality_weights_default :: relay_quality_weights where
  "relay_quality_weights_default = \<lparr>qw_rtt = 4000, qw_jitter = 2000, qw_loss = 2500,
     qw_load = 1500\<rparr>"

record relay_quality_config =
  qc_enabled :: bool
  qc_strategy :: relay_quality_strategy
  qc_legacy_fallback_relays :: "utext list"
  qc_max_candidates :: usize
  qc_primary_probe_samples :: u32
  qc_primary_accept_score :: u32
  qc_primary_max_loss_basis_points :: u32
  qc_p2p_probe_grace_ms :: u32
  qc_probe_samples :: u32
  qc_probe_interval_ms :: u32
  qc_probe_timeout_ms :: u32
  qc_report_timeout_ms :: u32
  qc_max_telemetry_age_seconds :: u64
  qc_allocation_ttl_seconds :: u64
  qc_cache_ttl_seconds :: u64
  qc_max_allocations :: usize
  qc_hysteresis_basis_points :: u32
  qc_missing_report_penalty_basis_points :: u32
  qc_rtt_bad_ms :: u32
  qc_jitter_bad_ms :: u32
  qc_weights :: relay_quality_weights

definition relay_quality_config_default :: relay_quality_config where
  "relay_quality_config_default = \<lparr>qc_enabled = False, qc_strategy = Adaptive,
     qc_legacy_fallback_relays = [], qc_max_candidates = 3, qc_primary_probe_samples = 3,
     qc_primary_accept_score = 8000, qc_primary_max_loss_basis_points = 500,
     qc_p2p_probe_grace_ms = 300, qc_probe_samples = 5, qc_probe_interval_ms = 50,
     qc_probe_timeout_ms = 1000, qc_report_timeout_ms = 15000, qc_max_telemetry_age_seconds = 180,
     qc_allocation_ttl_seconds = 30, qc_cache_ttl_seconds = 300, qc_max_allocations = 10000,
     qc_hysteresis_basis_points = 500, qc_missing_report_penalty_basis_points = 1000,
     qc_rtt_bad_ms = 300, qc_jitter_bad_ms = 100,
     qc_weights = relay_quality_weights_default\<rparr>"

record fast_relay_config =
  fr_fast_compat_enabled :: bool
  fr_fast_media_v1_enabled :: bool
  fr_authorization_ttl_seconds :: u64
  fr_max_bitrate_kbps :: u32
  fr_relay_max_datagram :: u32

definition fast_relay_config_default :: fast_relay_config where
  "fast_relay_config_default = \<lparr>fr_fast_compat_enabled = False,
     fr_fast_media_v1_enabled = False, fr_authorization_ttl_seconds = 90,
     fr_max_bitrate_kbps = 50000, fr_relay_max_datagram = 1200\<rparr>"

datatype connection_auth_mode = AuthOff | AuthAudit | AuthEnforce

record jwks_config =
  jw_file :: utext
  jw_url :: utext
  jw_refresh_interval_seconds :: u64
  jw_max_stale_seconds :: u64
  jw_ca_file :: utext
  jw_cert_file :: utext
  jw_key_file :: utext
  jw_server_name :: utext

definition jwks_config_default :: jwks_config where
  "jwks_config_default = \<lparr>jw_file = [], jw_url = [], jw_refresh_interval_seconds = 300,
     jw_max_stale_seconds = 3600, jw_ca_file = [], jw_cert_file = [], jw_key_file = [],
     jw_server_name = []\<rparr>"

record introspection_config =
  is_required :: bool
  is_url :: utext
  is_timeout_ms :: u64
  is_positive_cache_seconds :: u64
  is_negative_cache_seconds :: u64
  is_max_cache_entries :: usize
  is_ca_file :: utext
  is_cert_file :: utext
  is_key_file :: utext
  is_server_name :: utext

definition introspection_config_default :: introspection_config where
  "introspection_config_default = \<lparr>is_required = False, is_url = [], is_timeout_ms = 1000,
     is_positive_cache_seconds = 10, is_negative_cache_seconds = 1, is_max_cache_entries = 100000,
     is_ca_file = [], is_cert_file = [], is_key_file = [], is_server_name = []\<rparr>"

record connection_auth_config =
  ca_mode :: connection_auth_mode
  ca_issuer :: utext
  ca_audience :: utext
  ca_token_use :: utext
  ca_required_scope :: utext
  ca_max_token_bytes :: usize
  ca_clock_skew_seconds :: u64
  ca_jwks :: jwks_config
  ca_introspection :: introspection_config

definition connection_auth_config_default :: connection_auth_config where
  "connection_auth_config_default = \<lparr>ca_mode = AuthOff, ca_issuer = [], ca_audience = [],
     ca_token_use = lit ''access'', ca_required_scope = lit ''connect:initiate'',
     ca_max_token_bytes = 8192, ca_clock_skew_seconds = 30, ca_jwks = jwks_config_default,
     ca_introspection = introspection_config_default\<rparr>"

record database_config =
  db_path :: utext
  db_url :: utext

definition database_with_path :: "utext \<Rightarrow> database_config" where
  "database_with_path p = \<lparr>db_path = p, db_url = []\<rparr>"

record mmdb_config =
  md_update_interval_hours :: u64
  md_update_on_start :: bool
  md_force_update :: bool
  md_download_timeout_seconds :: u64
  md_minimum_bytes :: u64
  md_country :: database_config
  md_city :: database_config
  md_asn :: database_config

definition mmdb_config_default :: mmdb_config where
  "mmdb_config_default = \<lparr>md_update_interval_hours = 168, md_update_on_start = True,
     md_force_update = False, md_download_timeout_seconds = 600, md_minimum_bytes = 65536,
     md_country = database_with_path (lit ''mmdb/GeoLite2-Country.mmdb''),
     md_city = database_with_path (lit ''mmdb/GeoLite2-City.mmdb''),
     md_asn = database_with_path (lit ''mmdb/GeoLite2-ASN.mmdb'')\<rparr>"

record starry_config =
  sc_version :: u8
  sc_relay_servers :: "utext list"
  sc_secure_tcp :: secure_tcp_config
  sc_mmdb :: mmdb_config
  sc_geo :: geo_config
  sc_websocket_signal :: websocket_signal_config
  sc_connection_auth :: connection_auth_config
  sc_relay_quality :: relay_quality_config
  sc_fast_mode :: fast_relay_config

record active_config =
  ac_generation :: u64
  ac_config :: "starry_config option"

end
