(* ===== verification/Relay_Health.thy ===== *)
theory Relay_Health
  imports Hash_Map Rust_Text Starry_Config_Data
begin

text \<open>
  The health of the relays' WebSocket endpoints in HBBS (\<open>websocket_signal/relay_health.rs\<close>): the
  endpoint state machine with its thresholds, the signed telemetry and its validation, probe cycles
  by configuration generation, and the snapshots the selector reads.

  The WebSocket connection is I/O: a probe's outcome is an input.  Base64, JSON and the HMAC are
  third-party code and parameters (\<open>telemetry_codec\<close>).  The response headers are a partial function
  from names to their text.  The two static counters (configuration generations, snapshot ids) are
  fields of the state.  The flattened \<open>fast_media_*\<close> fields of \<open>RelayLoadTelemetry\<close>, all copied from
  one optional envelope, are kept as that optional record.
\<close>

section \<open>Data\<close>

datatype status = Unknown | Healthy | Unhealthy

record fast_media_telemetry =
  ft_protocol :: u32
  ft_enabled :: bool
  ft_healthy :: bool
  ft_udp_port :: u16
  ft_active_allocations :: u64
  ft_active_streams :: u64
  ft_hello_accepted :: u64
  ft_cookie_rejected :: u64
  ft_bind_succeeded :: u64
  ft_bind_rejected :: u64
  ft_grant_rejected :: u64
  ft_role_mismatch :: u64
  ft_session_mismatch :: u64
  ft_allocation_mismatch :: u64
  ft_rebinds :: u64
  ft_forwarded_packets :: u64
  ft_forwarded_bytes :: u64
  ft_dropped_packets :: u64
  ft_rate_limited :: u64
  ft_replay_rejected :: u64
  ft_expired_allocations :: u64
  ft_listener_failures :: u64

record relay_load_telemetry =
  lt_telemetry_schema :: u32
  lt_process_instance_id :: utext
  lt_sequence :: u64
  lt_observed_at_unix_ms :: u64
  lt_uptime_seconds :: u64
  lt_load_basis_points :: u32
  lt_active_sessions :: u32
  lt_pending_pairs :: u32
  lt_capacity_sessions :: u32
  lt_bandwidth_bps :: u64
  lt_bandwidth_ema_alpha_basis_points :: u32
  lt_capacity_bandwidth_bps :: u64
  lt_draining :: bool
  lt_admission_open :: bool
  lt_admission_rejections :: u64
  lt_probe_malformed :: u64
  lt_probe_unsupported :: u64
  lt_probe_rate_limited :: u64
  lt_probe_successful :: u64
  lt_telemetry_auth_failures :: u64
  lt_fast_media :: "fast_media_telemetry option"

text \<open>\<open>TelemetryEnvelope\<close>: the fields of the load telemetry, and three more.\<close>

record telemetry_envelope =
  te_load :: relay_load_telemetry
  te_version :: utext
  te_relay_probe_protocol :: u32
  te_relay_load_protocol :: u32

datatype probe_code =
    TelemetryMissing | TelemetryAuthMissing | TelemetryAuthInvalid | TelemetryPayloadInvalid
  | TelemetrySequenceReplay | TelemetryCapabilityMismatch | TelemetrySecretInvalid | OtherFailure utext

record probe_failure =
  pf_code :: probe_code
  pf_message :: utext

record probe_success =
  pr_latency_ms :: u64
  pr_version :: "utext option"
  pr_relay_probe_protocol :: "u32 option"
  pr_relay_load_protocol :: "u32 option"
  pr_load :: "relay_load_telemetry option"

record endpoint_state =
  es_status :: status
  es_consecutive_successes :: u32
  es_consecutive_failures :: u32
  es_last_success_millis :: "u64 option"
  es_last_failure_millis :: "u64 option"
  es_last_probe_unix_millis :: "u64 option"
  es_latency_ms :: "u64 option"
  es_version :: "utext option"
  es_relay_probe_protocol :: "u32 option"
  es_relay_load_protocol :: "u32 option"
  es_telemetry_observed_unix_millis :: "u64 option"
  es_telemetry_instance_id :: "utext option"
  es_telemetry_sequence :: "u64 option"
  es_telemetry_uptime_seconds :: "u64 option"
  es_load :: "relay_load_telemetry option"
  es_telemetry_restarts :: u64
  es_last_restart_unix_millis :: "u64 option"
  es_last_error_code :: "probe_code option"
  es_last_error :: "utext option"

definition endpoint_state_default :: endpoint_state where
  "endpoint_state_default = \<lparr>es_status = Unknown, es_consecutive_successes = 0,
     es_consecutive_failures = 0, es_last_success_millis = None, es_last_failure_millis = None,
     es_last_probe_unix_millis = None, es_latency_ms = None, es_version = None,
     es_relay_probe_protocol = None, es_relay_load_protocol = None,
     es_telemetry_observed_unix_millis = None, es_telemetry_instance_id = None,
     es_telemetry_sequence = None, es_telemetry_uptime_seconds = None, es_load = None,
     es_telemetry_restarts = 0, es_last_restart_unix_millis = None, es_last_error_code = None,
     es_last_error = None\<rparr>"

record health_state =
  hs_enabled :: bool
  hs_generation :: u64
  hs_completed_generation :: u64
  hs_snapshot_id :: u64
  hs_config :: relay_health_config
  hs_endpoints :: "(utext, endpoint_state) hmap"
  hs_generations :: u64
  hs_snapshots :: u64

datatype relay_requirement = NativeOnly | WebSocketOnly | Mixed

section \<open>Text and numbers of the protocol\<close>

text \<open>
  \<open>sanitize_error\<close>: line breaks become blanks and the text is cut to 240 bytes; \<open>String::truncate\<close>
  panics when that is inside a character.
\<close>

definition sanitize_error :: "utext \<Rightarrow> utext option" where
  "sanitize_error e = (let v = map (\<lambda>c. if c = 13 \<or> c = 10 then 32 else c) e
     in if utf8_len v \<le> 240 then Some v else truncate_text 240 v)"

definition hex_digit :: "u8 \<Rightarrow> uchar" where
  "hex_digit n = (if n < 10 then 48 + unat n else 87 + unat n)"

definition hex_encode :: "bytes \<Rightarrow> utext" where
  "hex_encode bs = concat (map (\<lambda>b. [hex_digit (drop_bit 4 b), hex_digit (and b 15)]) bs)"

definition hex_nibble :: "u8 \<Rightarrow> u8 option" where
  "hex_nibble v = (if 48 \<le> v \<and> v \<le> 57 then Some (v - 48)
     else if 97 \<le> v \<and> v \<le> 102 then Some (v - 97 + 10) else None)"

fun hex_pairs :: "u8 list \<Rightarrow> bytes option" where
  "hex_pairs [] = Some []"
| "hex_pairs [h] = None"
| "hex_pairs (h # l # rest) =
     (case hex_nibble h of None \<Rightarrow> None | Some high \<Rightarrow>
     (case hex_nibble l of None \<Rightarrow> None | Some low \<Rightarrow>
        map_option (\<lambda>bs. or (push_bit 4 high) low # bs) (hex_pairs rest)))"

text \<open>\<open>auth::TAGBYTES\<close> is 32 (HMAC-SHA-512-256).\<close>

definition hex_decode_tag :: "utext \<Rightarrow> bytes option" where
  "hex_decode_tag value = (if utf8_len value \<noteq> 64 then None else hex_pairs (as_bytes value))"

definition validate_version :: "utext \<Rightarrow> utext option" where
  "validate_version v =
     (if v = [] \<or> utf8_len v > 128
         \<or> \<not> list_all (\<lambda>c. is_ascii_alphanumeric c \<or> c \<in> {46, 95, 43, 45}) v then None else Some v)"

definition parse_u64 :: "utext \<Rightarrow> u64 option" where
  "parse_u64 s = map_option of_nat (parse_unsigned (2 ^ 64 - 1) s)"

type_synonym headers = "utext \<Rightarrow> utext option"

definition header_u64 :: "headers \<Rightarrow> utext \<Rightarrow> u64 \<Rightarrow> u64 option" where
  "header_u64 response name maximum =
     (case response name of None \<Rightarrow> None
      | Some raw \<Rightarrow>
          if raw = [] \<or> utf8_len raw > 20 \<or> \<not> list_all is_digit raw then None
          else (case parse_u64 raw of None \<Rightarrow> None
                | Some value \<Rightarrow> if value \<le> maximum then Some value else None))"

definition capability_version :: "headers \<Rightarrow> utext \<Rightarrow> u32 option" where
  "capability_version response name =
     (case header_u64 response name (2 ^ 32 - 1) of None \<Rightarrow> None
      | Some value \<Rightarrow> if value > 0 then Some (ucast value) else None)"

definition bounded_header :: "headers \<Rightarrow> utext \<Rightarrow> nat \<Rightarrow> utext option" where
  "bounded_header response name maximum =
     (case response name of None \<Rightarrow> None
      | Some value \<Rightarrow> if value \<noteq> [] \<and> utf8_len value \<le> maximum then Some value else None)"

definition relay_version :: "headers \<Rightarrow> utext option" where
  "relay_version response = Option.bind (response (lit ''x-starry-version'')) validate_version"

section \<open>Signed telemetry\<close>

text \<open>
  Third-party code: base64url decoding, the JSON decoding of an envelope, and the verification of
  an HMAC tag over a text under a key.
\<close>

record telemetry_codec =
  tc_base64 :: "utext \<Rightarrow> bytes option"
  tc_json :: "bytes \<Rightarrow> telemetry_envelope option"
  tc_verify :: "bytes \<Rightarrow> utext \<Rightarrow> bytes \<Rightarrow> bool"

record telemetry_context =
  tx_nonce :: utext
  tx_key :: bytes

text \<open>\<open>ProbeFailure::new\<close> for the constant messages, all short ASCII: \<open>sanitize_error\<close> keeps them.\<close>

definition failure :: "probe_code \<Rightarrow> string \<Rightarrow> probe_failure" where
  "failure code message = \<lparr>pf_code = code, pf_message = lit message\<rparr>"

definition instance_valid :: "utext \<Rightarrow> bool" where
  "instance_valid i \<longleftrightarrow> i \<noteq> [] \<and> utf8_len i \<le> 64 \<and> list_all (\<lambda>c. is_ascii_alphanumeric c \<or> c = 45) i"

definition schema_valid :: "relay_load_telemetry \<Rightarrow> bool" where
  "schema_valid l \<longleftrightarrow>
     (if lt_telemetry_schema l = 1 then lt_fast_media l = None
      else if lt_telemetry_schema l = 2
      then (case lt_fast_media l of None \<Rightarrow> False
            | Some f \<Rightarrow> ft_protocol f = 1 \<and> (\<not> ft_healthy f \<or> (ft_enabled f \<and> ft_udp_port f > 0))
                \<and> (\<not> ft_enabled f \<or> ft_udp_port f > 0))
      else False)"

definition validate_telemetry :: "u64 \<Rightarrow> telemetry_envelope \<Rightarrow> bool" where
  "validate_telemetry now e \<longleftrightarrow>
     (let l = te_load e in
      schema_valid l \<and> instance_valid (lt_process_instance_id l) \<and> lt_sequence l > 0
      \<and> lt_observed_at_unix_ms l \<le> sat_add now 30000
      \<and> te_relay_probe_protocol e > 0 \<and> te_relay_load_protocol e > 0
      \<and> lt_load_basis_points l \<le> 10000 \<and> lt_active_sessions l \<le> lt_capacity_sessions l
      \<and> lt_capacity_sessions l > 0 \<and> lt_capacity_bandwidth_bps l > 0
      \<and> 1 \<le> lt_bandwidth_ema_alpha_basis_points l \<and> lt_bandwidth_ema_alpha_basis_points l \<le> 10000
      \<and> lt_admission_open l = (\<not> lt_draining l \<and> lt_active_sessions l < lt_capacity_sessions l))"

definition relay_telemetry ::
  "telemetry_codec \<Rightarrow> u64 \<Rightarrow> headers \<Rightarrow> telemetry_context \<Rightarrow> probe_failure + utext \<times> u32 \<times> u32 \<times> relay_load_telemetry" where
  "relay_telemetry codec now response ctx =
     (case bounded_header response (lit ''x-starry-telemetry'') 8192 of
        None \<Rightarrow> Inl (failure TelemetryMissing ''authenticated telemetry payload is missing'')
      | Some payload \<Rightarrow>
     (case bounded_header response (lit ''x-starry-telemetry-auth'') 128 of
        None \<Rightarrow> Inl (failure TelemetryAuthMissing ''telemetry response signature is missing'')
      | Some signature \<Rightarrow>
     (case hex_decode_tag signature of
        None \<Rightarrow> Inl (failure TelemetryAuthInvalid ''telemetry response signature is invalid'')
      | Some tag \<Rightarrow>
          if \<not> tc_verify codec tag (lit ''starry-telemetry-response-v1'' @ [10] @ tx_nonce ctx @ [10] @ payload) (tx_key ctx)
          then Inl (failure TelemetryAuthInvalid ''telemetry response signature verification failed'')
          else
     (case tc_base64 codec payload of
        None \<Rightarrow> Inl (failure TelemetryPayloadInvalid ''telemetry payload is not base64url'')
      | Some decoded \<Rightarrow>
          if length decoded > 6144 then Inl (failure TelemetryPayloadInvalid ''telemetry payload exceeds the decoded size limit'')
          else
     (case tc_json codec decoded of
        None \<Rightarrow> Inl (failure TelemetryPayloadInvalid ''telemetry payload is not valid schema v1'')
      | Some e \<Rightarrow>
          if \<not> validate_telemetry now e then Inl (failure TelemetryPayloadInvalid ''telemetry fields violate supported schema bounds or invariants'')
          else
     (case validate_version (te_version e) of
        None \<Rightarrow> Inl (failure TelemetryPayloadInvalid ''telemetry version is invalid'')
      | Some version \<Rightarrow>
          Inr (version, te_relay_probe_protocol e, te_relay_load_protocol e, te_load e)))))))"

text \<open>The end of \<open>probe\<close>, once the connection has been upgraded and closed.\<close>

definition probe_response ::
  "telemetry_codec \<Rightarrow> u64 \<Rightarrow> u64 \<Rightarrow> headers \<Rightarrow> telemetry_context option \<Rightarrow> probe_failure + probe_success" where
  "probe_response codec now latency response context =
     (let public_probe = capability_version response (lit ''x-starry-relay-probe-protocol'');
          public_load = capability_version response (lit ''x-starry-relay-load-protocol'')
      in case context of
           Some ctx \<Rightarrow>
             (case relay_telemetry codec now response ctx of
                Inl err \<Rightarrow> Inl err
              | Inr (version, probe_protocol, load_protocol, load) \<Rightarrow>
                  if public_probe \<noteq> Some probe_protocol \<or> public_load \<noteq> Some load_protocol
                  then Inl (failure TelemetryCapabilityMismatch ''signed telemetry and public capability headers differ'')
                  else Inr \<lparr>pr_latency_ms = latency, pr_version = Some version,
                    pr_relay_probe_protocol = Some probe_protocol,
                    pr_relay_load_protocol = Some load_protocol, pr_load = Some load\<rparr>)
         | None \<Rightarrow> Inr \<lparr>pr_latency_ms = latency, pr_version = relay_version response,
             pr_relay_probe_protocol = public_probe, pr_relay_load_protocol = public_load,
             pr_load = None\<rparr>)"

text \<open>The key of a secret file: trailing line breaks are dropped, the length is bounded.\<close>

definition trim_newlines :: "bytes \<Rightarrow> bytes" where
  "trim_newlines s = rev (dropWhile (\<lambda>b. b = 10 \<or> b = 13) (rev s))"

definition telemetry_key :: "(bytes \<Rightarrow> bytes) \<Rightarrow> bytes \<Rightarrow> probe_failure + bytes" where
  "telemetry_key sha256 file =
     (let secret = trim_newlines file
      in if 32 \<le> length secret \<and> length secret \<le> 1024 then Inr (sha256 secret)
         else Inl (failure TelemetrySecretInvalid ''telemetry secret must contain 32..1024 bytes''))"

section \<open>The endpoint state machine\<close>

definition apply_failure :: "probe_failure \<Rightarrow> u32 \<Rightarrow> u64 \<Rightarrow> endpoint_state \<Rightarrow> endpoint_state" where
  "apply_failure err failure_threshold now e =
     (let failures = sat_add (es_consecutive_failures e) 1 in
      e\<lparr>es_consecutive_failures := failures, es_consecutive_successes := 0,
        es_last_failure_millis := Some now, es_latency_ms := None, es_load := None,
        es_telemetry_observed_unix_millis := None, es_last_error_code := Some (pf_code err),
        es_last_error := Some (pf_message err),
        es_status := (if failures \<ge> failure_threshold then Unhealthy else es_status e)\<rparr>)"

text \<open>A report of the process seen before must advance its sequence and must not step back in uptime.\<close>

definition telemetry_replayed :: "endpoint_state \<Rightarrow> relay_load_telemetry \<Rightarrow> bool" where
  "telemetry_replayed e current \<longleftrightarrow>
     es_telemetry_instance_id e = Some (lt_process_instance_id current)
     \<and> ((case es_telemetry_sequence e of None \<Rightarrow> False | Some s \<Rightarrow> lt_sequence current \<le> s)
        \<or> (case es_telemetry_uptime_seconds e of None \<Rightarrow> False | Some u \<Rightarrow> lt_uptime_seconds current < u))"

definition note_restart :: "u64 \<Rightarrow> relay_load_telemetry \<Rightarrow> endpoint_state \<Rightarrow> endpoint_state" where
  "note_restart unix_now current e =
     (if es_telemetry_instance_id e \<noteq> None \<and> es_telemetry_instance_id e \<noteq> Some (lt_process_instance_id current)
      then e\<lparr>es_telemetry_restarts := sat_add (es_telemetry_restarts e) 1,
             es_last_restart_unix_millis := Some unix_now\<rparr>
      else e)"

definition protocol_at_least_1 :: "u32 option \<Rightarrow> bool" where
  "protocol_at_least_1 p \<longleftrightarrow> (case p of None \<Rightarrow> 0 | Some v \<Rightarrow> v) \<ge> 1"

definition apply_success :: "probe_success \<Rightarrow> u32 \<Rightarrow> u64 \<Rightarrow> endpoint_state \<Rightarrow> endpoint_state" where
  "apply_success success success_threshold now e =
     (let successes = sat_add (es_consecutive_successes e) 1;
          load = (if protocol_at_least_1 (pr_relay_probe_protocol success)
                    \<and> protocol_at_least_1 (pr_relay_load_protocol success)
                  then pr_load success else None);
          e1 = e\<lparr>es_consecutive_successes := successes, es_consecutive_failures := 0,
                 es_last_success_millis := Some now, es_latency_ms := Some (pr_latency_ms success),
                 es_version := pr_version success,
                 es_relay_probe_protocol := pr_relay_probe_protocol success,
                 es_relay_load_protocol := pr_relay_load_protocol success, es_load := load,
                 es_telemetry_observed_unix_millis := map_option lt_observed_at_unix_ms load,
                 es_last_error_code := None, es_last_error := None,
                 es_status := (if successes \<ge> success_threshold then Healthy else es_status e)\<rparr>
      in case load of None \<Rightarrow> e1
         | Some l \<Rightarrow> e1\<lparr>es_telemetry_instance_id := Some (lt_process_instance_id l),
             es_telemetry_sequence := Some (lt_sequence l),
             es_telemetry_uptime_seconds := Some (lt_uptime_seconds l)\<rparr>)"

definition record_endpoint ::
  "probe_failure + probe_success \<Rightarrow> u32 \<Rightarrow> u32 \<Rightarrow> u64 \<Rightarrow> u64 \<Rightarrow> endpoint_state \<Rightarrow> endpoint_state" where
  "record_endpoint result success_threshold failure_threshold unix_now now e0 =
     (let e = e0\<lparr>es_last_probe_unix_millis := Some unix_now\<rparr> in
      case result of
        Inl err \<Rightarrow> apply_failure err failure_threshold now e
      | Inr success \<Rightarrow>
          (case pr_load success of
             None \<Rightarrow> apply_success success success_threshold now e
           | Some current \<Rightarrow>
               if telemetry_replayed e current
               then apply_failure (failure TelemetrySequenceReplay ''telemetry sequence or uptime did not advance monotonically'') failure_threshold now e
               else apply_success success success_threshold now (note_restart unix_now current e)))"

section \<open>Cycles and generations\<close>

definition next_snapshot :: "health_state \<Rightarrow> health_state" where
  "next_snapshot s = s\<lparr>hs_snapshots := hs_snapshots s + 1, hs_snapshot_id := hs_snapshots s + 1\<rparr>"

definition health_record ::
  "u64 \<Rightarrow> utext \<Rightarrow> probe_failure + probe_success \<Rightarrow> u32 \<Rightarrow> u32 \<Rightarrow> u64 \<Rightarrow> u64 \<Rightarrow> health_state \<Rightarrow> health_state" where
  "health_record generation relay result st ft unix_now now s =
     (if hs_generation s \<noteq> generation then s
      else case hm_get (hs_endpoints s) (to_ascii_lowercase relay) of
        None \<Rightarrow> s
      | Some e \<Rightarrow> next_snapshot (s\<lparr>hs_endpoints := hm_insert (to_ascii_lowercase relay)
          (record_endpoint result st ft unix_now now e) (hs_endpoints s)\<rparr>))"

definition health_reconfigure :: "bool \<Rightarrow> relay_health_config \<Rightarrow> health_state \<Rightarrow> health_state" where
  "health_reconfigure enabled cfg s =
     next_snapshot \<lparr>hs_enabled = enabled, hs_generation = hs_generations s + 1,
       hs_completed_generation = 0, hs_snapshot_id = hs_snapshot_id s, hs_config = cfg,
       hs_endpoints = foldl (\<lambda>m ec. hm_insert (to_ascii_lowercase (ec_relay ec)) endpoint_state_default m)
         [] (hc_endpoints cfg),
       hs_generations = hs_generations s + 1, hs_snapshots = hs_snapshots s\<rparr>"

text \<open>The end of a cycle: its results are recorded in the order they
  arrived, each with the two clock readings taken then; the cycle is complete.\<close>

definition cycle_complete :: "u64 \<Rightarrow> health_state \<Rightarrow> health_state" where
  "cycle_complete generation s =
     (if hs_generation s = generation \<and> hs_completed_generation s \<noteq> generation
      then next_snapshot (s\<lparr>hs_completed_generation := generation\<rparr>) else s)"

definition run_cycle ::
  "u64 \<Rightarrow> relay_health_config \<Rightarrow> (utext \<times> (probe_failure + probe_success) \<times> u64 \<times> u64) list \<Rightarrow> health_state \<Rightarrow> health_state" where
  "run_cycle generation cfg results s =
     cycle_complete generation
       (foldl (\<lambda>s (relay, result, unix_now, now). health_record generation relay result (hc_success_threshold cfg)
          (hc_failure_threshold cfg) unix_now now s) s results)"

section \<open>Snapshots\<close>

text \<open>Times stay in milliseconds; \<open>rfc3339_millis\<close> only prints them.\<close>

definition health_ready :: "health_state \<Rightarrow> bool" where
  "health_ready s \<longleftrightarrow> hs_enabled s \<and> hs_completed_generation s = hs_generation s
     \<and> list_ex (\<lambda>(_, e). es_status e = Healthy) (hs_endpoints s)"

record runtime_endpoint =
  re_relay :: utext
  re_url :: utext
  re_state :: status
  re_observed_at_unix_ms :: "u64 option"
  re_age_seconds :: "u64 option"
  re_stale :: bool
  re_last_probe_at :: "u64 option"
  re_latency_ms :: "u64 option"
  re_version :: "utext option"
  re_relay_probe_protocol :: "u32 option"
  re_relay_load_protocol :: "u32 option"
  re_telemetry_instance_id :: "utext option"
  re_telemetry_sequence :: "u64 option"
  re_telemetry_uptime_seconds :: "u64 option"
  re_load :: "relay_load_telemetry option"
  re_telemetry_restarts :: u64
  re_last_restart_at :: "u64 option"
  re_error_code :: "probe_code option"
  re_error_message :: "utext option"
  re_consecutive_successes :: u32
  re_consecutive_failures :: u32

record runtime_health =
  rh_enabled :: bool
  rh_generation :: u64
  rh_completed_generation :: u64
  rh_snapshot_id :: u64
  rh_endpoints :: "(utext, runtime_endpoint) hmap"

definition telemetry_age :: "u64 \<Rightarrow> endpoint_state \<Rightarrow> u64 option" where
  "telemetry_age unix_now e =
     map_option (\<lambda>observed. sat_sub unix_now observed div 1000) (es_telemetry_observed_unix_millis e)"

definition endpoint_stale :: "u64 \<Rightarrow> u64 \<Rightarrow> endpoint_state \<Rightarrow> bool" where
  "endpoint_stale unix_now max_age e \<longleftrightarrow> es_load e = None
     \<or> \<not> protocol_at_least_1 (es_relay_probe_protocol e) \<or> \<not> protocol_at_least_1 (es_relay_load_protocol e)
     \<or> (case telemetry_age unix_now e of None \<Rightarrow> True | Some age \<Rightarrow> age > max_age)"

definition runtime_endpoint_of :: "u64 \<Rightarrow> u64 \<Rightarrow> relay_endpoint_config \<Rightarrow> endpoint_state \<Rightarrow> runtime_endpoint" where
  "runtime_endpoint_of unix_now max_age cfg e =
     \<lparr>re_relay = ec_relay cfg, re_url = ec_url cfg, re_state = es_status e,
       re_observed_at_unix_ms = es_telemetry_observed_unix_millis e,
       re_age_seconds = telemetry_age unix_now e, re_stale = endpoint_stale unix_now max_age e,
       re_last_probe_at = es_last_probe_unix_millis e, re_latency_ms = es_latency_ms e,
       re_version = es_version e, re_relay_probe_protocol = es_relay_probe_protocol e,
       re_relay_load_protocol = es_relay_load_protocol e,
       re_telemetry_instance_id = es_telemetry_instance_id e,
       re_telemetry_sequence = es_telemetry_sequence e,
       re_telemetry_uptime_seconds = es_telemetry_uptime_seconds e, re_load = es_load e,
       re_telemetry_restarts = es_telemetry_restarts e,
       re_last_restart_at = es_last_restart_unix_millis e, re_error_code = es_last_error_code e,
       re_error_message = es_last_error e, re_consecutive_successes = es_consecutive_successes e,
       re_consecutive_failures = es_consecutive_failures e\<rparr>"

definition endpoint_of :: "health_state \<Rightarrow> utext \<Rightarrow> endpoint_state" where
  "endpoint_of s relay =
     (case hm_get (hs_endpoints s) (to_ascii_lowercase relay) of None \<Rightarrow> endpoint_state_default | Some e \<Rightarrow> e)"

definition runtime_snapshot :: "u64 \<Rightarrow> u64 \<Rightarrow> health_state \<Rightarrow> runtime_health" where
  "runtime_snapshot unix_now max_age s =
     \<lparr>rh_enabled = hs_enabled s, rh_generation = hs_generation s,
       rh_completed_generation = hs_completed_generation s, rh_snapshot_id = hs_snapshot_id s,
       rh_endpoints = foldl (\<lambda>m cfg. hm_insert (to_ascii_lowercase (ec_relay cfg))
           (runtime_endpoint_of unix_now max_age cfg (endpoint_of s (ec_relay cfg))) m)
         [] (hc_endpoints (hs_config s))\<rparr>"

definition rh_ready :: "runtime_health \<Rightarrow> bool" where
  "rh_ready h \<longleftrightarrow> rh_enabled h \<and> rh_completed_generation h = rh_generation h"

definition rh_endpoint :: "runtime_health \<Rightarrow> utext \<Rightarrow> runtime_endpoint option" where
  "rh_endpoint h relay = hm_get (rh_endpoints h) (to_ascii_lowercase relay)"

definition rh_healthy :: "runtime_health \<Rightarrow> utext \<Rightarrow> bool" where
  "rh_healthy h relay \<longleftrightarrow> rh_ready h
     \<and> (case rh_endpoint h relay of None \<Rightarrow> False | Some e \<Rightarrow> re_state e = Healthy)"

definition health_eligible_relays ::
  "health_state \<Rightarrow> utext list \<Rightarrow> utext list \<Rightarrow> relay_requirement \<Rightarrow> utext list" where
  "health_eligible_relays s configured native_online requirement =
     (if requirement = NativeOnly then native_online
      else if \<not> (hs_enabled s \<and> hs_completed_generation s = hs_generation s) then []
      else filter (\<lambda>relay.
        (case hm_get (hs_endpoints s) (to_ascii_lowercase relay) of None \<Rightarrow> False
         | Some e \<Rightarrow> es_status e = Healthy)
        \<and> (requirement = WebSocketOnly
           \<or> to_ascii_lowercase relay \<in> set (map to_ascii_lowercase native_online))) configured)"


text \<open>\<open>snapshots\<close>, the operators' view.\<close>

record health_snapshot =
  sn_relay :: utext
  sn_status :: status
  sn_relay_probe_protocol :: "u32 option"
  sn_relay_load_protocol :: "u32 option"
  sn_observed_at :: "u64 option"
  sn_age_seconds :: "u64 option"
  sn_stale :: bool
  sn_last_success_age_seconds :: "u64 option"
  sn_last_failure_age_seconds :: "u64 option"
  sn_last_error :: "utext option"

definition health_snapshots :: "u64 \<Rightarrow> u64 \<Rightarrow> u64 \<Rightarrow> health_state \<Rightarrow> health_snapshot list" where
  "health_snapshots max_age unix_now now s = map (\<lambda>cfg.
     let e = endpoint_of s (ec_relay cfg) in
     \<lparr>sn_relay = ec_relay cfg, sn_status = es_status e,
       sn_relay_probe_protocol = es_relay_probe_protocol e,
       sn_relay_load_protocol = es_relay_load_protocol e,
       sn_observed_at = es_telemetry_observed_unix_millis e, sn_age_seconds = telemetry_age unix_now e,
       sn_stale = endpoint_stale unix_now max_age e,
       sn_last_success_age_seconds = map_option (\<lambda>t. sat_sub now t div 1000) (es_last_success_millis e),
       sn_last_failure_age_seconds = map_option (\<lambda>t. sat_sub now t div 1000) (es_last_failure_millis e),
       sn_last_error = es_last_error e\<rparr>) (hc_endpoints (hs_config s))"

end
