(* ===== verification/Relay_Observer.thy ===== *)
theory Relay_Observer
  imports Relay_Health Geo_Select
begin

text \<open>
  The runtime view of the relays in HBBS (\<open>relay_observer.rs\<close>) and the explanation of a choice
  (\<open>allocation_explain.rs\<close>): the relay pool, the snapshot that joins pool, health and
  configuration, eligibility and the reasons against it, the bounded list of quality candidates,
  the FastMedia endpoint of a relay and the simulation.

  In a view the fields copied from the telemetry are kept as the optional load itself, those copied
  from the FastMedia telemetry as that optional record, and the transport names \<open>native\<close>, \<open>wss\<close>
  and \<open>mixed\<close> as the requirements they stand for.  The snapshot's copies of the other components'
  counters are left out.
\<close>

section \<open>The relay pool\<close>

record relay_pool =
  rp_generation :: u64
  rp_configured :: "utext list"
  rp_native_online :: "utext list"
  rp_native_observed_at :: "utext option"

definition relay_pool_default :: relay_pool where
  "relay_pool_default = \<lparr>rp_generation = 0, rp_configured = [], rp_native_online = [],
     rp_native_observed_at = None\<rparr>"

definition update_configured :: "utext list \<Rightarrow> u64 \<Rightarrow> utext \<Rightarrow> relay_pool \<Rightarrow> relay_pool" where
  "update_configured relays generation now pool =
     pool\<lparr>rp_configured := relays, rp_native_online := relays, rp_native_observed_at := Some now,
       rp_generation := generation\<rparr>"

definition update_native_online :: "utext list \<Rightarrow> utext \<Rightarrow> relay_pool \<Rightarrow> relay_pool" where
  "update_native_online relays now pool =
     pool\<lparr>rp_native_online := relays, rp_native_observed_at := Some now\<rparr>"

section \<open>Views\<close>

record native_status =
  na_online :: bool
  na_observed_at :: utext

datatype ws_state = WsDisabled | Ws status

record websocket_status =
  wv_configured :: bool
  wv_url :: "utext option"
  wv_state :: ws_state
  wv_last_probe_at :: "u64 option"
  wv_observed_at_unix_ms :: "u64 option"
  wv_age_seconds :: "u64 option"
  wv_stale :: bool
  wv_latency_ms :: "u64 option"
  wv_process_instance_id :: "utext option"
  wv_telemetry_sequence :: "u64 option"
  wv_uptime_seconds :: "u64 option"
  wv_telemetry_restarts :: u64
  wv_last_restart_at :: "u64 option"
  wv_load :: "relay_load_telemetry option"
  wv_error_code :: "probe_code option"
  wv_error_message :: "utext option"

record relay_capabilities =
  cp_relay_probe_protocol :: "u32 option"
  cp_relay_load_protocol :: "u32 option"
  cp_fast_media_relay_udp :: "u32 option"

record fast_media_status =
  fs_configured_port :: "u16 option"
  fs_reported :: "fast_media_telemetry option"

record relay_view =
  rv_id :: utext
  rv_version :: "utext option"
  rv_capabilities :: relay_capabilities
  rv_quality_candidate :: bool
  rv_configured_order :: nat
  rv_native :: native_status
  rv_websocket :: websocket_status
  rv_fast_media_udp :: fast_media_status
  rv_eligible_for :: "relay_requirement list"
  rv_referenced_by_rules :: "utext list"

record relay_snapshot =
  ss_config_generation :: u64
  ss_health_snapshot_id :: u64
  ss_relays :: "relay_view list"
  ss_relay_pool_generation :: u64
  ss_geo :: geo_state

definition is_consistent :: "relay_snapshot \<Rightarrow> bool" where
  "is_consistent s \<longleftrightarrow> ss_relay_pool_generation s = ss_config_generation s"

definition eligible_relays :: "relay_snapshot \<Rightarrow> relay_requirement \<Rightarrow> utext list" where
  "eligible_relays s requirement =
     map rv_id (filter (\<lambda>relay. requirement \<in> set (rv_eligible_for relay)) (ss_relays s))"

definition configured_relays :: "relay_snapshot \<Rightarrow> utext list" where
  "configured_relays s = map rv_id (ss_relays s)"

definition find_view :: "relay_view list \<Rightarrow> utext \<Rightarrow> relay_view option" where
  "find_view relays relay_id = find (\<lambda>view. text_eq_ignore_case (rv_id view) relay_id) relays"

datatype exclusion = NativeUnavailable | WssNotConfigured | WssUnhealthy | TransportOrHealthIneligible

definition exclusion_reason :: "relay_snapshot \<Rightarrow> utext \<Rightarrow> relay_requirement \<Rightarrow> exclusion option" where
  "exclusion_reason s relay_id requirement =
     (case find_view (ss_relays s) relay_id of None \<Rightarrow> None
      | Some relay \<Rightarrow>
          (let native = na_online (rv_native relay);
               websocket = (wv_state (rv_websocket relay) = Ws Healthy);
               configured = wv_configured (rv_websocket relay)
           in if requirement = NativeOnly \<and> \<not> native then Some NativeUnavailable
              else if requirement = WebSocketOnly \<and> \<not> configured then Some WssNotConfigured
              else if requirement = WebSocketOnly \<and> \<not> websocket then Some WssUnhealthy
              else if requirement = Mixed \<and> \<not> native then Some NativeUnavailable
              else if requirement = Mixed \<and> \<not> configured then Some WssNotConfigured
              else if requirement = Mixed \<and> \<not> websocket then Some WssUnhealthy
              else None))"

definition exclusion_reasons :: "relay_snapshot \<Rightarrow> relay_requirement \<Rightarrow> (utext, exclusion) hmap" where
  "exclusion_reasons s requirement = foldl (\<lambda>m relay.
     case exclusion_reason s (rv_id relay) requirement of None \<Rightarrow> m
     | Some reason \<Rightarrow> hm_insert (to_ascii_lowercase (rv_id relay)) reason m) [] (ss_relays s)"

section \<open>Quality candidates\<close>

fun position :: "('a \<Rightarrow> bool) \<Rightarrow> 'a list \<Rightarrow> nat option" where
  "position P [] = None"
| "position P (x # xs) = (if P x then Some 0 else map_option Suc (position P xs))"

lemma position_Some: "position P xs = Some i \<Longrightarrow> i < length xs \<and> P (xs ! i)"
  by (induction xs arbitrary: i) (auto split: if_splits)

definition rotate_to_fallback :: "relay_view list \<Rightarrow> utext list \<Rightarrow> utext \<Rightarrow> utext list" where
  "rotate_to_fallback relays ordered fallback =
     (let candidate = (case find_view relays fallback of None \<Rightarrow> False | Some v \<Rightarrow> rv_quality_candidate v)
      in if candidate
         then (case position (\<lambda>relay. text_eq_ignore_case relay fallback) ordered of None \<Rightarrow> ordered
               | Some index \<Rightarrow> rotate index ordered)
         else ordered)"

definition bounded_quality_views :: "relay_view list \<Rightarrow> utext list \<Rightarrow> utext \<Rightarrow> nat \<Rightarrow> relay_view list" where
  "bounded_quality_views relays ordered fallback maximum =
     take maximum (List.map_filter (\<lambda>relay. case find_view relays relay of None \<Rightarrow> None
       | Some view \<Rightarrow> if rv_quality_candidate view then Some view else None)
       (rotate_to_fallback relays ordered fallback))"

definition quality_candidates ::
  "relay_snapshot \<Rightarrow> ip_addr \<Rightarrow> ip_addr \<Rightarrow> relay_requirement \<Rightarrow> utext \<Rightarrow> nat \<Rightarrow> relay_view list" where
  "quality_candidates s client_a client_b requirement fallback maximum =
     (let eligible = eligible_relays s requirement;
          ordered = (case select_relay_explained_from (ss_geo s) client_a client_b eligible of
             None \<Rightarrow> eligible | Some sel \<Rightarrow> sel_candidates sel)
      in bounded_quality_views (ss_relays s) ordered fallback maximum)"

section \<open>Building a snapshot\<close>

text \<open>\<open>strip_suffix\<close>, and the public probe URL of a telemetry URL.\<close>

definition strip_suffix :: "utext \<Rightarrow> utext \<Rightarrow> utext option" where
  "strip_suffix suffix s = (if length suffix \<le> length s \<and> drop (length s - length suffix) s = suffix
     then Some (take (length s - length suffix) s) else None)"

definition public_probe_url :: "utext \<Rightarrow> utext" where
  "public_probe_url url = (case strip_suffix (lit ''/ws/telemetry'') url of
     Some prefix \<Rightarrow> prefix @ lit ''/ws/relay'' | None \<Rightarrow> url)"

definition add_reference :: "utext \<Rightarrow> utext \<Rightarrow> (utext, utext list) hmap \<Rightarrow> (utext, utext list) hmap" where
  "add_reference rule relay m =
     (let key = to_ascii_lowercase relay;
          names = (case hm_get m key of None \<Rightarrow> [] | Some ns \<Rightarrow> ns)
      in hm_insert key (names @ [rule]) m)"

definition rule_references :: "starry_config option \<Rightarrow> (utext, utext list) hmap" where
  "rule_references cfg = (case cfg of None \<Rightarrow> []
     | Some c \<Rightarrow> foldl (\<lambda>m rule. foldl (\<lambda>m relay. add_reference (grc_name rule) relay m) m (grc_relays rule))
         [] (gc_rules (sc_geo c)))"

definition is_quality_candidate :: "bool \<Rightarrow> runtime_endpoint option \<Rightarrow> bool" where
  "is_quality_candidate explicitly_legacy endpoint \<longleftrightarrow> \<not> explicitly_legacy
     \<and> (case endpoint of None \<Rightarrow> False | Some e \<Rightarrow> re_state e = Healthy
          \<and> protocol_at_least_1 (re_relay_probe_protocol e)
          \<and> protocol_at_least_1 (re_relay_load_protocol e) \<and> \<not> re_stale e \<and> re_load e \<noteq> None)"

definition configured_fast_media_port :: "starry_config option \<Rightarrow> utext \<Rightarrow> u16 option" where
  "configured_fast_media_port cfg relay = Option.bind cfg (\<lambda>c.
     Option.bind (find (\<lambda>ec. text_eq_ignore_case (ec_relay ec) relay)
       (hc_endpoints (ws_relay_health (sc_websocket_signal c)))) ec_fast_media_udp_port)"

definition websocket_status_of :: "runtime_health \<Rightarrow> runtime_endpoint option \<Rightarrow> websocket_status" where
  "websocket_status_of health endpoint =
     \<lparr>wv_configured = (endpoint \<noteq> None), wv_url = map_option (public_probe_url \<circ> re_url) endpoint,
       wv_state = (if \<not> rh_enabled health then WsDisabled
         else if \<not> rh_ready health \<or> endpoint = None then Ws Unknown
         else (case endpoint of None \<Rightarrow> Ws Unknown | Some e \<Rightarrow> Ws (re_state e))),
       wv_last_probe_at = Option.bind endpoint re_last_probe_at,
       wv_observed_at_unix_ms = Option.bind endpoint re_observed_at_unix_ms,
       wv_age_seconds = Option.bind endpoint re_age_seconds,
       wv_stale = (case endpoint of None \<Rightarrow> True | Some e \<Rightarrow> re_stale e),
       wv_latency_ms = Option.bind endpoint re_latency_ms,
       wv_process_instance_id = Option.bind endpoint re_telemetry_instance_id,
       wv_telemetry_sequence = Option.bind endpoint re_telemetry_sequence,
       wv_uptime_seconds = Option.bind endpoint re_telemetry_uptime_seconds,
       wv_telemetry_restarts = (case endpoint of None \<Rightarrow> 0 | Some e \<Rightarrow> re_telemetry_restarts e),
       wv_last_restart_at = Option.bind endpoint re_last_restart_at,
       wv_load = Option.bind endpoint re_load, wv_error_code = Option.bind endpoint re_error_code,
       wv_error_message = Option.bind endpoint re_error_message\<rparr>"

definition eligible_for :: "bool \<Rightarrow> bool \<Rightarrow> relay_requirement list" where
  "eligible_for native websocket_healthy =
     (if native then [NativeOnly] else []) @ (if websocket_healthy then [WebSocketOnly] else [])
     @ (if native \<and> websocket_healthy then [Mixed] else [])"

definition relay_view_of ::
  "starry_config option \<Rightarrow> relay_pool \<Rightarrow> runtime_health \<Rightarrow> utext \<Rightarrow> nat \<Rightarrow> utext \<Rightarrow> utext list \<Rightarrow> relay_view" where
  "relay_view_of cfg pool health observed_at order relay references =
     (let key = to_ascii_lowercase relay;
          native = (key \<in> set (map to_ascii_lowercase (rp_native_online pool)));
          endpoint = rh_endpoint health relay;
          signal_enabled = (case cfg of None \<Rightarrow> False | Some c \<Rightarrow> ws_enabled (sc_websocket_signal c));
          websocket_healthy = (signal_enabled \<and> rh_healthy health relay);
          legacy = (case cfg of None \<Rightarrow> False
            | Some c \<Rightarrow> key \<in> set (map to_ascii_lowercase (qc_legacy_fallback_relays (sc_relay_quality c))));
          load = Option.bind endpoint re_load
      in \<lparr>rv_id = relay, rv_version = Option.bind endpoint re_version,
           rv_capabilities = \<lparr>cp_relay_probe_protocol = Option.bind endpoint re_relay_probe_protocol,
             cp_relay_load_protocol = Option.bind endpoint re_relay_load_protocol,
             cp_fast_media_relay_udp = map_option ft_protocol (Option.bind load lt_fast_media)\<rparr>,
           rv_quality_candidate = is_quality_candidate legacy endpoint, rv_configured_order = order,
           rv_native = \<lparr>na_online = native, na_observed_at =
             (case rp_native_observed_at pool of None \<Rightarrow> observed_at | Some t \<Rightarrow> t)\<rparr>,
           rv_websocket = websocket_status_of health endpoint,
           rv_fast_media_udp = \<lparr>fs_configured_port = configured_fast_media_port cfg relay,
             fs_reported = Option.bind load lt_fast_media\<rparr>,
           rv_eligible_for = eligible_for native websocket_healthy,
           rv_referenced_by_rules = references\<rparr>)"

text \<open>The references of a rule go to the first relay of that name: \<open>rule_references.remove\<close>.\<close>

fun relay_views ::
  "starry_config option \<Rightarrow> relay_pool \<Rightarrow> runtime_health \<Rightarrow> utext \<Rightarrow> nat \<Rightarrow> (utext, utext list) hmap
     \<Rightarrow> utext list \<Rightarrow> relay_view list" where
  "relay_views cfg pool health observed_at order refs [] = []"
| "relay_views cfg pool health observed_at order refs (relay # relays) =
     (let key = to_ascii_lowercase relay;
          references = (case hm_get refs key of None \<Rightarrow> [] | Some ns \<Rightarrow> ns)
      in relay_view_of cfg pool health observed_at order relay references
         # relay_views cfg pool health observed_at (Suc order) (hm_remove key refs) relays)"

definition build_snapshot ::
  "active_config \<Rightarrow> relay_pool \<Rightarrow> runtime_health \<Rightarrow> geo_state \<Rightarrow> utext \<Rightarrow> relay_snapshot" where
  "build_snapshot active pool health geo observed_at =
     \<lparr>ss_config_generation = ac_generation active, ss_health_snapshot_id = rh_snapshot_id health,
       ss_relays = relay_views (ac_config active) pool health observed_at 0
         (rule_references (ac_config active)) (rp_configured pool),
       ss_relay_pool_generation = rp_generation pool, ss_geo = geo\<rparr>"

definition observer_snapshot ::
  "active_config \<Rightarrow> relay_pool \<Rightarrow> health_state \<Rightarrow> geo_state \<Rightarrow> u64 \<Rightarrow> utext \<Rightarrow> relay_snapshot" where
  "observer_snapshot active pool health geo unix_now observed_at =
     build_snapshot active pool
       (runtime_snapshot unix_now
         (qc_max_telemetry_age_seconds (case ac_config active of None \<Rightarrow> relay_quality_config_default
            | Some c \<Rightarrow> sc_relay_quality c)) health) geo observed_at"

section \<open>The FastMedia endpoint of a relay\<close>

record fast_media_endpoint_view =
  fe_protocol :: u32
  fe_udp_port :: u16

definition fast_media_endpoint ::
  "active_config \<Rightarrow> health_state \<Rightarrow> u64 \<Rightarrow> utext \<Rightarrow> fast_media_endpoint_view option" where
  "fast_media_endpoint active health_st unix_now relay =
     (case ac_config active of None \<Rightarrow> None
      | Some config \<Rightarrow>
          if \<not> fr_fast_media_v1_enabled (sc_fast_mode config) then None
          else
     (case find (\<lambda>ec. text_eq_ignore_case (ec_relay ec) relay)
             (hc_endpoints (ws_relay_health (sc_websocket_signal config))) of None \<Rightarrow> None
      | Some configured \<Rightarrow>
     (case ec_fast_media_udp_port configured of None \<Rightarrow> None
      | Some configured_port \<Rightarrow>
          (let health = runtime_snapshot unix_now
             (qc_max_telemetry_age_seconds (sc_relay_quality config)) health_st in
          if \<not> rh_ready health then None
          else
     (case rh_endpoint health relay of None \<Rightarrow> None
      | Some endpoint \<Rightarrow>
     (case re_load endpoint of None \<Rightarrow> None
      | Some load \<Rightarrow>
     (case lt_fast_media load of None \<Rightarrow> None
      | Some media \<Rightarrow>
          if re_state endpoint \<noteq> Healthy \<or> re_stale endpoint \<or> lt_telemetry_schema load < 2
             \<or> ft_protocol media \<noteq> 1 \<or> \<not> ft_enabled media \<or> \<not> ft_healthy media
             \<or> ft_udp_port media = 0 \<or> ft_udp_port media \<noteq> configured_port
          then None
          else Some \<lparr>fe_protocol = ft_protocol media, fe_udp_port = ft_udp_port media\<rparr>)))))))"

section \<open>Explaining a choice\<close>

record matched_rule =
  mr_name :: utext
  mr_index :: nat
  mr_direction :: direction
  mr_relay_id :: utext

record candidate_trace =
  ct_relay_id :: utext
  ct_configured_order :: nat
  ct_priority :: "nat option"
  ct_eligible :: bool
  ct_exclusion_reason :: "exclusion option"

datatype selection_kind = GeoRule | NoEligibleRelay | SingleCandidate | RotationPrediction

record allocation_trace =
  at_config_generation :: u64
  at_health_snapshot_id :: u64
  at_matched_rule :: "matched_rule option"
  at_candidates :: "candidate_trace list"
  at_kind :: selection_kind
  at_relay_id :: "utext option"
  at_predicted_index :: "nat option"

definition candidate_of ::
  "utext list \<Rightarrow> (utext, exclusion) hmap \<Rightarrow> nat \<Rightarrow> utext \<Rightarrow> candidate_trace" where
  "candidate_of eligible reasons order relay =
     (let key = to_ascii_lowercase relay;
          is_eligible = (key \<in> set (map to_ascii_lowercase eligible))
      in \<lparr>ct_relay_id = relay, ct_configured_order = order,
           ct_priority = map_option Suc (position (\<lambda>c. text_eq_ignore_case c relay) eligible),
           ct_eligible = is_eligible,
           ct_exclusion_reason = (if is_eligible then None
             else Some (case hm_get reasons key of None \<Rightarrow> TransportOrHealthIneligible | Some r \<Rightarrow> r))\<rparr>)"

definition explain_selection ::
  "utext list \<Rightarrow> matched_rule option \<Rightarrow> nat \<Rightarrow> selection_kind \<times> utext option \<times> nat option" where
  "explain_selection eligible matched rotation =
     (case matched of
        Some rule \<Rightarrow>
          if to_ascii_lowercase (mr_relay_id rule) \<in> set (map to_ascii_lowercase eligible)
          then (GeoRule, Some (mr_relay_id rule), None) else (NoEligibleRelay, None, None)
      | None \<Rightarrow>
          if eligible = [] then (NoEligibleRelay, None, None)
          else if length eligible = 1 then (SingleCandidate, Some (eligible ! 0), Some 0)
          else (let predicted = rotation mod length eligible
                in (RotationPrediction, Some (eligible ! predicted), Some predicted)))"

definition explain_relay_selection ::
  "utext list \<Rightarrow> utext list \<Rightarrow> matched_rule option \<Rightarrow> nat \<Rightarrow> u64 \<Rightarrow> u64 \<Rightarrow> (utext, exclusion) hmap
     \<Rightarrow> allocation_trace" where
  "explain_relay_selection configured eligible matched rotation generation snapshot_id reasons =
     (let (kind, relay_id, predicted) = explain_selection eligible matched rotation
      in \<lparr>at_config_generation = generation, at_health_snapshot_id = snapshot_id,
           at_matched_rule = matched,
           at_candidates = map (\<lambda>(order, relay). candidate_of eligible reasons order relay)
             (zip [0..<length configured] configured),
           at_kind = kind, at_relay_id = relay_id, at_predicted_index = predicted\<rparr>)"

section \<open>Simulation\<close>

datatype simulation_error = ClientAInvalid | ClientBInvalid | TransportInvalid | NotReady | PlanStale u64 u64

record simulation_request =
  sq_client_a :: utext
  sq_client_b :: utext
  sq_transport :: utext
  sq_expected_config_generation :: "u64 option"

text \<open>\<open>RelayRequirement::parse\<close> of a given transport, and parsing an address, which is the
  standard library's and a parameter.\<close>

definition requirement_parse :: "utext \<Rightarrow> relay_requirement option" where
  "requirement_parse t =
     (let v = to_ascii_lowercase t
      in if v = lit ''native'' then Some NativeOnly
         else if v = lit ''wss'' \<or> v = lit ''websocket'' then Some WebSocketOnly
         else if v = lit ''mixed'' then Some Mixed else None)"

definition stale_plan :: "relay_snapshot \<Rightarrow> simulation_request \<Rightarrow> simulation_error option" where
  "stale_plan s request =
     (case sq_expected_config_generation request of None \<Rightarrow> None
      | Some expected \<Rightarrow> if expected \<noteq> ss_config_generation s
          then Some (PlanStale expected (ss_config_generation s)) else None)"

definition simulate ::
  "(utext \<Rightarrow> ip_addr option) \<Rightarrow> relay_snapshot \<Rightarrow> simulation_request \<Rightarrow> nat \<Rightarrow> simulation_error + allocation_trace" where
  "simulate parse_ip s request rotation =
     (case parse_ip (sq_client_a request) of None \<Rightarrow> Inl ClientAInvalid
      | Some client_a \<Rightarrow>
     (case parse_ip (sq_client_b request) of None \<Rightarrow> Inl ClientBInvalid
      | Some client_b \<Rightarrow>
     (case requirement_parse (sq_transport request) of None \<Rightarrow> Inl TransportInvalid
      | Some requirement \<Rightarrow>
          if \<not> is_consistent s then Inl NotReady
          else
     (case stale_plan s request of Some err \<Rightarrow> Inl err
      | None \<Rightarrow>
          (let eligible = eligible_relays s requirement;
               matched = map_option (\<lambda>sel. \<lparr>mr_name = sel_rule_name sel, mr_index = sel_rule_index sel,
                   mr_direction = sel_direction sel, mr_relay_id = sel_relay sel\<rparr>)
                 (select_relay_explained_from (ss_geo s) client_a client_b eligible)
           in Inr (explain_relay_selection (configured_relays s) eligible matched rotation
                (ss_config_generation s) (ss_health_snapshot_id s) (exclusion_reasons s requirement)))))))"

end
