(* ===== verification/Relay_Health_Properties.thy ===== *)
theory Relay_Health_Properties
  imports Relay_Health "HOL-Library.Sublist" "HOL-Library.Code_Target_Numeral"
begin

text \<open>
  What the health of a relay endpoint means: the status is the debounced history of its probes,
  telemetry fails closed and never goes back within one process, results of an older configuration
  generation have no effect, the hexadecimal tags round-trip, and the sanitiser of error messages panics
  exactly when its cut is inside a character.
\<close>

section \<open>Histories of one endpoint\<close>

type_synonym probe_result = "probe_failure + probe_success"

text \<open>The specification's view of a result: was it counted as a success?\<close>

definition accepted :: "probe_result \<Rightarrow> endpoint_state \<Rightarrow> bool" where
  "accepted result e = (case result of Inl _ \<Rightarrow> False
     | Inr s \<Rightarrow> (case pr_load s of None \<Rightarrow> True | Some l \<Rightarrow> \<not> telemetry_replayed e l))"

fun probe_run :: "u32 \<Rightarrow> u32 \<Rightarrow> (probe_result \<times> u64 \<times> u64) list \<Rightarrow> endpoint_state \<Rightarrow> endpoint_state" where
  "probe_run st ft [] e = e"
| "probe_run st ft ((r, u, n) # rs) e = probe_run st ft rs (record_endpoint r st ft u n e)"

fun verdicts :: "u32 \<Rightarrow> u32 \<Rightarrow> (probe_result \<times> u64 \<times> u64) list \<Rightarrow> endpoint_state \<Rightarrow> bool list" where
  "verdicts st ft [] e = []"
| "verdicts st ft ((r, u, n) # rs) e = accepted r e # verdicts st ft rs (record_endpoint r st ft u n e)"

lemma probe_run_append: "probe_run st ft (xs @ ys) e = probe_run st ft ys (probe_run st ft xs e)"
  by (induction st ft xs e rule: probe_run.induct) simp_all

lemma verdicts_append:
  "verdicts st ft (xs @ ys) e = verdicts st ft xs e @ verdicts st ft ys (probe_run st ft xs e)"
  by (induction st ft xs e rule: probe_run.induct) simp_all

text \<open>One recorded result changes the status machine as its verdict says.\<close>

lemma record_endpoint_status:
  "es_consecutive_successes (record_endpoint r st ft u n e) =
     (if accepted r e then sat_add (es_consecutive_successes e) 1 else 0)"
  "es_consecutive_failures (record_endpoint r st ft u n e) =
     (if accepted r e then 0 else sat_add (es_consecutive_failures e) 1)"
  "es_status (record_endpoint r st ft u n e) =
     (if accepted r e
      then if st \<le> sat_add (es_consecutive_successes e) 1 then Healthy else es_status e
      else if ft \<le> sat_add (es_consecutive_failures e) 1 then Unhealthy else es_status e)"
  by (auto simp: record_endpoint_def accepted_def apply_failure_def apply_success_def note_restart_def
      telemetry_replayed_def Let_def split: sum.splits option.splits)

section \<open>The debounced status\<close>

text \<open>How many of the last verdicts equal \<open>v\<close>, and the status a history gives.\<close>

definition trailing :: "bool \<Rightarrow> bool list \<Rightarrow> nat" where
  "trailing v vs = length (takeWhile ((=) v) (rev vs))"

lemma trailing_Nil [simp]: "trailing v [] = 0"
  by (simp add: trailing_def)

lemma trailing_snoc [simp]: "trailing v (vs @ [w]) = (if v = w then Suc (trailing v vs) else 0)"
  by (simp add: trailing_def)

definition up :: "nat \<Rightarrow> nat \<Rightarrow> bool list \<Rightarrow> bool" where
  "up st ft vs \<longleftrightarrow> (\<exists>a b. vs = a @ b \<and> st \<le> trailing True a
     \<and> list_all (\<lambda>b'. trailing False (a @ b') < ft) (prefixes b))"

lemma up_snoc:
  assumes "1 \<le> st" "1 \<le> ft"
  shows "up st ft (vs @ [v]) \<longleftrightarrow> st \<le> trailing True (vs @ [v])
     \<or> (up st ft vs \<and> trailing False (vs @ [v]) < ft)"
proof (intro iffI)
  assume "up st ft (vs @ [v])"
  then obtain a b where ab: "vs @ [v] = a @ b" "st \<le> trailing True a"
    "list_all (\<lambda>b'. trailing False (a @ b') < ft) (prefixes b)" by (auto simp: up_def)
  show "st \<le> trailing True (vs @ [v]) \<or> (up st ft vs \<and> trailing False (vs @ [v]) < ft)"
  proof (cases b rule: rev_cases)
    case Nil
    then show ?thesis using ab by simp
  next
    case (snoc b' w)
    then have eq: "vs = a @ b'" "w = v" using ab(1) by simp_all
    have "list_all (\<lambda>b'. trailing False (a @ b') < ft) (prefixes b')"
      using ab(3) by (auto simp: snoc list_all_iff)
    then have "up st ft vs" using ab(2) eq unfolding up_def by blast
    moreover have "trailing False (vs @ [v]) < ft"
      using ab(3) unfolding snoc prefixes_snoc eq by simp
    ultimately show ?thesis by blast
  qed
next
  assume *: "st \<le> trailing True (vs @ [v]) \<or> (up st ft vs \<and> trailing False (vs @ [v]) < ft)"
  then show "up st ft (vs @ [v])"
  proof
    assume t: "st \<le> trailing True (vs @ [v])"
    then have "trailing False (vs @ [v]) < ft" using assms by (auto split: if_splits)
    with t show ?thesis unfolding up_def
      by (intro exI [of _ "vs @ [v]"] exI [of _ "[]"]) (simp del: trailing_snoc)
  next
    assume "up st ft vs \<and> trailing False (vs @ [v]) < ft"
    then obtain a b where "vs = a @ b" "st \<le> trailing True a"
      "list_all (\<lambda>b'. trailing False (a @ b') < ft) (prefixes b)"
      and "trailing False (vs @ [v]) < ft" unfolding up_def by blast
    then show ?thesis unfolding up_def
      by (intro exI [of _ a] exI [of _ "b @ [v]"]) (simp del: trailing_snoc)
  qed
qed

text \<open>The counters of the endpoint are the trailing runs, cut at the width of the counter.\<close>

lemma sat_step:
  assumes "unat c = min k (2 ^ 32 - 1)"
  shows "unat (sat_add (c :: u32) 1) = min (Suc k) (2 ^ 32 - 1)"
  by (simp add: unat_sat assms)

lemma threshold_unat: "unat c = min k (2 ^ 32 - 1) \<Longrightarrow> (st :: u32) \<le> c \<longleftrightarrow> unat st \<le> k"
  using unsigned_less [of st, where ?'a = nat] by (auto simp: word_le_nat_alt)

lemma run_counters:
  "unat (es_consecutive_successes (probe_run st ft rs endpoint_state_default))
     = min (trailing True (verdicts st ft rs endpoint_state_default)) (2 ^ 32 - 1)
   \<and> unat (es_consecutive_failures (probe_run st ft rs endpoint_state_default))
     = min (trailing False (verdicts st ft rs endpoint_state_default)) (2 ^ 32 - 1)"
proof (induction rs rule: rev_induct)
  case (snoc x rs)
  obtain r u n where x: "x = (r, u, n)" by (cases x)
  show ?case
    using sat_step [OF snoc [THEN conjunct1]] sat_step [OF snoc [THEN conjunct2]]
    by (simp add: probe_run_append verdicts_append x record_endpoint_status)
qed (simp add: endpoint_state_default_def)

lemma run_status:
  assumes "1 \<le> st" "1 \<le> ft"
  shows "es_status (probe_run st ft rs endpoint_state_default) = Healthy
     \<longleftrightarrow> up (unat st) (unat ft) (verdicts st ft rs endpoint_state_default)"
proof (induction rs rule: rev_induct)
  case Nil
  then show ?case using assms
    by (auto simp: up_def endpoint_state_default_def word_le_nat_alt)
next
  case (snoc x rs)
  obtain r u n where x: "x = (r, u, n)" by (cases x)
  let ?e = "probe_run st ft rs endpoint_state_default"
  let ?vs = "verdicts st ft rs endpoint_state_default"
  have b: "1 \<le> unat st" "1 \<le> unat ft" using assms by (simp_all add: word_le_nat_alt)
  note s = threshold_unat [OF sat_step [OF run_counters [of st ft rs, THEN conjunct1]], of st]
    and f = threshold_unat [OF sat_step [OF run_counters [of st ft rs, THEN conjunct2]], of ft]
  show ?case
    using snoc s f b
    by (auto simp: probe_run_append verdicts_append x record_endpoint_status up_snoc [OF b])
qed

section \<open>Telemetry\<close>

definition remembers :: "relay_load_telemetry \<Rightarrow> endpoint_state \<Rightarrow> bool" where
  "remembers l e \<longleftrightarrow> es_telemetry_instance_id e = Some (lt_process_instance_id l)
     \<and> es_telemetry_sequence e = Some (lt_sequence l)
     \<and> es_telemetry_uptime_seconds e = Some (lt_uptime_seconds l)"

text \<open>A later report of the same process advances the sequence and not the uptime backwards.\<close>

definition advances :: "relay_load_telemetry \<Rightarrow> relay_load_telemetry \<Rightarrow> bool" where
  "advances l l' = (lt_process_instance_id l = lt_process_instance_id l'
     \<longrightarrow> lt_sequence l < lt_sequence l' \<and> lt_uptime_seconds l \<le> lt_uptime_seconds l')"

fun accepted_loads ::
  "u32 \<Rightarrow> u32 \<Rightarrow> (probe_result \<times> u64 \<times> u64) list \<Rightarrow> endpoint_state \<Rightarrow> relay_load_telemetry list" where
  "accepted_loads st ft [] e = []"
| "accepted_loads st ft ((r, u, n) # rs) e =
     (let e' = record_endpoint r st ft u n e
      in (case es_load e' of None \<Rightarrow> [] | Some l \<Rightarrow> [l]) @ accepted_loads st ft rs e')"

lemma remembers_frame [simp]:
  "remembers l (e\<lparr>es_last_probe_unix_millis := t\<rparr>) = remembers l e"
  "remembers l (note_restart u l' e) = remembers l e"
  "remembers l (apply_failure err ft n e) = remembers l e"
  by (simp_all add: remembers_def note_restart_def apply_failure_def Let_def)

lemma apply_failure_no_load [simp]: "es_load (apply_failure err ft n e) = None"
  by (simp add: apply_failure_def Let_def)

lemma apply_success_load:
  "es_load (apply_success s st n e) = Some l \<Longrightarrow> pr_load s = Some l
     \<and> es_telemetry_observed_unix_millis (apply_success s st n e) = Some (lt_observed_at_unix_ms l)
     \<and> remembers l (apply_success s st n e)"
  "es_load (apply_success s st n e) = None \<Longrightarrow> remembers l (apply_success s st n e) = remembers l e"
  by (auto simp: apply_success_def remembers_def Let_def split: option.splits if_splits)

lemma telemetry_replayed_probe [simp]:
  "telemetry_replayed (e\<lparr>es_last_probe_unix_millis := t\<rparr>) l = telemetry_replayed e l"
  by (simp add: telemetry_replayed_def)

lemma record_load_cases:
  obtains (load) s l where "r = Inr s" "pr_load s = Some l" "\<not> telemetry_replayed e l"
      "es_load (record_endpoint r st ft u n e) = Some l"
      "es_telemetry_observed_unix_millis (record_endpoint r st ft u n e) = Some (lt_observed_at_unix_ms l)"
      "remembers l (record_endpoint r st ft u n e)"
  | (no_load) "es_load (record_endpoint r st ft u n e) = None"
      "\<And>l. remembers l (record_endpoint r st ft u n e) = remembers l e"
proof (cases "es_load (record_endpoint r st ft u n e)")
  case None
  then have "remembers l (record_endpoint r st ft u n e) = remembers l e" for l
    by (auto simp: record_endpoint_def Let_def apply_success_load(2) split: sum.splits option.splits if_splits)
  with None that(2) show ?thesis by blast
next
  case (Some l)
  then obtain s where s: "r = Inr s" by (auto simp: record_endpoint_def Let_def split: sum.splits)
  have "pr_load s = Some l" and r: "\<not> telemetry_replayed e l"
    and e': "record_endpoint r st ft u n e
      = apply_success s st n (note_restart u l (e\<lparr>es_last_probe_unix_millis := Some u\<rparr>))"
    using Some apply_success_load(1) [of s st n _ l]
    by (auto simp: record_endpoint_def s Let_def split: option.splits if_splits)
  with Some apply_success_load(1) [of s st n _ l] that(1) [OF s] show ?thesis by metis
qed

lemma not_replayed_advances: "remembers l e \<Longrightarrow> \<not> telemetry_replayed e l' \<Longrightarrow> advances l l'"
  by (auto simp: remembers_def telemetry_replayed_def advances_def)

lemma remembered_then_advances:
  "remembers l e \<Longrightarrow> successively advances (l # accepted_loads st ft rs e)"
proof (induction rs arbitrary: l e)
  case (Cons x rs)
  obtain r u n where x: "x = (r, u, n)" by (cases x)
  show ?case
  proof (cases rule: record_load_cases [where r = r and e = e and st = st and ft = ft and u = u and n = n])
    case (load s l')
    then show ?thesis using Cons.IH [OF load(6)] not_replayed_advances [OF Cons.prems load(3)]
      by (simp add: x)
  next
    case no_load
    then show ?thesis using Cons.IH [of l "record_endpoint r st ft u n e"] Cons.prems by (simp add: x)
  qed
qed simp

lemma accepted_loads_advance: "successively advances (accepted_loads st ft rs e)"
proof (induction rs arbitrary: e)
  case (Cons x rs)
  obtain r u n where x: "x = (r, u, n)" by (cases x)
  show ?case
  proof (cases rule: record_load_cases [where r = r and e = e and st = st and ft = ft and u = u and n = n])
    case (load s l')
    then show ?thesis using remembered_then_advances [OF load(6)] by (simp add: x)
  next
    case no_load
    then show ?thesis using Cons.IH by (simp add: x)
  qed
qed simp

section \<open>Generations\<close>

text \<open>
  The health task and reconfiguration interleave: a cycle works with the generation and the
  configuration it read when it started, and its results are recorded one by one.  The system keeps
  the captured configurations and the log of every result handed to \<open>record\<close>.
\<close>

record health_system =
  sy_state :: health_state
  sy_cycles :: "(u64 \<times> relay_health_config) list"
  sy_log :: "(u64 \<times> utext \<times> probe_result \<times> u64 \<times> u64) list"

inductive health_step :: "health_system \<Rightarrow> health_system \<Rightarrow> bool" where
  reconfigure: "hs_generations (sy_state y) < - 1 \<Longrightarrow>
     health_step y (y\<lparr>sy_state := health_reconfigure enabled cfg (sy_state y)\<rparr>)"
| start: "hs_enabled (sy_state y) \<Longrightarrow>
     health_step y (y\<lparr>sy_cycles := (hs_generation (sy_state y), hs_config (sy_state y)) # sy_cycles y\<rparr>)"
| result: "(g, c) \<in> set (sy_cycles y) \<Longrightarrow>
     health_step y (y\<lparr>sy_state := health_record g relay r (hc_success_threshold c) (hc_failure_threshold c) u n
         (sy_state y),
       sy_log := sy_log y @ [(g, to_ascii_lowercase relay, r, u, n)]\<rparr>)"
| complete: "(g, c) \<in> set (sy_cycles y) \<Longrightarrow>
     health_step y (y\<lparr>sy_state := cycle_complete g (sy_state y)\<rparr>)"

definition health_initial :: health_system where
  "health_initial = \<lparr>sy_state = \<lparr>hs_enabled = False, hs_generation = 0, hs_completed_generation = 0,
     hs_snapshot_id = 0, hs_config = \<lparr>hc_interval_seconds = 0, hc_timeout_ms = 0,
       hc_success_threshold = 0, hc_failure_threshold = 0, hc_endpoints = []\<rparr>,
     hs_endpoints = [], hs_generations = 0, hs_snapshots = 0\<rparr>, sy_cycles = [], sy_log = []\<rparr>"

inductive health_reach :: "health_system \<Rightarrow> bool" where
  init: "health_reach health_initial"
| step: "health_reach y \<Longrightarrow> health_step y y' \<Longrightarrow> health_reach y'"

text \<open>The results of one generation for one endpoint, in the order they were recorded.\<close>

definition own_results ::
  "u64 \<Rightarrow> utext \<Rightarrow> (u64 \<times> utext \<times> probe_result \<times> u64 \<times> u64) list \<Rightarrow> (probe_result \<times> u64 \<times> u64) list" where
  "own_results g k lg = map (snd \<circ> snd) (filter (\<lambda>(g', k', _). g' = g \<and> k' = k) lg)"

lemma own_results_append: "own_results g k (xs @ ys) = own_results g k xs @ own_results g k ys"
  by (simp add: own_results_def)

definition health_inv :: "health_system \<Rightarrow> bool" where
  "health_inv y \<longleftrightarrow> hs_generation (sy_state y) = hs_generations (sy_state y)
     \<and> (\<forall>g c. (g, c) \<in> set (sy_cycles y) \<longrightarrow> g \<le> hs_generation (sy_state y)
          \<and> (g = hs_generation (sy_state y) \<longrightarrow> c = hs_config (sy_state y)))
     \<and> (\<forall>x \<in> set (sy_log y). fst x \<le> hs_generation (sy_state y))
     \<and> (\<forall>k e. hm_get (hs_endpoints (sy_state y)) k = Some e \<longrightarrow>
          e = probe_run (hc_success_threshold (hs_config (sy_state y)))
                (hc_failure_threshold (hs_config (sy_state y)))
                (own_results (hs_generation (sy_state y)) k (sy_log y)) endpoint_state_default)"

lemma health_inv_initial: "health_inv health_initial"
  by (simp add: health_inv_def health_initial_def)

lemma fresh_endpoints:
  "hm_get (foldl (\<lambda>m ec. hm_insert (f ec) e0 m) m es) k = Some e \<Longrightarrow> hm_get m k = Some e \<or> e = e0"
proof (induction es arbitrary: m)
  case (Cons x es)
  have "hm_get (hm_insert (f x) e0 m) k = Some e \<or> e = e0"
    using Cons.IH [of "hm_insert (f x) e0 m"] Cons.prems by (simp del: hm.get_put)
  then show ?case by (auto split: if_splits)
qed simp

lemma health_record_frame [simp]:
  "hs_generation (health_record g relay r st ft u n s) = hs_generation s"
  "hs_generations (health_record g relay r st ft u n s) = hs_generations s"
  "hs_config (health_record g relay r st ft u n s) = hs_config s"
  "hs_enabled (health_record g relay r st ft u n s) = hs_enabled s"
  by (simp_all add: health_record_def next_snapshot_def split: option.split)

lemma health_record_get:
  "hm_get (hs_endpoints (health_record g relay r st ft u n s)) k =
     (if g = hs_generation s \<and> k = to_ascii_lowercase relay
      then map_option (record_endpoint r st ft u n) (hm_get (hs_endpoints s) k)
      else hm_get (hs_endpoints s) k)"
  by (auto simp: health_record_def next_snapshot_def split: option.split)

lemma cycle_complete_frame [simp]:
  "hs_generation (cycle_complete g s) = hs_generation s"
  "hs_generations (cycle_complete g s) = hs_generations s"
  "hs_config (cycle_complete g s) = hs_config s"
  "hs_endpoints (cycle_complete g s) = hs_endpoints s"
  by (simp_all add: cycle_complete_def next_snapshot_def)

lemma own_results_future:
  "(\<forall>x \<in> set lg. fst x \<le> g) \<Longrightarrow> g < g' \<Longrightarrow> own_results g' k lg = []"
  by (force simp: own_results_def filter_empty_conv)

lemma health_inv_reconfigure:
  assumes inv: "health_inv y" and room: "hs_generations (sy_state y) < - 1"
  shows "health_inv (y\<lparr>sy_state := health_reconfigure enabled cfg (sy_state y)\<rparr>)"
proof -
  let ?g = "hs_generations (sy_state y)"
  have less: "?g < ?g + 1" using room by (simp add: word_less_nat_alt unat_word_ariths unat_max_word)
  have own: "own_results (?g + 1) k (sy_log y) = []" for k
    by (rule own_results_future [OF _ less]) (use inv in \<open>auto simp: health_inv_def\<close>)
  have bound: "g \<le> ?g \<Longrightarrow> g \<le> ?g + 1 \<and> g \<noteq> ?g + 1" for g
    using less by (auto intro: order.trans less_imp_le)
  have "(?g + 1, c) \<notin> set (sy_cycles y)" for c
    using inv bound [of "?g + 1"] by (auto simp: health_inv_def)
  then show ?thesis using inv bound own
    by (auto simp: health_inv_def health_reconfigure_def next_snapshot_def dest: fresh_endpoints)
qed

lemma health_inv_result:
  assumes inv: "health_inv y" and c: "(g, c) \<in> set (sy_cycles y)"
  shows "health_inv (y\<lparr>sy_state := health_record g relay r (hc_success_threshold c)
      (hc_failure_threshold c) u n (sy_state y),
    sy_log := sy_log y @ [(g, to_ascii_lowercase relay, r, u, n)]\<rparr>)"
proof -
  have own: "g = hs_generation (sy_state y) \<Longrightarrow> c = hs_config (sy_state y)"
    and le: "g \<le> hs_generation (sy_state y)" using inv c by (auto simp: health_inv_def)
  show ?thesis using inv own le unfolding health_inv_def
    by (auto simp: health_record_get own_results_append probe_run_append own_results_def)
qed

lemma health_inv_step: "health_step y y' \<Longrightarrow> health_inv y \<Longrightarrow> health_inv y'"
proof (induction rule: health_step.induct)
  case (start y)
  then show ?case by (auto simp: health_inv_def)
next
  case (complete g c y)
  then show ?case by (auto simp: health_inv_def)
qed (blast intro: health_inv_reconfigure health_inv_result)+

lemma health_reach_inv: "health_reach y \<Longrightarrow> health_inv y"
  by (induction rule: health_reach.induct) (auto intro: health_inv_initial health_inv_step)

section \<open>Hexadecimal tags\<close>

lemma hex_nibble_digit: "n < 16 \<Longrightarrow> hex_nibble (of_nat (hex_digit n)) = Some n"
proof -
  assume "n < 16"
  then have "unat n < 16" by (simp add: word_less_nat_alt)
  then have "unat n \<in> {0, 1, 2, 3, 4, 5, 6, 7, 8, 9, 10, 11, 12, 13, 14, 15}"
    by (simp, presburger)
  then have "n \<in> {0, 1, 2, 3, 4, 5, 6, 7, 8, 9, 10, 11, 12, 13, 14, 15}"
    by (auto simp: word_unat_eq_iff)
  then show ?thesis by (auto simp: hex_nibble_def hex_digit_def)
qed

lemma hex_digit_ascii: "n < 16 \<Longrightarrow> hex_digit n < 128"
  by (auto simp: hex_digit_def word_less_nat_alt)

lemma nibbles: "drop_bit 4 (b :: u8) < 16" "and b 15 < 16"
  "or (push_bit 4 (drop_bit 4 b)) (and b 15) = b"
proof -
  have m: "and b 15 = take_bit 4 b" by (simp add: take_bit_eq_mask mask_numeral)
  show "drop_bit 4 b < 16"
    using unsigned_less [of b, where ?'a = nat] by (simp add: word_less_nat_alt unat_div drop_bit_eq_div)
  show "and b 15 < 16" unfolding m by (simp add: word_less_nat_alt take_bit_eq_mod unat_mod)
  show "or (push_bit 4 (drop_bit 4 b)) (and b 15) = b"
    unfolding m by (rule bit_word_eqI) (auto simp: bit_or_iff bit_push_bit_iff bit_drop_bit_eq bit_take_bit_iff)
qed

lemma as_bytes_ascii: "list_all (\<lambda>c. c < 128) s \<Longrightarrow> as_bytes s = map of_nat s"
  by (induction s) (simp_all add: as_bytes_def utf8_char_def)

lemma hex_encode_ascii: "list_all (\<lambda>c. c < 128) (hex_encode bs)"
  by (induction bs) (simp_all add: hex_encode_def hex_digit_ascii nibbles)

lemma hex_pairs_encode: "hex_pairs (map of_nat (hex_encode bs)) = Some bs"
  by (induction bs) (simp_all add: hex_encode_def hex_nibble_digit nibbles)

lemma length_hex_encode: "utf8_len (hex_encode bs) = 2 * length bs"
proof -
  have "length (hex_encode bs) = 2 * length bs" by (induction bs) (simp_all add: hex_encode_def)
  then show ?thesis
    using as_bytes_ascii [OF hex_encode_ascii, of bs] length_as_bytes [of "hex_encode bs"] by simp
qed

section \<open>Properties\<close>

text \<open>
  A run for the examples: two relays are configured, the first is probed twice with success and
  once with a failure, while a result of an older generation arrives late.
\<close>

definition ex_config :: relay_health_config where
  "ex_config = \<lparr>hc_interval_seconds = 10, hc_timeout_ms = 1000, hc_success_threshold = 2,
     hc_failure_threshold = 2, hc_endpoints = [\<lparr>ec_relay = lit ''R1'', ec_url = lit ''ws://r1'',
       ec_telemetry_secret_file = None, ec_fast_media_udp_port = None\<rparr>]\<rparr>"

definition ex_good :: probe_result where
  "ex_good = Inr \<lparr>pr_latency_ms = 5, pr_version = None, pr_relay_probe_protocol = None,
     pr_relay_load_protocol = None, pr_load = None\<rparr>"

definition ex_bad :: probe_result where
  "ex_bad = Inl \<lparr>pf_code = OtherFailure (lit ''probe_timeout''), pf_message = lit ''probe timeout''\<rparr>"

definition ex_load :: "u64 \<Rightarrow> relay_load_telemetry" where
  "ex_load n = \<lparr>lt_telemetry_schema = 1, lt_process_instance_id = lit ''a-1'', lt_sequence = n,
     lt_observed_at_unix_ms = 1000 * n, lt_uptime_seconds = n, lt_load_basis_points = 100,
     lt_active_sessions = 1, lt_pending_pairs = 0, lt_capacity_sessions = 10, lt_bandwidth_bps = 0,
     lt_bandwidth_ema_alpha_basis_points = 2000, lt_capacity_bandwidth_bps = 1000, lt_draining = False,
     lt_admission_open = True, lt_admission_rejections = 0, lt_probe_malformed = 0,
     lt_probe_unsupported = 0, lt_probe_rate_limited = 0, lt_probe_successful = 0,
     lt_telemetry_auth_failures = 0, lt_fast_media = None\<rparr>"

definition ex_loaded :: "u64 \<Rightarrow> probe_result" where
  "ex_loaded n = Inr \<lparr>pr_latency_ms = 5, pr_version = None, pr_relay_probe_protocol = Some 1,
     pr_relay_load_protocol = Some 1, pr_load = Some (ex_load n)\<rparr>"

text \<open>C16. An endpoint is reported healthy exactly when its history of probes has a run of
  \<open>success_threshold\<close> successes and, since then, no run of \<open>failure_threshold\<close> failures: single
  failures and single successes never flip it, and the saturating counters lose nothing.\<close>

theorem healthy_iff_debounced:
  assumes "1 \<le> st" "1 \<le> ft"
  shows "es_status (probe_run st ft rs endpoint_state_default) = Healthy \<longleftrightarrow>
    (\<exists>a b. verdicts st ft rs endpoint_state_default = a @ b \<and> unat st \<le> trailing True a
       \<and> list_all (\<lambda>b'. trailing False (a @ b') < unat ft) (prefixes b))"
  using run_status [OF assms] by (simp only: up_def)

theorem healthy_iff_debounced_witness:
  "es_status (probe_run 2 2 [(ex_good, 1, 1), (ex_good, 2, 2), (ex_bad, 3, 3)] endpoint_state_default) = Healthy
   \<and> (\<exists>a b. verdicts 2 2 [(ex_good, 1, 1), (ex_good, 2, 2), (ex_bad, 3, 3)] endpoint_state_default = a @ b
       \<and> 2 \<le> trailing True a \<and> list_all (\<lambda>b'. trailing False (a @ b') < 2) (prefixes b))"
proof -
  have "es_status (probe_run 2 2 [(ex_good, 1, 1), (ex_good, 2, 2), (ex_bad, 3, 3)] endpoint_state_default) = Healthy"
    by code_simp
  with healthy_iff_debounced [of 2 2 "[(ex_good, 1, 1), (ex_good, 2, 2), (ex_bad, 3, 3)]"]
  show ?thesis by simp
qed

text \<open>C17. Whatever the interleaving of reconfigurations with probe cycles that started before them,
  the state of an endpoint is the replay of exactly the results of the current generation for it:
  late results of an older configuration have no effect on it.\<close>

theorem endpoint_replays_own_generation:
  assumes "health_reach y" "hm_get (hs_endpoints (sy_state y)) k = Some e"
  shows "e = probe_run (hc_success_threshold (hs_config (sy_state y)))
    (hc_failure_threshold (hs_config (sy_state y)))
    (own_results (hs_generation (sy_state y)) k (sy_log y)) endpoint_state_default"
  using health_reach_inv [OF assms(1)] assms(2) unfolding health_inv_def by blast

definition ex_sys1 :: health_system where
  "ex_sys1 = health_initial\<lparr>sy_state := health_reconfigure True ex_config (sy_state health_initial)\<rparr>"

definition ex_sys2 :: health_system where
  "ex_sys2 = ex_sys1\<lparr>sy_cycles := (hs_generation (sy_state ex_sys1), hs_config (sy_state ex_sys1)) # sy_cycles ex_sys1\<rparr>"

definition ex_sys3 :: health_system where
  "ex_sys3 = ex_sys2\<lparr>sy_state := health_record 1 (lit ''R1'') ex_bad 2 2 7 7 (sy_state ex_sys2),
     sy_log := sy_log ex_sys2 @ [(1, to_ascii_lowercase (lit ''R1''), ex_bad, 7, 7)]\<rparr>"

lemma ex_sys3_reach: "health_reach ex_sys3"
proof -
  have "health_step health_initial ex_sys1" unfolding ex_sys1_def
    by (rule health_step.reconfigure) (simp add: health_initial_def word_less_nat_alt unat_max_word)
  then have 1: "health_reach ex_sys1" using health_reach.init health_reach.step by blast
  have "health_step ex_sys1 ex_sys2" unfolding ex_sys2_def
    by (rule health_step.start) (simp add: ex_sys1_def health_reconfigure_def next_snapshot_def)
  then have 2: "health_reach ex_sys2" using 1 health_reach.step by blast
  have "(1, ex_config) \<in> set (sy_cycles ex_sys2)"
    by (simp add: ex_sys2_def ex_sys1_def health_initial_def health_reconfigure_def next_snapshot_def)
  from health_step.result [OF this, of "lit ''R1''" ex_bad 7 7] have "health_step ex_sys2 ex_sys3"
    by (simp add: ex_sys3_def ex_config_def)
  then show ?thesis using 2 health_reach.step by blast
qed

theorem endpoint_replays_own_generation_witness:
  "health_reach ex_sys3 \<and> hm_get (hs_endpoints (sy_state ex_sys3)) (lit ''r1'') = Some
     (probe_run 2 2 [(ex_bad, 7, 7)] endpoint_state_default)"
proof -
  have g: "hm_get (hs_endpoints (sy_state ex_sys3)) (lit ''r1'') =
      Some (the (hm_get (hs_endpoints (sy_state ex_sys3)) (lit ''r1'')))" by code_simp
  have c: "hc_success_threshold (hs_config (sy_state ex_sys3)) = 2"
    "hc_failure_threshold (hs_config (sy_state ex_sys3)) = 2" by code_simp+
  have o: "own_results (hs_generation (sy_state ex_sys3)) (lit ''r1'') (sy_log ex_sys3) = [(ex_bad, 7, 7)]"
    by code_simp
  show ?thesis
    using endpoint_replays_own_generation [OF ex_sys3_reach g] g ex_sys3_reach by (simp only: c o)
qed

text \<open>Of the telemetry reports an endpoint accepts, each that names the same process as the one
  before has a larger sequence number and no smaller uptime, across failed probes too: a replayed
  report never becomes the current load.\<close>

theorem telemetry_advances: "successively advances (accepted_loads st ft rs e)"
  by (rule accepted_loads_advance)

text \<open>Telemetry fails closed: an endpoint is fresh only if its very last probe succeeded and
  carried the load that is published, and that load is no older than the configured maximum.\<close>

theorem fresh_telemetry_is_last_probe:
  assumes "\<not> endpoint_stale unix_now max_age (probe_run st ft (rs @ [(r, u, n)]) e)"
  shows "\<exists>s l. r = Inr s \<and> pr_load s = Some l
    \<and> es_load (probe_run st ft (rs @ [(r, u, n)]) e) = Some l
    \<and> sat_sub unix_now (lt_observed_at_unix_ms l) div 1000 \<le> max_age"
proof -
  let ?e = "probe_run st ft rs e"
  have run: "probe_run st ft (rs @ [(r, u, n)]) e = record_endpoint r st ft u n ?e"
    by (simp add: probe_run_append)
  show ?thesis
  proof (cases rule: record_load_cases [where r = r and e = ?e and st = st and ft = ft and u = u and n = n])
    case (load s l)
    then show ?thesis using assms unfolding run
      by (auto simp: endpoint_stale_def telemetry_age_def)
  next
    case no_load
    then show ?thesis using assms unfolding run by (simp add: endpoint_stale_def)
  qed
qed

theorem fresh_telemetry_is_last_probe_witness:
  "\<not> endpoint_stale 9000 30 (probe_run 1 1 ([(ex_loaded 2, 8000, 1)] @ [(ex_loaded 3, 8000, 1)]) endpoint_state_default)
   \<and> (\<exists>s l. ex_loaded 3 = Inr s \<and> pr_load s = Some l
      \<and> es_load (probe_run 1 1 ([(ex_loaded 2, 8000, 1)] @ [(ex_loaded 3, 8000, 1)]) endpoint_state_default) = Some l
      \<and> sat_sub 9000 (lt_observed_at_unix_ms l) div 1000 \<le> 30)"
proof -
  have "\<not> endpoint_stale 9000 30
      (probe_run 1 1 ([(ex_loaded 2, 8000, 1)] @ [(ex_loaded 3, 8000, 1)]) endpoint_state_default)"
    by code_simp
  from fresh_telemetry_is_last_probe [OF this] this show ?thesis by blast
qed

text \<open>A load that a probe reports has been signed: its payload verified under the endpoint's
  key together with the nonce of this request, and its fields are within the schema's bounds.\<close>

theorem probed_load_is_authenticated:
  assumes "probe_response codec now latency response context = Inr s" "pr_load s = Some l"
  shows "\<exists>ctx payload tag. context = Some ctx \<and> response (lit ''x-starry-telemetry'') = Some payload
    \<and> tc_verify codec tag (lit ''starry-telemetry-response-v1'' @ [10] @ tx_nonce ctx @ [10] @ payload) (tx_key ctx)
    \<and> lt_load_basis_points l \<le> 10000 \<and> lt_active_sessions l \<le> lt_capacity_sessions l
    \<and> 0 < lt_sequence l \<and> lt_observed_at_unix_ms l \<le> sat_add now 30000
    \<and> (lt_admission_open l \<longrightarrow> lt_active_sessions l < lt_capacity_sessions l)"
  using assms
  by (auto simp: probe_response_def relay_telemetry_def validate_telemetry_def bounded_header_def Let_def
      split: option.splits sum.splits if_splits)

definition ex_codec :: telemetry_codec where
  "ex_codec = \<lparr>tc_base64 = (\<lambda>t. Some (map of_nat t)),
     tc_json = (\<lambda>_. Some \<lparr>te_load = ex_load 4, te_version = lit ''1.0'', te_relay_probe_protocol = 1,
       te_relay_load_protocol = 1\<rparr>),
     tc_verify = (\<lambda>tag m key. tag = key)\<rparr>"

definition ex_headers :: headers where
  "ex_headers name = (if name = lit ''x-starry-telemetry'' then Some (lit ''abc'')
     else if name = lit ''x-starry-telemetry-auth'' then Some (hex_encode (replicate 32 7))
     else Some (lit ''1''))"

definition ex_context :: telemetry_context where
  "ex_context = \<lparr>tx_nonce = lit ''n1'', tx_key = replicate 32 7\<rparr>"

definition ex_success :: probe_success where
  "ex_success = \<lparr>pr_latency_ms = 5, pr_version = Some (lit ''1.0''), pr_relay_probe_protocol = Some 1,
     pr_relay_load_protocol = Some 1, pr_load = Some (ex_load 4)\<rparr>"

theorem probed_load_is_authenticated_witness:
  "\<exists>ctx payload tag. Some ex_context = Some ctx \<and> ex_headers (lit ''x-starry-telemetry'') = Some payload
    \<and> tc_verify ex_codec tag (lit ''starry-telemetry-response-v1'' @ [10] @ tx_nonce ctx @ [10] @ payload) (tx_key ctx)
    \<and> lt_load_basis_points (ex_load 4) \<le> 10000
    \<and> lt_active_sessions (ex_load 4) \<le> lt_capacity_sessions (ex_load 4)
    \<and> 0 < lt_sequence (ex_load 4) \<and> lt_observed_at_unix_ms (ex_load 4) \<le> sat_add 5000 30000
    \<and> (lt_admission_open (ex_load 4) \<longrightarrow> lt_active_sessions (ex_load 4) < lt_capacity_sessions (ex_load 4))"
proof -
  have 1: "probe_response ex_codec 5000 5 ex_headers (Some ex_context) = Inr ex_success" by code_simp
  have 2: "pr_load ex_success = Some (ex_load 4)" by (simp add: ex_success_def)
  show ?thesis by (rule probed_load_is_authenticated [OF 1 2])
qed

text \<open>The hexadecimal form of an authentication tag decodes to the tag, whatever its 32 bytes.\<close>

theorem hex_tag_roundtrip: "length tag = 32 \<Longrightarrow> hex_decode_tag (hex_encode tag) = Some tag"
  by (simp add: hex_decode_tag_def length_hex_encode as_bytes_ascii hex_encode_ascii hex_pairs_encode)

theorem hex_tag_roundtrip_witness:
  "hex_decode_tag (hex_encode (map of_nat [100..<132])) = Some (map of_nat [100..<132])"
  by (rule hex_tag_roundtrip) simp

text \<open>A text has a character across byte \<open>n\<close> when it begins before that byte and ends after it.\<close>

definition straddles :: "nat \<Rightarrow> utext \<Rightarrow> bool" where
  "straddles n e \<longleftrightarrow> (\<exists>a c b. e = a @ c # b \<and> utf8_len a < n \<and> n < utf8_len a + len_utf8 c)"

definition single_line :: "utext \<Rightarrow> utext" where
  "single_line e = map (\<lambda>c. if c \<in> {10, 13} then 32 else c) e"

lemma straddles_Nil [simp]: "\<not> straddles n []"
  by (simp add: straddles_def)

lemma straddles_Cons:
  "straddles n (c # e) \<longleftrightarrow> (0 < n \<and> n < len_utf8 c) \<or> (len_utf8 c \<le> n \<and> straddles (n - len_utf8 c) e)"
proof
  assume "straddles n (c # e)"
  then obtain a d b where d: "c # e = a @ d # b" "utf8_len a < n" "n < utf8_len a + len_utf8 d"
    by (auto simp: straddles_def)
  show "(0 < n \<and> n < len_utf8 c) \<or> (len_utf8 c \<le> n \<and> straddles (n - len_utf8 c) e)"
  proof (cases a)
    case Nil
    then show ?thesis using d by (simp add: utf8_len_def)
  next
    case (Cons x a')
    then have "e = a' @ d # b" "utf8_len a' < n - len_utf8 c" "n - len_utf8 c < utf8_len a' + len_utf8 d" "len_utf8 c \<le> n"
      using d by (simp_all add: utf8_len_def)
    then show ?thesis unfolding straddles_def by blast
  qed
next
  assume "(0 < n \<and> n < len_utf8 c) \<or> (len_utf8 c \<le> n \<and> straddles (n - len_utf8 c) e)"
  then show "straddles n (c # e)"
  proof
    assume "0 < n \<and> n < len_utf8 c"
    then have "c # e = [] @ c # e" "utf8_len [] < n" "n < utf8_len [] + len_utf8 c" by (simp_all add: utf8_len_def)
    then show ?thesis unfolding straddles_def by blast
  next
    assume s: "len_utf8 c \<le> n \<and> straddles (n - len_utf8 c) e"
    then obtain a d b where "e = a @ d # b" "utf8_len a < n - len_utf8 c" "n - len_utf8 c < utf8_len a + len_utf8 d"
      by (auto simp: straddles_def)
    then have "c # e = (c # a) @ d # b" "utf8_len (c # a) < n" "n < utf8_len (c # a) + len_utf8 d"
      using s by (simp_all add: utf8_len_def)
    then show ?thesis unfolding straddles_def by blast
  qed
qed

lemma straddles_0 [simp]: "\<not> straddles 0 e"
  by (simp add: straddles_def)

lemma truncate_text_None: "truncate_text n e = None \<longleftrightarrow> straddles n e"
  by (induction n e rule: truncate_text.induct) (auto simp: straddles_Cons)

lemma truncate_text_Some: "truncate_text n e = Some v \<Longrightarrow> prefix v e \<and> utf8_len v = min n (utf8_len e)"
  by (induction n e arbitrary: v rule: truncate_text.induct) (auto simp: utf8_len_def split: if_splits)

lemma straddles_len: "straddles n e \<Longrightarrow> n < utf8_len e"
  by (auto simp: straddles_def utf8_len_def)

lemma len_utf8_single [simp]: "len_utf8 (if c \<in> {10, 13} then 32 else c) = len_utf8 c"
  by (auto simp: len_utf8_def)

lemma utf8_len_single_line [simp]: "utf8_len (single_line e) = utf8_len e"
  by (induction e) (simp_all add: utf8_len_def single_line_def del: insert_iff)

lemma straddles_single_line [simp]: "straddles n (single_line e) = straddles n e"
  by (induction e arbitrary: n) (simp_all add: single_line_def straddles_Cons del: insert_iff)

lemma sanitize_error_single:
  "sanitize_error e = (if utf8_len e \<le> 240 then Some (single_line e) else truncate_text 240 (single_line e))"
proof -
  have "map (\<lambda>c. if c = 13 \<or> c = 10 then 32 else c) e = single_line e" by (auto simp: single_line_def)
  then show ?thesis by (simp add: sanitize_error_def)
qed

text \<open>C18. Sanitising an error message returns unless byte 240 is inside a character of the message, and
  then \<open>String::truncate\<close> panics, which is the case for every such message.  When it returns, the result is
  the beginning of the message with its line breaks as blanks: the whole of it, or exactly 240 bytes.\<close>

theorem sanitize_error_exact:
  "(sanitize_error e = None \<longleftrightarrow> straddles 240 e)
   \<and> (case sanitize_error e of None \<Rightarrow> 240 < utf8_len e
      | Some v \<Rightarrow> prefix v (single_line e) \<and> utf8_len v = min 240 (utf8_len e))"
proof (cases "utf8_len e \<le> 240")
  case True
  then show ?thesis using straddles_len [of 240 e] by (auto simp: sanitize_error_single)
next
  case False
  have "sanitize_error e = None \<longleftrightarrow> straddles 240 e" using False by (simp add: sanitize_error_single truncate_text_None)
  moreover have "case sanitize_error e of None \<Rightarrow> 240 < utf8_len e
      | Some v \<Rightarrow> prefix v (single_line e) \<and> utf8_len v = min 240 (utf8_len e)"
    using False truncate_text_Some [of 240 "single_line e"] by (simp add: sanitize_error_single split: option.split)
  ultimately show ?thesis by blast
qed

end
