(* ===== verification/Relay_Observer_Properties.thy ===== *)
theory Relay_Observer_Properties
  imports Relay_Observer Relay_Health_Properties
begin

text \<open>
  The snapshot agrees with the health component it is built from, the candidates offered for
  quality probing are eligible and led by the fallback, a simulated choice is eligible, and a
  FastMedia endpoint is handed out only on live, signed telemetry.
\<close>

section \<open>Health seen through a snapshot\<close>

definition keys_in_sync :: "health_state \<Rightarrow> bool" where
  "keys_in_sync s \<longleftrightarrow> (\<forall>k. hm_get (hs_endpoints s) k \<noteq> None \<longleftrightarrow>
     k \<in> (\<lambda>ec. to_ascii_lowercase (ec_relay ec)) ` set (hc_endpoints (hs_config s)))"

lemma keys_in_sync_step: "health_step y y' \<Longrightarrow> keys_in_sync (sy_state y) \<Longrightarrow> keys_in_sync (sy_state y')"
proof (induction rule: health_step.induct)
  case (reconfigure y enabled cfg)
  show ?case
    unfolding keys_in_sync_def health_reconfigure_def next_snapshot_def
    by (simp add: hm_collect_keys del: not_None_eq)
next
  case (result g c y relay r u n)
  then show ?case by (simp add: keys_in_sync_def health_record_get)
qed (simp_all add: keys_in_sync_def)

lemma keys_in_sync_reach: "health_reach y \<Longrightarrow> keys_in_sync (sy_state y)"
proof (induction rule: health_reach.induct)
  case init
  show ?case by (simp add: keys_in_sync_def health_initial_def)
next
  case (step y y')
  then show ?case by (blast intro: keys_in_sync_step)
qed

lemma find_rev_cases:
  obtains (none) "find P (rev xs) = None" "\<And>x. x \<in> set xs \<Longrightarrow> \<not> P x"
  | (some) x where "find P (rev xs) = Some x" "x \<in> set xs" "P x"
  by (cases "find P (rev xs)") (auto simp: find_None_iff dest!: find_SomeD)

text \<open>Looking a relay up in the snapshot is looking its state up in the health component.\<close>

lemma runtime_snapshot_endpoint:
  assumes "keys_in_sync s"
  shows "case hm_get (hs_endpoints s) (to_ascii_lowercase relay) of
      None \<Rightarrow> rh_endpoint (runtime_snapshot u m s) relay = None
    | Some e \<Rightarrow> \<exists>cfg. cfg \<in> set (hc_endpoints (hs_config s)) \<and> text_eq_ignore_case (ec_relay cfg) relay
        \<and> rh_endpoint (runtime_snapshot u m s) relay = Some (runtime_endpoint_of u m cfg e)"
proof (cases rule: find_rev_cases [where
      P = "\<lambda>c. to_ascii_lowercase (ec_relay c) = to_ascii_lowercase relay" and xs = "hc_endpoints (hs_config s)"])
  case none
  then have "to_ascii_lowercase relay \<notin> (\<lambda>ec. to_ascii_lowercase (ec_relay ec)) ` set (hc_endpoints (hs_config s))"
    by force
  then have "hm_get (hs_endpoints s) (to_ascii_lowercase relay) = None"
    using assms by (auto simp: keys_in_sync_def)
  then show ?thesis using none(1) by (simp add: rh_endpoint_def runtime_snapshot_def hm_get_collect)
next
  case (some cfg)
  then have "to_ascii_lowercase relay \<in> (\<lambda>ec. to_ascii_lowercase (ec_relay ec)) ` set (hc_endpoints (hs_config s))"
    by force
  then obtain e where e: "hm_get (hs_endpoints s) (to_ascii_lowercase relay) = Some e"
    using assms unfolding keys_in_sync_def by blast
  then show ?thesis using some
    by (auto simp: rh_endpoint_def runtime_snapshot_def hm_get_collect endpoint_of_def text_eq_ignore_case_def)
qed

lemma rh_healthy_iff:
  assumes "keys_in_sync s"
  shows "rh_healthy (runtime_snapshot u m s) relay \<longleftrightarrow> hs_enabled s \<and> hs_completed_generation s = hs_generation s
    \<and> (case hm_get (hs_endpoints s) (to_ascii_lowercase relay) of None \<Rightarrow> False | Some e \<Rightarrow> es_status e = Healthy)"
proof -
  have "rh_ready (runtime_snapshot u m s) \<longleftrightarrow> hs_enabled s \<and> hs_completed_generation s = hs_generation s"
    by (simp add: rh_ready_def runtime_snapshot_def)
  then show ?thesis
    using runtime_snapshot_endpoint [OF assms, where relay = relay and u = u and m = m]
    by (auto simp: rh_healthy_def runtime_endpoint_of_def split: option.splits)
qed

lemma relay_views_eligible:
  "map rv_id (filter (\<lambda>v. q \<in> set (rv_eligible_for v)) (relay_views cfg pool health stamp order refs relays)) =
     filter (\<lambda>relay. q \<in> set (eligible_for
        (to_ascii_lowercase relay \<in> set (map to_ascii_lowercase (rp_native_online pool)))
        ((case cfg of None \<Rightarrow> False | Some c \<Rightarrow> ws_enabled (sc_websocket_signal c)) \<and> rh_healthy health relay))) relays"
  by (induction relays arbitrary: order refs) (simp_all add: relay_view_of_def Let_def)

lemma relay_views_ids: "map rv_id (relay_views cfg pool health stamp order refs relays) = relays"
  by (induction relays arbitrary: order refs) (simp_all add: relay_view_of_def Let_def)

text \<open>For the transports that use WebSockets, the relays eligible in a runtime snapshot are those
  the health component itself reports eligible for the pool, in the same order, in every reachable
  state of the health component.\<close>

theorem snapshot_eligibility_is_health:
  assumes "health_reach y" "ac_config active = Some c" "ws_enabled (sc_websocket_signal c)"
    and "requirement \<noteq> NativeOnly"
  shows "eligible_relays (observer_snapshot active pool (sy_state y) geo unix_now stamp) requirement
    = health_eligible_relays (sy_state y) (rp_configured pool) (rp_native_online pool) requirement"
proof -
  note healthy = rh_healthy_iff [OF keys_in_sync_reach [OF assms(1)]]
  show ?thesis
  proof (cases "hs_enabled (sy_state y) \<and> hs_completed_generation (sy_state y) = hs_generation (sy_state y)")
    case True
    then show ?thesis using assms(2-4)
      by (cases requirement)
        (auto simp: eligible_relays_def observer_snapshot_def build_snapshot_def relay_views_eligible
          health_eligible_relays_def healthy eligible_for_def intro!: filter_cong)
  next
    case False
    then have "\<not> rh_healthy (runtime_snapshot u m (sy_state y)) relay" for u m relay
      unfolding healthy by blast
    then show ?thesis using assms(2-4) False
      by (cases requirement) (auto simp: eligible_relays_def observer_snapshot_def build_snapshot_def
          relay_views_eligible health_eligible_relays_def eligible_for_def)
  qed
qed

definition ex_starry :: starry_config where
  "ex_starry = \<lparr>sc_version = 5, sc_relay_servers = [lit ''R1''], sc_secure_tcp = secure_tcp_config_default,
     sc_mmdb = mmdb_config_default, sc_geo = \<lparr>gc_enabled = False, gc_rules = []\<rparr>,
     sc_websocket_signal = websocket_signal_config_default\<lparr>ws_enabled := True, ws_relay_health := ex_config\<rparr>,
     sc_connection_auth = connection_auth_config_default, sc_relay_quality = relay_quality_config_default,
     sc_fast_mode = fast_relay_config_default\<lparr>fr_fast_media_v1_enabled := True\<rparr>\<rparr>"

definition ex_active :: active_config where
  "ex_active = \<lparr>ac_generation = 1, ac_config = Some ex_starry\<rparr>"

definition ex_pool :: relay_pool where
  "ex_pool = update_configured [lit ''R1'', lit ''R2''] 1 (lit ''now'') relay_pool_default"

theorem snapshot_eligibility_is_health_witness:
  "eligible_relays (observer_snapshot ex_active ex_pool (sy_state ex_sys3) geo_state_disabled 9 (lit ''t'')) Mixed
    = health_eligible_relays (sy_state ex_sys3) (rp_configured ex_pool) (rp_native_online ex_pool) Mixed"
proof (rule snapshot_eligibility_is_health)
  show "health_reach ex_sys3" by (rule ex_sys3_reach)
  show "ac_config ex_active = Some ex_starry" by (simp add: ex_active_def)
  show "ws_enabled (sc_websocket_signal ex_starry)" by (simp add: ex_starry_def)
qed simp

section \<open>Quality candidates\<close>

lemma find_view_Some: "find_view relays i = Some v \<Longrightarrow> v \<in> set relays \<and> text_eq_ignore_case (rv_id v) i"
  by (auto simp: find_view_def dest!: find_SomeD)

lemma set_rotate_to_fallback [simp]: "set (rotate_to_fallback relays ordered fallback) = set ordered"
  by (simp add: rotate_to_fallback_def Let_def split: option.split)

lemma position_None: "position P xs = None \<longleftrightarrow> (\<forall>x \<in> set xs. \<not> P x)"
  by (induction xs) auto

lemma rotate_to_fallback_hd:
  assumes "find_view relays fallback = Some v" "rv_quality_candidate v"
    and "r \<in> set ordered" "text_eq_ignore_case r fallback"
  shows "\<exists>r' rest. rotate_to_fallback relays ordered fallback = r' # rest \<and> text_eq_ignore_case r' fallback"
proof -
  have "position (\<lambda>relay. text_eq_ignore_case relay fallback) ordered \<noteq> None"
    unfolding position_None using assms(3,4) by blast
  then obtain i where i: "position (\<lambda>relay. text_eq_ignore_case relay fallback) ordered = Some i" by auto
  note p = position_Some [OF i]
  then have "rotate i ordered = ordered ! i # drop (Suc i) ordered @ take i ordered"
    by (simp add: rotate_drop_take Cons_nth_drop_Suc)
  then show ?thesis using p assms(1,2) i by (simp add: rotate_to_fallback_def)
qed

lemma set_map_filter: "v \<in> set (List.map_filter f xs) \<longleftrightarrow> (\<exists>x \<in> set xs. f x = Some v)"
  by (force simp: List.map_filter_def)

lemma find_view_cong: "text_eq_ignore_case a b \<Longrightarrow> find_view relays a = find_view relays b"
  by (simp add: find_view_def text_eq_ignore_case_def)

lemma bounded_views_sound:
  assumes "v \<in> set (bounded_quality_views relays ordered fallback maximum)"
  shows "rv_quality_candidate v \<and> v \<in> set relays \<and> (\<exists>r \<in> set ordered. text_eq_ignore_case (rv_id v) r)"
  using in_set_takeD [OF assms [unfolded bounded_quality_views_def]]
  by (auto simp: set_map_filter split: option.splits if_splits dest: find_view_Some)

lemma select_from_among:
  "select_from i rules fa fb online = Some sel \<Longrightarrow>
     set (sel_candidates sel) \<subseteq> set online \<and> sel_relay sel \<in> set online"
proof (induction i rules fa fb online rule: select_from.induct)
  case (2 i rule rules fa fb online)
  show ?case
  proof (cases "match_direction rule fa fb = None \<or> select_ordered (rr_relays rule) online = []")
    case True
    then show ?thesis using 2 by (auto split: option.splits)
  next
    case False
    then obtain d r rs where "match_direction rule fa fb = Some d" "select_ordered (rr_relays rule) online = r # rs"
      by (auto simp: neq_Nil_conv)
    moreover have "set (r # rs) \<subseteq> set online"
      using select_ordered_online [of _ "rr_relays rule" online] calculation(2) by (metis subsetI)
    ultimately show ?thesis using 2(3) by auto
  qed
qed simp

lemma selection_among_eligible:
  assumes "select_relay_explained_from geo a b eligible = Some sel"
  shows "set (sel_candidates sel) \<subseteq> set eligible \<and> sel_relay sel \<in> set eligible"
  using assms select_from_among
  by (auto simp: select_relay_explained_from_def rule_set_select_def split: if_splits)

text \<open>The relays offered for quality probing are at most the configured number, each is a
  healthy relay with fresh telemetry that is eligible for the transport, and when the fallback is
  such a relay and is among the ordered ones it comes first.\<close>

theorem quality_candidates_sound:
  assumes "ordered = (case select_relay_explained_from (ss_geo s) a b (eligible_relays s requirement) of
      None \<Rightarrow> eligible_relays s requirement | Some sel \<Rightarrow> sel_candidates sel)"
  shows "length (quality_candidates s a b requirement fallback maximum) \<le> maximum
    \<and> list_all (\<lambda>v. rv_quality_candidate v \<and> v \<in> set (ss_relays s)
         \<and> list_ex (text_eq_ignore_case (rv_id v)) (eligible_relays s requirement))
       (quality_candidates s a b requirement fallback maximum)
    \<and> (\<forall>v. find_view (ss_relays s) fallback = Some v \<and> rv_quality_candidate v \<and> 0 < maximum
         \<and> list_ex (\<lambda>r. text_eq_ignore_case r fallback) ordered
       \<longrightarrow> (\<exists>rest. quality_candidates s a b requirement fallback maximum = v # rest))"
proof (intro conjI allI impI)
  have q: "quality_candidates s a b requirement fallback maximum
      = bounded_quality_views (ss_relays s) ordered fallback maximum"
    by (simp add: quality_candidates_def assms Let_def)
  show "length (quality_candidates s a b requirement fallback maximum) \<le> maximum"
    by (simp add: q bounded_quality_views_def)
  have "set ordered \<subseteq> set (eligible_relays s requirement)"
    using selection_among_eligible by (auto simp: assms split: option.splits)
  then show "list_all (\<lambda>v. rv_quality_candidate v \<and> v \<in> set (ss_relays s)
         \<and> list_ex (text_eq_ignore_case (rv_id v)) (eligible_relays s requirement))
       (quality_candidates s a b requirement fallback maximum)"
    unfolding q by (fastforce simp: list_all_iff list_ex_iff dest: bounded_views_sound)
  fix v
  assume v: "find_view (ss_relays s) fallback = Some v \<and> rv_quality_candidate v \<and> 0 < maximum
    \<and> list_ex (\<lambda>r. text_eq_ignore_case r fallback) ordered"
  then obtain r where "r \<in> set ordered" "text_eq_ignore_case r fallback" by (auto simp: list_ex_iff)
  from rotate_to_fallback_hd [OF _ _ this] v obtain r' rest where
    r': "rotate_to_fallback (ss_relays s) ordered fallback = r' # rest" "text_eq_ignore_case r' fallback"
    by blast
  have "find_view (ss_relays s) r' = Some v" using v find_view_cong [OF r'(2)] by simp
  then show "\<exists>rest. quality_candidates s a b requirement fallback maximum = v # rest"
    unfolding q using v r'(1) by (cases maximum) (auto simp: bounded_quality_views_def List.map_filter_simps)
qed

text \<open>A reachable state in which the relay has reported FastMedia support.\<close>

definition ex_media :: fast_media_telemetry where
  "ex_media = \<lparr>ft_protocol = 1, ft_enabled = True, ft_healthy = True, ft_udp_port = 21119,
     ft_active_allocations = 0, ft_active_streams = 0, ft_hello_accepted = 0, ft_cookie_rejected = 0,
     ft_bind_succeeded = 0, ft_bind_rejected = 0, ft_grant_rejected = 0, ft_role_mismatch = 0,
     ft_session_mismatch = 0, ft_allocation_mismatch = 0, ft_rebinds = 0, ft_forwarded_packets = 0,
     ft_forwarded_bytes = 0, ft_dropped_packets = 0, ft_rate_limited = 0, ft_replay_rejected = 0,
     ft_expired_allocations = 0, ft_listener_failures = 0\<rparr>"

definition ex_media_config :: relay_health_config where
  "ex_media_config = ex_config\<lparr>hc_success_threshold := 1, hc_endpoints := [\<lparr>ec_relay = lit ''R1'',
     ec_url = lit ''wss://r1/ws/telemetry'', ec_telemetry_secret_file = Some (lit ''/s''),
     ec_fast_media_udp_port = Some 21119\<rparr>]\<rparr>"

definition ex_media_result :: probe_result where
  "ex_media_result = Inr \<lparr>pr_latency_ms = 5, pr_version = None, pr_relay_probe_protocol = Some 1,
     pr_relay_load_protocol = Some 1,
     pr_load = Some (ex_load 3\<lparr>lt_telemetry_schema := 2, lt_fast_media := Some ex_media\<rparr>)\<rparr>"

definition ex_live1 :: health_system where
  "ex_live1 = health_initial\<lparr>sy_state := health_reconfigure True ex_media_config (sy_state health_initial)\<rparr>"

definition ex_live2 :: health_system where
  "ex_live2 = ex_live1\<lparr>sy_cycles := (hs_generation (sy_state ex_live1), hs_config (sy_state ex_live1)) # sy_cycles ex_live1\<rparr>"

definition ex_live3 :: health_system where
  "ex_live3 = ex_live2\<lparr>sy_state := health_record 1 (lit ''R1'') ex_media_result 1 2 3000 7 (sy_state ex_live2),
     sy_log := sy_log ex_live2 @ [(1, to_ascii_lowercase (lit ''R1''), ex_media_result, 3000, 7)]\<rparr>"

definition ex_live4 :: health_system where
  "ex_live4 = ex_live3\<lparr>sy_state := cycle_complete 1 (sy_state ex_live3)\<rparr>"

lemma ex_live4_reach: "health_reach ex_live4"
proof -
  have "health_step health_initial ex_live1" unfolding ex_live1_def
    by (rule health_step.reconfigure) (simp add: health_initial_def word_less_nat_alt unat_max_word)
  then have 1: "health_reach ex_live1" using health_reach.init health_reach.step by blast
  have "health_step ex_live1 ex_live2" unfolding ex_live2_def
    by (rule health_step.start) (simp add: ex_live1_def health_reconfigure_def next_snapshot_def)
  then have 2: "health_reach ex_live2" using 1 health_reach.step by blast
  have c: "(1, ex_media_config) \<in> set (sy_cycles ex_live2)"
    by (simp add: ex_live2_def ex_live1_def health_initial_def health_reconfigure_def next_snapshot_def)
  from health_step.result [OF this, of "lit ''R1''" ex_media_result 3000 7] have "health_step ex_live2 ex_live3"
    by (simp add: ex_live3_def ex_media_config_def ex_config_def)
  then have 3: "health_reach ex_live3" using 2 health_reach.step by blast
  have "(1, ex_media_config) \<in> set (sy_cycles ex_live3)" using c by (simp add: ex_live3_def)
  from health_step.complete [OF this] have "health_step ex_live3 ex_live4" by (simp add: ex_live4_def)
  then show ?thesis using 3 health_reach.step by blast
qed

definition ex_live_active :: active_config where
  "ex_live_active = \<lparr>ac_generation = 1, ac_config = Some (ex_starry\<lparr>sc_websocket_signal :=
     (sc_websocket_signal ex_starry)\<lparr>ws_relay_health := ex_media_config\<rparr>\<rparr>)\<rparr>"

definition ex_snapshot :: relay_snapshot where
  "ex_snapshot = observer_snapshot ex_live_active ex_pool (sy_state ex_live4) geo_state_disabled 9000 (lit ''t'')"

definition ex_view :: relay_view where
  "ex_view = the (find_view (ss_relays ex_snapshot) (lit ''r1''))"

theorem quality_candidates_sound_witness:
  "\<exists>rest. quality_candidates ex_snapshot (IpV4 1) (IpV4 2) WebSocketOnly (lit ''r1'') 3 = ex_view # rest"
proof -
  have sel: "select_relay_explained_from (ss_geo ex_snapshot) (IpV4 1) (IpV4 2) e = None" for e
    by (simp add: ex_snapshot_def observer_snapshot_def build_snapshot_def
        select_relay_explained_from_def geo_state_disabled_def)
  have "find_view (ss_relays ex_snapshot) (lit ''r1'') = Some ex_view" by code_simp
  moreover have "rv_quality_candidate ex_view" by code_simp
  moreover have "list_ex (\<lambda>r. text_eq_ignore_case r (lit ''r1'')) (eligible_relays ex_snapshot WebSocketOnly)"
    by code_simp
  ultimately show ?thesis
    using quality_candidates_sound [where ordered = "eligible_relays ex_snapshot WebSocketOnly"
        and s = ex_snapshot and a = "IpV4 1" and b = "IpV4 2" and requirement = WebSocketOnly
        and fallback = "lit ''r1''" and maximum = 3]
    by (simp add: sel)
qed

section \<open>FastMedia endpoints\<close>

lemma probe_run_load_last:
  assumes "es_load (probe_run st ft rs endpoint_state_default) = Some l"
  obtains s u n where "rs \<noteq> []" "last rs = (Inr s, u, n)" "pr_load s = Some l"
    "es_telemetry_observed_unix_millis (probe_run st ft rs endpoint_state_default) = Some (lt_observed_at_unix_ms l)"
proof (cases rs rule: rev_cases)
  case Nil
  then show ?thesis using assms by (simp add: endpoint_state_default_def)
next
  case (snoc rs' x)
  obtain r u n where x: "x = (r, u, n)" by (cases x)
  let ?e = "probe_run st ft rs' endpoint_state_default"
  have run: "probe_run st ft rs endpoint_state_default = record_endpoint r st ft u n ?e"
    by (simp add: snoc x probe_run_append)
  show ?thesis
  proof (cases rule: record_load_cases [where r = r and e = ?e and st = st and ft = ft and u = u and n = n])
    case (load s l')
    then show ?thesis using assms that [of s u n] unfolding run by (simp add: snoc x)
  next
    case no_load
    then show ?thesis using assms by (simp add: run)
  qed
qed

text \<open>C19. A relay's FastMedia endpoint is handed out only while the last result recorded for that
  relay, in the current configuration generation, is a success whose telemetry reports protocol 1,
  enabled and healthy, on the very port the configuration declares, and is not too old.\<close>

theorem fast_media_endpoint_is_live:
  assumes "health_reach y" "fast_media_endpoint active (sy_state y) unix_now relay = Some fe"
  shows "\<exists>config s u n l m.
      ac_config active = Some config \<and> fr_fast_media_v1_enabled (sc_fast_mode config)
    \<and> configured_fast_media_port (Some config) relay = Some (fe_udp_port fe) \<and> fe_udp_port fe \<noteq> 0
    \<and> own_results (hs_generation (sy_state y)) (to_ascii_lowercase relay) (sy_log y) \<noteq> []
    \<and> last (own_results (hs_generation (sy_state y)) (to_ascii_lowercase relay) (sy_log y)) = (Inr s, u, n)
    \<and> pr_load s = Some l \<and> lt_fast_media l = Some m
    \<and> ft_protocol m = 1 \<and> ft_enabled m \<and> ft_healthy m \<and> ft_udp_port m = fe_udp_port fe
    \<and> sat_sub unix_now (lt_observed_at_unix_ms l) div 1000 \<le> qc_max_telemetry_age_seconds (sc_relay_quality config)"
proof -
  let ?k = "to_ascii_lowercase relay"
  obtain config where cfg: "ac_config active = Some config" using assms(2)
    by (auto simp: fast_media_endpoint_def split: option.splits)
  let ?max = "qc_max_telemetry_age_seconds (sc_relay_quality config)"
  obtain ec endpoint l m where
    en: "fr_fast_media_v1_enabled (sc_fast_mode config)"
    and ec: "find (\<lambda>ec. text_eq_ignore_case (ec_relay ec) relay)
      (hc_endpoints (ws_relay_health (sc_websocket_signal config))) = Some ec"
      "ec_fast_media_udp_port ec = Some (ft_udp_port m)"
    and ep: "rh_endpoint (runtime_snapshot unix_now ?max (sy_state y)) relay = Some endpoint"
    and l: "re_load endpoint = Some l" "lt_fast_media l = Some m" "\<not> re_stale endpoint"
    and m: "ft_protocol m = 1" "ft_enabled m" "ft_healthy m" "ft_udp_port m \<noteq> 0" "fe_udp_port fe = ft_udp_port m"
    using assms(2) by (auto simp: fast_media_endpoint_def cfg Let_def split: option.splits if_splits)
  obtain e where e: "hm_get (hs_endpoints (sy_state y)) ?k = Some e" "re_load endpoint = es_load e"
    "re_stale endpoint = endpoint_stale unix_now ?max e"
    using runtime_snapshot_endpoint [OF keys_in_sync_reach [OF assms(1)], where relay = relay and u = unix_now and m = ?max] ep
    by (auto simp: runtime_endpoint_of_def split: option.splits)
  define rs where "rs = own_results (hs_generation (sy_state y)) ?k (sy_log y)"
  have run: "e = probe_run (hc_success_threshold (hs_config (sy_state y)))
      (hc_failure_threshold (hs_config (sy_state y))) rs endpoint_state_default"
    using health_reach_inv [OF assms(1)] e(1) unfolding health_inv_def rs_def by blast
  obtain s u n where last: "rs \<noteq> []" "last rs = (Inr s, u, n)" "pr_load s = Some l"
    "es_telemetry_observed_unix_millis e = Some (lt_observed_at_unix_ms l)"
    using probe_run_load_last e(2) l(1) unfolding run by metis
  have "sat_sub unix_now (lt_observed_at_unix_ms l) div 1000 \<le> ?max"
    using l(3) last(4) by (auto simp: e(3) endpoint_stale_def telemetry_age_def)
  moreover have "configured_fast_media_port (Some config) relay = Some (fe_udp_port fe)"
    by (simp add: configured_fast_media_port_def ec m)
  ultimately show ?thesis using cfg en l(2) m last unfolding rs_def [symmetric] by force
qed

theorem fast_media_endpoint_is_live_witness:
  "\<exists>config s u n l m.
      ac_config ex_live_active = Some config \<and> fr_fast_media_v1_enabled (sc_fast_mode config)
    \<and> configured_fast_media_port (Some config) (lit ''r1'') = Some 21119 \<and> (21119 :: u16) \<noteq> 0
    \<and> own_results (hs_generation (sy_state ex_live4)) (to_ascii_lowercase (lit ''r1'')) (sy_log ex_live4) \<noteq> []
    \<and> last (own_results (hs_generation (sy_state ex_live4)) (to_ascii_lowercase (lit ''r1'')) (sy_log ex_live4)) = (Inr s, u, n)
    \<and> pr_load s = Some l \<and> lt_fast_media l = Some m
    \<and> ft_protocol m = 1 \<and> ft_enabled m \<and> ft_healthy m \<and> ft_udp_port m = 21119
    \<and> sat_sub 9000 (lt_observed_at_unix_ms l) div 1000 \<le> qc_max_telemetry_age_seconds (sc_relay_quality config)"
proof -
  have "fast_media_endpoint ex_live_active (sy_state ex_live4) 9000 (lit ''r1'')
      = Some \<lparr>fe_protocol = 1, fe_udp_port = 21119\<rparr>" by code_simp
  from fast_media_endpoint_is_live [OF ex_live4_reach this] show ?thesis by simp
qed

section \<open>Simulation\<close>

lemma explain_selection_eligible:
  "fst (snd (explain_selection eligible matched rotation)) = Some r \<Longrightarrow>
     to_ascii_lowercase r \<in> set (map to_ascii_lowercase eligible)"
  by (auto simp: explain_selection_def Let_def split: option.splits if_splits)

lemma candidate_of_sound:
  "ct_eligible (candidate_of eligible reasons order relay)
     = (ct_priority (candidate_of eligible reasons order relay) \<noteq> None)"
  "ct_eligible (candidate_of eligible reasons order relay)
     = (ct_exclusion_reason (candidate_of eligible reasons order relay) = None)"
  using position_None [of "\<lambda>c. text_eq_ignore_case c relay" eligible]
  by (auto simp: candidate_of_def Let_def text_eq_ignore_case_def image_iff dest: sym)

text \<open>A simulated allocation predicts only a relay eligible for the transport, predicts none
  exactly when none is eligible, lists the configured relays in order, and marks each either with a
  priority or with a reason against it.\<close>

theorem simulation_trace_sound:
  assumes "simulate parse_ip s request rotation = Inr trace"
  shows "\<exists>requirement. requirement_parse (sq_transport request) = Some requirement
    \<and> (at_relay_id trace = None \<longleftrightarrow> eligible_relays s requirement = [])
    \<and> (\<forall>r. at_relay_id trace = Some r \<longrightarrow> list_ex (text_eq_ignore_case r) (eligible_relays s requirement))
    \<and> map ct_relay_id (at_candidates trace) = configured_relays s
    \<and> list_all (\<lambda>c. ct_eligible c = (ct_priority c \<noteq> None) \<and> ct_eligible c = (ct_exclusion_reason c = None))
        (at_candidates trace)"
proof -
  obtain a b requirement where req: "requirement_parse (sq_transport request) = Some requirement"
    and tr: "trace = explain_relay_selection (configured_relays s) (eligible_relays s requirement)
      (map_option (\<lambda>sel. \<lparr>mr_name = sel_rule_name sel, mr_index = sel_rule_index sel,
         mr_direction = sel_direction sel, mr_relay_id = sel_relay sel\<rparr>)
       (select_relay_explained_from (ss_geo s) a b (eligible_relays s requirement)))
      rotation (ss_config_generation s) (ss_health_snapshot_id s) (exclusion_reasons s requirement)"
    using assms by (auto simp: simulate_def Let_def split: option.splits if_splits)
  let ?el = "eligible_relays s requirement"
  let ?sel = "select_relay_explained_from (ss_geo s) a b ?el"
  let ?m = "map_option (\<lambda>sel. \<lparr>mr_name = sel_rule_name sel, mr_index = sel_rule_index sel,
         mr_direction = sel_direction sel, mr_relay_id = sel_relay sel\<rparr>) ?sel"
  have id: "at_relay_id trace = fst (snd (explain_selection ?el ?m rotation))"
    by (simp add: tr explain_relay_selection_def split: prod.split)
  have sel_none: "fst (snd (explain_selection ?el ?m rotation)) = None \<longleftrightarrow> ?el = []"
  proof (cases ?sel)
    case None
    then show ?thesis by (simp add: explain_selection_def Let_def)
  next
    case (Some sel)
    then have "?el \<noteq> []" "sel_relay sel \<in> set ?el"
      using selection_among_eligible [OF Some] by (auto simp: select_relay_explained_from_def)
    then show ?thesis by (simp add: Some explain_selection_def)
  qed
  have sel_some: "list_ex (text_eq_ignore_case r) ?el" if "fst (snd (explain_selection ?el ?m rotation)) = Some r" for r
    using explain_selection_eligible [OF that] by (auto simp: text_eq_ignore_case_def list_ex_iff)
  have cands: "at_candidates trace = map (\<lambda>(order, relay). candidate_of ?el (exclusion_reasons s requirement) order relay)
      (zip [0..<length (configured_relays s)] (configured_relays s))"
    by (simp add: tr explain_relay_selection_def split: prod.split)
  show ?thesis
  proof (intro exI [of _ requirement] conjI allI impI)
    show "at_relay_id trace = None \<longleftrightarrow> ?el = []" unfolding id by (rule sel_none)
    show "list_ex (text_eq_ignore_case r) ?el" if "at_relay_id trace = Some r" for r
      using that unfolding id by (rule sel_some)
    show "map ct_relay_id (at_candidates trace) = configured_relays s"
      by (simp add: cands candidate_of_def Let_def split_def o_def)
    show "list_all (\<lambda>c. ct_eligible c = (ct_priority c \<noteq> None) \<and> ct_eligible c = (ct_exclusion_reason c = None))
        (at_candidates trace)"
      unfolding list_all_iff cands using candidate_of_sound by auto
  qed (rule req)
qed

definition ex_request :: simulation_request where
  "ex_request = \<lparr>sq_client_a = lit ''a'', sq_client_b = lit ''b'', sq_transport = lit ''WSS'',
     sq_expected_config_generation = Some 1\<rparr>"

theorem simulation_trace_sound_witness:
  "\<exists>trace. simulate (\<lambda>_. Some (IpV4 1)) ex_snapshot ex_request 7 = Inr trace
    \<and> map ct_relay_id (at_candidates trace) = configured_relays ex_snapshot
    \<and> at_relay_id trace \<noteq> None"
proof -
  define trace where "trace = projr (simulate (\<lambda>_. Some (IpV4 1)) ex_snapshot ex_request 7)"
  have sim: "simulate (\<lambda>_. Some (IpV4 1)) ex_snapshot ex_request 7 = Inr trace"
    unfolding trace_def by code_simp
  have "requirement_parse (sq_transport ex_request) = Some WebSocketOnly" by code_simp
  moreover have "eligible_relays ex_snapshot WebSocketOnly \<noteq> []" by code_simp
  ultimately show ?thesis using simulation_trace_sound [OF sim] sim by auto
qed

end
