(* ===== verification/Relay_Quality_Score.thy ===== *)
theory Relay_Quality_Score
  imports Relay_Observer
begin

text \<open>
  The measurements of relay quality selection (\<open>relay_quality.rs\<close>): messages of the protocol,
  allocations with their stages and reports, the validation of a report, the scores and the
  decisions made from them.  The messages are those of
  \<open>contracts/relay-quality/v1/rendezvous-extension.proto\<close>, less the fields the server leaves at
  their defaults.
\<close>

section \<open>Messages\<close>

record quality_candidate =
  wc_relay_server :: utext
  wc_probe_url :: utext

record quality_offer =
  of_protocol_version :: u32
  of_allocation_id :: bytes
  of_fallback_relay :: utext
  of_candidates :: "quality_candidate list"
  of_probe_samples :: u32
  of_probe_interval_ms :: u32
  of_report_timeout_ms :: u32
  of_probe_timeout_ms :: u32
  of_strategy :: u32
  of_stage :: u32
  of_stage_token :: bytes
  of_stage_deadline_unix_ms :: u64
  of_total_deadline_unix_ms :: u64
  of_primary_relay :: utext
  of_p2p_probe_grace_ms :: u32

record probe_result_wire =
  pw_relay_server :: utext
  pw_attempted :: u32
  pw_succeeded :: u32
  pw_rtt_ms :: u32
  pw_jitter_ms :: u32

record probe_report =
  pt_protocol_version :: u32
  pt_allocation_id :: bytes
  pt_results :: "probe_result_wire list"
  pt_stage :: u32
  pt_stage_token :: bytes
  pt_endpoint_role :: u32

record quality_score =
  qs_relay_server :: utext
  qs_score :: u32
  qs_rtt_penalty :: u32
  qs_jitter_penalty :: u32
  qs_loss_penalty :: u32
  qs_load_penalty :: u32
  qs_missing_reports :: u32

record quality_decision =
  de_protocol_version :: u32
  de_allocation_id :: bytes
  de_relay_server :: utext
  de_scores :: "quality_score list"
  de_fallback :: bool
  de_reason_code :: u32
  de_stage :: u32
  de_partial :: bool

record quality_cancel =
  cn_protocol_version :: u32
  cn_allocation_id :: bytes
  cn_stage :: u32
  cn_stage_token :: bytes
  cn_reason_code :: u32
  cn_endpoint_role :: u32

section \<open>Allocations\<close>

datatype stage = Primary | Expanded | EagerStage

fun stage_wire :: "stage \<Rightarrow> u32" where
  "stage_wire Primary = 1"
| "stage_wire Expanded = 2"
| "stage_wire EagerStage = 3"

datatype endpoint_role = Controller | Target

fun role_wire :: "endpoint_role \<Rightarrow> u32" where
  "role_wire Controller = 1"
| "role_wire Target = 2"

definition role_from_wire :: "u32 \<Rightarrow> endpoint_role option" where
  "role_from_wire v = (if v = 1 then Some Controller else if v = 2 then Some Target else None)"

datatype decision_reason = PrimaryAccepted | ExpandedBestScore | Partial | Hysteresis
  | LegacyFallback | ProbeFailure | ManualOverride

fun reason_code :: "decision_reason \<Rightarrow> u32" where
  "reason_code PrimaryAccepted = 1"
| "reason_code ExpandedBestScore = 2"
| "reason_code Partial = 3"
| "reason_code Hysteresis = 4"
| "reason_code LegacyFallback = 5"
| "reason_code ProbeFailure = 6"
| "reason_code ManualOverride = 7"

record metric =
  me_attempted :: u32
  me_succeeded :: u32
  me_rtt_ms :: u32
  me_jitter_ms :: u32

record validated_report =
  vr_metrics :: "(utext, metric) hmap"
  vr_wire :: probe_report

record stage_reports =
  primary_controller :: "validated_report option"
  primary_target :: "validated_report option"
  expanded_controller :: "validated_report option"
  expanded_target :: "validated_report option"
  eager_controller :: "validated_report option"
  eager_target :: "validated_report option"

definition stage_reports_default :: stage_reports where
  "stage_reports_default = \<lparr>primary_controller = None, primary_target = None, expanded_controller = None,
     expanded_target = None, eager_controller = None, eager_target = None\<rparr>"

fun reports_get :: "stage_reports \<Rightarrow> stage \<Rightarrow> endpoint_role \<Rightarrow> validated_report option" where
  "reports_get r Primary Controller = primary_controller r"
| "reports_get r Primary Target = primary_target r"
| "reports_get r Expanded Controller = expanded_controller r"
| "reports_get r Expanded Target = expanded_target r"
| "reports_get r EagerStage Controller = eager_controller r"
| "reports_get r EagerStage Target = eager_target r"

text \<open>Assignment through \<open>slot_mut\<close>.\<close>

fun reports_set :: "stage \<Rightarrow> endpoint_role \<Rightarrow> validated_report option \<Rightarrow> stage_reports \<Rightarrow> stage_reports" where
  "reports_set Primary Controller v r = r\<lparr>primary_controller := v\<rparr>"
| "reports_set Primary Target v r = r\<lparr>primary_target := v\<rparr>"
| "reports_set Expanded Controller v r = r\<lparr>expanded_controller := v\<rparr>"
| "reports_set Expanded Target v r = r\<lparr>expanded_target := v\<rparr>"
| "reports_set EagerStage Controller v r = r\<lparr>eager_controller := v\<rparr>"
| "reports_set EagerStage Target v r = r\<lparr>eager_target := v\<rparr>"

record candidate_state =
  cs_relay :: utext
  cs_server_rtt_ms :: "u32 option"
  cs_load_basis_points :: "u32 option"
  cs_controller_wire :: quality_candidate
  cs_target_wire :: quality_candidate

record quality_allocation =
  qa_created :: instant
  qa_total_deadline :: instant
  qa_total_deadline_unix_ms :: u64
  qa_stage_deadline :: instant
  qa_stage_deadline_unix_ms :: u64
  qa_config_generation :: u64
  qa_initiator_route :: socket_addr
  qa_initiator_ip :: ip_addr
  qa_target_route :: socket_addr
  qa_target_ip :: ip_addr
  qa_target_id :: utext
  qa_target_websocket :: bool
  qa_requirement :: relay_requirement
  qa_fallback_relay :: utext
  qa_primary_relay :: utext
  qa_allocation_id :: bytes
  qa_stage_token :: bytes
  qa_stage :: stage
  qa_candidates :: "candidate_state list"
  qa_config :: relay_quality_config
  qa_reports :: stage_reports
  qa_pending_uuid :: "utext option"

fun stage_candidate_indices :: "stage \<Rightarrow> nat \<Rightarrow> nat list" where
  "stage_candidate_indices Primary n = (if n > 0 then [0] else [])"
| "stage_candidate_indices Expanded n = [1..<n]"
| "stage_candidate_indices EagerStage n = [0..<n]"

definition stage_candidates :: "quality_allocation \<Rightarrow> candidate_state list" where
  "stage_candidates a = List.map_filter
     (\<lambda>i. if i < length (qa_candidates a) then Some (qa_candidates a ! i) else None)
     (stage_candidate_indices (qa_stage a) (length (qa_candidates a)))"

fun stage_samples_of :: "stage \<Rightarrow> relay_quality_config \<Rightarrow> u32" where
  "stage_samples_of Primary cfg = qc_primary_probe_samples cfg"
| "stage_samples_of Expanded cfg = qc_probe_samples cfg"
| "stage_samples_of EagerStage cfg = qc_probe_samples cfg"

definition stage_samples :: "quality_allocation \<Rightarrow> u32" where
  "stage_samples a = stage_samples_of (qa_stage a) (qa_config a)"

definition wire_candidate :: "relay_view \<Rightarrow> bool \<Rightarrow> quality_candidate" where
  "wire_candidate view websocket =
     \<lparr>wc_relay_server = rv_id view,
       wc_probe_url = (if websocket then (case wv_url (rv_websocket view) of None \<Rightarrow> [] | Some u \<Rightarrow> u)
         else lit ''tcp://'' @ rv_id view)\<rparr>"

definition strategy_wire :: "relay_quality_strategy \<Rightarrow> u32" where
  "strategy_wire s = (case s of Adaptive \<Rightarrow> 1 | Eager \<Rightarrow> 2)"

definition offer_for :: "quality_allocation \<Rightarrow> endpoint_role \<Rightarrow> quality_offer" where
  "offer_for a role =
     \<lparr>of_protocol_version = 1, of_allocation_id = qa_allocation_id a,
       of_fallback_relay = qa_fallback_relay a,
       of_candidates = map (\<lambda>c. case role of Controller \<Rightarrow> cs_controller_wire c | Target \<Rightarrow> cs_target_wire c)
         (stage_candidates a),
       of_probe_samples = stage_samples a, of_probe_interval_ms = qc_probe_interval_ms (qa_config a),
       of_report_timeout_ms = qc_report_timeout_ms (qa_config a),
       of_probe_timeout_ms = qc_probe_timeout_ms (qa_config a),
       of_strategy = strategy_wire (qc_strategy (qa_config a)), of_stage = stage_wire (qa_stage a),
       of_stage_token = qa_stage_token a, of_stage_deadline_unix_ms = qa_stage_deadline_unix_ms a,
       of_total_deadline_unix_ms = qa_total_deadline_unix_ms a, of_primary_relay = qa_primary_relay a,
       of_p2p_probe_grace_ms = (if qa_stage a = Primary then qc_p2p_probe_grace_ms (qa_config a) else 0)\<rparr>"

section \<open>Validating a report\<close>

datatype report_rejection = Late | InvalidReport | StageMismatch

definition result_valid :: "u32 \<Rightarrow> probe_result_wire \<Rightarrow> bool" where
  "result_valid expected_samples r \<longleftrightarrow>
     \<not> (pw_attempted r \<noteq> expected_samples \<or> pw_succeeded r > pw_attempted r \<or> pw_rtt_ms r > 120000
        \<or> pw_jitter_ms r > 120000 \<or> (pw_succeeded r > 0 \<and> pw_rtt_ms r = 0)
        \<or> (pw_succeeded r < 2 \<and> pw_jitter_ms r \<noteq> 0)
        \<or> (pw_succeeded r = 0 \<and> (pw_rtt_ms r \<noteq> 0 \<or> pw_jitter_ms r \<noteq> 0)))"

text \<open>
  The loop over the results, with the relays still expected, the metrics and the normalised results
  collected so far.  The set of expected relays is a list without duplicates: \<open>remove\<close> takes one out.
\<close>

fun check_results ::
  "candidate_state list \<Rightarrow> u32 \<Rightarrow> utext list \<Rightarrow> (utext, metric) hmap \<Rightarrow> probe_result_wire list
     \<Rightarrow> probe_result_wire list \<Rightarrow> (utext list \<times> (utext, metric) hmap \<times> probe_result_wire list) option" where
  "check_results cands samples expected metrics wire [] = Some (expected, metrics, wire)"
| "check_results cands samples expected metrics wire (r # rs) =
     (let key = to_ascii_lowercase (pw_relay_server r) in
      if key \<notin> set expected \<or> hm_contains metrics key \<or> \<not> result_valid samples r then None
      else (case find (\<lambda>c. text_eq_ignore_case (cs_relay c) (pw_relay_server r)) cands of None \<Rightarrow> None
        | Some candidate \<Rightarrow>
            check_results cands samples (remove1 key expected)
              (hm_insert key \<lparr>me_attempted = pw_attempted r, me_succeeded = pw_succeeded r,
                 me_rtt_ms = pw_rtt_ms r, me_jitter_ms = pw_jitter_ms r\<rparr> metrics)
              (wire @ [r\<lparr>pw_relay_server := cs_relay candidate\<rparr>]) rs))"

definition validate_report ::
  "probe_report \<Rightarrow> quality_allocation \<Rightarrow> endpoint_role \<Rightarrow> validated_report option" where
  "validate_report report a role =
     (if length (pt_results report) \<noteq> length (stage_candidate_indices (qa_stage a) (length (qa_candidates a)))
      then None
      else (case check_results (qa_candidates a) (stage_samples a)
          (remdups (map (to_ascii_lowercase \<circ> cs_relay) (stage_candidates a))) [] [] (pt_results report) of
        None \<Rightarrow> None
      | Some (expected, metrics, wire) \<Rightarrow>
          if expected \<noteq> [] then None
          else Some \<lparr>vr_metrics = metrics, vr_wire = \<lparr>pt_protocol_version = 1,
            pt_allocation_id = qa_allocation_id a, pt_results = wire, pt_stage = stage_wire (qa_stage a),
            pt_stage_token = qa_stage_token a, pt_endpoint_role = role_wire role\<rparr>\<rparr>))"

definition validate_report_until ::
  "probe_report \<Rightarrow> quality_allocation \<Rightarrow> endpoint_role \<Rightarrow> instant \<Rightarrow> report_rejection + validated_report" where
  "validate_report_until report a role received_at =
     (if pt_protocol_version report \<noteq> 1 \<or> pt_allocation_id report \<noteq> qa_allocation_id a
      then Inl InvalidReport
      else if pt_stage report \<noteq> stage_wire (qa_stage a) \<or> pt_stage_token report \<noteq> qa_stage_token a
              \<or> pt_endpoint_role report \<noteq> role_wire role
      then Inl StageMismatch
      else if received_at > qa_stage_deadline a \<or> received_at > qa_total_deadline a then Inl Late
      else (case validate_report report a role of None \<Rightarrow> Inl InvalidReport | Some v \<Rightarrow> Inr v))"

datatype store_result = Accepted | Duplicate | Conflict

definition store_report ::
  "validated_report option \<Rightarrow> validated_report \<Rightarrow> store_result \<times> validated_report option" where
  "store_report slot report =
     (case slot of None \<Rightarrow> (Accepted, Some report)
      | Some existing \<Rightarrow> if vr_wire existing = vr_wire report then (Duplicate, slot) else (Conflict, slot))"

section \<open>Scores\<close>

definition loss_basis_points :: "metric \<Rightarrow> u32" where
  "loss_basis_points m =
     sat_mul (sat_sub (me_attempted m) (me_succeeded m)) 10000 div max (me_attempted m) 1"

definition normalized_penalty :: "u32 \<Rightarrow> u32 \<Rightarrow> u32" where
  "normalized_penalty value bad =
     ucast (min (sat_mul (ucast value :: u64) 10000 div ucast (max bad 1)) 10000)"

definition metrics_of :: "metric option \<Rightarrow> metric option \<Rightarrow> metric list" where
  "metrics_of controller target = List.map_filter (\<lambda>x. x) [controller, target]"

definition effective_rtt :: "candidate_state \<Rightarrow> u32 list \<Rightarrow> relay_quality_config \<Rightarrow> u32" where
  "effective_rtt candidate rtts cfg =
     (case rtts of [] \<Rightarrow> (case cs_server_rtt_ms candidate of None \<Rightarrow> qc_rtt_bad_ms cfg | Some v \<Rightarrow> v)
      | [one] \<Rightarrow> one
      | _ \<Rightarrow> (let maximum = ucast (Max (set rtts)) :: u64;
                  total = sum_list (map ucast rtts)
              in ucast (min (sat_add (sat_mul maximum 2) total div 4) 4294967295)))"

definition max_or_zero :: "u32 list \<Rightarrow> u32" where
  "max_or_zero xs = (if xs = [] then 0 else Max (set xs))"

definition score_candidate ::
  "candidate_state \<Rightarrow> metric option \<Rightarrow> metric option \<Rightarrow> relay_quality_config \<Rightarrow> quality_score" where
  "score_candidate candidate controller target cfg =
     (let ms = metrics_of controller target;
          reached = filter (\<lambda>m. me_succeeded m > 0) ms;
          missing_reports = sat_sub 2 (of_nat (length ms));
          rtt_penalty = normalized_penalty (effective_rtt candidate (map me_rtt_ms reached) cfg) (qc_rtt_bad_ms cfg);
          jitter_penalty = normalized_penalty (max_or_zero (map me_jitter_ms reached)) (qc_jitter_bad_ms cfg);
          loss_penalty = min (max_or_zero (map loss_basis_points ms)) 10000;
          load_penalty = min (case cs_load_basis_points candidate of None \<Rightarrow> 5000 | Some v \<Rightarrow> v) 10000;
          w = qc_weights cfg;
          weighted = (ucast rtt_penalty * ucast (qw_rtt w) + ucast jitter_penalty * ucast (qw_jitter w)
            + ucast loss_penalty * ucast (qw_loss w) + ucast load_penalty * ucast (qw_load w) :: u64) div 10000;
          missing = sat_mul (ucast missing_reports) (ucast (qc_missing_report_penalty_basis_points cfg));
          total_penalty = ucast (min (sat_add weighted missing) 10000) :: u32
      in \<lparr>qs_relay_server = cs_relay candidate, qs_score = sat_sub 10000 total_penalty,
           qs_rtt_penalty = rtt_penalty, qs_jitter_penalty = jitter_penalty, qs_loss_penalty = loss_penalty,
           qs_load_penalty = load_penalty, qs_missing_reports = missing_reports\<rparr>)"

text \<open>\<open>sort_by\<close> is stable: descending scores, then ascending names.\<close>

fun text_less :: "utext \<Rightarrow> utext \<Rightarrow> bool" where
  "text_less [] ys = (ys \<noteq> [])"
| "text_less (x # xs) [] = False"
| "text_less (x # xs) (y # ys) = (x < y \<or> (x = y \<and> text_less xs ys))"

definition score_before :: "quality_score \<Rightarrow> quality_score \<Rightarrow> bool" where
  "score_before a b \<longleftrightarrow> qs_score b < qs_score a
     \<or> (qs_score a = qs_score b \<and> \<not> text_less (qs_relay_server b) (qs_relay_server a))"

fun insert_score :: "quality_score \<Rightarrow> quality_score list \<Rightarrow> quality_score list" where
  "insert_score x [] = [x]"
| "insert_score x (y # ys) = (if score_before x y then x # y # ys else y # insert_score x ys)"

definition sorted_scores :: "quality_score list \<Rightarrow> quality_score list" where
  "sorted_scores xs = foldr insert_score xs []"

definition candidate_is_viable :: "metric option \<Rightarrow> metric option \<Rightarrow> bool \<Rightarrow> bool" where
  "candidate_is_viable controller target target_required \<longleftrightarrow>
     (case controller of None \<Rightarrow> False | Some m \<Rightarrow> me_succeeded m > 0)
     \<and> (case target of None \<Rightarrow> \<not> target_required | Some m \<Rightarrow> me_succeeded m > 0)"

definition report_metric :: "validated_report option \<Rightarrow> candidate_state \<Rightarrow> metric option" where
  "report_metric report candidate =
     Option.bind report (\<lambda>r. hm_get (vr_metrics r) (to_ascii_lowercase (cs_relay candidate)))"

definition primary_is_good_enough :: "quality_allocation \<Rightarrow> bool" where
  "primary_is_good_enough a =
     (case qa_candidates a of [] \<Rightarrow> False
      | candidate # _ \<Rightarrow>
          (let controller = report_metric (primary_controller (qa_reports a)) candidate;
               target = report_metric (primary_target (qa_reports a)) candidate
           in candidate_is_viable controller target False
              \<and> qs_score (score_candidate candidate controller target (qa_config a)) \<ge> qc_primary_accept_score (qa_config a)
              \<and> list_all (\<lambda>m. loss_basis_points m \<le> qc_primary_max_loss_basis_points (qa_config a))
                  (metrics_of controller target)))"

section \<open>Addresses\<close>

text \<open>\<open>to_ipv4_mapped\<close>: the addresses \<open>::ffff:0:0/96\<close>.\<close>

definition normalize_ip :: "ip_addr \<Rightarrow> ip_addr" where
  "normalize_ip ip = (case ip of IpV4 a \<Rightarrow> IpV4 a
     | IpV6 a \<Rightarrow> if drop_bit 32 a = 65535 then IpV4 (ucast a) else IpV6 a)"

text \<open>\<open>SocketAddr::new\<close> has no flow information and no scope.\<close>

definition socket_new :: "ip_addr \<Rightarrow> u16 \<Rightarrow> socket_addr" where
  "socket_new ip port = (case ip of IpV4 a \<Rightarrow> SockV4 a port | IpV6 a \<Rightarrow> SockV6 a port 0 0)"

definition normalize_socket :: "socket_addr \<Rightarrow> socket_addr" where
  "normalize_socket s = socket_new (normalize_ip (sock_ip s)) (sock_port s)"

datatype network_prefix = V4Prefix bytes | V6Prefix bytes

definition network_prefix_of :: "ip_addr \<Rightarrow> network_prefix" where
  "network_prefix_of ip = (case normalize_ip ip of IpV4 a \<Rightarrow> V4Prefix (take 3 (octets (IpV4 a)))
     | IpV6 a \<Rightarrow> V6Prefix (take 7 (octets (IpV6 a))))"

fun bytes_le :: "bytes \<Rightarrow> bytes \<Rightarrow> bool" where
  "bytes_le [] ys = True"
| "bytes_le (x # xs) [] = False"
| "bytes_le (x # xs) (y # ys) = (x < y \<or> (x = y \<and> bytes_le xs ys))"

text \<open>The derived order: the IPv4 prefixes come before the IPv6 ones.\<close>

fun prefix_le :: "network_prefix \<Rightarrow> network_prefix \<Rightarrow> bool" where
  "prefix_le (V4Prefix a) (V4Prefix b) = bytes_le a b"
| "prefix_le (V4Prefix a) (V6Prefix b) = True"
| "prefix_le (V6Prefix a) (V4Prefix b) = False"
| "prefix_le (V6Prefix a) (V6Prefix b) = bytes_le a b"

record cache_key =
  ck_endpoint_a :: network_prefix
  ck_endpoint_b :: network_prefix
  ck_requirement :: u8

definition requirement_code :: "relay_requirement \<Rightarrow> u8" where
  "requirement_code r = (case r of NativeOnly \<Rightarrow> 0 | WebSocketOnly \<Rightarrow> 1 | Mixed \<Rightarrow> 2)"

definition cache_key_of :: "ip_addr \<Rightarrow> ip_addr \<Rightarrow> relay_requirement \<Rightarrow> cache_key" where
  "cache_key_of client_a client_b requirement =
     (let a = network_prefix_of client_a; b = network_prefix_of client_b
      in if prefix_le a b
         then \<lparr>ck_endpoint_a = a, ck_endpoint_b = b, ck_requirement = requirement_code requirement\<rparr>
         else \<lparr>ck_endpoint_a = b, ck_endpoint_b = a, ck_requirement = requirement_code requirement\<rparr>)"

definition allocation_cache_key :: "quality_allocation \<Rightarrow> cache_key" where
  "allocation_cache_key a = cache_key_of (qa_initiator_ip a) (qa_target_ip a) (qa_requirement a)"

section \<open>Stages\<close>

definition expanded_ready :: "quality_allocation \<Rightarrow> bool" where
  "expanded_ready a \<longleftrightarrow>
     (let r = qa_reports a;
          target_participates = (primary_target r \<noteq> None \<or> expanded_target r \<noteq> None)
      in expanded_controller r \<noteq> None \<and> (\<not> target_participates \<or> expanded_target r \<noteq> None))"

definition eager_ready :: "quality_allocation \<Rightarrow> bool" where
  "eager_ready a \<longleftrightarrow>
     (let r = qa_reports a; target_participates = (eager_target r \<noteq> None)
      in eager_controller r \<noteq> None \<and> (\<not> target_participates \<or> eager_target r \<noteq> None))"

definition stage_report_count :: "quality_allocation \<Rightarrow> stage \<Rightarrow> nat" where
  "stage_report_count a st = length (filter (\<lambda>role. reports_get (qa_reports a) st role \<noteq> None) [Controller, Target])"

definition transition_to_expanded :: "bytes \<Rightarrow> quality_allocation \<Rightarrow> quality_allocation" where
  "transition_to_expanded fresh_token a =
     a\<lparr>qa_stage := Expanded, qa_stage_token := fresh_token, qa_stage_deadline := qa_total_deadline a,
       qa_stage_deadline_unix_ms := qa_total_deadline_unix_ms a\<rparr>"

definition terminal_metric :: "quality_allocation \<Rightarrow> stage \<Rightarrow> endpoint_role \<Rightarrow> nat \<Rightarrow> candidate_state \<Rightarrow> metric option" where
  "terminal_metric a st role index candidate =
     report_metric (reports_get (qa_reports a) (if st = Expanded \<and> index = 0 then Primary else st) role) candidate"

fun terminal_stage_requires_target :: "quality_allocation \<Rightarrow> stage \<Rightarrow> bool" where
  "terminal_stage_requires_target a Primary = (primary_target (qa_reports a) \<noteq> None)"
| "terminal_stage_requires_target a Expanded =
     (primary_target (qa_reports a) \<noteq> None \<or> expanded_target (qa_reports a) \<noteq> None)"
| "terminal_stage_requires_target a EagerStage = (eager_target (qa_reports a) \<noteq> None)"

definition score_index :: "quality_allocation \<Rightarrow> stage \<Rightarrow> nat \<Rightarrow> candidate_state \<Rightarrow> quality_score \<times> bool" where
  "score_index a st index candidate =
     (let controller = terminal_metric a st Controller index candidate;
          target = terminal_metric a st Target index candidate
      in (score_candidate candidate controller target (qa_config a),
          candidate_is_viable controller target (terminal_stage_requires_target a st)))"

definition scored_candidates :: "quality_allocation \<Rightarrow> stage \<Rightarrow> (quality_score \<times> bool) list" where
  "scored_candidates a st =
     map (\<lambda>(index, candidate). score_index a st index candidate)
       (zip [0..<length (qa_candidates a)] (qa_candidates a))"

text \<open>\<open>max_by_key\<close> with the key \<open>(score, Reverse(index))\<close>: the first of the best viable ones.\<close>

fun best_viable :: "nat \<Rightarrow> (nat \<times> u32) option \<Rightarrow> (quality_score \<times> bool) list \<Rightarrow> nat option" where
  "best_viable i best [] = map_option fst best"
| "best_viable i best ((s, viable) # rest) =
     best_viable (Suc i)
       (if viable \<and> (case best of None \<Rightarrow> True | Some (_, b) \<Rightarrow> b < qs_score s) then Some (i, qs_score s) else best)
       rest"

definition fallback_decision :: "quality_allocation \<Rightarrow> stage \<Rightarrow> decision_reason \<Rightarrow> quality_decision" where
  "fallback_decision a st reason =
     \<lparr>de_protocol_version = 1, de_allocation_id = qa_allocation_id a, de_relay_server = qa_fallback_relay a,
       de_scores = [], de_fallback = True, de_reason_code = reason_code reason, de_stage = stage_wire st,
       de_partial = True\<rparr>"

text \<open>Only called after \<open>primary_is_good_enough\<close>, so the first candidate exists.\<close>

definition primary_decision :: "quality_allocation \<Rightarrow> quality_decision \<times> (cache_key \<times> utext) option" where
  "primary_decision a =
     (let candidate = qa_candidates a ! 0;
          controller = report_metric (primary_controller (qa_reports a)) candidate;
          target = report_metric (primary_target (qa_reports a)) candidate;
          partial = (controller = None \<or> target = None);
          reason = (if partial then Partial else PrimaryAccepted);
          selected = cs_relay candidate
      in (\<lparr>de_protocol_version = 1, de_allocation_id = qa_allocation_id a, de_relay_server = selected,
            de_scores = [score_candidate candidate controller target (qa_config a)], de_fallback = False,
            de_reason_code = reason_code reason, de_stage = 1, de_partial = partial\<rparr>,
          Some (allocation_cache_key a, selected)))"

end
