(* ===== verification/Relay_Quality.thy ===== *)
theory Relay_Quality
  imports Relay_Quality_Score
begin

text \<open>
  The state of relay quality selection in HBBS and its operations (\<open>relay_quality.rs\<close>): offers,
  reports of the two endpoints, stages, decisions and their replays, cancellation, deadlines,
  clean-up and capacity.  An operation runs under the one lock of the state, so it is one step, at
  one reading \<open>now\<close> of the clock.  Fresh UUIDs are inputs.
\<close>

section \<open>State\<close>

record offer_skip_counters =
  ok_disabled :: u64
  ok_unsupported_client :: u64
  ok_invalid_fallback :: u64
  ok_inconsistent_snapshot :: u64
  ok_insufficient_candidates :: u64
  ok_primary_not_probeable :: u64

record fallback_counters =
  fc_legacy_fallback :: u64
  fc_probe_failure :: u64
  fc_manual_override :: u64
  fc_invalid_report :: u64
  fc_report_late :: u64

record route_key =
  rk_initiator :: socket_addr
  rk_target_ip :: ip_addr

record cached_selection =
  ch_relay :: utext
  ch_created :: instant

record decision_record =
  dr_decision :: quality_decision
  dr_allocation_id :: bytes
  dr_created :: instant
  dr_config_generation :: u64
  dr_target_ip :: ip_addr

record finalized_allocation =
  fi_decision :: quality_decision
  fi_created :: instant
  fi_config_generation :: u64
  fi_initiator_route :: socket_addr
  fi_initiator_ip :: ip_addr
  fi_target_route :: socket_addr
  fi_target_ip :: ip_addr
  fi_target_id :: utext
  fi_target_websocket :: bool
  fi_stage :: stage
  fi_stage_token :: bytes

record request_decision_key =
  qk_uuid :: utext
  qk_initiator_ip :: ip_addr
  qk_target_ip :: ip_addr

record decision_key =
  dk_uuid :: utext
  dk_target_ip :: ip_addr

record quality_state =
  q_allocations :: "(bytes, quality_allocation) hmap"
  q_routes :: "(route_key, bytes) hmap"
  q_finalized :: "(bytes, finalized_allocation) hmap"
  q_request_decisions :: "(request_decision_key, decision_record) hmap"
  q_decisions :: "(decision_key, decision_record) hmap"
  q_cache :: "(cache_key, cached_selection) hmap"
  q_offers_created :: u64
  q_offers_skipped :: u64
  q_offer_skip_reasons :: offer_skip_counters
  q_peer_reports_accepted :: u64
  q_controller_reports_accepted :: u64
  q_reports_accepted :: u64
  q_reports_duplicate :: u64
  q_reports_stage_mismatch :: u64
  q_reports_late :: u64
  q_reports_invalid :: u64
  q_reports_binding_mismatch :: u64
  q_decisions_created :: u64
  q_fallback_decisions :: u64
  q_fallback_reasons :: fallback_counters
  q_cache_hits :: u64
  q_hysteresis_decisions :: u64
  q_primary_probes :: u64
  q_primary_accepted :: u64
  q_expansions_triggered :: u64
  q_p2p_cancellations :: u64
  q_estimated_probe_attempts_saved :: u64
  q_expanded_decisions :: u64
  q_stage_timeouts :: u64
  q_relay_selections :: "(utext, u64) hmap"
  q_relay_selection_overflow :: u64

definition quality_state_default :: quality_state where
  "quality_state_default = \<lparr>q_allocations = [], q_routes = [], q_finalized = [], q_request_decisions = [],
     q_decisions = [], q_cache = [], q_offers_created = 0, q_offers_skipped = 0,
     q_offer_skip_reasons = \<lparr>ok_disabled = 0, ok_unsupported_client = 0, ok_invalid_fallback = 0,
       ok_inconsistent_snapshot = 0, ok_insufficient_candidates = 0, ok_primary_not_probeable = 0\<rparr>,
     q_peer_reports_accepted = 0, q_controller_reports_accepted = 0, q_reports_accepted = 0,
     q_reports_duplicate = 0, q_reports_stage_mismatch = 0, q_reports_late = 0, q_reports_invalid = 0,
     q_reports_binding_mismatch = 0, q_decisions_created = 0, q_fallback_decisions = 0,
     q_fallback_reasons = \<lparr>fc_legacy_fallback = 0, fc_probe_failure = 0, fc_manual_override = 0,
       fc_invalid_report = 0, fc_report_late = 0\<rparr>,
     q_cache_hits = 0, q_hysteresis_decisions = 0, q_primary_probes = 0, q_primary_accepted = 0,
     q_expansions_triggered = 0, q_p2p_cancellations = 0, q_estimated_probe_attempts_saved = 0,
     q_expanded_decisions = 0, q_stage_timeouts = 0, q_relay_selections = [],
     q_relay_selection_overflow = 0\<rparr>"

datatype offer_skip_reason = SkipDisabled | SkipUnsupportedClient | SkipInvalidFallback
  | SkipInconsistentSnapshot | SkipInsufficientCandidates | SkipPrimaryNotProbeable

datatype report_accounting = AccAccepted endpoint_role stage | AccDuplicate | AccLate | AccInvalid
  | AccBindingMismatch | AccStageMismatch

datatype fallback_accounting = FaLegacyFallback | FaProbeFailure | FaManualOverride | FaInvalidReport
  | FaReportLate

record relay_selection =
  se_decision :: quality_decision
  se_target_ip :: ip_addr
  se_config_generation :: u64

datatype dispatch_payload = OfferPayload quality_offer | DecisionPayload quality_decision
  | CancelPayload quality_cancel

record stage_dispatch =
  di_controller_route :: socket_addr
  di_target_route :: socket_addr
  di_target_id :: utext
  di_target_websocket :: bool
  di_controller :: dispatch_payload
  di_target :: dispatch_payload

datatype request_resolution = ReqLegacy | ReqSelected relay_selection | ReqExpanded stage_dispatch
  | ReqPending | ReqBlocked

datatype stage_report_resolution = StgPending | StgDispatch stage_dispatch | StgRejected

record response_context =
  rx_offer :: "quality_offer option"
  rx_peer_report :: "probe_report option"

section \<open>Counters\<close>

definition bump :: "u64 \<Rightarrow> u64" where
  "bump c = sat_add c 1"

definition record_offer_skipped :: "offer_skip_reason \<Rightarrow> quality_state \<Rightarrow> quality_state" where
  "record_offer_skipped reason s =
     (let c = q_offer_skip_reasons s in
      s\<lparr>q_offers_skipped := bump (q_offers_skipped s),
        q_offer_skip_reasons := (case reason of
          SkipDisabled \<Rightarrow> c\<lparr>ok_disabled := bump (ok_disabled c)\<rparr>
        | SkipUnsupportedClient \<Rightarrow> c\<lparr>ok_unsupported_client := bump (ok_unsupported_client c)\<rparr>
        | SkipInvalidFallback \<Rightarrow> c\<lparr>ok_invalid_fallback := bump (ok_invalid_fallback c)\<rparr>
        | SkipInconsistentSnapshot \<Rightarrow> c\<lparr>ok_inconsistent_snapshot := bump (ok_inconsistent_snapshot c)\<rparr>
        | SkipInsufficientCandidates \<Rightarrow> c\<lparr>ok_insufficient_candidates := bump (ok_insufficient_candidates c)\<rparr>
        | SkipPrimaryNotProbeable \<Rightarrow> c\<lparr>ok_primary_not_probeable := bump (ok_primary_not_probeable c)\<rparr>)\<rparr>)"

definition binding_mismatch :: "quality_state \<Rightarrow> quality_state" where
  "binding_mismatch s = s\<lparr>q_reports_binding_mismatch := bump (q_reports_binding_mismatch s)\<rparr>"

definition report_invalid :: "quality_state \<Rightarrow> quality_state" where
  "report_invalid s = s\<lparr>q_reports_invalid := bump (q_reports_invalid s)\<rparr>"

definition report_duplicate :: "quality_state \<Rightarrow> quality_state" where
  "report_duplicate s = s\<lparr>q_reports_duplicate := bump (q_reports_duplicate s)\<rparr>"

definition stage_mismatch :: "quality_state \<Rightarrow> quality_state" where
  "stage_mismatch s = s\<lparr>q_reports_stage_mismatch := bump (q_reports_stage_mismatch s)\<rparr>"

definition report_late :: "quality_state \<Rightarrow> quality_state" where
  "report_late s = s\<lparr>q_reports_late := bump (q_reports_late s)\<rparr>"

definition stage_timeout :: "quality_state \<Rightarrow> quality_state" where
  "stage_timeout s = s\<lparr>q_stage_timeouts := bump (q_stage_timeouts s)\<rparr>"

fun account_report :: "report_accounting \<Rightarrow> quality_state \<Rightarrow> quality_state" where
  "account_report (AccAccepted role st) s =
     (let s1 = s\<lparr>q_reports_accepted := bump (q_reports_accepted s)\<rparr>;
          s2 = (case role of
            Controller \<Rightarrow> s1\<lparr>q_controller_reports_accepted := bump (q_controller_reports_accepted s1)\<rparr>
          | Target \<Rightarrow> s1\<lparr>q_peer_reports_accepted := bump (q_peer_reports_accepted s1)\<rparr>)
      in if st = Primary then s2\<lparr>q_primary_probes := bump (q_primary_probes s2)\<rparr> else s2)"
| "account_report AccDuplicate s = report_duplicate s"
| "account_report AccLate s = report_late s"
| "account_report AccInvalid s = report_invalid s"
| "account_report AccBindingMismatch s = binding_mismatch s"
| "account_report AccStageMismatch s = stage_mismatch s"

definition record_relay_selection :: "utext \<Rightarrow> quality_state \<Rightarrow> quality_state" where
  "record_relay_selection relay s =
     (case hm_get (q_relay_selections s) relay of
        Some count \<Rightarrow> s\<lparr>q_relay_selections := hm_insert relay (bump count) (q_relay_selections s)\<rparr>
      | None \<Rightarrow> if hm_len (q_relay_selections s) < 256
          then s\<lparr>q_relay_selections := hm_insert relay 1 (q_relay_selections s)\<rparr>
          else s\<lparr>q_relay_selection_overflow := bump (q_relay_selection_overflow s)\<rparr>)"

definition count_fallback :: "fallback_accounting option \<Rightarrow> fallback_counters \<Rightarrow> fallback_counters" where
  "count_fallback fallback c = (case fallback of None \<Rightarrow> c
     | Some FaLegacyFallback \<Rightarrow> c\<lparr>fc_legacy_fallback := bump (fc_legacy_fallback c)\<rparr>
     | Some FaProbeFailure \<Rightarrow> c\<lparr>fc_probe_failure := bump (fc_probe_failure c)\<rparr>
     | Some FaManualOverride \<Rightarrow> c\<lparr>fc_manual_override := bump (fc_manual_override c)\<rparr>
     | Some FaInvalidReport \<Rightarrow> c\<lparr>fc_invalid_report := bump (fc_invalid_report c)\<rparr>
     | Some FaReportLate \<Rightarrow> c\<lparr>fc_report_late := bump (fc_report_late c)\<rparr>)"

section \<open>Eviction and clean-up\<close>

text \<open>\<open>max_by_key\<close> on the age: the last of the oldest entries in iteration order.\<close>

fun oldest_from :: "instant \<Rightarrow> ('v \<Rightarrow> instant) \<Rightarrow> ('k \<times> 'v) option \<Rightarrow> ('k, 'v) hmap \<Rightarrow> 'k option" where
  "oldest_from now created best [] = map_option fst best"
| "oldest_from now created best ((k, v) # m) =
     oldest_from now created
       (case best of None \<Rightarrow> Some (k, v)
        | Some (k', v') \<Rightarrow> if since now (created v') \<le> since now (created v) then Some (k, v) else best) m"

definition oldest :: "instant \<Rightarrow> ('v \<Rightarrow> instant) \<Rightarrow> ('k, 'v) hmap \<Rightarrow> 'k option" where
  "oldest now created m = oldest_from now created None m"

definition remove_oldest :: "instant \<Rightarrow> ('v \<Rightarrow> instant) \<Rightarrow> ('k, 'v) hmap \<Rightarrow> ('k, 'v) hmap" where
  "remove_oldest now created m = (case oldest now created m of None \<Rightarrow> m | Some k \<Rightarrow> hm_remove k m)"

definition drop_routes :: "bytes \<Rightarrow> quality_state \<Rightarrow> quality_state" where
  "drop_routes aid s = s\<lparr>q_routes := hm_retain (\<lambda>_ v. v \<noteq> aid) (q_routes s)\<rparr>"

definition remove_oldest_allocation :: "instant \<Rightarrow> quality_state \<Rightarrow> quality_state" where
  "remove_oldest_allocation now s =
     (case oldest now qa_created (q_allocations s) of None \<Rightarrow> s
      | Some aid \<Rightarrow> drop_routes aid (s\<lparr>q_allocations := hm_remove aid (q_allocations s)\<rparr>))"

lemma oldest_from_in: "oldest_from now f best m = Some k \<Longrightarrow> (\<exists>v. best = Some (k, v)) \<or> k \<in> fst ` set m"
proof (induction m arbitrary: best)
  case (Cons kv m)
  obtain k0 v0 where kv: "kv = (k0, v0)" by (cases kv)
  show ?case using Cons.prems Cons.IH unfolding kv
    by (fastforce split: option.splits if_splits)
qed auto

lemma oldest_in: "oldest now f m = Some k \<Longrightarrow> k \<in> fst ` set m"
  using oldest_from_in [of now f None m k] by (auto simp: oldest_def)

lemma oldest_from_None: "oldest_from now f best m = None \<longleftrightarrow> best = None \<and> m = []"
proof (induction m arbitrary: best)
  case (Cons kv m)
  obtain k v where kv: "kv = (k, v)" by (cases kv)
  have "oldest_from now f (Some p) m \<noteq> None" for p using Cons.IH by simp
  then show ?case unfolding kv by (simp split: option.split if_split)
qed simp

lemma oldest_None: "oldest now f m = None \<longleftrightarrow> m = []"
  by (simp add: oldest_def oldest_from_None)

lemma hm_remove_shrinks: "k \<in> fst ` set m \<Longrightarrow> hm_len (hm_remove k m) < hm_len m"
  by (auto simp: hm_len_def hm_remove_def AList.delete_eq intro!: length_filter_less)

text \<open>The loop \<open>while len >= limit.max(1)\<close>: every round removes an allocation.\<close>

function ensure_allocation_capacity :: "instant \<Rightarrow> nat \<Rightarrow> quality_state \<Rightarrow> quality_state" where
  "ensure_allocation_capacity now limit s =
     (if hm_len (q_allocations s) \<ge> max limit 1
      then ensure_allocation_capacity now limit (remove_oldest_allocation now s) else s)"
  by pat_completeness auto
termination
proof (relation "measure (\<lambda>(_, _, s). hm_len (q_allocations s))")
  fix now limit and s :: quality_state
  assume "hm_len (q_allocations s) \<ge> max limit 1"
  then have "q_allocations s \<noteq> []" by (auto simp: hm_len_def)
  then have "oldest now qa_created (q_allocations s) \<noteq> None" by (simp only: oldest_None not_False_eq_True)
  then obtain aid where aid: "oldest now qa_created (q_allocations s) = Some aid" by auto
  from hm_remove_shrinks [OF oldest_in [OF this]]
  show "((now, limit, remove_oldest_allocation now s), now, limit, s)
      \<in> measure (\<lambda>(_, _, s). hm_len (q_allocations s))"
    by (simp add: remove_oldest_allocation_def aid drop_routes_def)
qed simp

declare ensure_allocation_capacity.simps [simp del]

definition quality_allocation_expired :: "instant \<Rightarrow> relay_quality_config \<Rightarrow> quality_allocation \<Rightarrow> bool" where
  "quality_allocation_expired now cfg a \<longleftrightarrow> since now (qa_created a) > from_secs (unat (qc_allocation_ttl_seconds cfg))"

definition within_ttl :: "instant \<Rightarrow> relay_quality_config \<Rightarrow> instant \<Rightarrow> bool" where
  "within_ttl now cfg created \<longleftrightarrow> since now created \<le> from_secs (unat (qc_allocation_ttl_seconds cfg))"

definition cleanup_allocations :: "instant \<Rightarrow> relay_quality_config \<Rightarrow> quality_state \<Rightarrow> quality_state" where
  "cleanup_allocations now cfg s =
     (let expired = filter (\<lambda>(_, a). quality_allocation_expired now cfg a) (q_allocations s);
          timed_out = length (filter (\<lambda>(_, a). qa_pending_uuid a \<noteq> None) expired);
          ids = map fst expired
      in if ids = [] then s
         else s\<lparr>q_stage_timeouts := sat_add (q_stage_timeouts s) (of_nat (min timed_out (2 ^ 64 - 1))),
                q_allocations := hm_retain (\<lambda>aid _. aid \<notin> set ids) (q_allocations s),
                q_routes := hm_retain (\<lambda>_ aid. aid \<notin> set ids) (q_routes s)\<rparr>)"

definition quality_cleanup :: "instant \<Rightarrow> relay_quality_config \<Rightarrow> quality_state \<Rightarrow> quality_state" where
  "quality_cleanup now cfg s0 =
     (let s = cleanup_allocations now cfg s0 in
      s\<lparr>q_cache := hm_retain (\<lambda>_ e. since now (ch_created e) \<le> from_secs (unat (qc_cache_ttl_seconds cfg))) (q_cache s),
        q_decisions := hm_retain (\<lambda>_ e. within_ttl now cfg (dr_created e)) (q_decisions s),
        q_request_decisions := hm_retain (\<lambda>_ e. within_ttl now cfg (dr_created e)) (q_request_decisions s),
        q_finalized := hm_retain (\<lambda>_ e. within_ttl now cfg (fi_created e)) (q_finalized s)\<rparr>)"

section \<open>Decisions\<close>

text \<open>\<open>score_terminal_allocation\<close>: the best viable candidate, or the cached one within the hysteresis.\<close>

definition cached_index :: "utext \<Rightarrow> (quality_score \<times> bool) list \<Rightarrow> nat option" where
  "cached_index relay scored =
     position (\<lambda>(score, viable). viable \<and> text_eq_ignore_case (qs_relay_server score) relay) scored"

definition fresh_cached :: "instant \<Rightarrow> quality_allocation \<Rightarrow> quality_state \<Rightarrow> utext option" where
  "fresh_cached now a s = (case hm_get (q_cache s) (allocation_cache_key a) of None \<Rightarrow> None
     | Some c \<Rightarrow> if since now (ch_created c) \<le> from_secs (unat (qc_cache_ttl_seconds (qa_config a)))
         then Some (ch_relay c) else None)"

definition apply_hysteresis ::
  "instant \<Rightarrow> quality_allocation \<Rightarrow> (quality_score \<times> bool) list \<Rightarrow> nat \<Rightarrow> decision_reason \<Rightarrow> quality_state
     \<Rightarrow> nat \<times> decision_reason \<times> quality_state" where
  "apply_hysteresis now a scored selected reason s =
     (case Option.bind (fresh_cached now a s) (\<lambda>relay. cached_index relay scored) of
        None \<Rightarrow> (selected, reason, s)
      | Some index \<Rightarrow>
          (let s1 = s\<lparr>q_cache_hits := bump (q_cache_hits s)\<rparr> in
           if sat_add (qs_score (fst (scored ! index))) (qc_hysteresis_basis_points (qa_config a))
                \<ge> qs_score (fst (scored ! selected))
           then (index, Hysteresis, s1\<lparr>q_hysteresis_decisions := bump (q_hysteresis_decisions s1)\<rparr>)
           else (selected, reason, s1)))"

definition score_terminal_allocation ::
  "instant \<Rightarrow> quality_allocation \<Rightarrow> stage \<Rightarrow> decision_reason \<Rightarrow> quality_state
     \<Rightarrow> (quality_decision \<times> (cache_key \<times> utext) option \<times> fallback_accounting option) \<times> quality_state" where
  "score_terminal_allocation now a st default_reason s =
     (let scored = scored_candidates a st in
      case best_viable 0 None scored of
        None \<Rightarrow> (((fallback_decision a st ProbeFailure)\<lparr>de_scores := sorted_scores (map fst scored)\<rparr>,
                  None, Some FaProbeFailure), s)
      | Some best \<Rightarrow>
          (case apply_hysteresis now a scored best default_reason s of (selected_index, reason, s1) \<Rightarrow>
             (let selected = qs_relay_server (fst (scored ! selected_index))
              in ((\<lparr>de_protocol_version = 1, de_allocation_id = qa_allocation_id a, de_relay_server = selected,
                     de_scores = sorted_scores (map fst scored), de_fallback = False,
                     de_reason_code = reason_code reason, de_stage = stage_wire st,
                     de_partial = (stage_report_count a st < 2)\<rparr>,
                   Some (allocation_cache_key a, selected), None), s1))))"

text \<open>An insertion that first makes room when the key is new and the table is full.\<close>

definition insert_bounded :: "instant \<Rightarrow> ('v \<Rightarrow> instant) \<Rightarrow> nat \<Rightarrow> 'k \<Rightarrow> 'v \<Rightarrow> ('k, 'v) hmap \<Rightarrow> ('k, 'v) hmap" where
  "insert_bounded now created limit k v m =
     hm_insert k v (if \<not> hm_contains m k \<and> hm_len m \<ge> limit then remove_oldest now created m else m)"

definition max_entries :: "quality_allocation \<Rightarrow> nat" where
  "max_entries a = unat (qc_max_allocations (qa_config a))"

definition decision_record_of :: "instant \<Rightarrow> quality_allocation \<Rightarrow> quality_decision \<Rightarrow> decision_record" where
  "decision_record_of now a d = \<lparr>dr_decision = d, dr_allocation_id = qa_allocation_id a, dr_created = now,
     dr_config_generation = qa_config_generation a, dr_target_ip = qa_target_ip a\<rparr>"

definition finalized_of :: "instant \<Rightarrow> quality_allocation \<Rightarrow> quality_decision \<Rightarrow> finalized_allocation" where
  "finalized_of now a d = \<lparr>fi_decision = d, fi_created = now, fi_config_generation = qa_config_generation a,
     fi_initiator_route = qa_initiator_route a, fi_initiator_ip = qa_initiator_ip a,
     fi_target_route = qa_target_route a, fi_target_ip = qa_target_ip a, fi_target_id = qa_target_id a,
     fi_target_websocket = qa_target_websocket a, fi_stage = qa_stage a, fi_stage_token = qa_stage_token a\<rparr>"

definition record_cache ::
  "instant \<Rightarrow> quality_allocation \<Rightarrow> (cache_key \<times> utext) option \<Rightarrow> quality_state \<Rightarrow> quality_state" where
  "record_cache now a update s = (case update of None \<Rightarrow> s
     | Some (key, relay) \<Rightarrow> s\<lparr>q_cache := insert_bounded now ch_created (max_entries a) key
         \<lparr>ch_relay = relay, ch_created = now\<rparr> (q_cache s)\<rparr>)"

definition count_decision ::
  "quality_allocation \<Rightarrow> quality_decision \<Rightarrow> fallback_accounting option \<Rightarrow> quality_state \<Rightarrow> quality_state" where
  "count_decision a d fallback s =
     record_relay_selection (de_relay_server d)
      (s\<lparr>q_decisions_created := bump (q_decisions_created s),
        q_expanded_decisions := (if qa_stage a = Expanded then bump (q_expanded_decisions s) else q_expanded_decisions s),
        q_fallback_decisions := (if de_fallback d then bump (q_fallback_decisions s) else q_fallback_decisions s),
        q_fallback_reasons := count_fallback fallback (q_fallback_reasons s)\<rparr>)"

definition record_request :: "instant \<Rightarrow> quality_allocation \<Rightarrow> quality_decision \<Rightarrow> quality_state \<Rightarrow> quality_state" where
  "record_request now a d s =
     (case qa_pending_uuid a of None \<Rightarrow> s
      | Some uuid \<Rightarrow> if uuid = [] then s
          else s\<lparr>q_decisions := insert_bounded now dr_created (max_entries a)
                   \<lparr>dk_uuid = uuid, dk_target_ip = qa_target_ip a\<rparr> (decision_record_of now a d) (q_decisions s),
                 q_request_decisions := insert_bounded now dr_created (max_entries a)
                   \<lparr>qk_uuid = uuid, qk_initiator_ip = qa_initiator_ip a, qk_target_ip = qa_target_ip a\<rparr>
                   (decision_record_of now a d) (q_request_decisions s)\<rparr>)"

definition record_finalized :: "instant \<Rightarrow> quality_allocation \<Rightarrow> quality_decision \<Rightarrow> quality_state \<Rightarrow> quality_state" where
  "record_finalized now a d s = s\<lparr>q_finalized := insert_bounded now fi_created (max_entries a)
     (qa_allocation_id a) (finalized_of now a d) (q_finalized s)\<rparr>"

definition record_final_decision ::
  "instant \<Rightarrow> quality_allocation \<Rightarrow> quality_decision \<Rightarrow> (cache_key \<times> utext) option \<Rightarrow> fallback_accounting option
     \<Rightarrow> quality_state \<Rightarrow> relay_selection \<times> quality_state" where
  "record_final_decision now a d cache_update fallback s =
     (\<lparr>se_decision = d, se_target_ip = qa_target_ip a, se_config_generation = qa_config_generation a\<rparr>,
      record_finalized now a d (record_request now a d (count_decision a d fallback
        (record_cache now a cache_update (drop_routes (qa_allocation_id a) s)))))"

section \<open>Dispatches and sources\<close>

definition offer_dispatch :: "quality_allocation \<Rightarrow> stage_dispatch" where
  "offer_dispatch a = \<lparr>di_controller_route = qa_initiator_route a, di_target_route = qa_target_route a,
     di_target_id = qa_target_id a, di_target_websocket = qa_target_websocket a,
     di_controller = OfferPayload (offer_for a Controller), di_target = OfferPayload (offer_for a Target)\<rparr>"

definition finalized_decision_dispatch :: "finalized_allocation \<Rightarrow> stage_dispatch" where
  "finalized_decision_dispatch f = \<lparr>di_controller_route = fi_initiator_route f, di_target_route = fi_target_route f,
     di_target_id = fi_target_id f, di_target_websocket = fi_target_websocket f,
     di_controller = DecisionPayload (fi_decision f), di_target = DecisionPayload (fi_decision f)\<rparr>"

definition cancel_dispatch :: "quality_allocation \<Rightarrow> quality_cancel \<Rightarrow> stage_dispatch" where
  "cancel_dispatch a c = \<lparr>di_controller_route = qa_initiator_route a, di_target_route = qa_target_route a,
     di_target_id = qa_target_id a, di_target_websocket = qa_target_websocket a,
     di_controller = CancelPayload c, di_target = CancelPayload c\<rparr>"

fun source_matches :: "quality_allocation \<Rightarrow> socket_addr \<Rightarrow> ip_addr \<Rightarrow> endpoint_role \<Rightarrow> bool" where
  "source_matches a route ip Controller = (qa_initiator_route a = route \<and> qa_initiator_ip a = ip)"
| "source_matches a route ip Target = (qa_target_route a = route \<and> qa_target_ip a = ip)"

fun finalized_source_matches :: "finalized_allocation \<Rightarrow> socket_addr \<Rightarrow> ip_addr \<Rightarrow> endpoint_role \<Rightarrow> bool" where
  "finalized_source_matches f route ip Controller = (fi_initiator_route f = route \<and> fi_initiator_ip f = ip)"
| "finalized_source_matches f route ip Target = (fi_target_route f = route \<and> fi_target_ip f = ip)"

definition initial_response_source_matches ::
  "quality_allocation \<Rightarrow> socket_addr \<Rightarrow> ip_addr \<Rightarrow> utext \<Rightarrow> bool" where
  "initial_response_source_matches a route0 ip0 target_id =
     (let route = normalize_socket route0; ip = normalize_ip ip0 in
      if qa_target_id a \<noteq> target_id then False
      else if source_matches a route ip Target then True
      else \<not> qa_target_websocket a \<and> qa_target_ip a = ip
           \<and> normalize_ip (sock_ip route) = normalize_ip (sock_ip (qa_target_route a)))"

definition saved_by_primary :: "quality_allocation \<Rightarrow> u64" where
  "saved_by_primary a = sat_mul (sat_mul (of_nat (length (qa_candidates a) - 1)) (ucast (qc_probe_samples (qa_config a)))) 2"

definition saved_by_cancel :: "quality_allocation \<Rightarrow> u64" where
  "saved_by_cancel a =
     (let candidates = length (stage_candidate_indices (qa_stage a) (length (qa_candidates a)));
          reports = min (stage_report_count a (qa_stage a)) 2
      in sat_mul (sat_mul (of_nat candidates) (ucast (stage_samples a))) (of_nat (2 - reports)))"

section \<open>Creating an offer\<close>

definition probe_window_ms :: "u32 \<Rightarrow> u32 \<Rightarrow> u32 \<Rightarrow> u64" where
  "probe_window_ms samples timeout_ms interval_ms =
     sat_add (sat_mul (ucast samples) (ucast timeout_ms))
       (sat_mul (ucast (sat_sub samples 1)) (ucast interval_ms))"

definition primary_stage_budget_ms :: "relay_quality_config \<Rightarrow> u64" where
  "primary_stage_budget_ms cfg =
     (let endpoint_window = sat_add (ucast (qc_p2p_probe_grace_ms cfg))
        (probe_window_ms (qc_primary_probe_samples cfg) (qc_probe_timeout_ms cfg) (qc_probe_interval_ms cfg))
      in sat_add (sat_mul endpoint_window 2) 500)"

text \<open>\<open>checked_add\<close> on an \<open>Instant\<close>, which holds its seconds as a signed 64-bit number, and \<open>unwrap_or(created)\<close>.\<close>

definition INSTANT_END :: instant where
  "INSTANT_END = from_secs (2 ^ 63)"

definition checked_deadline :: "instant \<Rightarrow> u64 \<Rightarrow> instant" where
  "checked_deadline created ms =
     (let deadline = created + from_millis (unat ms) in if deadline < INSTANT_END then deadline else created)"

definition candidate_of_view :: "bool \<Rightarrow> bool \<Rightarrow> relay_view \<Rightarrow> candidate_state" where
  "candidate_of_view initiator_websocket target_websocket view =
     \<lparr>cs_relay = rv_id view,
       cs_server_rtt_ms = map_option (\<lambda>v. ucast (min v 4294967295)) (wv_latency_ms (rv_websocket view)),
       cs_load_basis_points = map_option lt_load_basis_points (wv_load (rv_websocket view)),
       cs_controller_wire = wire_candidate view initiator_websocket,
       cs_target_wire = wire_candidate view target_websocket\<rparr>"

record offer_request =
  or_client_protocol :: u32
  or_initiator_route :: socket_addr
  or_initiator_ip :: ip_addr
  or_target_route :: socket_addr
  or_target_ip :: ip_addr
  or_target_id :: utext
  or_requirement :: relay_requirement
  or_initiator_websocket :: bool
  or_target_websocket :: bool
  or_fallback :: utext

text \<open>The fresh values an offer takes: two UUIDs and the two clocks.\<close>

record offer_fresh =
  on_allocation_id :: bytes
  on_stage_token :: bytes
  on_now :: instant
  on_unix_ms :: u64

definition offer_views :: "active_config \<Rightarrow> relay_snapshot \<Rightarrow> offer_request \<Rightarrow> offer_skip_reason + relay_quality_config \<times> relay_view list" where
  "offer_views active snapshot rq =
     (case ac_config active of None \<Rightarrow> Inl SkipDisabled
      | Some c \<Rightarrow>
          (let cfg = sc_relay_quality c in
           if \<not> qc_enabled cfg then Inl SkipDisabled
           else if or_client_protocol rq \<noteq> 1 then Inl SkipUnsupportedClient
           else if or_fallback rq = [] \<or> or_target_id rq = [] \<or> qc_max_candidates cfg < 2 then Inl SkipInvalidFallback
           else if \<not> is_consistent snapshot \<or> ss_config_generation snapshot \<noteq> ac_generation active
           then Inl SkipInconsistentSnapshot
           else
             (let views = quality_candidates snapshot (or_initiator_ip rq) (or_target_ip rq) (or_requirement rq)
                (or_fallback rq) (unat (qc_max_candidates cfg)) in
              if length views < 2 then Inl SkipInsufficientCandidates
              else if \<not> text_eq_ignore_case (rv_id (views ! 0)) (or_fallback rq) then Inl SkipPrimaryNotProbeable
              else Inr (cfg, views))))"

definition allocation_of ::
  "active_config \<Rightarrow> offer_request \<Rightarrow> offer_fresh \<Rightarrow> relay_quality_config \<Rightarrow> relay_view list \<Rightarrow> quality_allocation" where
  "allocation_of active rq fresh cfg views =
     (let total_ms = ucast (qc_report_timeout_ms cfg);
          (st, budget) = (case qc_strategy cfg of
             Adaptive \<Rightarrow> (Primary, min (primary_stage_budget_ms cfg) total_ms)
           | Eager \<Rightarrow> (EagerStage, total_ms))
      in \<lparr>qa_created = on_now fresh, qa_total_deadline = checked_deadline (on_now fresh) total_ms,
           qa_total_deadline_unix_ms = sat_add (on_unix_ms fresh) total_ms,
           qa_stage_deadline = checked_deadline (on_now fresh) budget,
           qa_stage_deadline_unix_ms = sat_add (on_unix_ms fresh) budget,
           qa_config_generation = ac_generation active,
           qa_initiator_route = normalize_socket (or_initiator_route rq),
           qa_initiator_ip = normalize_ip (or_initiator_ip rq),
           qa_target_route = normalize_socket (or_target_route rq),
           qa_target_ip = normalize_ip (or_target_ip rq), qa_target_id = or_target_id rq,
           qa_target_websocket = or_target_websocket rq, qa_requirement = or_requirement rq,
           qa_fallback_relay = or_fallback rq, qa_primary_relay = rv_id (views ! 0),
           qa_allocation_id = on_allocation_id fresh, qa_stage_token = on_stage_token fresh, qa_stage = st,
           qa_candidates = map (candidate_of_view (or_initiator_websocket rq) (or_target_websocket rq)) views,
           qa_config = cfg, qa_reports = stage_reports_default, qa_pending_uuid = None\<rparr>)"

definition allocation_route :: "quality_allocation \<Rightarrow> route_key" where
  "allocation_route a = \<lparr>rk_initiator = qa_initiator_route a, rk_target_ip = qa_target_ip a\<rparr>"

definition replace_route :: "quality_allocation \<Rightarrow> quality_state \<Rightarrow> quality_state" where
  "replace_route a s =
     (let s1 = s\<lparr>q_routes := hm_insert (allocation_route a) (qa_allocation_id a) (q_routes s)\<rparr>
      in case hm_get (q_routes s) (allocation_route a) of None \<Rightarrow> s1
         | Some previous \<Rightarrow> s1\<lparr>q_allocations := hm_remove previous (q_allocations s1)\<rparr>)"

definition put_allocation :: "quality_allocation \<Rightarrow> quality_state \<Rightarrow> quality_state" where
  "put_allocation a s = s\<lparr>q_allocations := hm_insert (qa_allocation_id a) a (q_allocations s)\<rparr>"

definition create_offer ::
  "active_config \<Rightarrow> relay_snapshot \<Rightarrow> offer_request \<Rightarrow> offer_fresh \<Rightarrow> quality_state \<Rightarrow> quality_offer option \<times> quality_state" where
  "create_offer active snapshot rq fresh s =
     (case offer_views active snapshot rq of
        Inl reason \<Rightarrow> (None, record_offer_skipped reason s)
      | Inr (cfg, views) \<Rightarrow>
          (let a = allocation_of active rq fresh cfg views;
               s1 = ensure_allocation_capacity (on_now fresh) (unat (qc_max_allocations cfg))
                 (replace_route a (quality_cleanup (on_now fresh) cfg s));
               s2 = put_allocation a s1
           in (Some (offer_for a Target), s2\<lparr>q_offers_created := bump (q_offers_created s2)\<rparr>)))"

section \<open>The target's response\<close>

definition active_quality :: "active_config \<Rightarrow> relay_quality_config option" where
  "active_quality active = (case ac_config active of None \<Rightarrow> None
     | Some c \<Rightarrow> if qc_enabled (sc_relay_quality c) then Some (sc_relay_quality c) else None)"

definition empty_response_context :: response_context where
  "empty_response_context = \<lparr>rx_offer = None, rx_peer_report = None\<rparr>"

text \<open>A report of the given role is validated and stored in the slot of the current stage.\<close>

definition accept_report ::
  "probe_report \<Rightarrow> endpoint_role \<Rightarrow> instant \<Rightarrow> quality_allocation \<Rightarrow> report_accounting \<times> quality_allocation" where
  "accept_report report role now a =
     (case validate_report_until report a role now of
        Inl Late \<Rightarrow> (AccLate, a)
      | Inl StageMismatch \<Rightarrow> (AccStageMismatch, a)
      | Inl InvalidReport \<Rightarrow> (AccInvalid, a)
      | Inr v \<Rightarrow>
          (case store_report (reports_get (qa_reports a) (qa_stage a) role) v of (res, slot) \<Rightarrow>
             (case res of Accepted \<Rightarrow> AccAccepted role (qa_stage a) | Duplicate \<Rightarrow> AccDuplicate | Conflict \<Rightarrow> AccInvalid,
              a\<lparr>qa_reports := reports_set (qa_stage a) role slot (qa_reports a)\<rparr>)))"

definition response_reply :: "instant \<Rightarrow> quality_allocation \<Rightarrow> response_context" where
  "response_reply now a =
     \<lparr>rx_offer = (if now \<le> qa_stage_deadline a then Some (offer_for a Controller) else None),
       rx_peer_report = map_option vr_wire (reports_get (qa_reports a) (qa_stage a) Target)\<rparr>"

definition response_context ::
  "active_config \<Rightarrow> socket_addr \<Rightarrow> socket_addr \<Rightarrow> ip_addr \<Rightarrow> utext \<Rightarrow> probe_report option \<Rightarrow> instant
     \<Rightarrow> quality_state \<Rightarrow> response_context \<times> quality_state" where
  "response_context active initiator_route target_route target_ip target_id report now s0 =
     (case active_quality active of None \<Rightarrow> (empty_response_context, s0)
      | Some cfg \<Rightarrow>
          (let s = quality_cleanup now cfg s0;
               key = \<lparr>rk_initiator = normalize_socket initiator_route, rk_target_ip = normalize_ip target_ip\<rparr>;
               unbound = (if report \<noteq> None then binding_mismatch s else s)
           in case Option.bind (hm_get (q_routes s) key) (hm_get (q_allocations s)) of
                None \<Rightarrow> (empty_response_context, unbound)
              | Some a \<Rightarrow>
                  if qa_config_generation a \<noteq> ac_generation active
                     \<or> \<not> initial_response_source_matches a (normalize_socket target_route) (normalize_ip target_ip) target_id
                  then (empty_response_context, unbound)
                  else (case report of
                      None \<Rightarrow> (response_reply now a, s)
                    | Some r \<Rightarrow> (case accept_report r Target now a of (acc, a1) \<Rightarrow>
                        (response_reply now a1, account_report acc (put_allocation a1 s))))))"

section \<open>The controller's request\<close>

definition take_allocation :: "bytes \<Rightarrow> quality_state \<Rightarrow> quality_state" where
  "take_allocation aid s = s\<lparr>q_allocations := hm_remove aid (q_allocations s)\<rparr>"

definition finish ::
  "instant \<Rightarrow> quality_allocation \<Rightarrow> (quality_decision \<times> (cache_key \<times> utext) option \<times> fallback_accounting option) \<times> quality_state
     \<Rightarrow> relay_selection \<times> quality_state" where
  "finish now a r = (case r of ((d, cache_update, fallback), s) \<Rightarrow>
     record_final_decision now a d cache_update fallback s)"

definition finish_fallback ::
  "instant \<Rightarrow> quality_allocation \<Rightarrow> fallback_accounting \<Rightarrow> quality_state \<Rightarrow> relay_selection \<times> quality_state" where
  "finish_fallback now a fallback s =
     record_final_decision now a (fallback_decision a (qa_stage a) ProbeFailure) None (Some fallback) s"

text \<open>After the report is stored: accept the primary, expand, or decide.\<close>

definition resolve_request ::
  "instant \<Rightarrow> bytes \<Rightarrow> quality_allocation \<Rightarrow> quality_state \<Rightarrow> request_resolution \<times> quality_state" where
  "resolve_request now fresh_token a s =
     (case qa_stage a of
        Primary \<Rightarrow>
          if primary_is_good_enough a
          then (case primary_decision a of (d, cache_update) \<Rightarrow>
             (case record_final_decision now a d cache_update None
                 (s\<lparr>q_primary_accepted := bump (q_primary_accepted s),
                    q_estimated_probe_attempts_saved := sat_add (q_estimated_probe_attempts_saved s) (saved_by_primary a)\<rparr>)
              of (sel, s1) \<Rightarrow> (ReqSelected sel, s1)))
          else (let a1 = transition_to_expanded fresh_token a;
                    s1 = s\<lparr>q_expansions_triggered := bump (q_expansions_triggered s)\<rparr>
                in (ReqExpanded (offer_dispatch a1), put_allocation a1 s1))
      | EagerStage \<Rightarrow>
          (case finish now a (score_terminal_allocation now a EagerStage ExpandedBestScore s) of
             (sel, s1) \<Rightarrow> (ReqSelected sel, s1))
      | Expanded \<Rightarrow>
          if expanded_ready a
          then (case finish now a (score_terminal_allocation now a Expanded ExpandedBestScore s) of
             (sel, s1) \<Rightarrow> (ReqSelected sel, s1))
          else (ReqPending, put_allocation a s))"

definition request_bound ::
  "active_config \<Rightarrow> quality_allocation \<Rightarrow> socket_addr \<Rightarrow> ip_addr \<Rightarrow> ip_addr \<Rightarrow> utext \<Rightarrow> bool" where
  "request_bound active a source_route source_ip target_ip uuid \<longleftrightarrow>
     qa_config_generation a = ac_generation active \<and> source_matches a source_route source_ip Controller
     \<and> qa_target_ip a = target_ip \<and> uuid \<noteq> []
     \<and> (case qa_pending_uuid a of None \<Rightarrow> True | Some pending \<Rightarrow> pending = uuid)"

definition report_request ::
  "instant \<Rightarrow> bytes \<Rightarrow> probe_report \<Rightarrow> quality_allocation \<Rightarrow> quality_state \<Rightarrow> request_resolution \<times> quality_state" where
  "report_request now fresh_token report a s =
     (case accept_report report Controller now a of (acc, a1) \<Rightarrow>
        (case validate_report_until report a Controller now of
           Inl Late \<Rightarrow> (case finish_fallback now a FaReportLate (stage_timeout (report_late s)) of
               (sel, s1) \<Rightarrow> (ReqSelected sel, s1))
         | Inl StageMismatch \<Rightarrow> (ReqBlocked, put_allocation a (stage_mismatch s))
         | Inl InvalidReport \<Rightarrow> (case finish_fallback now a FaInvalidReport (report_invalid s) of
               (sel, s1) \<Rightarrow> (ReqSelected sel, s1))
         | Inr _ \<Rightarrow>
             if acc = AccInvalid then (ReqBlocked, put_allocation a1 (report_invalid s))
             else resolve_request now fresh_token a1 (account_report acc s)))"

definition replayed_request ::
  "active_config \<Rightarrow> bytes \<Rightarrow> probe_report option \<Rightarrow> decision_record \<Rightarrow> quality_state \<Rightarrow> request_resolution \<times> quality_state" where
  "replayed_request active explicit_allocation_id report r s =
     (let binding = (if explicit_allocation_id \<noteq> [] then explicit_allocation_id
            else (case report of None \<Rightarrow> [] | Some rep \<Rightarrow> pt_allocation_id rep))
      in if dr_config_generation r = ac_generation active \<and> binding = dr_allocation_id r
         then (ReqSelected \<lparr>se_decision = dr_decision r, se_target_ip = dr_target_ip r,
                 se_config_generation = dr_config_generation r\<rparr>, s)
         else (ReqBlocked, binding_mismatch s))"

definition new_request ::
  "active_config \<Rightarrow> socket_addr \<Rightarrow> ip_addr \<Rightarrow> ip_addr \<Rightarrow> utext \<Rightarrow> bytes \<Rightarrow> probe_report option \<Rightarrow> instant \<Rightarrow> bytes
     \<Rightarrow> quality_state \<Rightarrow> request_resolution \<times> quality_state" where
  "new_request active source_route source_ip target_ip uuid explicit_allocation_id report now fresh_token s =
     (if report = None \<and> explicit_allocation_id = [] then (ReqLegacy, s)
      else (case report of None \<Rightarrow> (ReqBlocked, report_invalid s)
        | Some rep \<Rightarrow>
            (let aid = pt_allocation_id rep in
             if (explicit_allocation_id \<noteq> [] \<and> explicit_allocation_id \<noteq> aid) \<or> length aid \<noteq> 16
             then (ReqBlocked, binding_mismatch s)
             else (case hm_get (q_allocations s) aid of None \<Rightarrow> (ReqBlocked, binding_mismatch s)
               | Some a \<Rightarrow>
                   if \<not> request_bound active a source_route source_ip target_ip uuid
                   then (ReqBlocked, binding_mismatch s)
                   else report_request now fresh_token rep (a\<lparr>qa_pending_uuid := Some uuid\<rparr>)
                          (take_allocation aid s)))))"

definition select_for_request ::
  "active_config \<Rightarrow> socket_addr \<Rightarrow> ip_addr \<Rightarrow> ip_addr \<Rightarrow> utext \<Rightarrow> bytes \<Rightarrow> probe_report option \<Rightarrow> instant \<Rightarrow> bytes
     \<Rightarrow> quality_state \<Rightarrow> request_resolution \<times> quality_state" where
  "select_for_request active source_route0 source_ip0 target_ip0 uuid explicit_allocation_id report now fresh_token s0 =
     (case active_quality active of None \<Rightarrow> (ReqLegacy, s0)
      | Some cfg \<Rightarrow>
          (let source_route = normalize_socket source_route0;
               source_ip = normalize_ip source_ip0;
               target_ip = normalize_ip target_ip0;
               s = quality_cleanup now cfg s0;
               key = \<lparr>qk_uuid = uuid, qk_initiator_ip = source_ip, qk_target_ip = target_ip\<rparr>
           in case (if uuid = [] then None else hm_get (q_request_decisions s) key) of
                Some r \<Rightarrow> replayed_request active explicit_allocation_id report r s
              | None \<Rightarrow> new_request active source_route source_ip target_ip uuid explicit_allocation_id report
                  now fresh_token s))"

section \<open>Stage reports\<close>

definition dispatch_finalized :: "relay_selection \<times> quality_state \<Rightarrow> stage_report_resolution \<times> quality_state" where
  "dispatch_finalized r = (case r of (sel, s) \<Rightarrow>
     (case hm_get (q_finalized s) (de_allocation_id (se_decision sel)) of None \<Rightarrow> (StgRejected, s)
      | Some f \<Rightarrow> (StgDispatch (finalized_decision_dispatch f), s)))"

text \<open>The decision at the end of a stage's time: partial scores, or the fallback without a controller report.\<close>

definition timed_out_decision ::
  "instant \<Rightarrow> fallback_accounting \<Rightarrow> quality_allocation \<Rightarrow> quality_state
     \<Rightarrow> (quality_decision \<times> (cache_key \<times> utext) option \<times> fallback_accounting option) \<times> quality_state" where
  "timed_out_decision now fallback a s =
     (if reports_get (qa_reports a) (qa_stage a) Controller \<noteq> None
      then score_terminal_allocation now a (qa_stage a) Partial s
      else ((fallback_decision a (qa_stage a) ProbeFailure, None, Some fallback), s))"

definition stage_terminal :: "quality_allocation \<Rightarrow> bool" where
  "stage_terminal a = (case qa_stage a of Expanded \<Rightarrow> expanded_ready a | EagerStage \<Rightarrow> eager_ready a | Primary \<Rightarrow> False)"

definition stage_accepted :: "instant \<Rightarrow> quality_allocation \<Rightarrow> quality_state \<Rightarrow> stage_report_resolution \<times> quality_state" where
  "stage_accepted now a s =
     (if \<not> stage_terminal a then (StgPending, put_allocation a s)
      else dispatch_finalized (finish now a (score_terminal_allocation now a (qa_stage a)
             (if stage_report_count a (qa_stage a) < 2 then Partial else ExpandedBestScore) s)))"

definition stage_report ::
  "instant \<Rightarrow> endpoint_role \<Rightarrow> probe_report \<Rightarrow> quality_allocation \<Rightarrow> quality_state \<Rightarrow> stage_report_resolution \<times> quality_state" where
  "stage_report now role report a s =
     (case accept_report report role now a of (acc, a1) \<Rightarrow>
        (case validate_report_until report a role now of
           Inl StageMismatch \<Rightarrow> (StgRejected, put_allocation a (stage_mismatch s))
         | Inl InvalidReport \<Rightarrow> (StgRejected, put_allocation a (report_invalid s))
         | Inl Late \<Rightarrow> dispatch_finalized (finish now a (timed_out_decision now FaReportLate a (stage_timeout (report_late s))))
         | Inr _ \<Rightarrow>
             if acc = AccInvalid then (StgRejected, put_allocation a1 (report_invalid s))
             else stage_accepted now a1 (account_report acc s)))"

definition finalized_replay ::
  "active_config \<Rightarrow> finalized_allocation \<Rightarrow> probe_report \<Rightarrow> socket_addr \<Rightarrow> ip_addr \<Rightarrow> endpoint_role \<Rightarrow> bool" where
  "finalized_replay active f report source_route source_ip role \<longleftrightarrow>
     fi_config_generation f = ac_generation active \<and> stage_wire (fi_stage f) = pt_stage report
     \<and> fi_stage_token f = pt_stage_token report \<and> finalized_source_matches f source_route source_ip role"

definition handle_stage_report ::
  "active_config \<Rightarrow> socket_addr \<Rightarrow> ip_addr \<Rightarrow> probe_report \<Rightarrow> instant \<Rightarrow> quality_state
     \<Rightarrow> stage_report_resolution \<times> quality_state" where
  "handle_stage_report active source_route0 source_ip0 report now s0 =
     (case active_quality active of None \<Rightarrow> (StgRejected, s0)
      | Some cfg \<Rightarrow>
          if length (pt_allocation_id report) \<noteq> 16 then (StgRejected, s0)
          else (case role_from_wire (pt_endpoint_role report) of None \<Rightarrow> (StgRejected, report_invalid s0)
            | Some role \<Rightarrow>
                (let aid = pt_allocation_id report;
                     source_route = normalize_socket source_route0;
                     source_ip = normalize_ip source_ip0;
                     s = quality_cleanup now cfg s0
                 in case hm_get (q_finalized s) aid of
                      Some f \<Rightarrow>
                        if finalized_replay active f report source_route source_ip role
                        then (StgDispatch (finalized_decision_dispatch f), report_duplicate s)
                        else (StgRejected, binding_mismatch s)
                    | None \<Rightarrow>
                        (case hm_get (q_allocations s) aid of None \<Rightarrow> (StgRejected, binding_mismatch s)
                         | Some a \<Rightarrow>
                             if qa_config_generation a \<noteq> ac_generation active
                                \<or> \<not> source_matches a source_route source_ip role
                             then (StgRejected, binding_mismatch s)
                             else stage_report now role report a (take_allocation aid s)))))"

section \<open>Cancellation, replies and deadlines\<close>

definition cancel_allocation ::
  "active_config \<Rightarrow> socket_addr \<Rightarrow> ip_addr \<Rightarrow> quality_cancel \<Rightarrow> instant \<Rightarrow> quality_state
     \<Rightarrow> stage_dispatch option \<times> quality_state" where
  "cancel_allocation active source_route source_ip cancel now s0 =
     (case active_quality active of None \<Rightarrow> (None, s0)
      | Some cfg \<Rightarrow>
          if cn_protocol_version cancel \<noteq> 1 \<or> length (cn_allocation_id cancel) \<noteq> 16
             \<or> cn_reason_code cancel \<notin> {1, 2} then (None, s0)
          else (case role_from_wire (cn_endpoint_role cancel) of None \<Rightarrow> (None, s0)
            | Some role \<Rightarrow>
                (let aid = cn_allocation_id cancel; s = quality_cleanup now cfg s0 in
                 case hm_get (q_allocations s) aid of None \<Rightarrow> (None, s)
                 | Some a \<Rightarrow>
                     if stage_wire (qa_stage a) \<noteq> cn_stage cancel \<or> qa_stage_token a \<noteq> cn_stage_token cancel
                        \<or> \<not> source_matches a (normalize_socket source_route) (normalize_ip source_ip) role
                     then (None, binding_mismatch s)
                     else
                       (let s1 = drop_routes aid (take_allocation aid s);
                            s2 = (if cn_reason_code cancel = 1
                              then s1\<lparr>q_p2p_cancellations := bump (q_p2p_cancellations s1),
                                      q_estimated_probe_attempts_saved :=
                                        sat_add (q_estimated_probe_attempts_saved s1) (saved_by_cancel a)\<rparr>
                              else s1)
                        in (Some (cancel_dispatch a cancel), s2)))))"

definition decision_for_response ::
  "active_config \<Rightarrow> utext \<Rightarrow> ip_addr \<Rightarrow> instant \<Rightarrow> quality_state \<Rightarrow> quality_decision option \<times> quality_state" where
  "decision_for_response active uuid source_ip now s0 =
     (if uuid = [] then (None, s0)
      else (case ac_config active of None \<Rightarrow> (None, s0)
        | Some c \<Rightarrow>
            (let s = quality_cleanup now (sc_relay_quality c) s0
             in (map_option dr_decision
                   (hm_get (q_decisions s) \<lparr>dk_uuid = uuid, dk_target_ip = normalize_ip source_ip\<rparr>), s))))"

definition deadline_passed :: "instant \<Rightarrow> quality_allocation \<Rightarrow> bool" where
  "deadline_passed now a \<longleftrightarrow> qa_pending_uuid a \<noteq> None \<and> (now > qa_stage_deadline a \<or> now > qa_total_deadline a)"

definition finalize_one :: "instant \<Rightarrow> bytes \<Rightarrow> stage_dispatch list \<times> quality_state \<Rightarrow> stage_dispatch list \<times> quality_state" where
  "finalize_one now aid acc = (case acc of (dispatches, s) \<Rightarrow>
     (case hm_get (q_allocations s) aid of None \<Rightarrow> (dispatches, s)
      | Some a \<Rightarrow>
          (case finish now a (timed_out_decision now FaProbeFailure a (stage_timeout (take_allocation aid s))) of
             (sel, s1) \<Rightarrow>
               (case hm_get (q_finalized s1) (de_allocation_id (se_decision sel)) of
                  None \<Rightarrow> (dispatches, s1)
                | Some f \<Rightarrow> (dispatches @ [finalized_decision_dispatch f], s1)))))"

definition finalize_expired :: "active_config \<Rightarrow> instant \<Rightarrow> quality_state \<Rightarrow> stage_dispatch list \<times> quality_state" where
  "finalize_expired active now s0 =
     (case active_quality active of None \<Rightarrow> ([], s0)
      | Some cfg \<Rightarrow>
          (let s = quality_cleanup now cfg s0;
               expired = map fst (take 64 (filter (\<lambda>(_, a). deadline_passed now a) (q_allocations s)))
           in foldl (\<lambda>acc aid. finalize_one now aid acc) ([], s) expired))"

section \<open>Observation\<close>

text \<open>
  The runtime snapshot cleans up first, under the default configuration when there is none.  Its
  counters are copies of those of the cleaned state, which \<open>rt_counters\<close> stands for.
\<close>

record quality_runtime =
  rt_protocol_version :: u32
  rt_strategy :: utext
  rt_enabled :: bool
  rt_active_allocations :: nat
  rt_cached_network_pairs :: nat
  rt_pending_decisions :: nat
  rt_counters :: quality_state

definition quality_runtime_snapshot :: "active_config \<Rightarrow> instant \<Rightarrow> quality_state \<Rightarrow> quality_runtime \<times> quality_state" where
  "quality_runtime_snapshot active now s0 =
     (let cfg = (case ac_config active of None \<Rightarrow> relay_quality_config_default | Some c \<Rightarrow> sc_relay_quality c);
          s = quality_cleanup now cfg s0
      in (\<lparr>rt_protocol_version = 1,
            rt_strategy = (case qc_strategy cfg of Adaptive \<Rightarrow> lit ''adaptive'' | Eager \<Rightarrow> lit ''eager''),
            rt_enabled = qc_enabled cfg, rt_active_allocations = hm_len (q_allocations s),
            rt_cached_network_pairs = hm_len (q_cache s), rt_pending_decisions = hm_len (q_decisions s),
            rt_counters = s\<rparr>, s))"

end
