(* ===== verification/Relay_Quality_System.thy ===== *)
theory Relay_Quality_System
  imports Relay_Quality
begin

text \<open>
  The operations of relay quality selection as a transition system, and its invariant: every table
  is within the configured bound, and routes and allocations are in one-to-one correspondence, so
  that no route dangles.
\<close>

section \<open>Frames\<close>

lemmas counter_defs = binding_mismatch_def report_invalid_def report_duplicate_def stage_mismatch_def
  report_late_def stage_timeout_def record_offer_skipped_def

lemma binding_mismatch_frame [simp]:
  "q_allocations (binding_mismatch s) = q_allocations s" "q_routes (binding_mismatch s) = q_routes s"
  "q_finalized (binding_mismatch s) = q_finalized s" "q_request_decisions (binding_mismatch s) = q_request_decisions s"
  "q_decisions (binding_mismatch s) = q_decisions s" "q_cache (binding_mismatch s) = q_cache s"
  "q_relay_selections (binding_mismatch s) = q_relay_selections s"
  by (simp_all add: binding_mismatch_def)

lemma report_invalid_frame [simp]:
  "q_allocations (report_invalid s) = q_allocations s" "q_routes (report_invalid s) = q_routes s"
  "q_finalized (report_invalid s) = q_finalized s" "q_request_decisions (report_invalid s) = q_request_decisions s"
  "q_decisions (report_invalid s) = q_decisions s" "q_cache (report_invalid s) = q_cache s"
  "q_relay_selections (report_invalid s) = q_relay_selections s"
  by (simp_all add: report_invalid_def)

lemma report_duplicate_frame [simp]:
  "q_allocations (report_duplicate s) = q_allocations s" "q_routes (report_duplicate s) = q_routes s"
  "q_finalized (report_duplicate s) = q_finalized s" "q_request_decisions (report_duplicate s) = q_request_decisions s"
  "q_decisions (report_duplicate s) = q_decisions s" "q_cache (report_duplicate s) = q_cache s"
  "q_relay_selections (report_duplicate s) = q_relay_selections s"
  by (simp_all add: report_duplicate_def)

lemma stage_mismatch_frame [simp]:
  "q_allocations (stage_mismatch s) = q_allocations s" "q_routes (stage_mismatch s) = q_routes s"
  "q_finalized (stage_mismatch s) = q_finalized s" "q_request_decisions (stage_mismatch s) = q_request_decisions s"
  "q_decisions (stage_mismatch s) = q_decisions s" "q_cache (stage_mismatch s) = q_cache s"
  "q_relay_selections (stage_mismatch s) = q_relay_selections s"
  by (simp_all add: stage_mismatch_def)

lemma report_late_frame [simp]:
  "q_allocations (report_late s) = q_allocations s" "q_routes (report_late s) = q_routes s"
  "q_finalized (report_late s) = q_finalized s" "q_request_decisions (report_late s) = q_request_decisions s"
  "q_decisions (report_late s) = q_decisions s" "q_cache (report_late s) = q_cache s"
  "q_relay_selections (report_late s) = q_relay_selections s"
  by (simp_all add: report_late_def)

lemma stage_timeout_frame [simp]:
  "q_allocations (stage_timeout s) = q_allocations s" "q_routes (stage_timeout s) = q_routes s"
  "q_finalized (stage_timeout s) = q_finalized s" "q_request_decisions (stage_timeout s) = q_request_decisions s"
  "q_decisions (stage_timeout s) = q_decisions s" "q_cache (stage_timeout s) = q_cache s"
  "q_relay_selections (stage_timeout s) = q_relay_selections s"
  by (simp_all add: stage_timeout_def)

lemma record_offer_skipped_frame [simp]:
  "q_allocations (record_offer_skipped r s) = q_allocations s" "q_routes (record_offer_skipped r s) = q_routes s"
  "q_finalized (record_offer_skipped r s) = q_finalized s"
  "q_request_decisions (record_offer_skipped r s) = q_request_decisions s"
  "q_decisions (record_offer_skipped r s) = q_decisions s" "q_cache (record_offer_skipped r s) = q_cache s"
  "q_relay_selections (record_offer_skipped r s) = q_relay_selections s"
  by (simp_all add: record_offer_skipped_def Let_def)

lemma account_report_frame [simp]:
  "q_allocations (account_report r s) = q_allocations s" "q_routes (account_report r s) = q_routes s"
  "q_finalized (account_report r s) = q_finalized s"
  "q_request_decisions (account_report r s) = q_request_decisions s"
  "q_decisions (account_report r s) = q_decisions s" "q_cache (account_report r s) = q_cache s"
  "q_relay_selections (account_report r s) = q_relay_selections s"
  by (cases r; simp add: Let_def split: endpoint_role.split)+

lemma put_allocation_frame [simp]:
  "q_allocations (put_allocation a s) = hm_insert (qa_allocation_id a) a (q_allocations s)"
  "q_routes (put_allocation a s) = q_routes s"
  "q_finalized (put_allocation a s) = q_finalized s"
  "q_request_decisions (put_allocation a s) = q_request_decisions s"
  "q_decisions (put_allocation a s) = q_decisions s" "q_cache (put_allocation a s) = q_cache s"
  "q_relay_selections (put_allocation a s) = q_relay_selections s"
  by (simp_all add: put_allocation_def)

lemma take_allocation_frame [simp]:
  "q_allocations (take_allocation k s) = hm_remove k (q_allocations s)"
  "q_routes (take_allocation k s) = q_routes s"
  "q_finalized (take_allocation k s) = q_finalized s"
  "q_request_decisions (take_allocation k s) = q_request_decisions s"
  "q_decisions (take_allocation k s) = q_decisions s" "q_cache (take_allocation k s) = q_cache s"
  "q_relay_selections (take_allocation k s) = q_relay_selections s"
  by (simp_all add: take_allocation_def)

lemma drop_routes_frame [simp]:
  "q_allocations (drop_routes k s) = q_allocations s"
  "q_routes (drop_routes k s) = hm_retain (\<lambda>_ v. v \<noteq> k) (q_routes s)"
  "q_finalized (drop_routes k s) = q_finalized s"
  "q_request_decisions (drop_routes k s) = q_request_decisions s"
  "q_decisions (drop_routes k s) = q_decisions s" "q_cache (drop_routes k s) = q_cache s"
  "q_relay_selections (drop_routes k s) = q_relay_selections s"
  by (simp_all add: drop_routes_def)

text \<open>Scoring touches two counters only.\<close>

lemma score_terminal_frame [simp]:
  "q_allocations (snd (score_terminal_allocation now a st r s)) = q_allocations s"
  "q_routes (snd (score_terminal_allocation now a st r s)) = q_routes s"
  "q_finalized (snd (score_terminal_allocation now a st r s)) = q_finalized s"
  "q_request_decisions (snd (score_terminal_allocation now a st r s)) = q_request_decisions s"
  "q_decisions (snd (score_terminal_allocation now a st r s)) = q_decisions s"
  "q_cache (snd (score_terminal_allocation now a st r s)) = q_cache s"
  "q_relay_selections (snd (score_terminal_allocation now a st r s)) = q_relay_selections s"
  by (simp_all add: score_terminal_allocation_def apply_hysteresis_def Let_def split: option.split)

lemma timed_out_frame [simp]:
  "q_allocations (snd (timed_out_decision now f a s)) = q_allocations s"
  "q_routes (snd (timed_out_decision now f a s)) = q_routes s"
  "q_finalized (snd (timed_out_decision now f a s)) = q_finalized s"
  "q_request_decisions (snd (timed_out_decision now f a s)) = q_request_decisions s"
  "q_decisions (snd (timed_out_decision now f a s)) = q_decisions s"
  "q_cache (snd (timed_out_decision now f a s)) = q_cache s"
  "q_relay_selections (snd (timed_out_decision now f a s)) = q_relay_selections s"
  by (simp_all add: timed_out_decision_def)

section \<open>Bounded tables\<close>

definition table_ok :: "nat \<Rightarrow> ('k, 'v) hmap \<Rightarrow> bool" where
  "table_ok M m \<longleftrightarrow> hm_ok m \<and> hm_len m \<le> M"

lemma table_ok_empty [simp]: "table_ok M []"
  by (simp add: table_ok_def)

lemma table_ok_retain: "table_ok M m \<Longrightarrow> table_ok M (hm_retain P m)"
  by (simp add: table_ok_def hm.retain_within_capacity)

lemma table_ok_remove: "table_ok M m \<Longrightarrow> table_ok M (hm_remove k m)"
  by (simp add: table_ok_def hm.del_within_capacity)

lemma oldest_present: "oldest now f m = Some k \<Longrightarrow> hm_get m k \<noteq> None"
  using oldest_in [of now f m k] by (simp add: hm_get_def map_of_eq_None_iff)

lemma table_ok_insert_bounded:
  assumes "table_ok M m" "limit \<le> M" "1 \<le> M"
  shows "table_ok M (insert_bounded now f limit k v m)"
proof (cases "\<not> hm_contains m k \<and> hm_len m \<ge> limit")
  case False
  then show ?thesis using assms hm.put_within_capacity [of m M k v]
    by (auto simp: insert_bounded_def table_ok_def hm_contains_def)
next
  case True
  show ?thesis
  proof (cases "oldest now f m")
    case None
    then have "m = []" by (simp add: oldest_None)
    then show ?thesis using assms True None
      by (simp add: insert_bounded_def table_ok_def remove_oldest_def hm.len_put)
  next
    case (Some k')
    then show ?thesis using assms True hm.evict_then_put [of m k' M k v] oldest_present [OF Some]
      by (simp add: insert_bounded_def table_ok_def remove_oldest_def)
  qed
qed

lemma hm_get_insert_bounded [simp]: "hm_get (insert_bounded now f limit k v m) k = Some v"
  by (simp add: insert_bounded_def)

definition tables_inv :: "nat \<Rightarrow> quality_state \<Rightarrow> bool" where
  "tables_inv M s \<longleftrightarrow> table_ok M (q_finalized s) \<and> table_ok M (q_request_decisions s)
     \<and> table_ok M (q_decisions s) \<and> table_ok M (q_cache s) \<and> table_ok 256 (q_relay_selections s)"

section \<open>Allocations and routes\<close>

definition alloc_inv :: "nat \<Rightarrow> quality_state \<Rightarrow> bool" where
  "alloc_inv M s \<longleftrightarrow> hm_ok (q_allocations s) \<and> hm_ok (q_routes s)
     \<and> (\<forall>k a. hm_get (q_allocations s) k = Some a \<longrightarrow> qa_allocation_id a = k
          \<and> hm_get (q_routes s) (allocation_route a) = Some k \<and> max_entries a \<le> M)
     \<and> (\<forall>rk k. hm_get (q_routes s) rk = Some k \<longrightarrow>
          (\<exists>a. hm_get (q_allocations s) k = Some a \<and> allocation_route a = rk))"

lemma alloc_invD:
  assumes "alloc_inv M s" "hm_get (q_allocations s) k = Some a"
  shows "qa_allocation_id a = k" "hm_get (q_routes s) (allocation_route a) = Some k" "max_entries a \<le> M"
  using assms by (auto simp: alloc_inv_def)

lemma alloc_inv_tables: "alloc_inv M s \<Longrightarrow> hm_ok (q_allocations s)" "alloc_inv M s \<Longrightarrow> hm_ok (q_routes s)"
  by (auto simp only: alloc_inv_def)

lemma alloc_inv_route:
  "alloc_inv M s \<Longrightarrow> hm_get (q_routes s) rk = Some k \<Longrightarrow>
     \<exists>a. hm_get (q_allocations s) k = Some a \<and> allocation_route a = rk"
  by (auto simp only: alloc_inv_def)

lemma alloc_inv_ext:
  assumes "alloc_inv M s" "\<And>k. hm_get (q_allocations s') k = hm_get (q_allocations s) k"
    "hm_ok (q_allocations s')" "\<And>k. hm_get (q_routes s') k = hm_get (q_routes s) k" "hm_ok (q_routes s')"
  shows "alloc_inv M s'"
  using assms by (simp add: alloc_inv_def)

lemma alloc_inv_cong:
  "q_allocations s = q_allocations s' \<Longrightarrow> q_routes s = q_routes s' \<Longrightarrow> alloc_inv M s = alloc_inv M s'"
  by (simp add: alloc_inv_def)

lemma tables_inv_cong:
  "q_finalized s = q_finalized s' \<Longrightarrow> q_request_decisions s = q_request_decisions s' \<Longrightarrow>
   q_decisions s = q_decisions s' \<Longrightarrow> q_cache s = q_cache s' \<Longrightarrow>
   q_relay_selections s = q_relay_selections s' \<Longrightarrow> tables_inv M s = tables_inv M s'"
  by (simp add: tables_inv_def)

text \<open>
  Removing a set of allocations with their routes keeps the correspondence: the step of the
  clean-up, of an eviction and of every end of an allocation.
\<close>

lemma alloc_inv_retain:
  assumes inv: "alloc_inv M s"
    and al: "q_allocations s' = hm_retain (\<lambda>k _. k \<notin> D) (q_allocations s)"
    and ro: "q_routes s' = hm_retain (\<lambda>_ k. k \<notin> D) (q_routes s)"
  shows "alloc_inv M s'"
proof -
  have ok: "hm_ok (q_allocations s)" "hm_ok (q_routes s)" using alloc_inv_tables [OF inv] by simp_all
  note ga = hm.retain_subset [OF ok(1)] and gr = hm.retain_subset [OF ok(2)]
  have "hm_ok (q_allocations s')" "hm_ok (q_routes s')"
    using ok by (simp_all add: al ro)
  then show ?thesis using inv unfolding alloc_inv_def al ro ga gr by blast
qed

text \<open>Between taking an allocation out and putting it back or finishing it.\<close>

definition hole :: "nat \<Rightarrow> quality_allocation \<Rightarrow> quality_state \<Rightarrow> bool" where
  "hole M a s \<longleftrightarrow> alloc_inv M (put_allocation a s) \<and> hm_get (q_allocations s) (qa_allocation_id a) = None
     \<and> hm_ok (q_allocations s)"

lemma hole_cong:
  "q_allocations s = q_allocations s' \<Longrightarrow> q_routes s = q_routes s' \<Longrightarrow> hole M a s = hole M a s'"
  by (simp add: hole_def alloc_inv_def)

definition same_place :: "quality_allocation \<Rightarrow> quality_allocation \<Rightarrow> bool" where
  "same_place a a' \<longleftrightarrow> qa_allocation_id a' = qa_allocation_id a \<and> allocation_route a' = allocation_route a
     \<and> qa_config a' = qa_config a"

lemma hole_same_place:
  assumes "hole M a s" "same_place a a'"
  shows "hole M a' s"
proof -
  have inv: "alloc_inv M (put_allocation a s)" and none: "hm_get (q_allocations s) (qa_allocation_id a) = None"
    and ok: "hm_ok (q_allocations s)" using assms(1) by (auto simp: hole_def)
  have same: "qa_allocation_id a' = qa_allocation_id a" "allocation_route a' = allocation_route a"
    "max_entries a' = max_entries a" using assms(2) by (auto simp: same_place_def max_entries_def)
  have "alloc_inv M (put_allocation a' s)"
    unfolding alloc_inv_def
  proof (intro conjI allI impI)
    show "hm_ok (q_allocations (put_allocation a' s))" "hm_ok (q_routes (put_allocation a' s))"
      using alloc_inv_tables [OF inv] ok by simp_all
  next
    fix k b assume b: "hm_get (q_allocations (put_allocation a' s)) k = Some b"
    have "qa_allocation_id b = k \<and> hm_get (q_routes s) (allocation_route b) = Some k \<and> max_entries b \<le> M"
    proof (cases "k = qa_allocation_id a")
      case True
      then have "b = a'" using b same(1) by simp
      have "hm_get (q_allocations (put_allocation a s)) k = Some a" using True by simp
      note d = alloc_invD [OF inv this]
      show ?thesis unfolding \<open>b = a'\<close> same using d True by simp
    next
      case False
      then have "hm_get (q_allocations (put_allocation a s)) k = Some b" using b same(1) by simp
      from alloc_invD [OF inv this] show ?thesis by simp
    qed
    then show "qa_allocation_id b = k" "hm_get (q_routes (put_allocation a' s)) (allocation_route b) = Some k"
      "max_entries b \<le> M" by simp_all
  next
    fix rk k assume "hm_get (q_routes (put_allocation a' s)) rk = Some k"
    then have "\<exists>b. hm_get (q_allocations (put_allocation a s)) k = Some b \<and> allocation_route b = rk"
      using alloc_inv_route [OF inv] by simp
    then show "\<exists>b. hm_get (q_allocations (put_allocation a' s)) k = Some b \<and> allocation_route b = rk"
      using same(1,2) by (cases "k = qa_allocation_id a") simp_all
  qed
  then show ?thesis using none ok by (simp add: hole_def same)
qed

lemma take_makes_hole:
  assumes inv: "alloc_inv M s" and a: "hm_get (q_allocations s) k = Some a"
  shows "hole M a (take_allocation k s)"
proof -
  have k: "qa_allocation_id a = k" by (rule alloc_invD [OF inv a])
  have ok: "hm_ok (q_allocations s)" "hm_ok (q_routes s)" using alloc_inv_tables [OF inv] by simp_all
  have "alloc_inv M (put_allocation a (take_allocation k s))"
    by (intro alloc_inv_ext [OF inv]) (auto simp: k a ok)
  then show ?thesis by (simp add: hole_def k ok)
qed

lemma hole_put: "hole M a s \<Longrightarrow> alloc_inv M (put_allocation a s)"
  by (simp add: hole_def)

lemma hole_drop:
  assumes "hole M a s"
  shows "alloc_inv M (drop_routes (qa_allocation_id a) s)"
proof -
  let ?k = "qa_allocation_id a"
  let ?s = "put_allocation a s"
  let ?t = "s\<lparr>q_allocations := hm_retain (\<lambda>k _. k \<notin> {?k}) (q_allocations ?s),
      q_routes := hm_retain (\<lambda>_ k. k \<notin> {?k}) (q_routes ?s)\<rparr>"
  have inv: "alloc_inv M ?s" and none: "hm_get (q_allocations s) ?k = None" and ok: "hm_ok (q_allocations s)"
    using assms by (auto simp: hole_def)
  have ok': "hm_ok (q_routes s)" using alloc_inv_tables [OF inv] by simp
  have "alloc_inv M ?t" by (rule alloc_inv_retain [OF inv, where D = "{?k}"]) simp_all
  then show ?thesis
    by (rule alloc_inv_ext) (auto simp: hm.get_retain ok ok' none split: option.split)
qed

lemma hole_max_entries: "hole M a s \<Longrightarrow> max_entries a \<le> M"
  using alloc_invD(3) [of M "put_allocation a s" "qa_allocation_id a" a] by (simp add: hole_def)

lemma hole_remove_other:
  assumes "hole M a s" "hm_get (q_allocations s) k = Some b"
  shows "hole M a (drop_routes k (take_allocation k s))"
proof -
  have inv: "alloc_inv M (put_allocation a s)" and none: "hm_get (q_allocations s) (qa_allocation_id a) = None"
    and ok: "hm_ok (q_allocations s)" using assms(1) by (auto simp: hole_def)
  have ne: "k \<noteq> qa_allocation_id a" using none assms(2) by auto
  then have "hm_get (q_allocations (put_allocation a s)) k = Some b" using assms(2) by simp
  from hole_drop [OF take_makes_hole [OF inv this]] alloc_invD(1) [OF inv this]
  have d: "alloc_inv M (drop_routes k (take_allocation k (put_allocation a s)))" by simp
  have "alloc_inv M (put_allocation a (drop_routes k (take_allocation k s)))"
    by (rule alloc_inv_ext [OF d]) (use ne ok alloc_inv_tables(2) [OF inv] in auto)
  then show ?thesis using none ok by (simp add: hole_def)
qed

section \<open>The invariant and its preservation\<close>

definition quality_inv :: "nat \<Rightarrow> quality_state \<Rightarrow> bool" where
  "quality_inv M s \<longleftrightarrow> alloc_inv M s \<and> hm_len (q_allocations s) \<le> M \<and> tables_inv M s"

lemma record_relay_selection_frame [simp]:
  "q_allocations (record_relay_selection r s) = q_allocations s" "q_routes (record_relay_selection r s) = q_routes s"
  "q_finalized (record_relay_selection r s) = q_finalized s"
  "q_request_decisions (record_relay_selection r s) = q_request_decisions s"
  "q_decisions (record_relay_selection r s) = q_decisions s" "q_cache (record_relay_selection r s) = q_cache s"
  by (simp_all add: record_relay_selection_def split: option.split)

lemma record_relay_selection_bound:
  "table_ok 256 (q_relay_selections s) \<Longrightarrow> table_ok 256 (q_relay_selections (record_relay_selection r s))"
  by (auto simp: record_relay_selection_def table_ok_def hm.len_put split: option.split)

lemma record_final_frame [simp]:
  "q_allocations (snd (record_final_decision now a d cu fb s)) = q_allocations s"
  "q_routes (snd (record_final_decision now a d cu fb s)) = hm_retain (\<lambda>_ v. v \<noteq> qa_allocation_id a) (q_routes s)"
  "q_finalized (snd (record_final_decision now a d cu fb s)) =
     insert_bounded now fi_created (max_entries a) (qa_allocation_id a) (finalized_of now a d) (q_finalized s)"
  by (auto simp: record_final_decision_def record_finalized_def record_request_def count_decision_def
      record_cache_def split: option.split)

lemma record_final_inv:
  assumes "hole M a s" "hm_len (q_allocations s) \<le> M" "tables_inv M s" "1 \<le> M"
  shows "quality_inv M (snd (record_final_decision now a d cu fb s))"
proof -
  note bounded = table_ok_insert_bounded [OF _ hole_max_entries [OF assms(1)] assms(4)]
  have "alloc_inv M (snd (record_final_decision now a d cu fb s))"
    using hole_drop [OF assms(1)] by (rule alloc_inv_cong [THEN iffD1, rotated 2]) simp_all
  moreover have "tables_inv M (snd (record_final_decision now a d cu fb s))"
    using assms(3)
    by (auto simp: tables_inv_def record_final_decision_def record_finalized_def record_request_def
        count_decision_def record_cache_def intro!: bounded record_relay_selection_bound split: option.split)
  ultimately show ?thesis using assms(2) by (simp add: quality_inv_def)
qed

lemma cleanup_retains:
  fixes s :: quality_state and now cfg
  defines "D \<equiv> set (map fst (filter (\<lambda>(_, a). quality_allocation_expired now cfg a) (q_allocations s)))"
  shows "q_allocations (quality_cleanup now cfg s) = hm_retain (\<lambda>k _. k \<notin> D) (q_allocations s)"
    and "q_routes (quality_cleanup now cfg s) = hm_retain (\<lambda>_ k. k \<notin> D) (q_routes s)"
proof -
  let ?ids = "map fst (filter (\<lambda>(_, a). quality_allocation_expired now cfg a) (q_allocations s))"
  have all: "hm_retain (\<lambda>_ _. True) m = m" for m :: "('k, 'v) hmap" by (simp add: hm_retain_def)
  have "q_allocations (quality_cleanup now cfg s) = hm_retain (\<lambda>k _. k \<notin> D) (q_allocations s)
    \<and> q_routes (quality_cleanup now cfg s) = hm_retain (\<lambda>_ k. k \<notin> D) (q_routes s)"
  proof (cases "?ids = []")
    case True
    then have "D = {}" by (simp add: D_def del: map_is_Nil_conv)
    with True show ?thesis by (simp add: quality_cleanup_def cleanup_allocations_def Let_def all)
  next
    case False
    then show ?thesis by (simp add: quality_cleanup_def cleanup_allocations_def Let_def D_def)
  qed
  then show "q_allocations (quality_cleanup now cfg s) = hm_retain (\<lambda>k _. k \<notin> D) (q_allocations s)"
    "q_routes (quality_cleanup now cfg s) = hm_retain (\<lambda>_ k. k \<notin> D) (q_routes s)" by blast+
qed

lemma cleanup_inv: "quality_inv M s \<Longrightarrow> quality_inv M (quality_cleanup now cfg s)"
proof -
  assume inv: "quality_inv M s"
  define D where "D = set (map fst (filter (\<lambda>(_, a). quality_allocation_expired now cfg a) (q_allocations s)))"
  have al: "q_allocations (quality_cleanup now cfg s) = hm_retain (\<lambda>k _. k \<notin> D) (q_allocations s)"
    and ro: "q_routes (quality_cleanup now cfg s) = hm_retain (\<lambda>_ k. k \<notin> D) (q_routes s)"
    by (simp_all only: cleanup_retains D_def)
  have "alloc_inv M (quality_cleanup now cfg s)"
    using inv alloc_inv_retain [OF _ al ro] by (simp add: quality_inv_def)
  moreover have "hm_len (q_allocations (quality_cleanup now cfg s)) \<le> M"
    using inv hm.retain_within_capacity unfolding al quality_inv_def by blast
  moreover have "tables_inv M (quality_cleanup now cfg s)"
    using inv by (auto simp: quality_inv_def tables_inv_def quality_cleanup_def cleanup_allocations_def Let_def
        intro: table_ok_retain)
  ultimately show ?thesis by (simp add: quality_inv_def)
qed

lemma counters_inv:
  assumes "quality_inv M s" "q_allocations s' = q_allocations s" "q_routes s' = q_routes s"
    "q_finalized s' = q_finalized s" "q_request_decisions s' = q_request_decisions s"
    "q_decisions s' = q_decisions s" "q_cache s' = q_cache s" "q_relay_selections s' = q_relay_selections s"
  shows "quality_inv M s'"
  using assms alloc_inv_cong [of s' s M] tables_inv_cong [of s' s M] by (simp add: quality_inv_def)

lemma put_back_inv:
  assumes "hole M a s" "hm_len (q_allocations s) < M" "tables_inv M s"
  shows "quality_inv M (put_allocation a s)"
  using assms hole_put [OF assms(1)]
  by (auto simp: quality_inv_def tables_inv_def hole_def hm.len_put)

section \<open>Preservation by the operations\<close>

lemma accept_report_same_place: "same_place a (snd (accept_report report role now a))"
  by (auto simp: accept_report_def same_place_def allocation_route_def split: sum.splits prod.splits report_rejection.splits)

lemma take_length:
  "alloc_inv M s \<Longrightarrow> hm_len (q_allocations s) \<le> M \<Longrightarrow> hm_get (q_allocations s) k = Some a \<Longrightarrow>
     hm_len (q_allocations (take_allocation k s)) < M"
  using hm.len_pos [of "q_allocations s" k] alloc_inv_tables(1) [of M s] by (auto simp: hm.len_del)

text \<open>The state an operation works on after it has taken an allocation out.\<close>

definition taken :: "nat \<Rightarrow> quality_allocation \<Rightarrow> quality_state \<Rightarrow> bool" where
  "taken M a s \<longleftrightarrow> hole M a s \<and> hm_len (q_allocations s) < M \<and> tables_inv M s"

lemma takenI:
  assumes "quality_inv M s" "hm_get (q_allocations s) k = Some a"
  shows "taken M a (take_allocation k s)"
  using assms take_makes_hole [of M s k a] take_length [of M s k a]
  by (simp add: taken_def quality_inv_def tables_inv_def)

lemma taken_same_place: "taken M a s \<Longrightarrow> same_place a a' \<Longrightarrow> taken M a' s"
  by (auto simp: taken_def intro: hole_same_place)

lemma taken_cong:
  assumes "taken M a s" "q_allocations s' = q_allocations s" "q_routes s' = q_routes s"
    "q_finalized s' = q_finalized s" "q_request_decisions s' = q_request_decisions s"
    "q_decisions s' = q_decisions s" "q_cache s' = q_cache s" "q_relay_selections s' = q_relay_selections s"
  shows "taken M a s'"
  using assms hole_cong [of s' s M a] tables_inv_cong [of s' s M] by (simp add: taken_def)

lemma taken_put: "taken M a s \<Longrightarrow> quality_inv M (put_allocation a s)"
  by (simp add: taken_def put_back_inv)

lemma taken_final:
  "taken M a s \<Longrightarrow> quality_inv M (snd (record_final_decision now a d cu fb s))"
  by (rule record_final_inv) (auto simp: taken_def)

lemma taken_finish: "taken M a (snd r) \<Longrightarrow> quality_inv M (snd (finish now a r))"
  by (auto simp: finish_def split: prod.split intro: taken_final)

lemma taken_score: "taken M a s \<Longrightarrow> taken M a (snd (score_terminal_allocation now a' st r s))"
  by (erule taken_cong) simp_all

lemma taken_timed_out: "taken M a s \<Longrightarrow> taken M a (snd (timed_out_decision now f a' s))"
  by (erule taken_cong) simp_all

lemma resolve_request_inv:
  assumes "taken M a s"
  shows "quality_inv M (snd (resolve_request now tok a s))"
proof (cases "qa_stage a")
  case Primary
  have "taken M a (s\<lparr>q_primary_accepted := c, q_estimated_probe_attempts_saved := d\<rparr>)" for c d
    using assms by (rule taken_cong) simp_all
  note final = taken_final [OF this]
  have "taken M (transition_to_expanded tok a) (s\<lparr>q_expansions_triggered := c\<rparr>)" for c
    using assms by (rule taken_cong [OF taken_same_place]) (simp_all add: same_place_def transition_to_expanded_def allocation_route_def)
  note put = taken_put [OF this]
  show ?thesis using final put
    by (simp add: resolve_request_def Primary Let_def split_def)
next
  case Expanded
  note f = taken_finish [OF taken_score [OF assms]] and p = taken_put [OF assms]
  show ?thesis using f p by (simp add: resolve_request_def Expanded split_def)
next
  case EagerStage
  note f = taken_finish [OF taken_score [OF assms]]
  show ?thesis using f by (simp add: resolve_request_def EagerStage split_def)
qed

lemma report_request_inv:
  assumes "taken M a s"
  shows "quality_inv M (snd (report_request now tok report a s))"
proof -
  let ?a = "snd (accept_report report Controller now a)"
  have a1: "taken M ?a s" by (rule taken_same_place [OF assms accept_report_same_place])
  have late: "quality_inv M (snd (finish_fallback now a fb (stage_timeout (report_late s))))" for fb
    unfolding finish_fallback_def by (rule taken_final, rule taken_cong [OF assms]) simp_all
  have bad: "quality_inv M (snd (finish_fallback now a fb (report_invalid s)))" for fb
    unfolding finish_fallback_def by (rule taken_final, rule taken_cong [OF assms]) simp_all
  have mis: "quality_inv M (put_allocation a (stage_mismatch s))"
    by (rule taken_put, rule taken_cong [OF assms]) simp_all
  have inv: "quality_inv M (put_allocation ?a (report_invalid s))"
    by (rule taken_put, rule taken_cong [OF a1]) simp_all
  have res: "quality_inv M (snd (resolve_request now tok ?a (account_report acc s)))" for acc
    by (rule resolve_request_inv, rule taken_cong [OF a1]) simp_all
  show ?thesis
  proof (cases "validate_report_until report a Controller now")
    case (Inl rej)
    then show ?thesis using late bad mis
      by (cases rej) (simp_all add: report_request_def split_def)
  next
    case (Inr v)
    then show ?thesis using inv res by (simp add: report_request_def split_def)
  qed
qed

lemma new_request_inv:
  assumes "quality_inv M s"
  shows "quality_inv M (snd (new_request active route ip tip uuid eid report now tok s))"
proof -
  have bm: "quality_inv M (binding_mismatch s)" and ri: "quality_inv M (report_invalid s)"
    by (rule counters_inv [OF assms]; simp)+
  have "quality_inv M (snd (report_request now tok rep (a\<lparr>qa_pending_uuid := u\<rparr>) (take_allocation k s)))"
    if "hm_get (q_allocations s) k = Some a" for rep k a u
    by (rule report_request_inv, rule taken_same_place [OF takenI [OF assms that]])
      (simp add: same_place_def allocation_route_def)
  then show ?thesis using assms bm ri
    by (auto simp: new_request_def Let_def split: option.split)
qed

lemma select_for_request_inv:
  assumes "quality_inv M s"
  shows "quality_inv M (snd (select_for_request active route ip tip uuid eid report now tok s))"
proof -
  have c: "quality_inv M (quality_cleanup now cfg s)" for cfg by (rule cleanup_inv [OF assms])
  have "quality_inv M (snd (replayed_request active eid report r (quality_cleanup now cfg s)))" for r cfg
    using c counters_inv [OF c, of "binding_mismatch (quality_cleanup now cfg s)"]
    by (simp add: replayed_request_def Let_def)
  then show ?thesis using assms new_request_inv [OF c]
    by (simp add: select_for_request_def Let_def split: option.split)
qed

lemma put_again_inv:
  assumes "quality_inv M s" "hm_get (q_allocations s) k = Some a" "same_place a a'"
  shows "quality_inv M (put_allocation a' s)"
proof -
  have k: "qa_allocation_id a' = k"
    using assms alloc_invD(1) [of M s k a] by (simp add: quality_inv_def same_place_def)
  have "quality_inv M (put_allocation a' (take_allocation k s))"
    by (rule taken_put, rule taken_same_place [OF takenI [OF assms(1,2)] assms(3)])
  then have inv: "alloc_inv M (put_allocation a' (take_allocation k s))"
    "tables_inv M (put_allocation a' (take_allocation k s))" by (simp_all add: quality_inv_def)
  have ok: "hm_ok (q_allocations s)" "hm_len (q_allocations s) \<le> M" "hm_ok (q_routes s)"
    using assms(1) alloc_inv_tables by (auto simp: quality_inv_def)
  have "alloc_inv M (put_allocation a' s)"
    by (rule alloc_inv_ext [OF inv(1)]) (simp_all add: k ok)
  moreover have "tables_inv M (put_allocation a' s)" using inv(2) by (simp add: tables_inv_def)
  ultimately show ?thesis using ok(2) assms(2) by (simp add: quality_inv_def k hm.len_put)
qed

lemma response_context_inv:
  assumes "quality_inv M s0"
  shows "quality_inv M (snd (response_context active ir tr tip tid report now s0))"
proof (cases "active_quality active")
  case None
  then show ?thesis using assms by (simp add: response_context_def)
next
  case (Some cfg)
  let ?s = "quality_cleanup now cfg s0"
  have c: "quality_inv M ?s" by (rule cleanup_inv [OF assms])
  have bm: "quality_inv M (binding_mismatch ?s)" by (rule counters_inv [OF c]) simp_all
  have put: "quality_inv M (account_report acc (put_allocation (snd (accept_report r Target now a)) ?s))"
    if "hm_get (q_allocations ?s) k = Some a" for acc r k a
    by (rule counters_inv [OF put_again_inv [OF c that accept_report_same_place]]) simp_all
  show ?thesis using c bm put
    by (auto simp: response_context_def Some Let_def split_def bind_eq_Some_conv split: option.split)
qed

lemma dispatch_finalized_state [simp]: "snd (dispatch_finalized r) = snd r"
  by (simp add: dispatch_finalized_def split_def split: option.split)

lemma stage_accepted_inv: "taken M a s \<Longrightarrow> quality_inv M (snd (stage_accepted now a s))"
  by (simp add: stage_accepted_def taken_put taken_finish taken_score)

lemma stage_report_inv:
  assumes "taken M a s"
  shows "quality_inv M (snd (stage_report now role report a s))"
proof -
  let ?a = "snd (accept_report report role now a)"
  have a1: "taken M ?a s" by (rule taken_same_place [OF assms accept_report_same_place])
  have mis: "quality_inv M (put_allocation a (stage_mismatch s))"
    by (rule taken_put, rule taken_cong [OF assms]) simp_all
  have bad: "quality_inv M (put_allocation a (report_invalid s))"
    by (rule taken_put, rule taken_cong [OF assms]) simp_all
  have late: "quality_inv M (snd (finish now a (timed_out_decision now fb a (stage_timeout (report_late s)))))" for fb
    by (rule taken_finish, rule taken_timed_out, rule taken_cong [OF assms]) simp_all
  have inv: "quality_inv M (put_allocation ?a (report_invalid s))"
    by (rule taken_put, rule taken_cong [OF a1]) simp_all
  have res: "quality_inv M (snd (stage_accepted now ?a (account_report acc s)))" for acc
    by (rule stage_accepted_inv, rule taken_cong [OF a1]) simp_all
  show ?thesis
  proof (cases "validate_report_until report a role now")
    case (Inl rej)
    then show ?thesis using late bad mis by (cases rej) (simp_all add: stage_report_def split_def)
  next
    case (Inr v)
    then show ?thesis using inv res by (simp add: stage_report_def split_def)
  qed
qed

lemma handle_stage_report_inv:
  assumes "quality_inv M s0"
  shows "quality_inv M (snd (handle_stage_report active route ip report now s0))"
proof (cases "active_quality active")
  case None
  then show ?thesis using assms by (simp add: handle_stage_report_def)
next
  case (Some cfg)
  let ?s = "quality_cleanup now cfg s0"
  have c: "quality_inv M ?s" by (rule cleanup_inv [OF assms])
  have bm: "quality_inv M (binding_mismatch ?s)" by (rule counters_inv [OF c]) simp_all
  have du: "quality_inv M (report_duplicate ?s)" by (rule counters_inv [OF c]) simp_all
  have ri: "quality_inv M (report_invalid s0)" by (rule counters_inv [OF assms]) simp_all
  have "quality_inv M (snd (stage_report now role report a (take_allocation k ?s)))"
    if "hm_get (q_allocations ?s) k = Some a" for role k a
    by (rule stage_report_inv [OF takenI [OF c that]])
  then show ?thesis using assms bm du ri
    by (auto simp: handle_stage_report_def Some Let_def split: option.split)
qed

lemma drop_taken:
  assumes "taken M a s" "qa_allocation_id a = k"
  shows "quality_inv M (drop_routes k s)"
proof -
  have "hole M a s" "hm_len (q_allocations s) \<le> M" "tables_inv M s" using assms(1) by (simp_all add: taken_def)
  then show ?thesis using hole_drop [of M a s] assms(2) by (simp add: quality_inv_def tables_inv_def)
qed

lemma cancel_allocation_inv:
  assumes "quality_inv M s0"
  shows "quality_inv M (snd (cancel_allocation active route ip cancel now s0))"
proof (cases "active_quality active")
  case None
  then show ?thesis using assms by (simp add: cancel_allocation_def)
next
  case (Some cfg)
  let ?s = "quality_cleanup now cfg s0"
  have c: "quality_inv M ?s" by (rule cleanup_inv [OF assms])
  have bm: "quality_inv M (binding_mismatch ?s)" by (rule counters_inv [OF c]) simp_all
  have dr: "quality_inv M (drop_routes k (take_allocation k ?s))"
    if "hm_get (q_allocations ?s) k = Some a" for k a
    by (rule drop_taken [OF takenI [OF c that]]) (use c that alloc_invD(1) in \<open>auto simp: quality_inv_def\<close>)
  have dr': "quality_inv M ((drop_routes k (take_allocation k ?s))\<lparr>q_p2p_cancellations := x,
      q_estimated_probe_attempts_saved := y\<rparr>)" if "hm_get (q_allocations ?s) k = Some a" for k a x y
    by (rule counters_inv [OF dr [OF that]]) simp_all
  show ?thesis using assms c bm dr dr'
    by (auto simp: cancel_allocation_def Some Let_def split: option.split)
qed

lemma decision_for_response_inv:
  "quality_inv M s \<Longrightarrow> quality_inv M (snd (decision_for_response active uuid ip now s))"
  by (simp add: decision_for_response_def Let_def cleanup_inv split: option.split)

lemma runtime_snapshot_inv: "quality_inv M s \<Longrightarrow> quality_inv M (snd (quality_runtime_snapshot active now s))"
  by (simp add: quality_runtime_snapshot_def Let_def cleanup_inv)

lemma finalize_one_inv: "quality_inv M (snd acc) \<Longrightarrow> quality_inv M (snd (finalize_one now aid acc))"
proof -
  assume inv: "quality_inv M (snd acc)"
  have "quality_inv M (snd (finish now a (timed_out_decision now fb a (stage_timeout (take_allocation aid (snd acc))))))"
    if "hm_get (q_allocations (snd acc)) aid = Some a" for a fb
    by (rule taken_finish, rule taken_timed_out, rule taken_cong [OF takenI [OF inv that]]) simp_all
  then show ?thesis using inv by (simp add: finalize_one_def split_def split: option.split)
qed

lemma finalize_expired_inv:
  assumes "quality_inv M s"
  shows "quality_inv M (snd (finalize_expired active now s))"
proof -
  have "quality_inv M (snd (foldl (\<lambda>acc aid. finalize_one now aid acc) acc ids))" if "quality_inv M (snd acc)" for acc ids
    using that by (induction ids arbitrary: acc) (simp_all add: finalize_one_inv)
  then show ?thesis using assms cleanup_inv [OF assms]
    by (simp add: finalize_expired_def Let_def split: option.split)
qed

lemma replace_route_frame [simp]:
  "q_routes (replace_route a s) = hm_insert (allocation_route a) (qa_allocation_id a) (q_routes s)"
  "q_allocations (replace_route a s) = (case hm_get (q_routes s) (allocation_route a) of
      None \<Rightarrow> q_allocations s | Some p \<Rightarrow> hm_remove p (q_allocations s))"
  "q_finalized (replace_route a s) = q_finalized s"
  "q_request_decisions (replace_route a s) = q_request_decisions s"
  "q_decisions (replace_route a s) = q_decisions s" "q_cache (replace_route a s) = q_cache s"
  "q_relay_selections (replace_route a s) = q_relay_selections s"
  by (simp_all add: replace_route_def Let_def split: option.split)

lemma replace_route_get:
  "hm_get (q_allocations (replace_route a s)) k =
     (if hm_get (q_routes s) (allocation_route a) = Some k then None else hm_get (q_allocations s) k)"
  by (auto split: option.split)

lemma replace_route_hole:
  assumes inv: "alloc_inv M s" and fresh: "hm_get (q_allocations s) (qa_allocation_id a) = None"
    and entries: "max_entries a \<le> M"
  shows "hole M a (replace_route a s)"
proof -
  let ?s = "replace_route a s" and ?i = "qa_allocation_id a"
  have ok: "hm_ok (q_allocations ?s)" using alloc_inv_tables [OF inv] by (simp split: option.split)
  have none: "hm_get (q_allocations ?s) ?i = None" using fresh by (simp add: replace_route_get del: replace_route_frame)
  have "alloc_inv M (put_allocation a ?s)"
    unfolding alloc_inv_def
  proof (intro conjI allI impI)
    show "hm_ok (q_allocations (put_allocation a ?s))" "hm_ok (q_routes (put_allocation a ?s))"
      using ok alloc_inv_tables [OF inv] by simp_all
  next
    fix k b assume b: "hm_get (q_allocations (put_allocation a ?s)) k = Some b"
    have "qa_allocation_id b = k \<and> hm_get (q_routes ?s) (allocation_route b) = Some k \<and> max_entries b \<le> M"
    proof (cases "k = ?i")
      case True
      then have "b = a" using b by simp
      then show ?thesis using True entries by simp
    next
      case False
      then have "hm_get (q_allocations ?s) k = Some b" using b by simp
      then have p: "hm_get (q_routes s) (allocation_route a) \<noteq> Some k" and g: "hm_get (q_allocations s) k = Some b"
        by (auto simp: replace_route_get simp del: replace_route_frame split: if_splits)
      note d = alloc_invD [OF inv g]
      then have "allocation_route b \<noteq> allocation_route a" using p by auto
      then show ?thesis using d by simp
    qed
    then show "qa_allocation_id b = k" "hm_get (q_routes (put_allocation a ?s)) (allocation_route b) = Some k"
      "max_entries b \<le> M" by simp_all
  next
    fix rk k assume r: "hm_get (q_routes (put_allocation a ?s)) rk = Some k"
    show "\<exists>b. hm_get (q_allocations (put_allocation a ?s)) k = Some b \<and> allocation_route b = rk"
    proof (cases "rk = allocation_route a")
      case True
      then show ?thesis using r by simp
    next
      case False
      then have "hm_get (q_routes s) rk = Some k" using r by simp
      from alloc_inv_route [OF inv this] obtain b where b: "hm_get (q_allocations s) k = Some b" "allocation_route b = rk"
        by blast
      have "hm_get (q_routes s) (allocation_route a) \<noteq> Some k"
        using alloc_inv_route [OF inv, of "allocation_route a" k] b False by auto
      moreover have "k \<noteq> ?i" using fresh b by auto
      ultimately have "hm_get (q_allocations (put_allocation a ?s)) k = Some b"
        using b by (simp add: replace_route_get del: replace_route_frame)
      then show ?thesis using b(2) by blast
    qed
  qed
  then show ?thesis using ok none by (simp add: hole_def)
qed

lemma remove_oldest_allocation_cases:
  obtains (empty) "q_allocations s = []" "remove_oldest_allocation now s = s"
  | (removed) k b where "hm_get (q_allocations s) k = Some b"
      "remove_oldest_allocation now s = drop_routes k (take_allocation k s)"
proof (cases "oldest now qa_created (q_allocations s)")
  case None
  then have "remove_oldest_allocation now s = s" by (simp add: remove_oldest_allocation_def)
  then show ?thesis using empty None by (simp add: oldest_None)
next
  case (Some k)
  then obtain b where "hm_get (q_allocations s) k = Some b" using oldest_present by fastforce
  then show ?thesis using removed Some by (simp add: remove_oldest_allocation_def take_allocation_def)
qed

lemma ensure_capacity_hole:
  assumes "hole M a s" "tables_inv M s"
  shows "hole M a (ensure_allocation_capacity now limit s)
    \<and> hm_len (q_allocations (ensure_allocation_capacity now limit s)) < max limit 1
    \<and> tables_inv M (ensure_allocation_capacity now limit s)"
  using assms
proof (induction now limit s rule: ensure_allocation_capacity.induct)
  case (1 now limit s)
  show ?case
  proof (cases "hm_len (q_allocations s) \<ge> max limit 1")
    case False
    then have "ensure_allocation_capacity now limit s = s"
      by (subst ensure_allocation_capacity.simps) (simp only: if_False)
    then show ?thesis using 1(2,3) False by (simp only: not_le simp_thms)
  next
    case True
    have "hole M a (remove_oldest_allocation now s) \<and> tables_inv M (remove_oldest_allocation now s)"
    proof (cases rule: remove_oldest_allocation_cases [where s = s and now = now])
      case empty
      then show ?thesis using 1(2,3) by simp
    next
      case (removed k b)
      then show ?thesis using hole_remove_other [OF 1(2) removed(1)] 1(3) by (simp add: tables_inv_def)
    qed
    moreover have "ensure_allocation_capacity now limit s
        = ensure_allocation_capacity now limit (remove_oldest_allocation now s)"
      using True by (subst ensure_allocation_capacity.simps) (simp only: if_True)
    ultimately show ?thesis using 1(1) [OF True] by simp
  qed
qed

lemma create_offer_inv:
  assumes inv: "quality_inv M s" and M: "1 \<le> M"
    and fresh: "hm_get (q_allocations s) (on_allocation_id fresh) = None"
    and bound: "\<And>c. ac_config active = Some c \<Longrightarrow> unat (qc_max_allocations (sc_relay_quality c)) \<le> M"
  shows "quality_inv M (snd (create_offer active snapshot rq fresh s))"
proof (cases "offer_views active snapshot rq")
  case (Inl reason)
  then show ?thesis using counters_inv [OF inv, of "record_offer_skipped reason s"] by (simp add: create_offer_def)
next
  case (Inr r)
  obtain cfg views where r: "r = (cfg, views)" by (cases r)
  let ?a = "allocation_of active rq fresh cfg views"
  let ?s = "quality_cleanup (on_now fresh) cfg s"
  have cfg: "unat (qc_max_allocations cfg) \<le> M"
    using Inr bound unfolding r by (auto simp: offer_views_def Let_def split: option.splits if_splits)
  have a: "qa_allocation_id ?a = on_allocation_id fresh" "max_entries ?a \<le> M"
    using cfg by (simp_all add: allocation_of_def max_entries_def Let_def split_def)
  have c: "quality_inv M ?s" by (rule cleanup_inv [OF inv])
  have "hm_ok (q_allocations s)" using inv alloc_inv_tables by (auto simp: quality_inv_def)
  then have "hm_get (q_allocations ?s) (on_allocation_id fresh) = None"
    using fresh by (simp add: cleanup_retains hm.get_retain)
  then have h: "hole M ?a (replace_route ?a ?s)" using c a
    by (intro replace_route_hole) (simp_all add: quality_inv_def)
  have t: "tables_inv M (replace_route ?a ?s)" using c by (simp add: quality_inv_def tables_inv_def)
  note e = ensure_capacity_hole [OF h t, of "on_now fresh" "unat (qc_max_allocations cfg)"]
  have "taken M ?a (ensure_allocation_capacity (on_now fresh) (unat (qc_max_allocations cfg)) (replace_route ?a ?s))"
    using e cfg M unfolding taken_def by linarith
  note p = counters_inv [OF taken_put [OF this]]
  show ?thesis unfolding create_offer_def Inr r by (simp add: Let_def) (rule p; simp)
qed

section \<open>The transition system\<close>

text \<open>
  The steps of the state, under configurations whose \<open>max_allocations\<close> is at most \<open>M\<close>.  An offer
  takes a fresh allocation id, which is what a UUID promises.
\<close>

inductive quality_step :: "nat \<Rightarrow> quality_state \<Rightarrow> quality_state \<Rightarrow> bool" for M where
  offer: "hm_get (q_allocations s) (on_allocation_id fresh) = None \<Longrightarrow>
     (\<And>c. ac_config active = Some c \<Longrightarrow> unat (qc_max_allocations (sc_relay_quality c)) \<le> M) \<Longrightarrow>
     quality_step M s (snd (create_offer active snapshot rq fresh s))"
| response: "quality_step M s (snd (response_context active ir tr tip tid report now s))"
| request: "quality_step M s (snd (select_for_request active route ip tip uuid eid report now tok s))"
| report: "quality_step M s (snd (handle_stage_report active route ip rep now s))"
| cancel: "quality_step M s (snd (cancel_allocation active route ip cancel now s))"
| reply: "quality_step M s (snd (decision_for_response active uuid ip now s))"
| deadline: "quality_step M s (snd (finalize_expired active now s))"
| observe: "quality_step M s (snd (quality_runtime_snapshot active now s))"

inductive quality_reach :: "nat \<Rightarrow> quality_state \<Rightarrow> bool" for M where
  init: "quality_reach M quality_state_default"
| step: "quality_reach M s \<Longrightarrow> quality_step M s s' \<Longrightarrow> quality_reach M s'"

lemma quality_inv_default: "quality_inv M quality_state_default"
  by (simp add: quality_inv_def alloc_inv_def tables_inv_def quality_state_default_def)

lemma quality_inv_step: "quality_step M s s' \<Longrightarrow> quality_inv M s \<Longrightarrow> 1 \<le> M \<Longrightarrow> quality_inv M s'"
  by (induction rule: quality_step.induct)
    (simp_all add: create_offer_inv response_context_inv select_for_request_inv handle_stage_report_inv
      cancel_allocation_inv decision_for_response_inv finalize_expired_inv runtime_snapshot_inv)

lemma quality_reach_inv: "quality_reach M s \<Longrightarrow> 1 \<le> M \<Longrightarrow> quality_inv M s"
  by (induction rule: quality_reach.induct) (auto intro: quality_inv_default quality_inv_step)

end
