(* ===== verification/Relay_Quality_Properties.thy ===== *)
theory Relay_Quality_Properties
  imports Relay_Quality_System "HOL-Library.Multiset" "HOL-Library.Code_Target_Numeral"
begin

text \<open>
  What relay quality selection promises: bounded tables without dangling routes, exact scores, sound
  decisions, idempotent requests, an allocation that only moves forward, and deadlines that are met.
  The examples of the end-to-end run are at the beginning.
\<close>

lemma unat_min: "unat (min x y) = min (unat x) (unat y)"
  by (auto simp: min_def word_le_nat_alt)

section \<open>An example run\<close>

text \<open>One offer of two relays, and two requests of its controller.\<close>

definition ex_relay_view :: "utext \<Rightarrow> relay_view" where
  "ex_relay_view relay = \<lparr>rv_id = relay, rv_version = None,
     rv_capabilities = \<lparr>cp_relay_probe_protocol = Some 1, cp_relay_load_protocol = Some 1, cp_fast_media_relay_udp = None\<rparr>,
     rv_quality_candidate = True, rv_configured_order = 0,
     rv_native = \<lparr>na_online = True, na_observed_at = lit ''t''\<rparr>,
     rv_websocket = \<lparr>wv_configured = True, wv_url = Some (lit ''wss://r/ws/relay''), wv_state = Ws Healthy,
       wv_last_probe_at = None, wv_observed_at_unix_ms = None, wv_age_seconds = None, wv_stale = False,
       wv_latency_ms = Some 10, wv_process_instance_id = None, wv_telemetry_sequence = None,
       wv_uptime_seconds = None, wv_telemetry_restarts = 0, wv_last_restart_at = None, wv_load = None,
       wv_error_code = None, wv_error_message = None\<rparr>,
     rv_fast_media_udp = \<lparr>fs_configured_port = None, fs_reported = None\<rparr>,
     rv_eligible_for = [NativeOnly, WebSocketOnly, Mixed], rv_referenced_by_rules = []\<rparr>"

definition ex_offer_snapshot :: relay_snapshot where
  "ex_offer_snapshot = \<lparr>ss_config_generation = 1, ss_health_snapshot_id = 1,
     ss_relays = [ex_relay_view (lit ''r1''), ex_relay_view (lit ''r2'')], ss_relay_pool_generation = 1,
     ss_geo = geo_state_disabled\<rparr>"

definition ex_quality :: relay_quality_config where
  "ex_quality = relay_quality_config_default\<lparr>qc_enabled := True, qc_max_allocations := 4\<rparr>"

definition ex_quality_starry :: starry_config where
  "ex_quality_starry = \<lparr>sc_version = 1, sc_relay_servers = [],
     sc_secure_tcp = secure_tcp_config_default, sc_mmdb = mmdb_config_default,
     sc_geo = \<lparr>gc_enabled = False, gc_rules = []\<rparr>,
     sc_websocket_signal = websocket_signal_config_default, sc_connection_auth = connection_auth_config_default,
     sc_relay_quality = ex_quality, sc_fast_mode = fast_relay_config_default\<rparr>"

definition ex_quality_active :: active_config where
  "ex_quality_active = \<lparr>ac_generation = 1, ac_config = Some ex_quality_starry\<rparr>"

definition ex_offer_request :: offer_request where
  "ex_offer_request = \<lparr>or_client_protocol = 1, or_initiator_route = SockV4 1 1000, or_initiator_ip = IpV4 1,
     or_target_route = SockV4 2 2000, or_target_ip = IpV4 2, or_target_id = lit ''peer'',
     or_requirement = NativeOnly, or_initiator_websocket = False, or_target_websocket = False,
     or_fallback = lit ''r1''\<rparr>"

definition ex_offer_fresh :: offer_fresh where
  "ex_offer_fresh = \<lparr>on_allocation_id = replicate 16 7, on_stage_token = replicate 16 8, on_now = 5, on_unix_ms = 100\<rparr>"

lemma ex_offer_views: "offer_views ex_quality_active ex_offer_snapshot ex_offer_request
   = Inr (ex_quality, [ex_relay_view (lit ''r1''), ex_relay_view (lit ''r2'')])"
proof -
  have sel: "select_relay_explained_from (ss_geo ex_offer_snapshot) a b e = None" for a b e
    by (simp add: ex_offer_snapshot_def select_relay_explained_from_def geo_state_disabled_def)
  have "bounded_quality_views (ss_relays ex_offer_snapshot) (eligible_relays ex_offer_snapshot NativeOnly) (lit ''r1'') 3
    = [ex_relay_view (lit ''r1''), ex_relay_view (lit ''r2'')]" by code_simp
  then have v: "quality_candidates ex_offer_snapshot (or_initiator_ip ex_offer_request) (or_target_ip ex_offer_request)
      (or_requirement ex_offer_request) (or_fallback ex_offer_request) (unat (qc_max_candidates ex_quality))
    = [ex_relay_view (lit ''r1''), ex_relay_view (lit ''r2'')]"
    by (simp add: quality_candidates_def sel) (simp add: ex_offer_request_def ex_quality_def relay_quality_config_default_def)
  have g: "qc_enabled ex_quality" "or_client_protocol ex_offer_request = 1" "or_fallback ex_offer_request = lit ''r1''"
    "lit ''r1'' \<noteq> []" "or_target_id ex_offer_request \<noteq> []" "\<not> qc_max_candidates ex_quality < 2"
    "is_consistent ex_offer_snapshot" "ss_config_generation ex_offer_snapshot = ac_generation ex_quality_active"
    "text_eq_ignore_case (rv_id (ex_relay_view (lit ''r1''))) (lit ''r1'')"
    "ac_config ex_quality_active = Some ex_quality_starry" "sc_relay_quality ex_quality_starry = ex_quality"
    by (simp_all add: ex_quality_def relay_quality_config_default_def ex_offer_request_def ex_offer_snapshot_def
        is_consistent_def ex_quality_active_def ex_quality_starry_def ex_relay_view_def text_eq_ignore_case_def lit_def)
  show ?thesis using v by (simp add: offer_views_def Let_def g)
qed

definition ex_allocation :: quality_allocation where
  "ex_allocation = allocation_of ex_quality_active ex_offer_request ex_offer_fresh ex_quality
     [ex_relay_view (lit ''r1''), ex_relay_view (lit ''r2'')]"

definition ex_offered :: quality_state where
  "ex_offered = quality_state_default\<lparr>q_allocations := [(replicate 16 7, ex_allocation)],
     q_routes := [(allocation_route ex_allocation, replicate 16 7)], q_offers_created := 1\<rparr>"

lemma ex_ips [simp]: "normalize_ip (IpV4 x) = IpV4 x" "normalize_socket (SockV4 x p) = SockV4 x p"
  by (simp_all add: normalize_ip_def normalize_socket_def socket_new_def)

lemma ex_allocation_fields [simp]:
  "qa_created ex_allocation = 5" "qa_config_generation ex_allocation = 1" "qa_config ex_allocation = ex_quality"
  "qa_initiator_route ex_allocation = SockV4 1 1000" "qa_initiator_ip ex_allocation = IpV4 1"
  "qa_target_ip ex_allocation = IpV4 2" "qa_allocation_id ex_allocation = replicate 16 7"
  "qa_stage_token ex_allocation = replicate 16 8" 
  "qa_pending_uuid ex_allocation = None" 
  by (simp_all add: ex_allocation_def allocation_of_def Let_def split_def)
    (simp_all add: ex_quality_active_def ex_offer_request_def
      ex_offer_fresh_def)

lemma ex_stage [simp]: "qa_stage ex_allocation = Primary" 
  by (simp add: ex_allocation_def allocation_of_def Let_def split_def ex_quality_def relay_quality_config_default_def)
lemma ex_stage_deadline: "qa_stage_deadline ex_allocation < 8000000000"
  by code_simp
lemma ex_total_deadline: "qa_total_deadline ex_allocation < 16000000000"
  by code_simp
lemma ex_offered_step: "snd (create_offer ex_quality_active ex_offer_snapshot ex_offer_request ex_offer_fresh
    quality_state_default) = ex_offered"
proof -
  have "unat (qc_max_allocations ex_quality) = 4" by (simp add: ex_quality_def)
  moreover have "bump 0 = 1" by code_simp
  ultimately show ?thesis
  by (simp add: create_offer_def ex_offer_views ex_allocation_def [symmetric] quality_cleanup_def cleanup_allocations_def
      quality_state_default_def replace_route_def ensure_allocation_capacity.simps put_allocation_def
      ex_offered_def hm_insert_def hm_retain_def Let_def)
qed

definition ex_probe_report :: "u32 \<Rightarrow> probe_report" where
  "ex_probe_report st = \<lparr>pt_protocol_version = 1, pt_allocation_id = replicate 16 7, pt_results = [], pt_stage = st,
     pt_stage_token = replicate 16 8, pt_endpoint_role = 1\<rparr>"

definition ex_relay_request :: "probe_report \<Rightarrow> instant \<Rightarrow> quality_state \<Rightarrow> request_resolution \<times> quality_state" where
  "ex_relay_request report now s = select_for_request ex_quality_active (SockV4 1 1000) (IpV4 1) (IpV4 2)
     (lit ''uuid'') [] (Some report) now (replicate 16 9) s"

lemma ex_offered_reach: "quality_reach 4 ex_offered"
proof -
  have "quality_step 4 quality_state_default (snd (create_offer ex_quality_active ex_offer_snapshot ex_offer_request
      ex_offer_fresh quality_state_default))"
    by (rule quality_step.offer)
      (simp_all add: quality_state_default_def ex_quality_active_def ex_quality_starry_def ex_quality_def)
  then show ?thesis using quality_reach.init quality_reach.step unfolding ex_offered_step by blast
qed

definition ex_late :: instant where
  "ex_late = 8000000000"

lemma ex_cleanup: "quality_cleanup ex_late ex_quality ex_offered = ex_offered"
  by (simp add: quality_cleanup_def cleanup_allocations_def ex_offered_def quality_state_default_def
     quality_allocation_expired_def hm_retain_def ex_late_def since_def from_secs_def ex_quality_def relay_quality_config_default_def)
lemma ex_validate_late: "validate_report_until (ex_probe_report 1) ex_allocation Controller ex_late = Inl Late"
  using ex_stage_deadline by (simp add: validate_report_until_def ex_probe_report_def ex_late_def)
lemma ex_bound: "request_bound ex_quality_active ex_allocation (SockV4 1 1000) (IpV4 1) (IpV4 2) (lit ''uuid'')"
  by (simp add: request_bound_def lit_def ex_quality_active_def)

lemmas ex_eval = ex_offered_def quality_state_default_def

lemma ex_active [simp]: "active_quality ex_quality_active = Some ex_quality" "ac_generation ex_quality_active = 1"
  by (simp_all add: active_quality_def ex_quality_active_def ex_quality_starry_def ex_quality_def)

lemma ex_no_request: "hm_get (q_request_decisions ex_offered) k = None"
  by (simp add: ex_eval)

lemma ex_get: "hm_get (q_allocations ex_offered) (replicate 16 7) = Some ex_allocation"
  by (simp add: ex_eval hm_get_def)

lemma ex_late_request: "\<exists>sel s'. ex_relay_request (ex_probe_report 1) ex_late ex_offered = (ReqSelected sel, s')"
proof -
  let ?a = "ex_allocation\<lparr>qa_pending_uuid := Some (lit ''uuid'')\<rparr>"
  have "validate_report_until (ex_probe_report 1) ?a Controller ex_late = Inl Late"
    using ex_validate_late by (simp add: validate_report_until_def validate_report_def stage_candidates_def stage_samples_def split: if_splits option.splits)
  then have "\<exists>sel s'. report_request ex_late tok (ex_probe_report 1) ?a s = (ReqSelected sel, s')" for tok s
    by (simp add: report_request_def split_def)
  moreover have "lit ''uuid'' \<noteq> []" using ex_bound by (simp add: request_bound_def)
  ultimately show ?thesis using ex_bound
    by (simp add: ex_relay_request_def select_for_request_def new_request_def ex_cleanup ex_no_request Let_def ex_probe_report_def ex_get)
qed

definition ex_waiting :: quality_allocation where
  "ex_waiting = ex_allocation\<lparr>qa_pending_uuid := Some (lit ''uuid'')\<rparr>"

definition ex_pending :: quality_state where
  "ex_pending = snd (ex_relay_request (ex_probe_report 2) ex_late ex_offered)"

lemma ex_pending_allocations: "q_allocations ex_pending = [(replicate 16 7, ex_waiting)]"
proof -
  have "validate_report_until (ex_probe_report 2) ex_waiting Controller ex_late = Inl StageMismatch"
    by (simp add: validate_report_until_def ex_probe_report_def ex_waiting_def)
  then have "snd (report_request ex_late tok (ex_probe_report 2) ex_waiting s) = put_allocation ex_waiting (stage_mismatch s)" for tok s
    by (simp add: report_request_def split_def)
  then have eq: "ex_pending = put_allocation ex_waiting (stage_mismatch (take_allocation (replicate 16 7) ex_offered))"
    using ex_bound by (simp add: ex_pending_def ex_relay_request_def select_for_request_def new_request_def ex_cleanup
        ex_no_request Let_def ex_probe_report_def ex_get ex_waiting_def lit_def)
  show ?thesis unfolding eq by (simp add: ex_offered_def hm_remove_def hm_insert_def ex_waiting_def)
qed

lemma ex_pending_step: "quality_step 4 ex_offered ex_pending"
  unfolding ex_pending_def ex_relay_request_def by (rule quality_step.request)

lemma ex_pending_reach: "quality_reach 4 ex_pending"
  using ex_offered_reach ex_pending_step by (rule quality_reach.step)

section \<open>Bounded tables\<close>

text \<open>C20. In every state that offers, responses, requests, reports, cancellations, replies, snapshots and
  the deadline task can reach, each table has at most as many entries as the configurations allow, the
  selection counters have at most 256, every allocation is filed under its own id with its route
  leading to it, and every route leads to an allocation of that route.\<close>

theorem quality_state_bounded:
  assumes "quality_reach M s" "1 \<le> M"
  shows "hm_len (q_allocations s) \<le> M \<and> hm_len (q_finalized s) \<le> M \<and> hm_len (q_request_decisions s) \<le> M
    \<and> hm_len (q_decisions s) \<le> M \<and> hm_len (q_cache s) \<le> M \<and> hm_len (q_relay_selections s) \<le> 256
    \<and> (\<forall>k a. hm_get (q_allocations s) k = Some a \<longrightarrow>
         qa_allocation_id a = k \<and> hm_get (q_routes s) (allocation_route a) = Some k)
    \<and> (\<forall>rk k. hm_get (q_routes s) rk = Some k \<longrightarrow>
         (\<exists>a. hm_get (q_allocations s) k = Some a \<and> allocation_route a = rk))"
proof -
  have inv: "quality_inv M s" using assms by (rule quality_reach_inv)
  then have al: "alloc_inv M s" by (simp add: quality_inv_def)
  have "hm_len (q_allocations s) \<le> M \<and> tables_inv M s" using inv by (simp add: quality_inv_def)
  then show ?thesis using alloc_invD(1,2) [OF al] alloc_inv_route [OF al]
    unfolding tables_inv_def table_ok_def by blast
qed

theorem quality_state_bounded_witness:
  "hm_len (q_allocations ex_offered) \<le> 4 \<and> hm_get (q_routes ex_offered) (allocation_route ex_allocation) = Some (replicate 16 7)"
  using quality_state_bounded [OF ex_offered_reach] ex_get by simp

section \<open>Exact scores\<close>

lemma unat_u32_less: "unat (x :: u32) < 2 ^ 32"
  using unsigned_less [of x, where ?'a = nat] by simp

lemma unat_ucast_u64 [simp]: "unat (ucast (x :: u32) :: u64) = unat x"
  using unat_u32_less [of x] by (simp add: unsigned_ucast_eq take_bit_eq_mod)

lemma unat_ucast_u32: "unat (y :: u64) < 2 ^ 32 \<Longrightarrow> unat (ucast y :: u32) = unat y"
  by (simp add: unsigned_ucast_eq take_bit_eq_mod)

lemma unat_mult_u64: "unat (ucast (x :: u32) * ucast (y :: u32) :: u64) = unat x * unat y"
proof -
  have "unat x * unat y < 2 ^ 32 * 2 ^ 32"
    by (rule mult_strict_mono) (use unat_u32_less [of x] unat_u32_less [of y] in auto)
  then show ?thesis by (simp add: unat_word_ariths)
qed

lemma unat_max: "unat (max x y) = max (unat x) (unat y)"
  by (auto simp: max_def word_le_nat_alt)

lemma normalized_penalty_nat:
  "unat (normalized_penalty v b) = min 10000 (unat v * 10000 div max 1 (unat b))"
proof -
  have v: "unat (sat_mul (ucast v :: u64) 10000) = unat v * 10000"
    using unat_u32_less [of v] by (simp add: unat_sat)
  have eq: "unat (min (sat_mul (ucast v :: u64) 10000 div ucast (max b 1)) 10000)
      = min 10000 (unat v * 10000 div max 1 (unat b))"
    by (simp add: unat_min unat_div v unat_max max.commute min.commute)
  have "\<dots> < 2 ^ 32" by (simp add: min_def)
  then show ?thesis unfolding normalized_penalty_def by (simp only: unat_ucast_u32 eq)
qed

lemma penalty_le [simp]: "unat (normalized_penalty v b) \<le> 10000"
  by (simp add: normalized_penalty_nat)

text \<open>A sum of four products of a penalty and a weight fits into 64 bits.\<close>

lemma unat_weighted:
  fixes a1 a2 a3 a4 w1 w2 w3 w4 :: u32
  assumes "unat a1 \<le> 10000" "unat a2 \<le> 10000" "unat a3 \<le> 10000" "unat a4 \<le> 10000"
  shows "unat (ucast a1 * ucast w1 + ucast a2 * ucast w2 + ucast a3 * ucast w3 + ucast a4 * ucast w4 :: u64)
    = unat a1 * unat w1 + unat a2 * unat w2 + unat a3 * unat w3 + unat a4 * unat w4"
proof -
  have p: "unat a * unat w \<le> 10000 * 2 ^ 32" if "unat a \<le> 10000" for a w :: u32
    by (rule mult_mono) (use that unat_u32_less [of w] in auto)
  note ps = p [OF assms(1), of w1] p [OF assms(2), of w2] p [OF assms(3), of w3] p [OF assms(4), of w4]
  then show ?thesis by (simp add: unat_word_ariths(1) unat_mult_u64)
qed

lemma score_total:
  fixes w m :: u64
  shows "unat (sat_sub 10000 (ucast (min (sat_add w m) 10000)) :: u32) = 10000 - (unat w + unat m)"
proof -
  have "unat (min (sat_add w m) 10000) = min (unat w + unat m) 10000"
    by (simp add: unat_min unat_sat)
  then show ?thesis by (simp add: unat_sat unat_ucast_u32)
qed

lemma length_metrics_of:
  "length (metrics_of controller target) = (if controller = None then 0 else 1) + (if target = None then 0 else 1)"
  by (cases controller; cases target; simp add: metrics_of_def List.map_filter_simps)

lemma missing_reports_le: "unat (qs_missing_reports (score_candidate c ctl tgt cfg)) \<le> 2"
  by (simp add: score_candidate_def Let_def unat_sat)

text \<open>The score of a candidate is exactly ten thousand less the weighted penalties and the
  penalty for missing reports, in basis points and cut at zero: no product or sum wraps, whatever
  the configured weights, every penalty is within ten thousand, and the round trip and jitter
  penalties are the measured share of the configured bad value.\<close>

theorem score_is_exact:
  "let s = score_candidate c ctl tgt cfg; reached = filter (\<lambda>m. me_succeeded m > 0) (metrics_of ctl tgt)
   in unat (qs_score s) = 10000 - ((unat (qs_rtt_penalty s) * unat (qw_rtt (qc_weights cfg))
        + unat (qs_jitter_penalty s) * unat (qw_jitter (qc_weights cfg))
        + unat (qs_loss_penalty s) * unat (qw_loss (qc_weights cfg))
        + unat (qs_load_penalty s) * unat (qw_load (qc_weights cfg))) div 10000
      + ((if ctl = None then 1 else 0) + (if tgt = None then 1 else 0))
        * unat (qc_missing_report_penalty_basis_points cfg))
    \<and> unat (qs_rtt_penalty s) = min 10000
        (unat (effective_rtt c (map me_rtt_ms reached) cfg) * 10000 div max 1 (unat (qc_rtt_bad_ms cfg)))
    \<and> unat (qs_jitter_penalty s) = min 10000
        (unat (max_or_zero (map me_jitter_ms reached)) * 10000 div max 1 (unat (qc_jitter_bad_ms cfg)))
    \<and> unat (qs_loss_penalty s) \<le> 10000 \<and> unat (qs_load_penalty s) \<le> 10000"
proof -
  define s where "s = score_candidate c ctl tgt cfg"
  define reached where "reached = filter (\<lambda>m. me_succeeded m > 0) (metrics_of ctl tgt)"
  have lo: "unat (qs_loss_penalty s) \<le> 10000" "unat (qs_load_penalty s) \<le> 10000"
    by (simp_all add: s_def score_candidate_def Let_def unat_min)
  have pe: "unat (qs_rtt_penalty s) = min 10000
        (unat (effective_rtt c (map me_rtt_ms reached) cfg) * 10000 div max 1 (unat (qc_rtt_bad_ms cfg)))"
      "unat (qs_jitter_penalty s) = min 10000
        (unat (max_or_zero (map me_jitter_ms reached)) * 10000 div max 1 (unat (qc_jitter_bad_ms cfg)))"
    by (simp_all add: s_def reached_def score_candidate_def Let_def normalized_penalty_nat)
  have rj: "unat (qs_rtt_penalty s) \<le> 10000" "unat (qs_jitter_penalty s) \<le> 10000" by (simp_all add: pe)
  define w :: u64 where "w = (ucast (qs_rtt_penalty s) * ucast (qw_rtt (qc_weights cfg))
      + ucast (qs_jitter_penalty s) * ucast (qw_jitter (qc_weights cfg))
      + ucast (qs_loss_penalty s) * ucast (qw_loss (qc_weights cfg))
      + ucast (qs_load_penalty s) * ucast (qw_load (qc_weights cfg)))"
  define m :: u64 where "m = sat_mul (ucast (qs_missing_reports s)) (ucast (qc_missing_report_penalty_basis_points cfg))"
  have "qs_score s = sat_sub 10000 (ucast (min (sat_add (w div 10000) m) 10000))"
    by (simp add: s_def w_def m_def score_candidate_def Let_def)
  then have sc: "unat (qs_score s) = 10000 - (unat w div 10000 + unat m)" by (simp add: score_total unat_div)
  have uw: "unat w = unat (qs_rtt_penalty s) * unat (qw_rtt (qc_weights cfg))
        + unat (qs_jitter_penalty s) * unat (qw_jitter (qc_weights cfg))
        + unat (qs_loss_penalty s) * unat (qw_loss (qc_weights cfg))
        + unat (qs_load_penalty s) * unat (qw_load (qc_weights cfg))"
    unfolding w_def by (rule unat_weighted [OF rj lo])
  have mr: "unat (qs_missing_reports s) = (if ctl = None then 1 else 0) + (if tgt = None then 1 else 0)"
    by (simp add: s_def score_candidate_def Let_def unat_sat length_metrics_of)
  have "unat (qs_missing_reports s) * unat (qc_missing_report_penalty_basis_points cfg) \<le> 2 * 2 ^ 32"
    by (rule mult_mono) (use mr unat_u32_less [of "qc_missing_report_penalty_basis_points cfg"] in auto)
  then have um: "unat m = unat (qs_missing_reports s) * unat (qc_missing_report_penalty_basis_points cfg)"
    by (simp add: m_def unat_sat)
  show ?thesis unfolding Let_def s_def [symmetric] reached_def [symmetric] sc uw um mr
    by (intro conjI refl pe lo)
qed

section \<open>Decisions\<close>

lemma text_less_irrefl [simp]: "\<not> text_less x x"
  by (induction x) auto

lemma text_less_trans: "text_less x y \<Longrightarrow> text_less y z \<Longrightarrow> text_less x z"
proof (induction x y arbitrary: z rule: text_less.induct)
  case (1 ys)
  then show ?case by (cases z; cases ys; simp)
next
  case (3 x xs y ys)
  then show ?case by (cases z) auto
qed simp

lemma text_less_total: "text_less x y \<or> x = y \<or> text_less y x"
proof (induction x y rule: text_less.induct)
  case (1 ys)
  then show ?case by (cases ys) simp_all
qed auto

lemma text_not_less_trans: "\<not> text_less y x \<Longrightarrow> \<not> text_less z y \<Longrightarrow> \<not> text_less z x"
  using text_less_total [of x y] text_less_trans [of z x y] by auto

lemma score_before_total: "score_before a b \<or> score_before b a"
  using text_less_trans [of "qs_relay_server a" "qs_relay_server b" "qs_relay_server a"]
  by (auto simp: score_before_def)

lemma score_before_trans: "score_before a b \<Longrightarrow> score_before b c \<Longrightarrow> score_before a c"
  using text_not_less_trans [of "qs_relay_server b" "qs_relay_server a" "qs_relay_server c"]
  unfolding score_before_def by (elim disjE conjE) (auto intro: order_less_trans)

lemma mset_insert_score [simp]: "mset (insert_score x ys) = add_mset x (mset ys)"
  by (induction ys) auto

lemma mset_sorted_scores [simp]: "mset (sorted_scores xs) = mset xs"
  by (induction xs) (auto simp: sorted_scores_def)

lemma set_insert_score [simp]: "set (insert_score x ys) = insert x (set ys)"
  by (induction ys) auto

lemma sorted_insert_score: "sorted_wrt score_before ys \<Longrightarrow> sorted_wrt score_before (insert_score x ys)"
proof (induction ys)
  case (Cons y ys)
  then show ?case using score_before_total [of x y] by (auto intro: score_before_trans)
qed simp

lemma sorted_sorted_scores: "sorted_wrt score_before (sorted_scores xs)"
  by (induction xs) (auto simp: sorted_scores_def sorted_insert_score)

text \<open>The best viable candidate, seen as a maximum.\<close>

lemma best_viable_from:
  assumes "best_viable i best xs = r"
  shows "(r = None \<longleftrightarrow> best = None \<and> (\<forall>p \<in> set xs. \<not> snd p))
    \<and> (\<forall>n. r = Some n \<longrightarrow>
        (\<exists>b. (best = Some (n, b) \<or> (\<exists>sc. i \<le> n \<and> n < i + length xs \<and> xs ! (n - i) = (sc, True) \<and> b = qs_score sc))
          \<and> (\<forall>m c. best = Some (m, c) \<longrightarrow> c \<le> b) \<and> (\<forall>p \<in> set xs. snd p \<longrightarrow> qs_score (fst p) \<le> b)))"
  using assms
proof (induction xs arbitrary: i best)
  case Nil
  then show ?case by auto
next
  case (Cons x xs)
  obtain sc v where x: "x = (sc, v)" by (cases x)
  let ?best = "if v \<and> (case best of None \<Rightarrow> True | Some (_, b) \<Rightarrow> b < qs_score sc) then Some (i, qs_score sc) else best"
  have eq: "best_viable (Suc i) ?best xs = r" using Cons.prems x by simp
  note IH = Cons.IH [OF eq]
  have n1: "r = None \<longleftrightarrow> best = None \<and> (\<forall>p \<in> set (x # xs). \<not> snd p)"
    using IH [THEN conjunct1] by (auto simp: x split: option.splits)
  have "\<exists>b. (best = Some (n, b) \<or> (\<exists>sc. i \<le> n \<and> n < i + length (x # xs) \<and> (x # xs) ! (n - i) = (sc, True) \<and> b = qs_score sc))
          \<and> (\<forall>m c. best = Some (m, c) \<longrightarrow> c \<le> b) \<and> (\<forall>p \<in> set (x # xs). snd p \<longrightarrow> qs_score (fst p) \<le> b)"
    if rn: "r = Some n" for n
  proof -
    obtain b where b: "?best = Some (n, b) \<or> (\<exists>sc. Suc i \<le> n \<and> n < Suc i + length xs \<and> xs ! (n - Suc i) = (sc, True) \<and> b = qs_score sc)"
      and m: "\<forall>m c. ?best = Some (m, c) \<longrightarrow> c \<le> b" and le: "\<forall>p \<in> set xs. snd p \<longrightarrow> qs_score (fst p) \<le> b"
      using IH [THEN conjunct2, THEN spec [where x = n], THEN mp, OF rn] by (elim exE conjE)
    have "best = Some (n, b) \<or> (\<exists>sc. i \<le> n \<and> n < i + length (x # xs) \<and> (x # xs) ! (n - i) = (sc, True) \<and> b = qs_score sc)"
      using b
    proof
      assume "?best = Some (n, b)"
      then show ?thesis by (auto simp: x split: if_splits)
    next
      assume "\<exists>sc. Suc i \<le> n \<and> n < Suc i + length xs \<and> xs ! (n - Suc i) = (sc, True) \<and> b = qs_score sc"
      then show ?thesis by (auto simp: nth_Cons' Suc_diff_le)
    qed
    moreover have "(\<forall>m c. best = Some (m, c) \<longrightarrow> c \<le> b) \<and> (v \<longrightarrow> qs_score sc \<le> b)"
      using m by (cases best) (auto split: if_splits)
    ultimately show ?thesis using le by (auto simp: x)
  qed
  then show ?case using n1 by blast
qed

lemma best_viable_None: "best_viable 0 None xs = None \<longleftrightarrow> (\<forall>p \<in> set xs. \<not> snd p)"
  using best_viable_from [of 0 None xs] by blast

lemma best_viable_Some:
  assumes "best_viable 0 None xs = Some n"
  shows "n < length xs" "snd (xs ! n)" "\<forall>p \<in> set xs. snd p \<longrightarrow> qs_score (fst p) \<le> qs_score (fst (xs ! n))"
  using best_viable_from [of 0 None xs, OF assms] by auto

lemma hysteresis_index:
  fixes now a scored reason s n
  defines "i \<equiv> fst (apply_hysteresis now a scored n reason s)"
  assumes "n < length scored" "snd (scored ! n)"
  shows "i < length scored \<and> snd (scored ! i)
    \<and> unat (qs_score (fst (scored ! n))) \<le> unat (qs_score (fst (scored ! i))) + unat (qc_hysteresis_basis_points (qa_config a))"
proof (cases "Option.bind (fresh_cached now a s) (\<lambda>relay. cached_index relay scored)")
  case None
  then show ?thesis using assms by (simp add: i_def apply_hysteresis_def)
next
  case (Some j)
  then have j: "j < length scored" "snd (scored ! j)"
    by (auto simp: bind_eq_Some_conv cached_index_def dest!: position_Some)
  then show ?thesis using assms Some
    by (auto simp: i_def apply_hysteresis_def Let_def word_le_nat_alt unat_sat_add)
qed

lemma terminal_selected:
  assumes "best_viable 0 None (scored_candidates a st) = Some n"
  obtains i reason' s' where "i < length (scored_candidates a st)" "snd (scored_candidates a st ! i)"
    "\<forall>p \<in> set (scored_candidates a st). snd p \<longrightarrow> unat (qs_score (fst p))
       \<le> unat (qs_score (fst (scored_candidates a st ! i))) + unat (qc_hysteresis_basis_points (qa_config a))"
    "score_terminal_allocation now a st reason s =
       ((\<lparr>de_protocol_version = 1, de_allocation_id = qa_allocation_id a,
           de_relay_server = qs_relay_server (fst (scored_candidates a st ! i)),
           de_scores = sorted_scores (map fst (scored_candidates a st)), de_fallback = False,
           de_reason_code = reason_code reason', de_stage = stage_wire st,
           de_partial = (stage_report_count a st < 2)\<rparr>,
         Some (allocation_cache_key a, qs_relay_server (fst (scored_candidates a st ! i))), None), s')"
proof -
  note best = best_viable_Some [OF assms]
  obtain i reason' s' where h: "apply_hysteresis now a (scored_candidates a st) n reason s = (i, reason', s')"
    by (metis prod_cases3)
  have i: "i < length (scored_candidates a st) \<and> snd (scored_candidates a st ! i)
      \<and> unat (qs_score (fst (scored_candidates a st ! n)))
        \<le> unat (qs_score (fst (scored_candidates a st ! i))) + unat (qc_hysteresis_basis_points (qa_config a))"
    using hysteresis_index [OF best(1,2), of now a reason s] by (simp add: h)
  show ?thesis
  proof (rule that [of i reason' s'])
    show "\<forall>p \<in> set (scored_candidates a st). snd p \<longrightarrow> unat (qs_score (fst p))
       \<le> unat (qs_score (fst (scored_candidates a st ! i))) + unat (qc_hysteresis_basis_points (qa_config a))"
      using best(3) i unfolding word_le_nat_alt by (meson order_trans)
  qed (use i in \<open>simp_all add: score_terminal_allocation_def Let_def assms h\<close>)
qed

text \<open>C21. A terminal decision is sound: its scores are those of all candidates, sorted; it falls
  back, to the relay of the ordinary selection, exactly when no candidate was reached by every
  endpoint that has to reach it, and it then leaves the cache alone; otherwise it names a candidate
  that was reached, whose score no other such candidate exceeds by more than the hysteresis, and
  remembers it.\<close>

theorem terminal_decision_sound:
  "let scored = scored_candidates a st;
       ((d, update, fallback), s') = score_terminal_allocation now a st reason s
   in mset (de_scores d) = mset (map fst scored) \<and> sorted_wrt score_before (de_scores d)
    \<and> (de_fallback d \<longleftrightarrow> (\<forall>p \<in> set scored. \<not> snd p))
    \<and> (de_fallback d \<longrightarrow> de_relay_server d = qa_fallback_relay a \<and> update = None \<and> fallback = Some FaProbeFailure)
    \<and> (\<not> de_fallback d \<longrightarrow> (\<exists>sc. (sc, True) \<in> set scored \<and> de_relay_server d = qs_relay_server sc
         \<and> update = Some (allocation_cache_key a, qs_relay_server sc) \<and> fallback = None
         \<and> (\<forall>p \<in> set scored. snd p \<longrightarrow>
              unat (qs_score (fst p)) \<le> unat (qs_score sc) + unat (qc_hysteresis_basis_points (qa_config a)))))"
proof (cases "best_viable 0 None (scored_candidates a st)")
  case None
  then have "\<forall>p \<in> set (scored_candidates a st). \<not> snd p" by (simp only: best_viable_None)
  then show ?thesis
    by (simp add: score_terminal_allocation_def Let_def None fallback_decision_def sorted_sorted_scores)
next
  case (Some n)
  obtain i reason' s' where i: "i < length (scored_candidates a st)" "snd (scored_candidates a st ! i)"
    and le: "\<forall>p \<in> set (scored_candidates a st). snd p \<longrightarrow> unat (qs_score (fst p))
       \<le> unat (qs_score (fst (scored_candidates a st ! i))) + unat (qc_hysteresis_basis_points (qa_config a))"
    and eq: "score_terminal_allocation now a st reason s =
       ((\<lparr>de_protocol_version = 1, de_allocation_id = qa_allocation_id a,
           de_relay_server = qs_relay_server (fst (scored_candidates a st ! i)),
           de_scores = sorted_scores (map fst (scored_candidates a st)), de_fallback = False,
           de_reason_code = reason_code reason', de_stage = stage_wire st,
           de_partial = (stage_report_count a st < 2)\<rparr>,
         Some (allocation_cache_key a, qs_relay_server (fst (scored_candidates a st ! i))), None), s')"
    by (rule terminal_selected [OF Some, of now reason s])
  have mem: "(fst (scored_candidates a st ! i), True) \<in> set (scored_candidates a st)"
    using i nth_mem [OF i(1)] by (metis prod.collapse)
  then have ex: "\<not> (\<forall>p \<in> set (scored_candidates a st). \<not> snd p)" by force
  show ?thesis unfolding Let_def eq prod.case
    using mem le ex by (auto simp: sorted_sorted_scores)
qed

text \<open>A decision over two candidates of which only the controller has reported.\<close>

definition ex_eager :: quality_allocation where
  "ex_eager = ex_allocation\<lparr>qa_stage := EagerStage, qa_reports := stage_reports_default\<lparr>eager_controller :=
     Some \<lparr>vr_metrics = [(lit ''r1'', \<lparr>me_attempted = 5, me_succeeded = 4, me_rtt_ms = 40, me_jitter_ms = 2\<rparr>),
         (lit ''r2'', \<lparr>me_attempted = 5, me_succeeded = 5, me_rtt_ms = 15, me_jitter_ms = 1\<rparr>)],
       vr_wire = ex_probe_report 3\<rparr>\<rparr>\<rparr>"

theorem terminal_decision_sound_witness:
  "\<exists>sc. (sc, True) \<in> set (scored_candidates ex_eager EagerStage)
     \<and> de_relay_server (fst (fst (score_terminal_allocation 9 ex_eager EagerStage ExpandedBestScore quality_state_default)))
       = qs_relay_server sc"
proof -
  have "list_ex snd (scored_candidates ex_eager EagerStage)" by code_simp
  then have "\<exists>p \<in> set (scored_candidates ex_eager EagerStage). snd p" by (simp add: list_ex_iff)
  then show ?thesis
    using terminal_decision_sound [where a = ex_eager and st = EagerStage and now = 9
        and reason = ExpandedBestScore and s = quality_state_default]
    by (auto simp: Let_def split_def)
qed

text \<open>
  In the eager stage the second condition of readiness never matters: the target counts as a
  participant only once its report is there, so the decision never waits for it.
\<close>

lemma eager_ready_ignores_target: "eager_ready a \<longleftrightarrow> eager_controller (qa_reports a) \<noteq> None"
  by (simp add: eager_ready_def Let_def)

section \<open>Replayed requests\<close>

definition request_key :: "utext \<Rightarrow> quality_allocation \<Rightarrow> request_decision_key" where
  "request_key uuid a = \<lparr>qk_uuid = uuid, qk_initiator_ip = qa_initiator_ip a, qk_target_ip = qa_target_ip a\<rparr>"

text \<open>The selection was made for the request \<open>uuid\<close> of allocation \<open>a\<close> and is on record.\<close>

definition recorded :: "instant \<Rightarrow> utext \<Rightarrow> quality_allocation \<Rightarrow> relay_selection \<Rightarrow> quality_state \<Rightarrow> bool" where
  "recorded now uuid a sel s \<longleftrightarrow>
     sel = \<lparr>se_decision = se_decision sel, se_target_ip = qa_target_ip a, se_config_generation = qa_config_generation a\<rparr>
     \<and> hm_get (q_request_decisions s) (request_key uuid a) = Some (decision_record_of now a (se_decision sel))"

lemma recorded_final:
  assumes "record_final_decision now a d cu fb s = (sel, s')" "qa_pending_uuid a = Some uuid" "uuid \<noteq> []"
  shows "recorded now uuid a sel s'"
  using assms by (auto simp: record_final_decision_def record_finalized_def record_request_def recorded_def request_key_def)

lemma recorded_finish:
  "finish now a r = (sel, s') \<Longrightarrow> qa_pending_uuid a = Some uuid \<Longrightarrow> uuid \<noteq> [] \<Longrightarrow> recorded now uuid a sel s'"
  by (auto simp: finish_def split: prod.splits intro: recorded_final)

definition same_request :: "quality_allocation \<Rightarrow> quality_allocation \<Rightarrow> bool" where
  "same_request a b \<longleftrightarrow> qa_allocation_id a = qa_allocation_id b \<and> qa_initiator_ip a = qa_initiator_ip b
     \<and> qa_target_ip a = qa_target_ip b \<and> qa_config_generation a = qa_config_generation b
     \<and> qa_pending_uuid a = qa_pending_uuid b"

lemma recorded_same: "same_request a b \<Longrightarrow> recorded now uuid b sel s \<Longrightarrow> recorded now uuid a sel s"
  by (simp add: recorded_def same_request_def request_key_def decision_record_of_def)

lemma accept_same_request: "same_request a (snd (accept_report report role now a))"
  by (auto simp: accept_report_def same_request_def split: sum.splits prod.splits report_rejection.splits)

lemma recorded_resolve:
  assumes "resolve_request now tok a s = (ReqSelected sel, s')" "qa_pending_uuid a = Some uuid" "uuid \<noteq> []"
  shows "recorded now uuid a sel s'"
  using assms
  by (auto simp: resolve_request_def Let_def split: stage.splits if_splits prod.splits
      intro: recorded_final recorded_finish)

lemma recorded_report:
  assumes "report_request now tok report a s = (ReqSelected sel, s')" "qa_pending_uuid a = Some uuid" "uuid \<noteq> []"
  shows "recorded now uuid a sel s'"
proof (cases "validate_report_until report a Controller now")
  case (Inl rej)
  then show ?thesis using assms
    by (cases rej) (auto simp: report_request_def finish_fallback_def split: prod.splits intro: recorded_final)
next
  case (Inr v)
  let ?acc = "accept_report report Controller now a"
  have "resolve_request now tok (snd ?acc) (account_report (fst ?acc) s) = (ReqSelected sel, s')"
    using assms(1) Inr by (simp add: report_request_def split_def split: if_splits)
  moreover have "qa_pending_uuid (snd ?acc) = Some uuid"
    using accept_same_request [of a report Controller now] assms(2) by (simp add: same_request_def)
  ultimately have "recorded now uuid (snd ?acc) sel s'" using assms(3) by (rule recorded_resolve)
  then show ?thesis by (rule recorded_same [OF accept_same_request])
qed

lemma new_request_recorded:
  assumes inv: "alloc_inv M s"
    and new: "new_request active route ip tip uuid eid report now tok s = (ReqSelected sel, s')"
  obtains rep a where "report = Some rep" "eid = [] \<or> eid = pt_allocation_id rep"
    "qa_allocation_id a = pt_allocation_id rep" "length (pt_allocation_id rep) = 16" "qa_config_generation a = ac_generation active"
    "qa_initiator_ip a = ip" "qa_target_ip a = tip" "uuid \<noteq> []" "recorded now uuid a sel s'"
proof -
  from new obtain rep a where r: "report = Some rep" and e: "eid = [] \<or> eid = pt_allocation_id rep"
    and l: "length (pt_allocation_id rep) = 16" and a: "hm_get (q_allocations s) (pt_allocation_id rep) = Some a"
    and b: "request_bound active a route ip tip uuid"
    and q: "report_request now tok rep (a\<lparr>qa_pending_uuid := Some uuid\<rparr>) (take_allocation (pt_allocation_id rep) s)
       = (ReqSelected sel, s')"
    by (auto simp: new_request_def Let_def split: if_splits option.splits)
  have u: "uuid \<noteq> []" using b by (simp add: request_bound_def)
  have "recorded now uuid (a\<lparr>qa_pending_uuid := Some uuid\<rparr>) sel s'" by (rule recorded_report [OF q _ u]) simp
  then have "recorded now uuid a sel s'" by (simp add: recorded_def request_key_def decision_record_of_def)
  then show ?thesis using that [OF r e] l alloc_invD(1) [OF inv a] b u by (simp add: request_bound_def)
qed

text \<open>C22. A relay request is idempotent: once a request has been answered by a decision, the same
  request, from whichever route and with whatever fresh token, is answered by the same decision for
  as long as the configuration is the same and the time to live has not passed, and nothing but the
  clean-up happens to the state.\<close>

theorem request_is_idempotent:
  assumes reach: "quality_reach M s" and M: "1 \<le> M" and cfg: "active_quality active = Some cfg"
    and first: "hm_get (q_request_decisions s) \<lparr>qk_uuid = uuid, qk_initiator_ip = normalize_ip ip,
      qk_target_ip = normalize_ip tip\<rparr> = None"
    and sel: "select_for_request active route ip tip uuid eid report now tok s = (ReqSelected sel, s')"
    and ttl: "within_ttl now' cfg now"
  shows "select_for_request active route' ip tip uuid eid report now' tok' s'
    = (ReqSelected sel, quality_cleanup now' cfg s')"
proof -
  let ?key = "\<lparr>qk_uuid = uuid, qk_initiator_ip = normalize_ip ip, qk_target_ip = normalize_ip tip\<rparr>"
  let ?c = "quality_cleanup now cfg s" and ?c' = "quality_cleanup now' cfg s'"
  have inv: "quality_inv M s" by (rule quality_reach_inv [OF reach M])
  have ok: "hm_ok (q_request_decisions s)" using inv by (simp add: quality_inv_def tables_inv_def table_ok_def)
  have "quality_inv M s'" using select_for_request_inv [OF inv] sel by (metis snd_conv)
  then have ok': "hm_ok (q_request_decisions s')" by (simp add: quality_inv_def tables_inv_def table_ok_def)
  have c: "alloc_inv M ?c" using cleanup_inv [OF inv] by (simp add: quality_inv_def)
  have rd: "q_request_decisions (quality_cleanup t cfg u) = hm_retain (\<lambda>_ e. within_ttl t cfg (dr_created e)) (q_request_decisions u)" for t u
    by (simp add: quality_cleanup_def cleanup_allocations_def Let_def)
  have none: "hm_get (q_request_decisions ?c) ?key = None" using first ok by (simp add: rd hm.get_retain)
  have "new_request active (normalize_socket route) (normalize_ip ip) (normalize_ip tip) uuid eid report now tok ?c
      = (ReqSelected sel, s')"
    using sel none by (cases "uuid = []") (simp_all add: select_for_request_def cfg Let_def)
  from new_request_recorded [OF c this] obtain rep a where a: "report = Some rep" "eid = [] \<or> eid = pt_allocation_id rep"
    "qa_allocation_id a = pt_allocation_id rep" "length (pt_allocation_id rep) = 16" "qa_config_generation a = ac_generation active"
    "qa_initiator_ip a = normalize_ip ip" "qa_target_ip a = normalize_ip tip" "uuid \<noteq> []" "recorded now uuid a sel s'" .
  have key: "request_key uuid a = ?key" by (simp add: request_key_def a)
  have "hm_get (q_request_decisions s') ?key = Some (decision_record_of now a (se_decision sel))"
    and se: "sel = \<lparr>se_decision = se_decision sel, se_target_ip = qa_target_ip a, se_config_generation = qa_config_generation a\<rparr>"
    using a(9) unfolding recorded_def key by (rule conjunct2, rule conjunct1)
  then have got: "hm_get (q_request_decisions ?c') ?key = Some (decision_record_of now a (se_decision sel))"
    using ok' ttl by (simp add: rd hm.get_retain decision_record_of_def)
  have "replayed_request active eid report (decision_record_of now a (se_decision sel)) ?c' = (ReqSelected sel, ?c')"
    using a(1-5) se by (auto simp: replayed_request_def decision_record_of_def)
  then show ?thesis by (simp add: select_for_request_def cfg Let_def got a(8))
qed

theorem request_is_idempotent_witness:
  "\<exists>sel s' s''. ex_relay_request (ex_probe_report 1) ex_late ex_offered = (ReqSelected sel, s')
     \<and> ex_relay_request (ex_probe_report 1) (ex_late + 1) s' = (ReqSelected sel, s'')"
proof -
  obtain sel s' where first: "ex_relay_request (ex_probe_report 1) ex_late ex_offered = (ReqSelected sel, s')"
    using ex_late_request by blast
  have "within_ttl (ex_late + 1) ex_quality ex_late"
    by (simp add: within_ttl_def since_def from_secs_def ex_quality_def relay_quality_config_default_def)
  then have "ex_relay_request (ex_probe_report 1) (ex_late + 1) s' = (ReqSelected sel, quality_cleanup (ex_late + 1) ex_quality s')"
    unfolding ex_relay_request_def
    by (intro request_is_idempotent [OF ex_offered_reach _ ex_active(1) _ first [unfolded ex_relay_request_def]])
      (simp_all add: ex_no_request)
  then show ?thesis using first by blast
qed

section \<open>Evolution of an allocation\<close>

definition evolves :: "quality_allocation \<Rightarrow> quality_allocation \<Rightarrow> bool" where
  "evolves a b \<longleftrightarrow>
     qa_allocation_id b = qa_allocation_id a \<and> qa_config_generation b = qa_config_generation a
     \<and> qa_initiator_route b = qa_initiator_route a \<and> qa_initiator_ip b = qa_initiator_ip a
     \<and> qa_target_route b = qa_target_route a \<and> qa_target_ip b = qa_target_ip a \<and> qa_target_id b = qa_target_id a
     \<and> qa_candidates b = qa_candidates a \<and> qa_config b = qa_config a
     \<and> qa_fallback_relay b = qa_fallback_relay a \<and> qa_total_deadline b = qa_total_deadline a
     \<and> (qa_stage b = qa_stage a \<and> qa_stage_token b = qa_stage_token a \<and> qa_stage_deadline b = qa_stage_deadline a
        \<or> qa_stage a = Primary \<and> qa_stage b = Expanded \<and> qa_stage_deadline b = qa_total_deadline a)
     \<and> (\<forall>uuid. qa_pending_uuid a = Some uuid \<longrightarrow> qa_pending_uuid b = Some uuid)
     \<and> (\<forall>st role r. reports_get (qa_reports a) st role = Some r \<longrightarrow> reports_get (qa_reports b) st role = Some r)"

lemma evolves_refl [simp]: "evolves a a"
  by (simp add: evolves_def)

lemma reports_get_set [simp]:
  "reports_get (reports_set st role v r) st' role' = (if st = st' \<and> role = role' then v else reports_get r st' role')"
  by (cases st; cases role; cases st'; cases role'; simp)

lemma store_report_keeps: "slot = Some r \<Longrightarrow> snd (store_report slot v) = Some r"
  by (simp add: store_report_def)

lemma accept_report_evolves: "evolves a (snd (accept_report report role now a))"
proof (cases "validate_report_until report a role now")
  case (Inl rej)
  then show ?thesis by (cases rej) (simp_all add: accept_report_def)
next
  case (Inr v)
  then show ?thesis
    by (auto simp: accept_report_def split_def evolves_def store_report_keeps)
qed

lemma expand_evolves: "qa_stage a = Primary \<Longrightarrow> evolves a (transition_to_expanded tok a)"
  by (simp add: evolves_def transition_to_expanded_def)

lemma pending_evolves:
  "request_bound active a route ip tip uuid \<Longrightarrow> evolves a (a\<lparr>qa_pending_uuid := Some uuid\<rparr>)"
  by (auto simp: evolves_def request_bound_def)

lemma evolves_trans: "evolves a b \<Longrightarrow> evolves b c \<Longrightarrow> evolves a c"
  unfolding evolves_def by (elim conjE disjE) (intro conjI allI impI, simp_all)+

lemma evolves_same_id: "evolves a b \<Longrightarrow> qa_allocation_id b = qa_allocation_id a"
  by (simp add: evolves_def)

text \<open>Every entry of the second table has evolved from the entry of the first one.\<close>

definition from_table :: "(bytes, quality_allocation) hmap \<Rightarrow> (bytes, quality_allocation) hmap \<Rightarrow> bool" where
  "from_table m m' \<longleftrightarrow> (\<forall>k b. hm_get m' k = Some b \<longrightarrow> (\<exists>a. hm_get m k = Some a \<and> evolves a b))"

lemma from_table_refl [simp]: "from_table m m"
  by (auto simp: from_table_def)

lemma from_table_sub: "from_table m m' \<Longrightarrow> (\<And>k b. hm_get m'' k = Some b \<Longrightarrow> hm_get m' k = Some b) \<Longrightarrow> from_table m m''"
  by (auto simp: from_table_def)

lemma from_table_remove: "from_table m m' \<Longrightarrow> from_table m (hm_remove k m')"
  by (erule from_table_sub) (auto split: if_splits)

lemma from_table_put:
  "from_table m m' \<Longrightarrow> hm_get m k = Some a \<Longrightarrow> evolves a b \<Longrightarrow> from_table m (hm_insert k b m')"
  by (auto simp: from_table_def)

lemma from_table_cleanup:
  assumes "quality_inv M s" "hm_get (q_allocations (quality_cleanup now cfg s)) k = Some b"
  shows "hm_get (q_allocations s) k = Some b"
  using assms alloc_inv_tables(1) [of M s]
  by (auto simp: cleanup_retains hm.get_retain quality_inv_def split: option.splits if_splits)

text \<open>An operation on allocation \<open>a\<close>, which it has taken out of a table that began as \<open>m\<close>.\<close>

definition working :: "(bytes, quality_allocation) hmap \<Rightarrow> quality_allocation \<Rightarrow> quality_state \<Rightarrow> bool" where
  "working m a s \<longleftrightarrow> from_table m (q_allocations s) \<and> (\<exists>a0. hm_get m (qa_allocation_id a) = Some a0 \<and> evolves a0 a)"

lemma working_cong: "working m a s \<Longrightarrow> q_allocations s' = q_allocations s \<Longrightarrow> working m a s'"
  by (simp add: working_def)

lemma working_evolves: "working m a s \<Longrightarrow> evolves a b \<Longrightarrow> working m b s"
  unfolding working_def by (metis evolves_same_id evolves_trans)

lemma working_put: "working m a s \<Longrightarrow> from_table m (q_allocations (put_allocation a s))"
  by (auto simp: working_def intro: from_table_put)

lemma working_kept: "working m a s \<Longrightarrow> from_table m (q_allocations s)"
  by (simp add: working_def)

lemma finish_allocations [simp]: "q_allocations (snd (finish now a r)) = q_allocations (snd r)"
  by (simp add: finish_def split_def)

lemma finish_fallback_allocations [simp]: "q_allocations (snd (finish_fallback now a f s)) = q_allocations s"
  by (simp add: finish_fallback_def)

lemma resolve_request_from:
  assumes "working m a s"
  shows "from_table m (q_allocations (snd (resolve_request now tok a s)))"
proof -
  have "qa_stage a = Primary \<Longrightarrow> from_table m (q_allocations (put_allocation (transition_to_expanded tok a) s))"
    by (rule working_put, rule working_evolves [OF assms], rule expand_evolves)
  then show ?thesis using working_put [OF assms] working_kept [OF assms]
    by (simp add: resolve_request_def Let_def split_def split: stage.split)
qed

lemma report_request_from:
  assumes "working m a s"
  shows "from_table m (q_allocations (snd (report_request now tok report a s)))"
proof -
  let ?a = "snd (accept_report report Controller now a)"
  have a: "working m ?a s" by (rule working_evolves [OF assms accept_report_evolves])
  have r: "from_table m (q_allocations (snd (resolve_request now tok ?a (account_report acc s))))" for acc
    by (rule resolve_request_from, rule working_cong [OF a]) simp
  show ?thesis
    using working_put [OF assms] working_kept [OF assms] working_put [OF a] r
    by (simp add: report_request_def split_def split: sum.split report_rejection.split)
qed

lemma stage_accepted_from: "working m a s \<Longrightarrow> from_table m (q_allocations (snd (stage_accepted now a s)))"
  using working_put [of m a s] working_kept [of m a s] by (simp add: stage_accepted_def)

lemma stage_report_from:
  assumes "working m a s"
  shows "from_table m (q_allocations (snd (stage_report now role report a s)))"
proof -
  let ?a = "snd (accept_report report role now a)"
  have a: "working m ?a s" by (rule working_evolves [OF assms accept_report_evolves])
  have r: "from_table m (q_allocations (snd (stage_accepted now ?a (account_report acc s))))" for acc
    by (rule stage_accepted_from, rule working_cong [OF a]) simp
  show ?thesis
    using working_put [OF assms] working_kept [OF assms] working_put [OF a] r
    by (simp add: stage_report_def split_def split: sum.split report_rejection.split)
qed

lemma working_take:
  assumes "alloc_inv M s" "hm_get (q_allocations s) k = Some a"
  shows "working (q_allocations s) a (take_allocation k s)"
  using assms alloc_invD(1) [OF assms] by (auto simp: working_def intro: from_table_remove)

text \<open>The operations, after their clean-up.\<close>

lemma new_request_from:
  assumes "alloc_inv M s"
  shows "from_table (q_allocations s) (q_allocations (snd (new_request active route ip tip uuid eid report now tok s)))"
proof -
  have "from_table (q_allocations s)
      (q_allocations (snd (report_request now tok rep (a\<lparr>qa_pending_uuid := Some uuid\<rparr>) (take_allocation k s))))"
    if "hm_get (q_allocations s) k = Some a" "request_bound active a route ip tip uuid" for rep k a
    by (rule report_request_from, rule working_evolves [OF working_take [OF assms that(1)]], rule pending_evolves [OF that(2)])
  then show ?thesis by (simp add: new_request_def Let_def split: option.split)
qed

lemma from_table_trans: "from_table m m' \<Longrightarrow> from_table m' m'' \<Longrightarrow> from_table m m''"
  unfolding from_table_def by (meson evolves_trans)

lemma cleanup_from: "quality_inv M s \<Longrightarrow> from_table (q_allocations s) (q_allocations (quality_cleanup now cfg s))"
  by (rule from_table_sub [OF from_table_refl]) (rule from_table_cleanup)

lemma cleanup_alloc_inv: "quality_inv M s \<Longrightarrow> alloc_inv M (quality_cleanup now cfg s)"
  using cleanup_inv by (simp add: quality_inv_def)

lemma select_for_request_from:
  assumes "quality_inv M s"
  shows "from_table (q_allocations s) (q_allocations (snd (select_for_request active route ip tip uuid eid report now tok s)))"
proof -
  have new: "from_table (q_allocations s) (q_allocations (snd (new_request active r i t u e rep now tok (quality_cleanup now cfg s))))"
    for r i t u e rep cfg
    by (rule from_table_trans [OF cleanup_from [OF assms] new_request_from [OF cleanup_alloc_inv [OF assms]]])
  have "q_allocations (snd (replayed_request active e rep r c)) = q_allocations c" for e rep r c
    by (simp add: replayed_request_def Let_def)
  then show ?thesis using new cleanup_from [OF assms]
    by (simp add: select_for_request_def Let_def split: option.split)
qed

lemma handle_stage_report_from:
  assumes "quality_inv M s"
  shows "from_table (q_allocations s) (q_allocations (snd (handle_stage_report active route ip report now s)))"
proof -
  have "from_table (q_allocations s) (q_allocations (snd (stage_report now role report a (take_allocation k (quality_cleanup now cfg s)))))"
    if "hm_get (q_allocations (quality_cleanup now cfg s)) k = Some a" for cfg role k a
    by (rule from_table_trans [OF cleanup_from [OF assms] stage_report_from [OF working_take [OF cleanup_alloc_inv [OF assms] that]]])
  then show ?thesis using cleanup_from [OF assms]
    by (simp add: handle_stage_report_def Let_def split: option.split)
qed

lemma cancel_allocation_from:
  assumes "quality_inv M s"
  shows "from_table (q_allocations s) (q_allocations (snd (cancel_allocation active route ip cancel now s)))"
  using cleanup_from [OF assms] from_table_remove [OF cleanup_from [OF assms]]
  by (simp add: cancel_allocation_def Let_def split: option.split)

lemma response_context_from:
  assumes "quality_inv M s"
  shows "from_table (q_allocations s) (q_allocations (snd (response_context active ir tr tip tid report now s)))"
proof -
  have "from_table (q_allocations s) (q_allocations (put_allocation (snd (accept_report r Target now a)) (quality_cleanup now cfg s)))"
    if "hm_get (q_allocations (quality_cleanup now cfg s)) k = Some a" for cfg k a r
  proof (rule from_table_trans [OF cleanup_from [OF assms]], rule working_put, rule working_evolves [OF _ accept_report_evolves])
    show "working (q_allocations (quality_cleanup now cfg s)) a (quality_cleanup now cfg s)"
      using that alloc_invD(1) [OF cleanup_alloc_inv [OF assms] that] by (auto simp: working_def)
  qed
  then show ?thesis using cleanup_from [OF assms]
    by (auto simp: response_context_def Let_def split_def bind_eq_Some_conv split: option.split)
qed

lemma finalize_expired_from:
  assumes "quality_inv M s"
  shows "from_table (q_allocations s) (q_allocations (snd (finalize_expired active now s)))"
proof -
  have one: "from_table m (q_allocations (snd (finalize_one now k acc)))" if "from_table m (q_allocations (snd acc))" for m k acc
    using that from_table_remove [OF that] by (auto simp: finalize_one_def split_def split: option.split)
  have "from_table m (q_allocations (snd (foldl (\<lambda>acc k. finalize_one now k acc) acc ks)))"
    if "from_table m (q_allocations (snd acc))" for m acc ks
    using that by (induction ks arbitrary: acc) (simp_all add: one)
  then show ?thesis using cleanup_from [OF assms] by (simp add: finalize_expired_def Let_def split: option.split)
qed

lemma ensure_capacity_from:
  "hm_get (q_allocations (ensure_allocation_capacity now limit s)) k = Some b \<Longrightarrow> hm_get (q_allocations s) k = Some b"
proof (induction now limit s rule: ensure_allocation_capacity.induct)
  case (1 now limit s)
  show ?case
  proof (cases "hm_len (q_allocations s) \<ge> max limit 1")
    case True
    have "hm_get (q_allocations (remove_oldest_allocation now s)) k = Some b"
    proof (rule 1(1) [OF True])
      show "hm_get (q_allocations (ensure_allocation_capacity now limit (remove_oldest_allocation now s))) k = Some b"
        using 1(2) True by (subst (asm) ensure_allocation_capacity.simps) (simp only: if_True)
    qed
    then show ?thesis
      by (cases rule: remove_oldest_allocation_cases [where s = s and now = now]) (auto split: if_splits)
  next
    case False
    then have "ensure_allocation_capacity now limit s = s"
      by (subst ensure_allocation_capacity.simps) (simp only: if_False)
    then show ?thesis using 1(2) by simp
  qed
qed

lemma create_offer_from:
  assumes "quality_inv M s" "hm_get (q_allocations (snd (create_offer active snapshot rq fresh s))) k = Some b"
    "k \<noteq> on_allocation_id fresh"
  shows "hm_get (q_allocations s) k = Some b"
proof (cases "offer_views active snapshot rq")
  case (Inl reason)
  then show ?thesis using assms(2) by (simp add: create_offer_def)
next
  case (Inr r)
  obtain cfg views where r: "r = (cfg, views)" by (cases r)
  let ?a = "allocation_of active rq fresh cfg views" and ?c = "quality_cleanup (on_now fresh) cfg s"
  have "qa_allocation_id ?a = on_allocation_id fresh" by (simp add: allocation_of_def Let_def split_def)
  then have "hm_get (q_allocations (ensure_allocation_capacity (on_now fresh) (unat (qc_max_allocations cfg)) (replace_route ?a ?c))) k = Some b"
    using assms(2,3) by (simp add: create_offer_def Inr r Let_def)
  then have "hm_get (q_allocations (replace_route ?a ?c)) k = Some b" by (rule ensure_capacity_from)
  then have "hm_get (q_allocations ?c) k = Some b"
    by (simp add: replace_route_get del: replace_route_frame split: if_splits)
  then show ?thesis by (rule from_table_cleanup [OF assms(1)])
qed

text \<open>C23. The stage machine: while an allocation is in the table, whatever step is taken, its
  identity, endpoints, candidates, configuration and overall deadline never change; its stage, token
  and stage deadline change only together, from the primary to the expanded stage; a request once
  bound to it stays bound; and a report once accepted is never replaced or dropped.\<close>

theorem allocation_evolves:
  assumes "quality_reach M s" "1 \<le> M" "quality_step M s s'"
    and "hm_get (q_allocations s) k = Some a" "hm_get (q_allocations s') k = Some b"
  shows "evolves a b"
proof -
  have inv: "quality_inv M s" by (rule quality_reach_inv [OF assms(1,2)])
  have get: "from_table (q_allocations s) (q_allocations s') \<Longrightarrow> evolves a b"
    using assms(4,5) by (fastforce simp: from_table_def)
  from assms(3) show ?thesis
  proof cases
    case (offer fresh active snapshot rq)
    then have "k \<noteq> on_allocation_id fresh" using assms(4) by auto
    then have "hm_get (q_allocations s) k = Some b" using create_offer_from [OF inv] assms(5) offer(1) by blast
    then show ?thesis using assms(4) by simp
  next
    case reply
    then show ?thesis using get cleanup_from [OF inv]
      by (simp add: decision_for_response_def Let_def split: if_splits option.splits)
  next
    case observe
    then show ?thesis using get cleanup_from [OF inv] by (simp add: quality_runtime_snapshot_def Let_def)
  qed (use get inv in \<open>simp_all add: response_context_from select_for_request_from handle_stage_report_from
      cancel_allocation_from finalize_expired_from\<close>)
qed

theorem allocation_evolves_witness: "evolves ex_allocation ex_waiting"
  using allocation_evolves [OF ex_offered_reach _ ex_pending_step ex_get] ex_pending_allocations
  by (simp add: hm_get_def)

section \<open>Deadlines\<close>

definition overdue :: "instant \<Rightarrow> (bytes, quality_allocation) hmap \<Rightarrow> (bytes \<times> quality_allocation) list" where
  "overdue now m = filter (\<lambda>(_, a). deadline_passed now a) m"

lemma finalize_one_effect:
  assumes "alloc_inv M s" "hm_get (q_allocations s) k = Some a"
  obtains dp s' where "finalize_one now k (ds, s) = (ds @ [dp], s')" "q_allocations s' = hm_remove k (q_allocations s)"
proof -
  let ?r = "timed_out_decision now FaProbeFailure a (stage_timeout (take_allocation k s))"
  obtain d cu fb t where r: "?r = ((d, cu, fb), t)" by (metis prod.collapse)
  have t: "q_allocations t = hm_remove k (q_allocations s)"
    using timed_out_frame(1) [of now FaProbeFailure a "stage_timeout (take_allocation k s)"] by (simp add: r)
  have aid: "de_allocation_id d = k"
  proof -
    have "de_allocation_id (fst (fst ?r)) = qa_allocation_id a"
      by (simp add: timed_out_decision_def score_terminal_allocation_def fallback_decision_def Let_def split_def split: option.split)
    then show ?thesis using alloc_invD(1) [OF assms] r by simp
  qed
  let ?f = "record_final_decision now a d cu fb t"
  have "hm_get (q_finalized (snd ?f)) k = Some (finalized_of now a d)"
    using alloc_invD(1) [OF assms] by simp
  moreover have "se_decision (fst ?f) = d" by (simp add: record_final_decision_def)
  ultimately show ?thesis using that [of "finalized_decision_dispatch (finalized_of now a d)" "snd ?f"] t
    by (simp add: finalize_one_def assms(2) r finish_def split_def aid)
qed

lemma finalize_all_effect:
  assumes "quality_inv M s" "distinct ks" "set ks \<subseteq> fst ` set (q_allocations s)"
  shows "length (fst (foldl (\<lambda>acc aid. finalize_one now aid acc) (ds, s) ks)) = length ds + length ks
    \<and> q_allocations (snd (foldl (\<lambda>acc aid. finalize_one now aid acc) (ds, s) ks))
        = filter (\<lambda>(k, _). k \<notin> set ks) (q_allocations s)"
  using assms
proof (induction ks arbitrary: ds s)
  case (Cons k ks)
  then obtain a where a: "hm_get (q_allocations s) k = Some a"
    by (metis hm_get_def list.set_intros(1) map_of_eq_None_iff not_None_eq subsetD)
  have "alloc_inv M s" using Cons.prems by (simp add: quality_inv_def)
  from finalize_one_effect [OF this a] obtain dp s' where
    f: "finalize_one now k (ds, s) = (ds @ [dp], s')" and s': "q_allocations s' = hm_remove k (q_allocations s)" by metis
  have "quality_inv M s'" using finalize_one_inv [of M "(ds, s)" now k] Cons.prems f by simp
  moreover have "set ks \<subseteq> fst ` set (q_allocations s')"
    using Cons.prems unfolding s' hm_remove_def AList.delete_eq by force
  ultimately show ?case using Cons.IH [of s' "ds @ [dp]"] Cons.prems(2)
    by (auto simp: f s' hm_remove_def AList.delete_eq intro!: filter_cong)
qed simp

text \<open>C24. The clock always makes progress: one run of the deadline task finishes up to sixty-four
  overdue requests, sends one decision for each of them, and leaves exactly the other overdue ones,
  so that \<open>n\<close> overdue requests are all answered after \<open>n / 64\<close> runs and a run with none of them
  does nothing but clean up.\<close>

theorem deadlines_make_progress:
  assumes "quality_reach M s" "1 \<le> M" "active_quality active = Some cfg"
  shows "let late = overdue now (q_allocations (quality_cleanup now cfg s));
             (dispatches, s') = finalize_expired active now s
    in length dispatches = min 64 (length late) \<and> overdue now (q_allocations s') = drop 64 late
       \<and> (late = [] \<longrightarrow> s' = quality_cleanup now cfg s)"
proof -
  let ?c = "quality_cleanup now cfg s"
  define late where "late = overdue now (q_allocations ?c)"
  define ks where "ks = map fst (take 64 late)"
  define r where "r = foldl (\<lambda>acc aid. finalize_one now aid acc) ([], ?c) ks"
  have inv: "quality_inv M ?c" using quality_reach_inv [OF assms(1,2)] by (rule cleanup_inv)
  have ok: "distinct (map fst (q_allocations ?c))"
    using inv alloc_inv_tables(1) [of M ?c] by (simp add: quality_inv_def hm_ok_def)
  have dl: "distinct (map fst late)" unfolding late_def overdue_def using ok by (rule distinct_map_filter)
  have ks: "distinct ks" using distinct_take [OF dl, of 64] by (simp add: ks_def take_map)
  have sub: "set ks \<subseteq> fst ` set (q_allocations ?c)"
  proof -
    have "set (take 64 late) \<subseteq> set late" by (rule set_take_subset)
    also have "\<dots> \<subseteq> set (q_allocations ?c)" by (auto simp: late_def overdue_def)
    finally show ?thesis unfolding ks_def set_map by (rule image_mono)
  qed
  have r1: "length (fst r) = length ks" "q_allocations (snd r) = filter (\<lambda>(k, _). k \<notin> set ks) (q_allocations ?c)"
    using finalize_all_effect [OF inv ks sub, of now "[]"] by (simp_all add: r_def)
  have "overdue now (q_allocations (snd r)) = filter (\<lambda>p. fst p \<notin> set ks) late"
    by (simp add: r1 overdue_def late_def split_def conj_commute)
  also have "\<dots> = filter (\<lambda>p. fst p \<notin> set ks) (take 64 late) @ filter (\<lambda>p. fst p \<notin> set ks) (drop 64 late)"
    by (metis append_take_drop_id filter_append)
  also have "filter (\<lambda>p. fst p \<notin> set ks) (take 64 late) = []" by (auto simp: ks_def filter_empty_conv)
  also have "filter (\<lambda>p. fst p \<notin> set ks) (drop 64 late) = drop 64 late"
  proof (rule filter_True, rule ballI)
    fix p assume p: "p \<in> set (drop 64 late)"
    have "distinct (map fst (take 64 late) @ map fst (drop 64 late))" using dl by (metis append_take_drop_id map_append)
    then show "fst p \<notin> set ks" using p by (auto simp: ks_def)
  qed
  finally have od: "overdue now (q_allocations (snd r)) = drop 64 late" by simp
  have fe: "finalize_expired active now s = r"
    by (simp add: finalize_expired_def assms(3) r_def ks_def late_def overdue_def Let_def)
  have "late = [] \<Longrightarrow> snd r = ?c" by (simp add: r_def ks_def)
  then show ?thesis using r1(1) od by (simp add: fe late_def [symmetric] split_def ks_def min.commute)
qed

theorem deadlines_make_progress_witness:
  "length (fst (finalize_expired ex_quality_active 16000000000 ex_pending)) = 1"
proof -
  have "deadline_passed 16000000000 ex_waiting"
    using ex_total_deadline by (simp add: deadline_passed_def ex_waiting_def)
  moreover have "q_allocations (quality_cleanup 16000000000 ex_quality ex_pending) = [(replicate 16 7, ex_waiting)]"
    by (simp add: cleanup_retains ex_pending_allocations hm_retain_def quality_allocation_expired_def since_def
        from_secs_def ex_quality_def relay_quality_config_default_def ex_waiting_def)
  ultimately show ?thesis
    using deadlines_make_progress [OF ex_pending_reach _ ex_active(1), of 16000000000]
    by (simp add: Let_def split_def overdue_def)
qed

end
