(* ===== verification/Starry_Config.thy ===== *)
theory Starry_Config
  imports Starry_Config_Data
begin

text \<open>
  Validation of the configuration document (\<open>starry_config.rs\<close>): the gates of the schema versions,
  the normalisation of every section and the checks on it, in the order of the source, with its
  messages.  A check that fails ends the validation.  Parsers of URLs, hosts and networks are third
  party code and the escapes of \<open>{:?}\<close> rest on Unicode tables: they are the fields of an environment.
\<close>

section \<open>Environment and errors\<close>

datatype url_host = HostDomain utext | HostIpv4 "32 word" | HostIpv6 "128 word"

record parsed_url =
  pu_scheme :: utext
  pu_host :: "url_host option"
  pu_host_str :: "utext option"
  pu_path :: utext
  pu_query :: "utext option"
  pu_fragment :: "utext option"
  pu_username :: utext
  pu_password :: "utext option"

text \<open>A failed parse gives the text of its error.\<close>

record config_env =
  ev_url_parse :: "utext \<Rightarrow> utext + parsed_url"
  ev_host_parse :: "utext \<Rightarrow> utext + url_host"
  ev_network_parse :: "utext \<Rightarrow> utext option"
  ev_debug_list :: "utext list \<Rightarrow> utext"

text \<open>The error of a Geo rule keeps its structure; its message begins with \<open>Geo rule\<close>.\<close>

datatype config_error = ConfigText utext | ConfigRule rule_error

definition ebind :: "'e + 'a \<Rightarrow> ('a \<Rightarrow> 'e + 'b) \<Rightarrow> 'e + 'b" where
  "ebind r f = (case r of Inl e \<Rightarrow> Inl e | Inr v \<Rightarrow> f v)"

lemma ebind_Inr: "ebind r f = Inr v \<longleftrightarrow> (\<exists>u. r = Inr u \<and> f u = Inr v)"
  by (cases r) (simp_all add: ebind_def)

text \<open>A sequence of checks: the first one that is violated gives its message.\<close>

definition reject_if :: "(bool \<times> utext) list \<Rightarrow> config_error + unit" where
  "reject_if checks = (case find fst checks of None \<Rightarrow> Inr () | Some (_, message) \<Rightarrow> Inl (ConfigText message))"

lemma reject_if_Inr: "reject_if checks = Inr u \<longleftrightarrow> (\<forall>c \<in> set checks. \<not> fst c)"
  by (auto simp: reject_if_def find_None_iff split: option.splits dest!: find_SomeD)

definition in_range :: "'a::len word \<Rightarrow> 'a word \<Rightarrow> 'a word \<Rightarrow> bool" where
  "in_range low high v \<longleftrightarrow> low \<le> v \<and> v \<le> high"

section \<open>Shared normalisation\<close>

definition quoted :: "utext \<Rightarrow> utext" where
  "quoted s = [39] @ s @ [39]"

fun normalize_from :: "utext \<Rightarrow> utext list \<Rightarrow> utext list \<Rightarrow> config_error + utext list" where
  "normalize_from field seen [] = Inr []"
| "normalize_from field seen (v # vs) =
     (let value = trim v in
      if value = [] then Inl (ConfigText (field @ lit '' contains an empty value''))
      else if to_ascii_lowercase value \<in> set seen
      then Inl (ConfigText (field @ lit '' contains duplicate value '' @ quoted value))
      else ebind (normalize_from field (to_ascii_lowercase value # seen) vs) (\<lambda>rest. Inr (value # rest)))"

definition normalize_unique :: "utext \<Rightarrow> utext list \<Rightarrow> config_error + utext list" where
  "normalize_unique field values = normalize_from field [] values"

definition normalized_expression :: "utext \<Rightarrow> utext" where
  "normalized_expression v = (let value = trim v in if value = [] then lit ''*'' else value)"

definition starts_with :: "utext \<Rightarrow> utext \<Rightarrow> bool" where
  "starts_with prefix s \<longleftrightarrow> take (length prefix) s = prefix"

definition lowercased :: "utext list \<Rightarrow> utext set" where
  "lowercased relays = to_ascii_lowercase ` set relays"

section \<open>Secure TCP, MMDB and Geo\<close>

definition validate_secure_tcp :: "secure_tcp_config \<Rightarrow> config_error + unit" where
  "validate_secure_tcp c = reject_if
     [(\<not> in_range 1000 120000 (st_handshake_timeout_ms c),
        lit ''secure_tcp.handshake_timeout_ms must be between 1000 and 120000''),
      (\<not> in_range 1000 600000 (st_idle_timeout_ms c),
        lit ''secure_tcp.idle_timeout_ms must be between 1000 and 600000''),
      (\<not> in_range 4096 16777216 (st_max_frame_bytes c),
        lit ''secure_tcp.max_frame_bytes must be between 4096 and 16777216'')]"

text \<open>
  \<open>Path::components\<close> on Unix: empty and inner \<open>.\<close> components are skipped, a leading \<open>.\<close> is kept.
\<close>

datatype path_component = RootDir | CurDir | ParentDir | NormalDir utext

fun split_slash :: "utext \<Rightarrow> utext list" where
  "split_slash [] = [[]]"
| "split_slash (c # s) = (if c = 47 then [] # split_slash s
     else (case split_slash s of [] \<Rightarrow> [[c]] | part # parts \<Rightarrow> (c # part) # parts))"

definition component_of :: "utext \<Rightarrow> path_component option" where
  "component_of part = (if part = [] \<or> part = lit ''.'' then None
     else if part = lit ''..'' then Some ParentDir else Some (NormalDir part))"

definition is_absolute :: "utext \<Rightarrow> bool" where
  "is_absolute path \<longleftrightarrow> starts_with (lit ''/'') path"

definition path_components :: "utext \<Rightarrow> path_component list" where
  "path_components path =
     (if is_absolute path then [RootDir]
      else if path \<noteq> [] \<and> hd (split_slash path) = lit ''.'' then [CurDir] else [])
     @ List.map_filter component_of (split_slash path)"

text \<open>\<open>Path::extension\<close>: what follows the last dot of a final normal component, unless it leads it.\<close>

definition extension_of :: "utext \<Rightarrow> utext option" where
  "extension_of name =
     (let after = takeWhile (\<lambda>c. c \<noteq> 46) (rev name); before = drop (Suc (length after)) (rev name)
      in if 46 \<notin> set name \<or> before = [] then None else Some (rev after))"

definition path_extension :: "utext \<Rightarrow> utext option" where
  "path_extension path = (case rev (path_components path) of NormalDir name # _ \<Rightarrow> extension_of name | _ \<Rightarrow> None)"

definition is_normal :: "path_component \<Rightarrow> bool" where
  "is_normal c = (case c of NormalDir _ \<Rightarrow> True | _ \<Rightarrow> False)"

definition mmdb_path_ok :: "utext \<Rightarrow> bool" where
  "mmdb_path_ok path \<longleftrightarrow> \<not> is_absolute path
     \<and> (case path_components path of NormalDir first # rest \<Rightarrow> first = lit ''mmdb'' \<and> list_all is_normal rest
        | _ \<Rightarrow> False)
     \<and> path_extension path = Some (lit ''mmdb'')"

definition validate_database :: "utext \<Rightarrow> database_config \<Rightarrow> config_error + database_config" where
  "validate_database label d =
     (let path = trim (db_path d); url = trim (db_url d) in
      ebind (reject_if
        [(path = [], lit ''mmdb.'' @ label @ lit ''.path must not be empty''),
         (\<not> mmdb_path_ok path,
           lit ''mmdb.'' @ label @ lit ''.path must be a relative mmdb/*.mmdb path without traversal''),
         (url \<noteq> [] \<and> \<not> starts_with (lit ''https://'') url, lit ''mmdb.'' @ label @ lit ''.url must use https://'')])
        (\<lambda>_. Inr \<lparr>db_path = path, db_url = url\<rparr>))"

definition validate_mmdb :: "mmdb_config \<Rightarrow> config_error + mmdb_config" where
  "validate_mmdb c =
     ebind (reject_if
       [(md_update_interval_hours c > 8760, lit ''mmdb.update_interval_hours must not exceed 8760''),
        (md_download_timeout_seconds c = 0 \<or> md_download_timeout_seconds c > 3600,
          lit ''mmdb.download_timeout_seconds must be between 1 and 3600''),
        (md_minimum_bytes c < 1024 \<or> md_minimum_bytes c > 1073741824,
          lit ''mmdb.minimum_bytes must be between 1024 and 1073741824'')]) (\<lambda>_.
     ebind (validate_database (lit ''country'') (md_country c)) (\<lambda>country.
     ebind (validate_database (lit ''city'') (md_city c)) (\<lambda>city.
     ebind (validate_database (lit ''asn'') (md_asn c)) (\<lambda>asn.
       Inr (c\<lparr>md_country := country, md_city := city, md_asn := asn\<rparr>)))))"

definition geo_relays_known :: "utext \<Rightarrow> utext set \<Rightarrow> utext list \<Rightarrow> config_error + unit" where
  "geo_relays_known name relay_set relays =
     (case find (\<lambda>relay. to_ascii_lowercase relay \<notin> relay_set) relays of None \<Rightarrow> Inr ()
      | Some relay \<Rightarrow> Inl (ConfigText (lit ''Geo rule '' @ quoted name @ lit '' references relay '' @ quoted relay
          @ lit '' which is absent from relay_servers'')))"

fun validate_geo_rules ::
  "utext set \<Rightarrow> nat \<Rightarrow> utext list \<Rightarrow> geo_rule_config list \<Rightarrow> config_error + geo_rule_config list" where
  "validate_geo_rules relay_set i names [] = Inr []"
| "validate_geo_rules relay_set i names (rule # rules) =
     (let name = trim (grc_name rule) in
      if name = [] then Inl (ConfigText (lit ''geo.rules['' @ print_nat i @ lit ''].name is empty''))
      else if name \<in> set names then Inl (ConfigText (lit ''duplicate Geo rule name: '' @ name))
      else ebind (normalize_unique (lit ''Geo rule '' @ quoted name @ lit '' relays'') (grc_relays rule)) (\<lambda>relays.
        if relays = [] then Inl (ConfigText (lit ''Geo rule '' @ quoted name @ lit '' has no relays''))
        else ebind (geo_relays_known name relay_set relays) (\<lambda>_.
          ebind (validate_geo_rules relay_set (Suc i) (name # names) rules) (\<lambda>rest.
            Inr (rule\<lparr>grc_name := name, grc_relays := relays,
              grc_matches := \<lparr>ee_client_a = normalized_expression (ee_client_a (grc_matches rule)),
                ee_client_b = normalized_expression (ee_client_b (grc_matches rule))\<rparr>\<rparr> # rest)))))"

definition validate_geo :: "utext list \<Rightarrow> geo_config \<Rightarrow> config_error + geo_config" where
  "validate_geo relay_servers c =
     (if \<not> gc_enabled c then Inr c
      else ebind (reject_if
          [(gc_rules c = [], lit ''geo.enabled is true but geo.rules is empty''),
           (relay_servers = [], lit ''geo.enabled is true but relay_servers is empty'')]) (\<lambda>_.
        ebind (validate_geo_rules (lowercased relay_servers) 0 [] (gc_rules c)) (\<lambda>rules.
          (case rule_set_compile (c\<lparr>gc_rules := rules\<rparr>) of Inl e \<Rightarrow> Inl (ConfigRule e)
           | Inr _ \<Rightarrow> Inr (c\<lparr>gc_rules := rules\<rparr>)))))"

section \<open>WebSocket signalling\<close>

definition websocket_bounds :: "websocket_signal_config \<Rightarrow> (bool \<times> utext) list" where
  "websocket_bounds c =
     [(\<not> in_range 1000 120000 (ws_registration_timeout_ms c),
        lit ''websocket_signal.registration_timeout_ms must be between 1000 and 120000''),
      (\<not> in_range 1000 300000 (ws_keepalive_interval_ms c),
        lit ''websocket_signal.keepalive_interval_ms must be between 1000 and 300000''),
      (\<not> in_range 2000 600000 (ws_idle_timeout_ms c),
        lit ''websocket_signal.idle_timeout_ms must be between 2000 and 600000''),
      (ws_keepalive_interval_ms c \<ge> ws_idle_timeout_ms c,
        lit ''websocket_signal.keepalive_interval_ms must be smaller than idle_timeout_ms''),
      (\<not> in_range 4096 16777216 (ws_max_frame_bytes c),
        lit ''websocket_signal.max_frame_bytes must be between 4096 and 16777216''),
      (\<not> in_range 1 4096 (ws_outbound_queue_capacity c),
        lit ''websocket_signal.outbound_queue_capacity must be between 1 and 4096''),
      (\<not> in_range 1 1000000 (ws_max_sessions c),
        lit ''websocket_signal.max_sessions must be between 1 and 1000000''),
      (ws_max_sessions_per_effective_ip c = 0 \<or> ws_max_sessions_per_effective_ip c > ws_max_sessions c,
        lit ''websocket_signal.max_sessions_per_effective_ip must be between 1 and max_sessions''),
      (\<not> in_range 1 100000 (ws_registration_rate_per_minute c),
        lit ''websocket_signal.registration_rate_per_minute must be between 1 and 100000'')]"

fun check_proxies :: "config_env \<Rightarrow> utext list \<Rightarrow> config_error + unit" where
  "check_proxies env [] = Inr ()"
| "check_proxies env (cidr # rest) =
     (case ev_network_parse env cidr of
        Some err \<Rightarrow> Inl (ConfigText (lit ''websocket_signal.trusted_proxies contains invalid CIDR ''
          @ quoted cidr @ lit '': '' @ err))
      | None \<Rightarrow> check_proxies env rest)"

definition origin_ok :: "parsed_url \<Rightarrow> bool" where
  "origin_ok u \<longleftrightarrow> pu_scheme u \<in> {lit ''http'', lit ''https''} \<and> pu_host_str u \<noteq> None \<and> pu_path u = lit ''/''
     \<and> pu_query u = None \<and> pu_fragment u = None \<and> pu_username u = [] \<and> pu_password u = None"

fun check_origins :: "config_env \<Rightarrow> utext list \<Rightarrow> config_error + unit" where
  "check_origins env [] = Inr ()"
| "check_origins env (origin # rest) =
     (case ev_url_parse env origin of
        Inl err \<Rightarrow> Inl (ConfigText (lit ''websocket_signal.allowed_origins contains invalid origin ''
          @ quoted origin @ lit '': '' @ err))
      | Inr u \<Rightarrow> if \<not> origin_ok u
          then Inl (ConfigText (lit ''websocket_signal.allowed_origins entry '' @ quoted origin
            @ lit '' must be an exact http(s) origin''))
          else check_origins env rest)"

definition health_bounds :: "relay_health_config \<Rightarrow> (bool \<times> utext) list" where
  "health_bounds h =
     [(\<not> in_range 5 3600 (hc_interval_seconds h),
        lit ''websocket_signal.relay_health.interval_seconds must be between 5 and 3600''),
      (\<not> in_range 500 120000 (hc_timeout_ms h),
        lit ''websocket_signal.relay_health.timeout_ms must be between 500 and 120000''),
      (\<not> in_range 1 100 (hc_success_threshold h) \<or> \<not> in_range 1 100 (hc_failure_threshold h),
        lit ''websocket_signal.relay_health thresholds must be between 1 and 100''),
      (length (hc_endpoints h) > 256,
        lit ''websocket_signal.relay_health.endpoints must not contain more than 256 Relays'')]"

definition normalize_endpoint :: "relay_endpoint_config \<Rightarrow> relay_endpoint_config" where
  "normalize_endpoint e = e\<lparr>ec_relay := trim (ec_relay e), ec_url := trim (ec_url e),
     ec_telemetry_secret_file := (case ec_telemetry_secret_file e of None \<Rightarrow> None
       | Some path \<Rightarrow> if trim path = [] then None else Some (trim path))\<rparr>"

definition telemetry_url_ok :: "parsed_url \<Rightarrow> bool" where
  "telemetry_url_ok u \<longleftrightarrow> pu_scheme u = lit ''wss''
     \<and> (case pu_host u of Some (HostDomain _) \<Rightarrow> True | _ \<Rightarrow> False)
     \<and> pu_path u \<in> {lit ''/ws/relay'', lit ''/ws/telemetry''} \<and> pu_query u = None \<and> pu_fragment u = None
     \<and> pu_username u = [] \<and> pu_password u = None"

definition endpoint_message :: "utext \<Rightarrow> utext \<Rightarrow> utext" where
  "endpoint_message relay rest = lit ''websocket_signal.relay_health endpoint '' @ quoted relay @ rest"

text \<open>The checks on an endpoint whose URL has been parsed.\<close>

definition endpoint_checks :: "parsed_url \<Rightarrow> relay_endpoint_config \<Rightarrow> (bool \<times> utext) list" where
  "endpoint_checks u e =
     (let telemetry = (pu_path u = lit ''/ws/telemetry''); secret = ec_telemetry_secret_file e;
          message = endpoint_message (ec_relay e)
      in [(\<not> telemetry_url_ok u, message (lit '' must use a hostname and exact wss://.../ws/relay or wss://.../ws/telemetry URL without credentials, query, or fragment'')),
          (telemetry \<and> (case secret of Some path \<Rightarrow> \<not> is_absolute path | None \<Rightarrow> False),
            message (lit '' telemetry_secret_file must be an absolute path'')),
          (telemetry \<and> secret = None, message (lit '' /ws/telemetry requires telemetry_secret_file'')),
          (\<not> telemetry \<and> secret \<noteq> None,
            message (lit '' may set telemetry_secret_file only with /ws/telemetry'')),
          (ec_fast_media_udp_port e = Some 0,
            message (lit '' fast_media_udp_port must be between 1 and 65535'')),
          (ec_fast_media_udp_port e \<noteq> None \<and> (\<not> telemetry \<or> secret = None),
            message (lit '' may declare fast_media_udp_port only on an authenticated /ws/telemetry endpoint''))])"

fun validate_endpoints ::
  "config_env \<Rightarrow> nat \<Rightarrow> utext list \<Rightarrow> utext list \<Rightarrow> relay_endpoint_config list \<Rightarrow> config_error + relay_endpoint_config list" where
  "validate_endpoints env i relays urls [] = Inr []"
| "validate_endpoints env i relays urls (e0 # rest) =
     (let e = normalize_endpoint e0; relay = to_ascii_lowercase (ec_relay e); url = to_ascii_lowercase (ec_url e) in
      ebind (reject_if
        [(ec_relay e = [] \<or> ec_url e = [],
           lit ''websocket_signal.relay_health.endpoints['' @ print_nat i @ lit ''] has an empty relay or url''),
         (relay \<in> set relays, lit ''websocket_signal.relay_health contains duplicate relay '' @ quoted (ec_relay e)),
         (url \<in> set urls, lit ''websocket_signal.relay_health contains duplicate URL '' @ quoted (ec_url e))]) (\<lambda>_.
      (case ev_url_parse env (ec_url e) of
         Inl err \<Rightarrow> Inl (ConfigText (endpoint_message (ec_relay e) (lit '' has invalid URL: '' @ err)))
       | Inr u \<Rightarrow> ebind (reject_if (endpoint_checks u e)) (\<lambda>_.
           ebind (validate_endpoints env (Suc i) (relay # relays) (url # urls) rest) (\<lambda>es. Inr (e # es))))))"

definition check_coverage :: "config_env \<Rightarrow> utext list \<Rightarrow> relay_endpoint_config list \<Rightarrow> config_error + unit" where
  "check_coverage env relay_servers endpoints =
     (let relays = lowercased (map ec_relay endpoints); configured = lowercased relay_servers;
          missing = filter (\<lambda>relay. to_ascii_lowercase relay \<notin> relays) relay_servers;
          unknown = filter (\<lambda>relay. to_ascii_lowercase relay \<notin> configured) (map ec_relay endpoints)
      in reject_if
        [(relay_servers = [], lit ''websocket_signal.enabled is true but relay_servers is empty''),
         (relays \<noteq> configured, lit ''websocket_signal.relay_health endpoints must cover relay_servers exactly; missing=''
           @ ev_debug_list env missing @ lit '', unknown='' @ ev_debug_list env unknown)])"

definition validate_websocket_signal ::
  "config_env \<Rightarrow> utext list \<Rightarrow> websocket_signal_config \<Rightarrow> config_error + websocket_signal_config" where
  "validate_websocket_signal env relay_servers c =
     ebind (reject_if (websocket_bounds c)) (\<lambda>_.
     ebind (normalize_unique (lit ''websocket_signal.trusted_proxies'') (ws_trusted_proxies c)) (\<lambda>proxies.
     ebind (check_proxies env proxies) (\<lambda>_.
     ebind (normalize_unique (lit ''websocket_signal.allowed_origins'') (ws_allowed_origins c)) (\<lambda>origins.
     ebind (check_origins env origins) (\<lambda>_.
     ebind (reject_if (health_bounds (ws_relay_health c))) (\<lambda>_.
     ebind (validate_endpoints env 0 [] [] (hc_endpoints (ws_relay_health c))) (\<lambda>endpoints.
     ebind (if ws_enabled c then check_coverage env relay_servers endpoints else Inr ()) (\<lambda>_.
       Inr (c\<lparr>ws_trusted_proxies := proxies, ws_allowed_origins := origins,
         ws_relay_health := (ws_relay_health c)\<lparr>hc_endpoints := endpoints\<rparr>\<rparr>)))))))))"

section \<open>Connection authentication\<close>

definition effective_connection_auth_mode :: "connection_auth_mode \<Rightarrow> bool \<Rightarrow> connection_auth_mode" where
  "effective_connection_auth_mode configured must_login = (if must_login then AuthEnforce else configured)"

definition trim_jwks :: "jwks_config \<Rightarrow> jwks_config" where
  "trim_jwks j = j\<lparr>jw_file := trim (jw_file j), jw_url := trim (jw_url j), jw_ca_file := trim (jw_ca_file j),
     jw_cert_file := trim (jw_cert_file j), jw_key_file := trim (jw_key_file j),
     jw_server_name := trim (jw_server_name j)\<rparr>"

definition trim_introspection :: "introspection_config \<Rightarrow> introspection_config" where
  "trim_introspection n = n\<lparr>is_url := trim (is_url n), is_ca_file := trim (is_ca_file n),
     is_cert_file := trim (is_cert_file n), is_key_file := trim (is_key_file n),
     is_server_name := trim (is_server_name n)\<rparr>"

definition trim_auth :: "connection_auth_config \<Rightarrow> connection_auth_config" where
  "trim_auth c = c\<lparr>ca_issuer := trim (ca_issuer c), ca_audience := trim (ca_audience c),
     ca_token_use := trim (ca_token_use c), ca_required_scope := trim (ca_required_scope c),
     ca_jwks := trim_jwks (ca_jwks c), ca_introspection := trim_introspection (ca_introspection c)\<rparr>"

text \<open>The fields the loop trims and inspects, in its order.\<close>

definition auth_fields :: "connection_auth_config \<Rightarrow> (utext \<times> utext) list" where
  "auth_fields c =
     [(lit ''issuer'', ca_issuer c), (lit ''audience'', ca_audience c), (lit ''token_use'', ca_token_use c),
      (lit ''required_scope'', ca_required_scope c), (lit ''jwks.file'', jw_file (ca_jwks c)),
      (lit ''jwks.url'', jw_url (ca_jwks c)), (lit ''jwks.ca_file'', jw_ca_file (ca_jwks c)),
      (lit ''jwks.cert_file'', jw_cert_file (ca_jwks c)), (lit ''jwks.key_file'', jw_key_file (ca_jwks c)),
      (lit ''jwks.server_name'', jw_server_name (ca_jwks c)),
      (lit ''introspection.url'', is_url (ca_introspection c)),
      (lit ''introspection.ca_file'', is_ca_file (ca_introspection c)),
      (lit ''introspection.cert_file'', is_cert_file (ca_introspection c)),
      (lit ''introspection.key_file'', is_key_file (ca_introspection c)),
      (lit ''introspection.server_name'', is_server_name (ca_introspection c))]"

definition has_forbidden :: "utext \<Rightarrow> bool" where
  "has_forbidden s \<longleftrightarrow> list_ex (\<lambda>ch. ch \<in> {0, 10, 13}) s"

definition forbidden_checks :: "connection_auth_config \<Rightarrow> (bool \<times> utext) list" where
  "forbidden_checks c = map (\<lambda>(field, value). (has_forbidden value,
     lit ''connection_auth.'' @ field @ lit '' contains a forbidden character'')) (auth_fields c)"

definition https_ok :: "parsed_url \<Rightarrow> bool" where
  "https_ok u \<longleftrightarrow> pu_scheme u = lit ''https'' \<and> pu_host_str u \<noteq> None \<and> pu_username u = []
     \<and> pu_password u = None \<and> pu_fragment u = None"

definition validate_https_url :: "config_env \<Rightarrow> utext \<Rightarrow> utext \<Rightarrow> config_error + unit" where
  "validate_https_url env value field =
     (case ev_url_parse env value of
        Inl err \<Rightarrow> Inl (ConfigText (field @ lit '' is invalid: '' @ err))
      | Inr u \<Rightarrow> reject_if [(\<not> https_ok u, field @ lit '' must be an HTTPS URL without credentials or fragment'')])"

definition validate_mtls_endpoint ::
  "config_env \<Rightarrow> utext \<Rightarrow> utext \<Rightarrow> utext \<Rightarrow> utext \<Rightarrow> utext \<Rightarrow> utext \<Rightarrow> config_error + unit" where
  "validate_mtls_endpoint env endpoint ca_file cert_file key_file server_name field =
     ebind (reject_if (map (\<lambda>(name, value). (value = [],
         field @ lit ''.'' @ name @ lit '' is required whenever its URL is configured''))
       [(lit ''ca_file'', ca_file), (lit ''cert_file'', cert_file), (lit ''key_file'', key_file),
        (lit ''server_name'', server_name)])) (\<lambda>_.
     (case ev_host_parse env server_name of
        Inl err \<Rightarrow> Inl (ConfigText (field @ lit ''.server_name is invalid: '' @ err))
      | Inr expected \<Rightarrow>
          if \<not> (case expected of HostDomain _ \<Rightarrow> True | _ \<Rightarrow> False)
          then Inl (ConfigText (field @ lit ''.server_name must be a DNS hostname''))
          else (case ev_url_parse env endpoint of
             Inl err \<Rightarrow> Inl (ConfigText (field @ lit ''.url is invalid: '' @ err))
           | Inr u \<Rightarrow> reject_if [(pu_host_str u \<noteq> Some server_name,
               field @ lit ''.url host must equal configured server_name'')])))"

definition auth_bounds :: "connection_auth_config \<Rightarrow> (bool \<times> utext) list" where
  "auth_bounds c =
     [(\<not> in_range 128 8192 (ca_max_token_bytes c),
        lit ''connection_auth.max_token_bytes must be between 128 and 8192''),
      (ca_clock_skew_seconds c > 300, lit ''connection_auth.clock_skew_seconds must not exceed 300''),
      (\<not> in_range 30 86400 (jw_refresh_interval_seconds (ca_jwks c)),
        lit ''connection_auth.jwks.refresh_interval_seconds must be between 30 and 86400''),
      (jw_max_stale_seconds (ca_jwks c) < jw_refresh_interval_seconds (ca_jwks c)
         \<or> jw_max_stale_seconds (ca_jwks c) > 604800,
        lit ''connection_auth.jwks.max_stale_seconds must be at least refresh_interval_seconds and at most 604800'')]"

definition validate_jwks_endpoint :: "config_env \<Rightarrow> jwks_config \<Rightarrow> config_error + unit" where
  "validate_jwks_endpoint env j =
     (if jw_url j \<noteq> []
      then ebind (validate_https_url env (jw_url j) (lit ''connection_auth.jwks.url'')) (\<lambda>_.
        validate_mtls_endpoint env (jw_url j) (jw_ca_file j) (jw_cert_file j) (jw_key_file j) (jw_server_name j)
          (lit ''connection_auth.jwks''))
      else reject_if [(jw_ca_file j \<noteq> [] \<or> jw_cert_file j \<noteq> [] \<or> jw_key_file j \<noteq> [] \<or> jw_server_name j \<noteq> [],
        lit ''connection_auth.jwks TLS fields require a jwks.url'')])"

definition introspection_bounds :: "introspection_config \<Rightarrow> (bool \<times> utext) list" where
  "introspection_bounds n =
     [(\<not> in_range 100 10000 (is_timeout_ms n),
        lit ''connection_auth.introspection.timeout_ms must be between 100 and 10000''),
      (\<not> in_range 1 60 (is_positive_cache_seconds n),
        lit ''connection_auth.introspection.positive_cache_seconds must be between 1 and 60''),
      (is_negative_cache_seconds n > 1,
        lit ''connection_auth.introspection.negative_cache_seconds must not exceed 1''),
      (\<not> in_range 1 1000000 (is_max_cache_entries n),
        lit ''connection_auth.introspection.max_cache_entries must be between 1 and 1000000'')]"

definition validate_auth_mode :: "config_env \<Rightarrow> connection_auth_config \<Rightarrow> config_error + unit" where
  "validate_auth_mode env c =
     ebind (if ca_mode c = AuthOff then Inr () else
       ebind (reject_if [(ca_issuer c = [] \<or> ca_audience c = [] \<or> ca_token_use c = [] \<or> ca_required_scope c = [],
         lit ''connection_auth issuer, audience, token_use, and required_scope are required when mode is audit or enforce'')]) (\<lambda>_.
       ebind (validate_https_url env (ca_issuer c) (lit ''connection_auth.issuer'')) (\<lambda>_.
       reject_if [(jw_file (ca_jwks c) = [] \<and> jw_url (ca_jwks c) = [],
         lit ''connection_auth.jwks.file or connection_auth.jwks.url is required when authentication is enabled'')]))) (\<lambda>_.
     reject_if [(ca_mode c = AuthEnforce \<and> jw_file (ca_jwks c) = [],
       lit ''connection_auth.jwks.file is required in enforce mode so an initial Ed25519 keyset can be loaded fail-closed'')])"

definition validate_introspection_endpoint :: "config_env \<Rightarrow> introspection_config \<Rightarrow> config_error + unit" where
  "validate_introspection_endpoint env n =
     ebind (reject_if [(is_required n \<and> is_url n = [],
       lit ''connection_auth.introspection.url is required when introspection.required is true'')]) (\<lambda>_.
     if is_url n \<noteq> []
     then ebind (validate_https_url env (is_url n) (lit ''connection_auth.introspection.url'')) (\<lambda>_.
       validate_mtls_endpoint env (is_url n) (is_ca_file n) (is_cert_file n) (is_key_file n) (is_server_name n)
         (lit ''connection_auth.introspection''))
     else reject_if [(is_ca_file n \<noteq> [] \<or> is_cert_file n \<noteq> [] \<or> is_key_file n \<noteq> [] \<or> is_server_name n \<noteq> [],
       lit ''connection_auth.introspection TLS fields require an introspection.url'')])"

definition validate_connection_auth ::
  "config_env \<Rightarrow> connection_auth_config \<Rightarrow> config_error + connection_auth_config" where
  "validate_connection_auth env c0 =
     (let c = trim_auth c0 in
      ebind (reject_if (forbidden_checks c)) (\<lambda>_.
      ebind (reject_if (auth_bounds c)) (\<lambda>_.
      ebind (validate_jwks_endpoint env (ca_jwks c)) (\<lambda>_.
      ebind (reject_if (introspection_bounds (ca_introspection c))) (\<lambda>_.
      ebind (validate_auth_mode env c) (\<lambda>_.
      ebind (validate_introspection_endpoint env (ca_introspection c)) (\<lambda>_. Inr c)))))))"

section \<open>Relay quality\<close>

definition quality_bounds :: "relay_quality_config \<Rightarrow> (bool \<times> utext) list" where
  "quality_bounds c =
     [(\<not> in_range 1 5 (qc_max_candidates c), lit ''relay_quality.max_candidates must be between 1 and 5''),
      (\<not> in_range 1 20 (qc_primary_probe_samples c) \<or> qc_primary_probe_samples c > qc_probe_samples c,
        lit ''relay_quality.primary_probe_samples must be between 1 and probe_samples''),
      (\<not> in_range 1 10000 (qc_primary_accept_score c),
        lit ''relay_quality.primary_accept_score must be between 1 and 10000''),
      (qc_primary_max_loss_basis_points c > 10000,
        lit ''relay_quality.primary_max_loss_basis_points must not exceed 10000''),
      (qc_p2p_probe_grace_ms c > 5000, lit ''relay_quality.p2p_probe_grace_ms must not exceed 5000''),
      (\<not> in_range 3 20 (qc_probe_samples c), lit ''relay_quality.probe_samples must be between 3 and 20''),
      (\<not> in_range 20 2000 (qc_probe_interval_ms c),
        lit ''relay_quality.probe_interval_ms must be between 20 and 2000''),
      (\<not> in_range 100 5000 (qc_probe_timeout_ms c),
        lit ''relay_quality.probe_timeout_ms must be between 100 and 5000''),
      (\<not> in_range 1000 60000 (qc_report_timeout_ms c),
        lit ''relay_quality.report_timeout_ms must be between 1000 and 60000''),
      (\<not> in_range 5 3600 (qc_max_telemetry_age_seconds c),
        lit ''relay_quality.max_telemetry_age_seconds must be between 5 and 3600''),
      (\<not> in_range 5 300 (qc_allocation_ttl_seconds c),
        lit ''relay_quality.allocation_ttl_seconds must be between 5 and 300''),
      (\<not> in_range 30 86400 (qc_cache_ttl_seconds c),
        lit ''relay_quality.cache_ttl_seconds must be between 30 and 86400''),
      (\<not> in_range 100 1000000 (qc_max_allocations c),
        lit ''relay_quality.max_allocations must be between 100 and 1000000''),
      (qc_hysteresis_basis_points c > 5000, lit ''relay_quality.hysteresis_basis_points must not exceed 5000''),
      (qc_missing_report_penalty_basis_points c > 10000,
        lit ''relay_quality.missing_report_penalty_basis_points must not exceed 10000''),
      (\<not> in_range 10 10000 (qc_rtt_bad_ms c), lit ''relay_quality.rtt_bad_ms must be between 10 and 10000''),
      (\<not> in_range 1 5000 (qc_jitter_bad_ms c), lit ''relay_quality.jitter_bad_ms must be between 1 and 5000'')]"

definition weights_total :: "relay_quality_weights \<Rightarrow> u32" where
  "weights_total w = sat_add (sat_add (sat_add (qw_rtt w) (qw_jitter w)) (qw_loss w)) (qw_load w)"

definition quality_relations :: "utext list \<Rightarrow> relay_quality_config \<Rightarrow> (bool \<times> utext) list" where
  "quality_relations relay_servers c =
     (let w = qc_weights c in
      [(weights_total w \<noteq> 10000 \<or> 0 \<in> {qw_rtt w, qw_jitter w, qw_loss w, qw_load w},
         lit ''relay_quality.weights must all be positive and sum to 10000 basis points''),
       (qc_enabled c \<and> length relay_servers < 2,
         lit ''relay_quality.enabled requires at least two configured Relay servers''),
       (qc_enabled c \<and> qc_max_candidates c < 2,
         lit ''relay_quality.enabled requires max_candidates to be at least 2'')])"

definition check_legacy :: "utext list \<Rightarrow> utext list \<Rightarrow> config_error + unit" where
  "check_legacy relay_servers legacy_relays =
     (case find (\<lambda>relay. to_ascii_lowercase relay \<notin> lowercased relay_servers) legacy_relays of None \<Rightarrow> Inr ()
      | Some unknown \<Rightarrow> Inl (ConfigText (lit ''relay_quality.legacy_fallback_relays references '' @ quoted unknown
          @ lit '' which is absent from relay_servers'')))"

definition quality_window_ms :: "relay_quality_config \<Rightarrow> u32 \<Rightarrow> u64" where
  "quality_window_ms c samples = sat_add (sat_mul (ucast samples) (ucast (qc_probe_timeout_ms c)))
     (sat_mul (ucast (sat_sub samples 1)) (ucast (qc_probe_interval_ms c)))"

definition required_report_ms :: "relay_quality_config \<Rightarrow> u64" where
  "required_report_ms c = (case qc_strategy c of
     Adaptive \<Rightarrow> sat_add (sat_add (sat_mul (sat_add (ucast (qc_p2p_probe_grace_ms c))
         (quality_window_ms c (qc_primary_probe_samples c))) 2)
       (quality_window_ms c (qc_probe_samples c))) 1000
   | Eager \<Rightarrow> sat_mul (quality_window_ms c (qc_probe_samples c)) 2)"

definition minimum_freshness :: "relay_health_config \<Rightarrow> u64" where
  "minimum_freshness h = sat_add (hc_interval_seconds h) (sat_add (hc_timeout_ms h) 999 div 1000)"

definition telemetry_secured :: "config_env \<Rightarrow> relay_endpoint_config \<Rightarrow> bool" where
  "telemetry_secured env e \<longleftrightarrow>
     (case ev_url_parse env (ec_url e) of Inl _ \<Rightarrow> False | Inr u \<Rightarrow> pu_path u = lit ''/ws/telemetry'')
     \<and> ec_telemetry_secret_file e \<noteq> None"

fun strategy_debug :: "relay_quality_strategy \<Rightarrow> utext" where
  "strategy_debug Adaptive = lit ''Adaptive''"
| "strategy_debug Eager = lit ''Eager''"

text \<open>The checks of an enabled quality selection against the relays and their telemetry endpoints.\<close>

definition quality_enabled_checks ::
  "config_env \<Rightarrow> utext list \<Rightarrow> relay_health_config \<Rightarrow> relay_quality_config \<Rightarrow> (bool \<times> utext) list" where
  "quality_enabled_checks env relay_servers health c =
     (let legacy = lowercased (qc_legacy_fallback_relays c); configured = lowercased relay_servers;
          quality_relays = filter (\<lambda>relay. to_ascii_lowercase relay \<notin> legacy) relay_servers;
          telemetry_relays = lowercased (map ec_relay (hc_endpoints health));
          missing = filter (\<lambda>relay. to_ascii_lowercase relay \<notin> telemetry_relays) quality_relays;
          unknown = filter (\<lambda>relay. to_ascii_lowercase relay \<notin> configured) (map ec_relay (hc_endpoints health));
          insecure = map ec_relay (filter (\<lambda>e. to_ascii_lowercase (ec_relay e) \<notin> legacy \<and> \<not> telemetry_secured env e)
            (hc_endpoints health))
      in [(length quality_relays < 2,
            lit ''relay_quality.enabled requires at least two non-legacy quality Relay servers''),
          (missing \<noteq> [] \<or> unknown \<noteq> [],
            lit ''relay_quality.enabled requires a unique health/telemetry endpoint for every non-legacy Relay; missing=''
              @ ev_debug_list env missing @ lit '', unknown='' @ ev_debug_list env unknown),
          (insecure \<noteq> [],
            lit ''relay_quality.enabled requires authenticated /ws/telemetry endpoints with telemetry_secret_file for every non-legacy Relay; invalid=''
              @ ev_debug_list env insecure),
          (qc_max_telemetry_age_seconds c < minimum_freshness health,
            lit ''relay_quality.max_telemetry_age_seconds must be at least relay health interval plus timeout (''
              @ print_nat (unat (minimum_freshness health)) @ lit '' seconds)''),
          (ucast (qc_report_timeout_ms c) < required_report_ms c,
            lit ''relay_quality report deadline is not achievable for '' @ strategy_debug (qc_strategy c)
              @ lit '': report_timeout_ms='' @ print_nat (unat (qc_report_timeout_ms c))
              @ lit '' but staged probe windows require at least '' @ print_nat (unat (required_report_ms c)) @ lit ''ms''),
          (sat_mul (qc_allocation_ttl_seconds c) 1000 \<le> ucast (qc_report_timeout_ms c),
            lit ''relay_quality.allocation_ttl_seconds must exceed report_timeout_ms; TTL is cleanup only'')])"

definition validate_relay_quality ::
  "config_env \<Rightarrow> utext list \<Rightarrow> relay_health_config \<Rightarrow> relay_quality_config \<Rightarrow> config_error + relay_quality_config" where
  "validate_relay_quality env relay_servers health c0 =
     ebind (normalize_unique (lit ''relay_quality.legacy_fallback_relays'') (qc_legacy_fallback_relays c0)) (\<lambda>legacy.
     (let c = c0\<lparr>qc_legacy_fallback_relays := legacy\<rparr> in
      ebind (reject_if (quality_bounds c @ quality_relations relay_servers c)) (\<lambda>_.
      ebind (check_legacy relay_servers legacy) (\<lambda>_.
      ebind (if qc_enabled c then reject_if (quality_enabled_checks env relay_servers health c) else Inr ()) (\<lambda>_.
        Inr c)))))"

section \<open>Fast mode and the whole configuration\<close>

definition fast_capable :: "relay_health_config \<Rightarrow> utext set" where
  "fast_capable h = lowercased (map ec_relay (filter (\<lambda>e. ec_telemetry_secret_file e \<noteq> None
     \<and> (case ec_fast_media_udp_port e of None \<Rightarrow> False | Some port \<Rightarrow> port > 0)) (hc_endpoints h)))"

definition fast_mode_checks :: "starry_config \<Rightarrow> (bool \<times> utext) list" where
  "fast_mode_checks c =
     (let relay = sc_fast_mode c; enabled = (fr_fast_compat_enabled relay \<or> fr_fast_media_v1_enabled relay) in
      [(\<not> in_range 30 300 (fr_authorization_ttl_seconds relay),
         lit ''fast_mode.relay.authorization_ttl_seconds must be between 30 and 300''),
       (\<not> in_range 1000 200000 (fr_max_bitrate_kbps relay),
         lit ''fast_mode.relay.max_bitrate_kbps must be between 1000 and 200000''),
       (\<not> in_range 608 1400 (fr_relay_max_datagram relay),
         lit ''fast_mode.relay.relay_max_datagram must be between 608 and 1400''),
       (sc_version c < 5 \<and> fr_fast_compat_enabled relay \<and> \<not> qc_enabled (sc_relay_quality c),
         lit ''schema v4 fast_mode.relay.fast_compat_enabled requires relay_quality.enabled''),
       (fr_fast_media_v1_enabled relay \<and> sc_version c < 5,
         lit ''fast_mode.relay.fast_media_v1_enabled requires schema version 5''),
       (enabled \<and> ca_mode (sc_connection_auth c) = AuthOff,
         lit ''enabled Fast Relay modes require connection_auth.mode audit or enforce''),
       (enabled \<and> st_mode (sc_secure_tcp c) = SecureTcpOff \<and> \<not> ws_enabled (sc_websocket_signal c),
         lit ''enabled Fast Relay mode requires Secure TCP or WebSocket signalling''),
       (fr_fast_media_v1_enabled relay \<and> sc_relay_servers c = [],
         lit ''fast_mode.relay.fast_media_v1_enabled requires at least one Relay server''),
       (fr_fast_media_v1_enabled relay
          \<and> lowercased (sc_relay_servers c) \<inter> fast_capable (ws_relay_health (sc_websocket_signal c)) = {},
         lit ''fast_mode.relay.fast_media_v1_enabled requires at least one selectable Relay with authenticated telemetry and a declared fast_media_udp_port'')])"

definition validate_fast_mode :: "starry_config \<Rightarrow> config_error + unit" where
  "validate_fast_mode c = reject_if (fast_mode_checks c)"

definition version_supported :: "u8 \<Rightarrow> bool" where
  "version_supported v \<longleftrightarrow> in_range 1 5 v"

definition validate :: "config_env \<Rightarrow> starry_config \<Rightarrow> config_error + starry_config" where
  "validate env c =
     ebind (reject_if [(\<not> version_supported (sc_version c),
       lit ''unsupported version '' @ print_nat (unat (sc_version c)) @ lit ''; expected 1 or 5'')]) (\<lambda>_.
     ebind (normalize_unique (lit ''relay_servers'') (sc_relay_servers c)) (\<lambda>relays.
     ebind (validate_secure_tcp (sc_secure_tcp c)) (\<lambda>_.
     ebind (validate_mmdb (sc_mmdb c)) (\<lambda>mmdb.
     ebind (validate_geo relays (sc_geo c)) (\<lambda>geo.
     ebind (validate_websocket_signal env relays (sc_websocket_signal c)) (\<lambda>ws.
     ebind (validate_connection_auth env (sc_connection_auth c)) (\<lambda>auth.
     ebind (validate_relay_quality env relays (ws_relay_health ws) (sc_relay_quality c)) (\<lambda>quality.
     (let c' = c\<lparr>sc_relay_servers := relays, sc_mmdb := mmdb, sc_geo := geo, sc_websocket_signal := ws,
            sc_connection_auth := auth, sc_relay_quality := quality\<rparr>
      in ebind (validate_fast_mode c') (\<lambda>_. Inr c'))))))))))"

section \<open>Documents\<close>

record fast_relay_wire =
  fw_fast_compat_enabled :: bool
  fw_fast_media_v1_enabled :: "bool option"
  fw_authorization_ttl_seconds :: u64
  fw_max_bitrate_kbps :: u32
  fw_relay_max_datagram :: "u32 option"

definition fast_relay_wire_default :: fast_relay_wire where
  "fast_relay_wire_default = \<lparr>fw_fast_compat_enabled = False, fw_fast_media_v1_enabled = None,
     fw_authorization_ttl_seconds = 90, fw_max_bitrate_kbps = 50000, fw_relay_max_datagram = None\<rparr>"

definition has_schema_v5_fields :: "fast_relay_wire \<Rightarrow> bool" where
  "has_schema_v5_fields w \<longleftrightarrow> fw_fast_media_v1_enabled w \<noteq> None \<or> fw_relay_max_datagram w \<noteq> None"

definition into_config :: "fast_relay_wire \<Rightarrow> fast_relay_config" where
  "into_config w = \<lparr>fr_fast_compat_enabled = fw_fast_compat_enabled w,
     fr_fast_media_v1_enabled = (case fw_fast_media_v1_enabled w of None \<Rightarrow> False | Some b \<Rightarrow> b),
     fr_authorization_ttl_seconds = fw_authorization_ttl_seconds w, fr_max_bitrate_kbps = fw_max_bitrate_kbps w,
     fr_relay_max_datagram = (case fw_relay_max_datagram w of None \<Rightarrow> 1200 | Some n \<Rightarrow> n)\<rparr>"

record starry_config_wire =
  sw_version :: u8
  sw_relay_servers :: "utext list"
  sw_secure_tcp :: secure_tcp_config
  sw_mmdb :: mmdb_config
  sw_geo :: geo_config
  sw_websocket_signal :: "websocket_signal_config option"
  sw_connection_auth :: "connection_auth_config option"
  sw_relay_quality :: "relay_quality_config option"
  sw_fast_mode :: "fast_relay_wire option"

text \<open>Every list of diagnostics of the source has one entry, of severity \<open>error\<close>.\<close>

record config_diagnostic =
  cd_code :: utext
  cd_pointer :: utext
  cd_message :: config_error
  cd_location :: "(nat \<times> nat) option"

definition diagnostic :: "string \<Rightarrow> string \<Rightarrow> utext \<Rightarrow> config_diagnostic" where
  "diagnostic code pointer message =
     \<lparr>cd_code = lit code, cd_pointer = lit pointer, cd_message = ConfigText message, cd_location = None\<rparr>"

record parsed_config =
  pc_raw :: bytes
  pc_wire :: starry_config_wire

record validated_config =
  vc_config :: starry_config
  vc_source_digest :: utext
  vc_effective_digest :: utext

text \<open>The YAML parser with the text and the place of its error, the JSON writer and the hash.\<close>

record document_env =
  dv_yaml :: "bytes \<Rightarrow> (utext \<times> (nat \<times> nat) option) + starry_config_wire"
  dv_json :: "starry_config \<Rightarrow> utext + bytes"
  dv_sha256_hex :: "bytes \<Rightarrow> utext"

definition is_ascii_whitespace :: "u8 \<Rightarrow> bool" where
  "is_ascii_whitespace b \<longleftrightarrow> b \<in> {32, 9, 10, 12, 13}"

definition parse_document :: "document_env \<Rightarrow> bytes \<Rightarrow> config_diagnostic + parsed_config" where
  "parse_document doc raw =
     (if length raw > 1048576
      then Inl (diagnostic ''CONFIG_TOO_LARGE'' [] (lit ''configuration is '' @ print_nat (length raw)
        @ lit '' bytes; maximum is 1048576''))
      else if list_all is_ascii_whitespace raw
      then Inl (diagnostic ''CONFIG_EMPTY'' [] (lit ''configuration document is empty''))
      else (case dv_yaml doc raw of
          Inl (err, location) \<Rightarrow> Inl ((diagnostic ''YAML_INVALID'' [] (lit ''invalid YAML: '' @ err))
            \<lparr>cd_location := location\<rparr>)
        | Inr wire \<Rightarrow> Inr \<lparr>pc_raw = raw, pc_wire = wire\<rparr>))"

fun diagnostic_pointer :: "config_error \<Rightarrow> utext" where
  "diagnostic_pointer (ConfigRule e) = lit ''/geo''"
| "diagnostic_pointer (ConfigText m) =
     (if starts_with (lit ''fast_mode.'') m then lit ''/fast_mode''
      else if starts_with (lit ''relay_quality.'') m then lit ''/relay_quality''
      else if starts_with (lit ''connection_auth.'') m then lit ''/connection_auth''
      else if starts_with (lit ''websocket_signal.'') m then lit ''/websocket_signal''
      else if starts_with (lit ''secure_tcp.'') m then lit ''/secure_tcp''
      else if starts_with (lit ''mmdb.'') m then lit ''/mmdb''
      else if starts_with (lit ''geo.'') m \<or> starts_with (lit ''Geo rule'') m \<or> starts_with (lit ''duplicate Geo'') m
      then lit ''/geo''
      else if starts_with (lit ''relay_servers'') m then lit ''/relay_servers''
      else if starts_with (lit ''unsupported version'') m then lit ''/version''
      else [])"

definition version_text :: "u8 \<Rightarrow> utext" where
  "version_text v = lit ''version '' @ print_nat (unat v)"

definition has_v5_endpoint_fields :: "starry_config_wire \<Rightarrow> bool" where
  "has_v5_endpoint_fields w = (case sw_websocket_signal w of None \<Rightarrow> False
     | Some signal \<Rightarrow> list_ex (\<lambda>e. ec_fast_media_udp_port e \<noteq> None) (hc_endpoints (ws_relay_health signal)))"

text \<open>The gates of the schema versions.\<close>

definition schema_violation :: "starry_config_wire \<Rightarrow> config_diagnostic option" where
  "schema_violation w =
     (let v = sw_version w in
      if \<not> version_supported v
      then Some (diagnostic ''SCHEMA_UNSUPPORTED'' ''/version'' (lit ''unsupported '' @ version_text v
        @ lit ''; expected 1, 2, 3, 4, or 5''))
      else if v = 1 \<and> sw_websocket_signal w \<noteq> None
      then Some (diagnostic ''FIELD_REQUIRES_SCHEMA_V2'' ''/websocket_signal''
        (lit ''version 1 does not allow websocket_signal; upgrade the document to version 2''))
      else if v < 3 \<and> sw_connection_auth w \<noteq> None
      then Some (diagnostic ''FIELD_REQUIRES_SCHEMA_V3'' ''/connection_auth''
        (version_text v @ lit '' does not allow connection_auth; upgrade the document to version 3''))
      else if v < 4 \<and> sw_relay_quality w \<noteq> None
      then Some (diagnostic ''FIELD_REQUIRES_SCHEMA_V4'' ''/relay_quality''
        (version_text v @ lit '' does not allow relay_quality; upgrade the document to version 4''))
      else if v < 4 \<and> sw_fast_mode w \<noteq> None
      then Some (diagnostic ''FIELD_REQUIRES_SCHEMA_V4'' ''/fast_mode''
        (version_text v @ lit '' does not allow fast_mode; upgrade the document to version 4''))
      else if v < 5 \<and> ((case sw_fast_mode w of None \<Rightarrow> False | Some f \<Rightarrow> has_schema_v5_fields f)
          \<or> has_v5_endpoint_fields w)
      then Some (diagnostic ''FIELD_REQUIRES_SCHEMA_V5'' ''/fast_mode/relay''
        (version_text v @ lit '' does not allow FastMedia Relay fields; upgrade the document to version 5''))
      else None)"

definition config_of_wire :: "starry_config_wire \<Rightarrow> starry_config" where
  "config_of_wire w = \<lparr>sc_version = sw_version w, sc_relay_servers = sw_relay_servers w,
     sc_secure_tcp = sw_secure_tcp w, sc_mmdb = sw_mmdb w, sc_geo = sw_geo w,
     sc_websocket_signal = (case sw_websocket_signal w of None \<Rightarrow> websocket_signal_config_default | Some x \<Rightarrow> x),
     sc_connection_auth = (case sw_connection_auth w of None \<Rightarrow> connection_auth_config_default | Some x \<Rightarrow> x),
     sc_relay_quality = (case sw_relay_quality w of None \<Rightarrow> relay_quality_config_default | Some x \<Rightarrow> x),
     sc_fast_mode = into_config (case sw_fast_mode w of None \<Rightarrow> fast_relay_wire_default | Some x \<Rightarrow> x)\<rparr>"

definition sha256_digest :: "document_env \<Rightarrow> bytes \<Rightarrow> utext" where
  "sha256_digest doc raw = lit ''sha256:'' @ dv_sha256_hex doc raw"

definition validate_config ::
  "config_env \<Rightarrow> document_env \<Rightarrow> parsed_config \<Rightarrow> config_diagnostic + validated_config" where
  "validate_config env doc parsed =
     (case schema_violation (pc_wire parsed) of Some d \<Rightarrow> Inl d
      | None \<Rightarrow>
          (case validate env (config_of_wire (pc_wire parsed)) of
             Inl err \<Rightarrow> Inl \<lparr>cd_code = lit ''CONFIG_INVALID'', cd_pointer = diagnostic_pointer err, cd_message = err,
               cd_location = None\<rparr>
           | Inr config \<Rightarrow>
               (case dv_json doc config of
                  Inl err \<Rightarrow> Inl (diagnostic ''CONFIG_SERIALIZATION_FAILED'' []
                    (lit ''cannot serialize normalized configuration: '' @ err))
                | Inr effective \<Rightarrow> Inr \<lparr>vc_config = config, vc_source_digest = sha256_digest doc (pc_raw parsed),
                    vc_effective_digest = sha256_digest doc effective\<rparr>)))"

text \<open>A document on disk: nothing when it is blank, and otherwise the message of its one error.\<close>

definition load_config ::
  "config_env \<Rightarrow> document_env \<Rightarrow> utext + bytes \<Rightarrow> config_error + validated_config option" where
  "load_config env doc content =
     (case content of Inl err \<Rightarrow> Inl (ConfigText (lit ''cannot read configuration: '' @ err))
      | Inr raw \<Rightarrow>
          if list_all is_ascii_whitespace raw then Inr None
          else (case parse_document doc raw of Inl d \<Rightarrow> Inl (cd_message d)
            | Inr parsed \<Rightarrow> (case validate_config env doc parsed of Inl d \<Rightarrow> Inl (cd_message d)
                | Inr v \<Rightarrow> Inr (Some v))))"

end
