(* ===== verification/Starry_Config_State.thy ===== *)
theory Starry_Config_State
  imports Starry_Config "HOL-Library.List_Lexorder"
begin

text \<open>
  The active configuration (\<open>starry_config.rs\<close>): loading with the last known good configuration
  kept, activation with and without an expected generation, acknowledgements, the plan of an
  activation as a structural difference, and the observations of the state.  An operation runs under
  the write lock, so it is one step; the content of the file and the time are inputs.
\<close>

section \<open>State\<close>

record subsystem_ack =
  sa_subsystem :: utext
  sa_accepted :: bool
  sa_detail :: utext

record config_state =
  cs_path :: utext
  cs_config :: "starry_config option"
  cs_generation :: u64
  cs_source_digest :: "utext option"
  cs_effective_digest :: "utext option"
  cs_activated_at :: "utext option"
  cs_subsystem_acks :: "subsystem_ack list"
  cs_last_error :: "config_error option"

definition config_state_initial :: config_state where
  "config_state_initial = \<lparr>cs_path = lit ''starry/config.yaml'', cs_config = None, cs_generation = 0,
     cs_source_digest = None, cs_effective_digest = None, cs_activated_at = None, cs_subsystem_acks = [],
     cs_last_error = None\<rparr>"

record activation_ack =
  aa_generation :: u64
  aa_schema_version :: u8
  aa_source_digest :: utext
  aa_effective_digest :: utext
  aa_activated_at :: utext
  aa_subsystem_acks :: "subsystem_ack list"

section \<open>Activation\<close>

definition config_core_ack :: subsystem_ack where
  "config_core_ack = \<lparr>sa_subsystem = lit ''config_core'', sa_accepted = True, sa_detail = lit ''parsed and validated''\<rparr>"

definition activate_state ::
  "utext \<Rightarrow> validated_config \<Rightarrow> subsystem_ack list \<Rightarrow> config_state \<Rightarrow> activation_ack \<times> config_state" where
  "activate_state now nxt acks0 s =
     (let acks = (if acks0 = [] then [config_core_ack] else acks0);
          generation = sat_add (cs_generation s) 1
      in (\<lparr>aa_generation = generation, aa_schema_version = sc_version (vc_config nxt),
            aa_source_digest = vc_source_digest nxt, aa_effective_digest = vc_effective_digest nxt,
            aa_activated_at = now, aa_subsystem_acks = acks\<rparr>,
          s\<lparr>cs_generation := generation, cs_config := Some (vc_config nxt),
            cs_source_digest := Some (vc_source_digest nxt), cs_effective_digest := Some (vc_effective_digest nxt),
            cs_activated_at := Some now, cs_subsystem_acks := acks, cs_last_error := None\<rparr>))"

definition prepare_rejected :: config_diagnostic where
  "prepare_rejected = diagnostic ''SUBSYSTEM_PREPARE_REJECTED'' []
     (lit ''one or more subsystems rejected the candidate; active configuration was not changed'')"

definition plan_stale :: "u64 \<Rightarrow> config_state \<Rightarrow> config_diagnostic" where
  "plan_stale expected s = diagnostic ''PLAN_STALE'' [] (lit ''active generation changed from ''
     @ print_nat (unat expected) @ lit '' to '' @ print_nat (unat (cs_generation s)))"

definition activate ::
  "utext \<Rightarrow> validated_config \<Rightarrow> subsystem_ack list \<Rightarrow> config_state
     \<Rightarrow> (config_diagnostic + activation_ack) \<times> config_state" where
  "activate now nxt acks s =
     (if list_ex (\<lambda>ack. \<not> sa_accepted ack) acks then (Inl prepare_rejected, s)
      else (case activate_state now nxt acks s of (ack, s') \<Rightarrow> (Inr ack, s')))"

definition activate_if_base_generation ::
  "utext \<Rightarrow> validated_config \<Rightarrow> subsystem_ack list \<Rightarrow> u64 \<Rightarrow> config_state
     \<Rightarrow> (config_diagnostic + activation_ack) \<times> config_state" where
  "activate_if_base_generation now nxt acks expected s =
     (if list_ex (\<lambda>ack. \<not> sa_accepted ack) acks then (Inl prepare_rejected, s)
      else if cs_generation s \<noteq> expected then (Inl (plan_stale expected s), s)
      else (case activate_state now nxt acks s of (ack, s') \<Rightarrow> (Inr ack, s')))"

definition or_empty :: "utext option \<Rightarrow> utext" where
  "or_empty o' = (case o' of None \<Rightarrow> [] | Some t \<Rightarrow> t)"

definition acknowledge_active ::
  "utext \<Rightarrow> u64 \<Rightarrow> subsystem_ack list \<Rightarrow> config_state \<Rightarrow> (config_diagnostic + activation_ack) \<times> config_state" where
  "acknowledge_active now expected acks s =
     (if acks = [] \<or> list_ex (\<lambda>ack. \<not> sa_accepted ack) acks
      then (Inl (diagnostic ''SUBSYSTEM_PREPARE_REJECTED'' []
        (lit ''every required subsystem must acknowledge the active configuration'')), s)
      else if cs_generation s \<noteq> expected then (Inl (plan_stale expected s), s)
      else (case cs_config s of
          None \<Rightarrow> (Inl (diagnostic ''STARRY_NOT_READY'' []
            (lit ''cannot acknowledge subsystems without an active configuration'')), s)
        | Some config \<Rightarrow>
            (Inr \<lparr>aa_generation = cs_generation s, aa_schema_version = sc_version config,
               aa_source_digest = or_empty (cs_source_digest s), aa_effective_digest = or_empty (cs_effective_digest s),
               aa_activated_at = (case cs_activated_at s of None \<Rightarrow> now | Some t \<Rightarrow> t), aa_subsystem_acks = acks\<rparr>,
             s\<lparr>cs_subsystem_acks := acks, cs_last_error := None\<rparr>)))"

section \<open>Loading\<close>

fun join_with :: "utext \<Rightarrow> utext list \<Rightarrow> utext" where
  "join_with sep [] = []"
| "join_with sep [x] = x"
| "join_with sep (x # xs) = x @ sep @ join_with sep xs"

definition joined_relays :: "starry_config \<Rightarrow> utext option" where
  "joined_relays c = (if sc_relay_servers c = [] then None else Some (join_with (lit '','') (sc_relay_servers c)))"

text \<open>\<open>ro_message\<close> is the message of the load up to the text of an error; the outcome has the error.\<close>

record reload_outcome =
  ro_message :: utext
  ro_relay_servers :: "utext option"
  ro_accepted :: bool
  ro_activation_ack :: "activation_ack option"
  ro_error :: "config_error option"

definition load_message :: "utext \<Rightarrow> utext \<Rightarrow> utext" where
  "load_message path rest = lit ''Starry config '' @ path @ rest"

definition active_relays :: "config_state \<Rightarrow> utext option" where
  "active_relays s = (case cs_config s of None \<Rightarrow> None | Some active \<Rightarrow> joined_relays active)"

definition apply_loaded ::
  "utext \<Rightarrow> utext \<Rightarrow> utext list \<Rightarrow> config_error + validated_config option \<Rightarrow> config_state
     \<Rightarrow> reload_outcome \<times> config_state" where
  "apply_loaded now path artifact_messages loaded s0 =
     (let s = s0\<lparr>cs_path := path\<rparr>;
          outcome = (\<lambda>message relays accepted ack err.
            \<lparr>ro_message = join_with (lit ''; '') (artifact_messages @ [message]), ro_relay_servers = relays,
              ro_accepted = accepted, ro_activation_ack = ack, ro_error = err\<rparr>)
      in case loaded of
           Inr (Some nxt) \<Rightarrow>
             (case activate_state now nxt [] s of (ack, s') \<Rightarrow>
                (outcome (lit ''Starry config loaded from '' @ path @ lit '': ''
                   @ print_nat (length (sc_relay_servers (vc_config nxt))) @ lit '' relays, ''
                   @ print_nat (length (gc_rules (sc_geo (vc_config nxt)))) @ lit '' Geo rules'')
                   (joined_relays (vc_config nxt)) True (Some ack) None, s'))
         | Inr None \<Rightarrow>
             if cs_config s \<noteq> None
             then (outcome (load_message path (lit '' is empty; rejected reload and retained last-known-good generation ''
                     @ print_nat (unat (cs_generation s)))) (active_relays s) False None None,
                   s\<lparr>cs_last_error := Some (ConfigText (lit ''CONFIG_EMPTY''))\<rparr>)
             else (outcome (load_message path (lit '' is empty; using upstream behavior'')) None False None None,
                   s\<lparr>cs_last_error := None\<rparr>)
         | Inl err \<Rightarrow>
             (outcome (load_message path (if cs_config s \<noteq> None
                 then lit '' is invalid; rejected reload and retained last-known-good generation ''
                   @ print_nat (unat (cs_generation s)) @ lit '': ''
                 else lit '' is invalid; using upstream behavior: '')) (active_relays s) False None (Some err),
              s\<lparr>cs_last_error := Some err\<rparr>))"

definition normalized_path :: "utext \<Rightarrow> utext" where
  "normalized_path p = (let path = trim p in if path = [] then lit ''starry/config.yaml'' else path)"

definition initialize ::
  "config_env \<Rightarrow> document_env \<Rightarrow> utext \<Rightarrow> utext \<Rightarrow> utext list \<Rightarrow> utext + bytes \<Rightarrow> config_state
     \<Rightarrow> reload_outcome \<times> config_state" where
  "initialize env doc now path artifact_messages content s =
     apply_loaded now (normalized_path path) artifact_messages (load_config env doc content) s"

definition reload ::
  "config_env \<Rightarrow> document_env \<Rightarrow> utext \<Rightarrow> utext + bytes \<Rightarrow> config_state \<Rightarrow> reload_outcome \<times> config_state" where
  "reload env doc now content s = apply_loaded now (cs_path s) [] (load_config env doc content) s"

definition load_candidate ::
  "config_env \<Rightarrow> document_env \<Rightarrow> config_state \<Rightarrow> utext + bytes \<Rightarrow> config_diagnostic + validated_config" where
  "load_candidate env doc s content =
     (case content of
        Inl err \<Rightarrow> Inl (diagnostic ''CONFIG_UNREADABLE'' [] (lit ''cannot read configuration '' @ cs_path s @ lit '': '' @ err))
      | Inr raw \<Rightarrow> ebind (parse_document doc raw) (validate_config env doc))"

section \<open>Observation\<close>

definition active_snapshot :: "config_state \<Rightarrow> active_config" where
  "active_snapshot s = \<lparr>ac_generation = cs_generation s, ac_config = cs_config s\<rparr>"

record runtime_config_state =
  rc_status :: utext
  rc_generation :: u64
  rc_schema_version :: "u8 option"
  rc_source_digest :: "utext option"
  rc_effective_digest :: "utext option"
  rc_activated_at :: "utext option"
  rc_subsystem_acks :: "subsystem_ack list"
  rc_last_error :: "config_error option"

definition runtime_state :: "config_state \<Rightarrow> runtime_config_state" where
  "runtime_state s = \<lparr>rc_status = (if cs_config s \<noteq> None then lit ''active'' else lit ''disabled_no_config''),
     rc_generation = cs_generation s, rc_schema_version = map_option sc_version (cs_config s),
     rc_source_digest = cs_source_digest s, rc_effective_digest = cs_effective_digest s,
     rc_activated_at = cs_activated_at s, rc_subsystem_acks = cs_subsystem_acks s, rc_last_error = cs_last_error s\<rparr>"

section \<open>Plans\<close>

text \<open>\<open>serde_json::Value\<close>: an object is its map, as the list of its entries in the order of the keys.\<close>

datatype json = JNull | JBool bool | JNumber int | JString utext | JArray "json list"
  | JObject "(utext \<times> json) list"

record config_change =
  cg_pointer :: utext
  cg_kind :: utext

fun replace_char :: "uchar \<Rightarrow> utext \<Rightarrow> utext \<Rightarrow> utext" where
  "replace_char c new [] = []"
| "replace_char c new (x # s) = (if x = c then new @ replace_char c new s else x # replace_char c new s)"

definition escape_key :: "utext \<Rightarrow> utext" where
  "escape_key key = replace_char 47 (lit ''~1'') (replace_char 126 (lit ''~0'') key)"

text \<open>The keys of both objects, as a \<open>BTreeSet\<close> gives them.\<close>

definition all_keys :: "(utext \<times> json) list \<Rightarrow> (utext \<times> json) list \<Rightarrow> utext list" where
  "all_keys before after = remdups (sort (map fst before @ map fst after))"

lemma set_all_keys [simp]: "set (all_keys before after) = fst ` set before \<union> fst ` set after"
  by (simp add: all_keys_def)

definition json_size :: "json option \<Rightarrow> nat" where
  "json_size j = (case j of None \<Rightarrow> 0 | Some v \<Rightarrow> size v)"

lemma json_size_child: "json_size (map_of entries k) < size (JObject entries)"
proof (cases "map_of entries k")
  case (Some v)
  then have "(k, v) \<in> set entries" by (rule map_of_SomeD)
  then have "size v < Suc (size_list (size_prod (\<lambda>_. 0) size) entries)"
    by (induction entries) auto
  then show ?thesis using Some by (simp add: json_size_def)
qed (simp add: json_size_def)

lemma json_size_children:
  "json_size (map_of before k) + json_size (map_of after k)
     < json_size (Some (JObject before)) + json_size (Some (JObject after))"
  using json_size_child [of before k] json_size_child [of after k] by (simp add: json_size_def [of "Some _"])

definition change :: "utext \<Rightarrow> string \<Rightarrow> config_change" where
  "change pointer kind = \<lparr>cg_pointer = pointer, cg_kind = lit kind\<rparr>"

function collect_changes :: "utext \<Rightarrow> json option \<Rightarrow> json option \<Rightarrow> config_change list" where
  "collect_changes pointer current candidate =
     (case (current, candidate) of
        (Some (JObject before), Some (JObject after)) \<Rightarrow>
          concat (map (\<lambda>key. collect_changes (pointer @ lit ''/'' @ escape_key key)
            (map_of before key) (map_of after key)) (all_keys before after))
      | (Some before, Some after) \<Rightarrow> if before = after then [] else [change pointer ''replace'']
      | (None, Some _) \<Rightarrow> [change pointer ''add'']
      | (Some _, None) \<Rightarrow> [change pointer ''remove'']
      | (None, None) \<Rightarrow> [])"
  by pat_completeness auto
termination
  by (relation "measure (\<lambda>(_, c, d). json_size c + json_size d)") (auto simp: json_size_children)

declare collect_changes.simps [simp del]

record activation_plan =
  ap_base_generation :: u64
  ap_candidate_source_digest :: utext
  ap_candidate_effective_digest :: utext
  ap_schema_version :: u8
  ap_changes :: "config_change list"
  ap_restart_required :: bool

definition serialize :: "(starry_config \<Rightarrow> utext + json) \<Rightarrow> utext \<Rightarrow> starry_config \<Rightarrow> config_diagnostic + json" where
  "serialize to_value what c = (case to_value c of Inr j \<Rightarrow> Inr j
     | Inl err \<Rightarrow> Inl (diagnostic ''CONFIG_SERIALIZATION_FAILED'' []
         (lit ''cannot serialize '' @ what @ lit '' configuration: '' @ err)))"

definition plan_activation ::
  "(starry_config \<Rightarrow> utext + json) \<Rightarrow> validated_config \<Rightarrow> config_state \<Rightarrow> config_diagnostic + activation_plan" where
  "plan_activation to_value nxt s =
     ebind (case cs_config s of None \<Rightarrow> Inr None
         | Some c \<Rightarrow> ebind (serialize to_value (lit ''active'') c) (\<lambda>j. Inr (Some j))) (\<lambda>current.
     ebind (serialize to_value (lit ''candidate'') (vc_config nxt)) (\<lambda>candidate.
       Inr \<lparr>ap_base_generation = cs_generation s, ap_candidate_source_digest = vc_source_digest nxt,
         ap_candidate_effective_digest = vc_effective_digest nxt, ap_schema_version = sc_version (vc_config nxt),
         ap_changes = collect_changes [] current (Some candidate), ap_restart_required = False\<rparr>))"

end
