(* ===== verification/Starry_Config_Valid.thy ===== *)
theory Starry_Config_Valid
  imports Starry_Config_State
begin

text \<open>
  A declarative specification of a valid configuration document, in exact arithmetic and without
  order or messages, and the proof that each section of the validator of \<open>Starry_Config\<close> decides its
  part of it on the normal form of the section.
\<close>

section \<open>Shared lemmas\<close>

lemma trim_trim [simp]: "trim (trim s) = trim s"
proof -
  define t where "t = trim_start s"
  have t: "t = [] \<or> \<not> is_whitespace (hd t)" by (metis hd_dropWhile t_def trim_start_def)
  define u where "u = dropWhile is_whitespace (rev t)"
  have u: "u = [] \<or> \<not> is_whitespace (hd u)" by (metis hd_dropWhile u_def)
  have "\<exists>p. rev t = p @ u" unfolding u_def by (metis takeWhile_dropWhile_id)
  then obtain p where "rev t = p @ u" by blast
  then have "t = rev u @ rev p" by (metis rev_append rev_rev_ident)
  then have "rev u = [] \<or> \<not> is_whitespace (hd (rev u))" using t by (cases "rev u") auto
  then have "trim (rev u) = rev u" using u by (auto simp: trim_id_iff last_rev)
  then show ?thesis by (simp add: trim_def t_def [symmetric] u_def [symmetric])
qed

lemma ebind_unit: "ebind r (\<lambda>_. f) = Inr v \<longleftrightarrow> (\<exists>u. r = Inr u) \<and> f = Inr v"
  by (cases r) (simp_all add: ebind_def)

definition unique_texts :: "utext list \<Rightarrow> bool" where
  "unique_texts xs \<longleftrightarrow> (\<forall>x \<in> set xs. x \<noteq> []) \<and> distinct (map to_ascii_lowercase xs)"

lemma normalize_from_Inr:
  "normalize_from field seen vs = Inr ws \<longleftrightarrow>
     ws = map trim vs \<and> unique_texts ws \<and> set (map to_ascii_lowercase ws) \<inter> set seen = {}"
proof (induction vs arbitrary: seen ws)
  case (Cons v vs)
  show ?case
    by (cases ws) (auto simp: Let_def ebind_Inr Cons.IH unique_texts_def, force+)
qed (auto simp: unique_texts_def)

lemma normalize_unique_Inr: "normalize_unique field vs = Inr ws \<longleftrightarrow> ws = map trim vs \<and> unique_texts ws"
  by (auto simp: normalize_unique_def normalize_from_Inr)

lemma in_range_unat: "in_range low high v \<longleftrightarrow> unat v \<in> {unat low..unat high}"
  by (simp add: in_range_def word_le_nat_alt)

section \<open>A declarative specification\<close>

text \<open>
  What a valid configuration is, in natural numbers: the reference the validator is compared with.
\<close>

definition secure_tcp_valid :: "secure_tcp_config \<Rightarrow> bool" where
  "secure_tcp_valid c \<longleftrightarrow> unat (st_handshake_timeout_ms c) \<in> {1000..120000}
     \<and> unat (st_idle_timeout_ms c) \<in> {1000..600000} \<and> unat (st_max_frame_bytes c) \<in> {4096..16777216}"

definition database_valid :: "database_config \<Rightarrow> bool" where
  "database_valid d \<longleftrightarrow> db_path d \<noteq> [] \<and> mmdb_path_ok (db_path d)
     \<and> (db_url d = [] \<or> starts_with (lit ''https://'') (db_url d))"

definition mmdb_valid :: "mmdb_config \<Rightarrow> bool" where
  "mmdb_valid c \<longleftrightarrow> unat (md_update_interval_hours c) \<le> 8760 \<and> unat (md_download_timeout_seconds c) \<in> {1..3600}
     \<and> unat (md_minimum_bytes c) \<in> {1024..1073741824}
     \<and> database_valid (md_country c) \<and> database_valid (md_city c) \<and> database_valid (md_asn c)"

definition geo_rule_valid :: "utext list \<Rightarrow> geo_rule_config \<Rightarrow> bool" where
  "geo_rule_valid relay_servers r \<longleftrightarrow> grc_name r \<noteq> [] \<and> unique_texts (grc_relays r) \<and> grc_relays r \<noteq> []
     \<and> lowercased (grc_relays r) \<subseteq> lowercased relay_servers"

definition geo_valid :: "utext list \<Rightarrow> geo_config \<Rightarrow> bool" where
  "geo_valid relay_servers g \<longleftrightarrow> (gc_enabled g \<longrightarrow>
     gc_rules g \<noteq> [] \<and> relay_servers \<noteq> [] \<and> (\<forall>r \<in> set (gc_rules g). geo_rule_valid relay_servers r)
     \<and> distinct (map grc_name (gc_rules g)) \<and> (\<exists>rules. rule_set_compile g = Inr rules))"

definition endpoint_valid :: "config_env \<Rightarrow> relay_endpoint_config \<Rightarrow> bool" where
  "endpoint_valid env e \<longleftrightarrow> ec_relay e \<noteq> [] \<and> ec_url e \<noteq> []
     \<and> (\<exists>u. ev_url_parse env (ec_url e) = Inr u \<and> telemetry_url_ok u
          \<and> (pu_path u = lit ''/ws/telemetry'' \<longleftrightarrow> ec_telemetry_secret_file e \<noteq> None)
          \<and> (\<forall>path. ec_telemetry_secret_file e = Some path \<longrightarrow> is_absolute path))
     \<and> (\<forall>port. ec_fast_media_udp_port e = Some port \<longrightarrow> port \<noteq> 0 \<and> ec_telemetry_secret_file e \<noteq> None)"

definition health_limits :: "relay_health_config \<Rightarrow> bool" where
  "health_limits h \<longleftrightarrow> unat (hc_interval_seconds h) \<in> {5..3600} \<and> unat (hc_timeout_ms h) \<in> {500..120000}
     \<and> unat (hc_success_threshold h) \<in> {1..100} \<and> unat (hc_failure_threshold h) \<in> {1..100}
     \<and> length (hc_endpoints h) \<le> 256"

definition health_valid :: "config_env \<Rightarrow> relay_health_config \<Rightarrow> bool" where
  "health_valid env h \<longleftrightarrow> health_limits h \<and> (\<forall>e \<in> set (hc_endpoints h). endpoint_valid env e)
     \<and> distinct (map (to_ascii_lowercase \<circ> ec_relay) (hc_endpoints h))
     \<and> distinct (map (to_ascii_lowercase \<circ> ec_url) (hc_endpoints h))"

definition websocket_limits :: "websocket_signal_config \<Rightarrow> bool" where
  "websocket_limits w \<longleftrightarrow>
     unat (ws_registration_timeout_ms w) \<in> {1000..120000} \<and> unat (ws_keepalive_interval_ms w) \<in> {1000..300000}
     \<and> unat (ws_idle_timeout_ms w) \<in> {2000..600000} \<and> ws_keepalive_interval_ms w < ws_idle_timeout_ms w
     \<and> unat (ws_max_frame_bytes w) \<in> {4096..16777216} \<and> unat (ws_outbound_queue_capacity w) \<in> {1..4096}
     \<and> unat (ws_max_sessions w) \<in> {1..1000000}
     \<and> unat (ws_max_sessions_per_effective_ip w) \<in> {1..unat (ws_max_sessions w)}
     \<and> unat (ws_registration_rate_per_minute w) \<in> {1..100000}"

definition websocket_valid :: "config_env \<Rightarrow> utext list \<Rightarrow> websocket_signal_config \<Rightarrow> bool" where
  "websocket_valid env relay_servers w \<longleftrightarrow> websocket_limits w
     \<and> unique_texts (ws_trusted_proxies w) \<and> (\<forall>p \<in> set (ws_trusted_proxies w). ev_network_parse env p = None)
     \<and> unique_texts (ws_allowed_origins w)
     \<and> (\<forall>t \<in> set (ws_allowed_origins w). \<exists>u. ev_url_parse env t = Inr u \<and> origin_ok u)
     \<and> health_valid env (ws_relay_health w)
     \<and> (ws_enabled w \<longrightarrow> relay_servers \<noteq> []
          \<and> lowercased (map ec_relay (hc_endpoints (ws_relay_health w))) = lowercased relay_servers)"

definition https_valid :: "config_env \<Rightarrow> utext \<Rightarrow> bool" where
  "https_valid env t \<longleftrightarrow> (\<exists>u. ev_url_parse env t = Inr u \<and> https_ok u)"

definition mtls_valid :: "config_env \<Rightarrow> utext \<Rightarrow> utext list \<Rightarrow> utext \<Rightarrow> bool" where
  "mtls_valid env url files server_name \<longleftrightarrow>
     (if url = [] then (\<forall>f \<in> set files. f = []) \<and> server_name = []
      else https_valid env url \<and> (\<forall>f \<in> set files. f \<noteq> []) \<and> server_name \<noteq> []
        \<and> (\<exists>d. ev_host_parse env server_name = Inr (HostDomain d))
        \<and> (\<exists>u. ev_url_parse env url = Inr u \<and> pu_host_str u = Some server_name))"

definition auth_valid :: "config_env \<Rightarrow> connection_auth_config \<Rightarrow> bool" where
  "auth_valid env c \<longleftrightarrow>
     (\<forall>p \<in> set (auth_fields c). set (snd p) \<inter> {0, 10, 13} = {})
     \<and> unat (ca_max_token_bytes c) \<in> {128..8192} \<and> unat (ca_clock_skew_seconds c) \<le> 300
     \<and> unat (jw_refresh_interval_seconds (ca_jwks c)) \<in> {30..86400}
     \<and> unat (jw_max_stale_seconds (ca_jwks c)) \<in> {unat (jw_refresh_interval_seconds (ca_jwks c))..604800}
     \<and> mtls_valid env (jw_url (ca_jwks c)) [jw_ca_file (ca_jwks c), jw_cert_file (ca_jwks c), jw_key_file (ca_jwks c)]
         (jw_server_name (ca_jwks c))
     \<and> unat (is_timeout_ms (ca_introspection c)) \<in> {100..10000}
     \<and> unat (is_positive_cache_seconds (ca_introspection c)) \<in> {1..60}
     \<and> unat (is_negative_cache_seconds (ca_introspection c)) \<le> 1
     \<and> unat (is_max_cache_entries (ca_introspection c)) \<in> {1..1000000}
     \<and> (ca_mode c \<noteq> AuthOff \<longrightarrow> ca_issuer c \<noteq> [] \<and> ca_audience c \<noteq> [] \<and> ca_token_use c \<noteq> []
          \<and> ca_required_scope c \<noteq> [] \<and> https_valid env (ca_issuer c)
          \<and> (jw_file (ca_jwks c) \<noteq> [] \<or> jw_url (ca_jwks c) \<noteq> []))
     \<and> (ca_mode c = AuthEnforce \<longrightarrow> jw_file (ca_jwks c) \<noteq> [])
     \<and> (is_required (ca_introspection c) \<longrightarrow> is_url (ca_introspection c) \<noteq> [])
     \<and> mtls_valid env (is_url (ca_introspection c)) [is_ca_file (ca_introspection c),
          is_cert_file (ca_introspection c), is_key_file (ca_introspection c)] (is_server_name (ca_introspection c))"

definition window :: "relay_quality_config \<Rightarrow> nat \<Rightarrow> nat" where
  "window c samples = samples * unat (qc_probe_timeout_ms c) + (samples - 1) * unat (qc_probe_interval_ms c)"

definition report_time :: "relay_quality_config \<Rightarrow> nat" where
  "report_time c = (case qc_strategy c of
     Adaptive \<Rightarrow> 2 * (unat (qc_p2p_probe_grace_ms c) + window c (unat (qc_primary_probe_samples c)))
       + window c (unat (qc_probe_samples c)) + 1000
   | Eager \<Rightarrow> 2 * window c (unat (qc_probe_samples c)))"

definition quality_bounds_valid :: "relay_quality_config \<Rightarrow> bool" where
  "quality_bounds_valid c \<longleftrightarrow> unat (qc_max_candidates c) \<in> {1..5}
     \<and> unat (qc_primary_probe_samples c) \<in> {1..unat (qc_probe_samples c)}
     \<and> unat (qc_primary_accept_score c) \<in> {1..10000} \<and> unat (qc_primary_max_loss_basis_points c) \<le> 10000
     \<and> unat (qc_p2p_probe_grace_ms c) \<le> 5000 \<and> unat (qc_probe_samples c) \<in> {3..20}
     \<and> unat (qc_probe_interval_ms c) \<in> {20..2000} \<and> unat (qc_probe_timeout_ms c) \<in> {100..5000}
     \<and> unat (qc_report_timeout_ms c) \<in> {1000..60000} \<and> unat (qc_max_telemetry_age_seconds c) \<in> {5..3600}
     \<and> unat (qc_allocation_ttl_seconds c) \<in> {5..300} \<and> unat (qc_cache_ttl_seconds c) \<in> {30..86400}
     \<and> unat (qc_max_allocations c) \<in> {100..1000000} \<and> unat (qc_hysteresis_basis_points c) \<le> 5000
     \<and> unat (qc_missing_report_penalty_basis_points c) \<le> 10000 \<and> unat (qc_rtt_bad_ms c) \<in> {10..10000}
     \<and> unat (qc_jitter_bad_ms c) \<in> {1..5000}
     \<and> unat (qw_rtt (qc_weights c)) + unat (qw_jitter (qc_weights c)) + unat (qw_loss (qc_weights c))
         + unat (qw_load (qc_weights c)) = 10000
     \<and> (\<forall>w \<in> {qw_rtt (qc_weights c), qw_jitter (qc_weights c), qw_loss (qc_weights c), qw_load (qc_weights c)}. w \<noteq> 0)"

definition quality_relays_of :: "utext list \<Rightarrow> relay_quality_config \<Rightarrow> utext list" where
  "quality_relays_of relay_servers c =
     filter (\<lambda>r. to_ascii_lowercase r \<notin> lowercased (qc_legacy_fallback_relays c)) relay_servers"

definition quality_valid ::
  "config_env \<Rightarrow> utext list \<Rightarrow> relay_health_config \<Rightarrow> relay_quality_config \<Rightarrow> bool" where
  "quality_valid env relay_servers h c \<longleftrightarrow>
     quality_bounds_valid c \<and> unique_texts (qc_legacy_fallback_relays c)
     \<and> lowercased (qc_legacy_fallback_relays c) \<subseteq> lowercased relay_servers
     \<and> (qc_enabled c \<longrightarrow> unat (qc_max_candidates c) \<ge> 2 \<and> length (quality_relays_of relay_servers c) \<ge> 2
          \<and> lowercased (quality_relays_of relay_servers c) \<subseteq> lowercased (map ec_relay (hc_endpoints h))
          \<and> lowercased (map ec_relay (hc_endpoints h)) \<subseteq> lowercased relay_servers
          \<and> (\<forall>e \<in> set (hc_endpoints h). to_ascii_lowercase (ec_relay e) \<notin> lowercased (qc_legacy_fallback_relays c)
               \<longrightarrow> telemetry_secured env e)
          \<and> unat (hc_interval_seconds h) + (unat (hc_timeout_ms h) + 999) div 1000 \<le> unat (qc_max_telemetry_age_seconds c)
          \<and> report_time c \<le> unat (qc_report_timeout_ms c)
          \<and> unat (qc_report_timeout_ms c) < 1000 * unat (qc_allocation_ttl_seconds c))"

definition fast_valid :: "starry_config \<Rightarrow> bool" where
  "fast_valid c \<longleftrightarrow>
     (let f = sc_fast_mode c; on = (fr_fast_compat_enabled f \<or> fr_fast_media_v1_enabled f) in
      unat (fr_authorization_ttl_seconds f) \<in> {30..300} \<and> unat (fr_max_bitrate_kbps f) \<in> {1000..200000}
      \<and> unat (fr_relay_max_datagram f) \<in> {608..1400}
      \<and> (fr_fast_compat_enabled f \<longrightarrow> sc_version c \<ge> 5 \<or> qc_enabled (sc_relay_quality c))
      \<and> (fr_fast_media_v1_enabled f \<longrightarrow> sc_version c \<ge> 5 \<and>
           (\<exists>e \<in> set (hc_endpoints (ws_relay_health (sc_websocket_signal c))).
              to_ascii_lowercase (ec_relay e) \<in> lowercased (sc_relay_servers c)
              \<and> ec_telemetry_secret_file e \<noteq> None \<and> (\<exists>port > 0. ec_fast_media_udp_port e = Some port)))
      \<and> (on \<longrightarrow> ca_mode (sc_connection_auth c) \<noteq> AuthOff
           \<and> (st_mode (sc_secure_tcp c) = SecureTcpAuto \<or> ws_enabled (sc_websocket_signal c))))"

definition config_valid :: "config_env \<Rightarrow> starry_config \<Rightarrow> bool" where
  "config_valid env c \<longleftrightarrow> unat (sc_version c) \<in> {1..5} \<and> unique_texts (sc_relay_servers c)
     \<and> secure_tcp_valid (sc_secure_tcp c) \<and> mmdb_valid (sc_mmdb c) \<and> geo_valid (sc_relay_servers c) (sc_geo c)
     \<and> websocket_valid env (sc_relay_servers c) (sc_websocket_signal c) \<and> auth_valid env (sc_connection_auth c)
     \<and> quality_valid env (sc_relay_servers c) (ws_relay_health (sc_websocket_signal c)) (sc_relay_quality c)
     \<and> fast_valid c"

text \<open>The normal form: trimmed texts, empty expressions as \<open>*\<close>, blank secret files as none.\<close>

definition normal_database :: "database_config \<Rightarrow> database_config" where
  "normal_database d = \<lparr>db_path = trim (db_path d), db_url = trim (db_url d)\<rparr>"

definition normal_mmdb :: "mmdb_config \<Rightarrow> mmdb_config" where
  "normal_mmdb c = c\<lparr>md_country := normal_database (md_country c), md_city := normal_database (md_city c),
     md_asn := normal_database (md_asn c)\<rparr>"

definition normal_rule :: "geo_rule_config \<Rightarrow> geo_rule_config" where
  "normal_rule r = r\<lparr>grc_name := trim (grc_name r), grc_relays := map trim (grc_relays r),
     grc_matches := \<lparr>ee_client_a = normalized_expression (ee_client_a (grc_matches r)),
       ee_client_b = normalized_expression (ee_client_b (grc_matches r))\<rparr>\<rparr>"

definition normal_geo :: "geo_config \<Rightarrow> geo_config" where
  "normal_geo g = (if gc_enabled g then g\<lparr>gc_rules := map normal_rule (gc_rules g)\<rparr> else g)"

definition normal_websocket :: "websocket_signal_config \<Rightarrow> websocket_signal_config" where
  "normal_websocket w = w\<lparr>ws_trusted_proxies := map trim (ws_trusted_proxies w),
     ws_allowed_origins := map trim (ws_allowed_origins w),
     ws_relay_health := (ws_relay_health w)\<lparr>hc_endpoints := map normalize_endpoint (hc_endpoints (ws_relay_health w))\<rparr>\<rparr>"

definition normal_quality :: "relay_quality_config \<Rightarrow> relay_quality_config" where
  "normal_quality c = c\<lparr>qc_legacy_fallback_relays := map trim (qc_legacy_fallback_relays c)\<rparr>"

definition normal_config :: "starry_config \<Rightarrow> starry_config" where
  "normal_config c = c\<lparr>sc_relay_servers := map trim (sc_relay_servers c), sc_mmdb := normal_mmdb (sc_mmdb c),
     sc_geo := normal_geo (sc_geo c), sc_websocket_signal := normal_websocket (sc_websocket_signal c),
     sc_connection_auth := trim_auth (sc_connection_auth c), sc_relay_quality := normal_quality (sc_relay_quality c)\<rparr>"

section \<open>The sections of the validator\<close>

lemma validate_secure_tcp_Inr: "validate_secure_tcp c = Inr u \<longleftrightarrow> secure_tcp_valid c"
  by (simp add: validate_secure_tcp_def reject_if_Inr secure_tcp_valid_def in_range_unat)

lemma validate_database_Inr:
  "validate_database label d = Inr d' \<longleftrightarrow> d' = normal_database d \<and> database_valid d'"
  by (auto simp: validate_database_def Let_def ebind_unit reject_if_Inr normal_database_def database_valid_def)

lemma validate_mmdb_Inr: "validate_mmdb c = Inr c' \<longleftrightarrow> c' = normal_mmdb c \<and> mmdb_valid c'"
  by (auto simp: validate_mmdb_def ebind_unit ebind_Inr reject_if_Inr validate_database_Inr normal_mmdb_def
      mmdb_valid_def word_less_nat_alt Suc_le_eq unat_gt_0)

lemma geo_relays_known_Inr: "geo_relays_known name S relays = Inr u \<longleftrightarrow> lowercased relays \<subseteq> S"
  by (auto simp: geo_relays_known_def lowercased_def find_None_iff image_subset_iff split: option.splits
      dest!: find_SomeD)

lemma normal_rule_fields [simp]:
  "grc_name (normal_rule r) = trim (grc_name r)" "grc_relays (normal_rule r) = map trim (grc_relays r)"
  by (simp_all add: normal_rule_def)

lemma validate_geo_rules_Cons:
  "validate_geo_rules (lowercased relays) i names (r # rules) = Inr rs \<longleftrightarrow>
     geo_rule_valid relays (normal_rule r) \<and> trim (grc_name r) \<notin> set names
     \<and> (\<exists>rest. validate_geo_rules (lowercased relays) (Suc i) (trim (grc_name r) # names) rules = Inr rest
          \<and> rs = normal_rule r # rest)"
  by (auto simp: Let_def ebind_Inr ebind_unit normalize_unique_Inr geo_relays_known_Inr geo_rule_valid_def
      normal_rule_def [of r])

lemma validate_geo_rules_Inr:
  "validate_geo_rules (lowercased relays) i names rules = Inr rs \<longleftrightarrow>
     rs = map normal_rule rules \<and> (\<forall>r \<in> set rs. geo_rule_valid relays r)
     \<and> distinct (map grc_name rs) \<and> (\<forall>r \<in> set rs. grc_name r \<notin> set names)"
proof (induction rules arbitrary: i names rs)
  case (Cons r rules)
  show ?case unfolding validate_geo_rules_Cons Cons.IH by (auto simp: image_iff comp_def, metis+)
qed auto

lemma validate_geo_Inr: "validate_geo relays g = Inr g' \<longleftrightarrow> g' = normal_geo g \<and> geo_valid relays g'"
proof (cases "gc_enabled g")
  case True
  then show ?thesis
    by (auto simp: validate_geo_def ebind_Inr ebind_unit reject_if_Inr validate_geo_rules_Inr normal_geo_def geo_valid_def
        split: sum.splits)
qed (auto simp: validate_geo_def normal_geo_def geo_valid_def)

lemma check_proxies_Inr: "check_proxies env ps = Inr u \<longleftrightarrow> (\<forall>p \<in> set ps. ev_network_parse env p = None)"
  by (induction ps) (auto split: option.split)

lemma check_origins_Inr:
  "check_origins env ts = Inr u \<longleftrightarrow> (\<forall>t \<in> set ts. \<exists>u. ev_url_parse env t = Inr u \<and> origin_ok u)"
  by (induction ts) (auto split: sum.split)

lemma endpoint_checks_pass:
  "(\<forall>c \<in> set (endpoint_checks u e). \<not> fst c) \<longleftrightarrow> telemetry_url_ok u
     \<and> (pu_path u = lit ''/ws/telemetry'' \<longleftrightarrow> ec_telemetry_secret_file e \<noteq> None)
     \<and> (\<forall>path. ec_telemetry_secret_file e = Some path \<longrightarrow> is_absolute path)
     \<and> (\<forall>port. ec_fast_media_udp_port e = Some port \<longrightarrow> port \<noteq> 0 \<and> ec_telemetry_secret_file e \<noteq> None)"
  by (auto simp: endpoint_checks_def Let_def split: option.splits)

lemma validate_endpoints_Cons:
  "validate_endpoints env i relays urls (e0 # rest) = Inr es \<longleftrightarrow>
     (let e = normalize_endpoint e0 in
      endpoint_valid env e \<and> to_ascii_lowercase (ec_relay e) \<notin> set relays \<and> to_ascii_lowercase (ec_url e) \<notin> set urls
      \<and> (\<exists>es'. validate_endpoints env (Suc i) (to_ascii_lowercase (ec_relay e) # relays)
            (to_ascii_lowercase (ec_url e) # urls) rest = Inr es' \<and> es = e # es'))"
  by (cases "ev_url_parse env (ec_url (normalize_endpoint e0))")
    (auto simp: Let_def ebind_Inr ebind_unit reject_if_Inr endpoint_checks_pass endpoint_valid_def)

lemma validate_endpoints_Inr:
  "validate_endpoints env i relays urls es0 = Inr es \<longleftrightarrow>
     es = map normalize_endpoint es0 \<and> (\<forall>e \<in> set es. endpoint_valid env e)
     \<and> distinct (map (to_ascii_lowercase \<circ> ec_relay) es) \<and> distinct (map (to_ascii_lowercase \<circ> ec_url) es)
     \<and> (\<forall>e \<in> set es. to_ascii_lowercase (ec_relay e) \<notin> set relays \<and> to_ascii_lowercase (ec_url e) \<notin> set urls)"
proof (induction es0 arbitrary: i relays urls es)
  case (Cons e0 es0)
  show ?case unfolding validate_endpoints_Cons Let_def Cons.IH by (auto simp: image_iff comp_def, metis+)
qed auto

lemma websocket_bounds_pass: "(\<forall>c \<in> set (websocket_bounds w). \<not> fst c) \<longleftrightarrow> websocket_limits w"
  by (simp add: websocket_bounds_def websocket_limits_def in_range_unat not_le not_less word_le_nat_alt
      word_less_nat_alt Suc_le_eq unat_gt_0)

lemma health_bounds_pass: "(\<forall>c \<in> set (health_bounds h). \<not> fst c) \<longleftrightarrow> health_limits h"
  by (auto simp: health_bounds_def health_limits_def in_range_unat not_less)

lemma check_coverage_Inr:
  "check_coverage env relays es = Inr u \<longleftrightarrow> relays \<noteq> [] \<and> lowercased (map ec_relay es) = lowercased relays"
  by (simp add: check_coverage_def Let_def reject_if_Inr)

lemma normal_websocket_fields [simp]:
  "websocket_limits (normal_websocket w) = websocket_limits w"
  "ws_trusted_proxies (normal_websocket w) = map trim (ws_trusted_proxies w)"
  "ws_allowed_origins (normal_websocket w) = map trim (ws_allowed_origins w)"
  "health_limits (ws_relay_health (normal_websocket w)) = health_limits (ws_relay_health w)"
  "hc_endpoints (ws_relay_health (normal_websocket w)) = map normalize_endpoint (hc_endpoints (ws_relay_health w))"
  "ws_enabled (normal_websocket w) = ws_enabled w"
  by (simp_all add: normal_websocket_def websocket_limits_def health_limits_def)

lemma if_Inr_unit: "(if b then r else Inr ()) = Inr u \<longleftrightarrow> (b \<longrightarrow> (\<exists>v. r = Inr v))"
  by auto

lemma validate_websocket_Inr:
  "validate_websocket_signal env relays w = Inr w' \<longleftrightarrow> w' = normal_websocket w \<and> websocket_valid env relays w'"
proof -
  have "validate_websocket_signal env relays w = Inr w' \<longleftrightarrow>
      w' = normal_websocket w \<and> websocket_valid env relays (normal_websocket w)"
    unfolding validate_websocket_signal_def ebind_unit ebind_Inr reject_if_Inr websocket_bounds_pass
      health_bounds_pass normalize_unique_Inr check_proxies_Inr check_origins_Inr validate_endpoints_Inr if_Inr_unit
      check_coverage_Inr websocket_valid_def health_valid_def normal_websocket_fields normal_websocket_def [symmetric]
    by (auto simp: normal_websocket_def)
  then show ?thesis by blast
qed

lemma validate_https_Inr: "validate_https_url env t field = Inr u \<longleftrightarrow> https_valid env t"
  by (auto simp: validate_https_url_def https_valid_def reject_if_Inr split: sum.split)

lemma validate_mtls_Inr:
  "validate_mtls_endpoint env url ca cert key name field = Inr u \<longleftrightarrow>
     ca \<noteq> [] \<and> cert \<noteq> [] \<and> key \<noteq> [] \<and> name \<noteq> [] \<and> (\<exists>d. ev_host_parse env name = Inr (HostDomain d))
     \<and> (\<exists>p. ev_url_parse env url = Inr p \<and> pu_host_str p = Some name)"
  by (auto simp: validate_mtls_endpoint_def ebind_unit reject_if_Inr split: sum.split url_host.splits)

lemma validate_jwks_Inr:
  "validate_jwks_endpoint env j = Inr u \<longleftrightarrow>
     mtls_valid env (jw_url j) [jw_ca_file j, jw_cert_file j, jw_key_file j] (jw_server_name j)"
  by (auto simp: validate_jwks_endpoint_def mtls_valid_def ebind_unit validate_https_Inr validate_mtls_Inr reject_if_Inr)

lemma validate_introspection_Inr:
  "validate_introspection_endpoint env n = Inr u \<longleftrightarrow> (is_required n \<longrightarrow> is_url n \<noteq> [])
     \<and> mtls_valid env (is_url n) [is_ca_file n, is_cert_file n, is_key_file n] (is_server_name n)"
  by (auto simp: validate_introspection_endpoint_def mtls_valid_def ebind_unit validate_https_Inr validate_mtls_Inr
      reject_if_Inr)

lemma validate_mode_Inr:
  "validate_auth_mode env c = Inr u \<longleftrightarrow>
     (ca_mode c \<noteq> AuthOff \<longrightarrow> ca_issuer c \<noteq> [] \<and> ca_audience c \<noteq> [] \<and> ca_token_use c \<noteq> []
          \<and> ca_required_scope c \<noteq> [] \<and> https_valid env (ca_issuer c)
          \<and> (jw_file (ca_jwks c) \<noteq> [] \<or> jw_url (ca_jwks c) \<noteq> []))
     \<and> (ca_mode c = AuthEnforce \<longrightarrow> jw_file (ca_jwks c) \<noteq> [])"
  by (auto simp: validate_auth_mode_def ebind_unit validate_https_Inr reject_if_Inr)

lemma validate_auth_Inr:
  "validate_connection_auth env c = Inr c' \<longleftrightarrow> c' = trim_auth c \<and> auth_valid env c'"
proof -
  have forbidden: "(\<forall>p \<in> set (forbidden_checks d). \<not> fst p)
      \<longleftrightarrow> (\<forall>p \<in> set (auth_fields d). set (snd p) \<inter> {0, 10, 13} = {})" for d
    by (fastforce simp: forbidden_checks_def has_forbidden_def list_ex_iff)
  have bounds: "(\<forall>p \<in> set (auth_bounds d). \<not> fst p) \<longleftrightarrow>
     unat (ca_max_token_bytes d) \<in> {128..8192} \<and> unat (ca_clock_skew_seconds d) \<le> 300
     \<and> unat (jw_refresh_interval_seconds (ca_jwks d)) \<in> {30..86400}
     \<and> unat (jw_max_stale_seconds (ca_jwks d)) \<in> {unat (jw_refresh_interval_seconds (ca_jwks d))..604800}" for d
    by (simp add: auth_bounds_def in_range_unat not_less word_le_nat_alt)
  have intro: "(\<forall>p \<in> set (introspection_bounds n). \<not> fst p) \<longleftrightarrow>
     unat (is_timeout_ms n) \<in> {100..10000} \<and> unat (is_positive_cache_seconds n) \<in> {1..60}
     \<and> unat (is_negative_cache_seconds n) \<le> 1 \<and> unat (is_max_cache_entries n) \<in> {1..1000000}" for n
    by (simp add: introspection_bounds_def in_range_unat not_less word_le_nat_alt)
  show ?thesis
    unfolding validate_connection_auth_def Let_def ebind_unit reject_if_Inr forbidden bounds intro
      validate_jwks_Inr validate_mode_Inr validate_introspection_Inr auth_valid_def by blast
qed

lemma check_legacy_Inr: "check_legacy relays legacy = Inr u \<longleftrightarrow> lowercased legacy \<subseteq> lowercased relays"
  by (auto simp: check_legacy_def lowercased_def find_None_iff image_subset_iff split: option.splits
      dest!: find_SomeD)

lemma unat_small_u64: "unat (ucast (x :: u32) :: u64) = unat x"
  using unsigned_less [of x, where ?'a = nat] by (simp add: unsigned_ucast_eq take_bit_eq_mod)

text \<open>None of the saturating sums and products saturates within the bounds.\<close>

lemma window_exact:
  assumes "unat (samples :: u32) \<le> 20" "unat (qc_probe_timeout_ms c) \<le> 5000" "unat (qc_probe_interval_ms c) \<le> 2000"
  shows "unat (quality_window_ms c samples) = window c (unat samples)"
    and "window c (unat samples) \<le> 138000"
proof -
  have a: "unat samples * unat (qc_probe_timeout_ms c) \<le> 20 * 5000" using assms by (intro mult_mono) auto
  have b: "(unat samples - 1) * unat (qc_probe_interval_ms c) \<le> 19 * 2000" using assms by (intro mult_mono) auto
  show "unat (quality_window_ms c samples) = window c (unat samples)"
    using a b by (simp add: quality_window_ms_def window_def unat_sat unat_small_u64)
  show "window c (unat samples) \<le> 138000" using a b by (simp add: window_def)
qed

lemma required_exact:
  assumes "quality_bounds_valid c"
  shows "unat (required_report_ms c) = report_time c"
proof -
  have b: "unat (qc_primary_probe_samples c) \<le> 20" "unat (qc_probe_samples c) \<le> 20"
    "unat (qc_probe_timeout_ms c) \<le> 5000" "unat (qc_probe_interval_ms c) \<le> 2000" "unat (qc_p2p_probe_grace_ms c) \<le> 5000"
    using assms by (auto simp: quality_bounds_valid_def)
  show ?thesis
    using window_exact [OF b(1,3,4)] window_exact [OF b(2,3,4)] b(5)
    by (cases "qc_strategy c") (simp_all add: required_report_ms_def report_time_def unat_sat unat_small_u64)
qed

lemma freshness_exact:
  assumes "health_limits h"
  shows "unat (minimum_freshness h) = unat (hc_interval_seconds h) + (unat (hc_timeout_ms h) + 999) div 1000"
proof -
  have "(unat (hc_timeout_ms h) + 999) div 1000 \<le> 120999 div 1000"
    using assms by (intro div_le_mono) (simp add: health_limits_def)
  then show ?thesis using assms by (simp add: minimum_freshness_def health_limits_def unat_sat unat_div)
qed

lemma weights_exact:
  "weights_total w = 10000 \<longleftrightarrow> unat (qw_rtt w) + unat (qw_jitter w) + unat (qw_loss w) + unat (qw_load w) = 10000"
proof -
  have "weights_total w = 10000 \<longleftrightarrow> unat (weights_total w) = 10000" by (simp add: word_unat_eq_iff)
  also have "\<dots> \<longleftrightarrow> unat (qw_rtt w) + unat (qw_jitter w) + unat (qw_loss w) + unat (qw_load w) = 10000"
    by (simp add: weights_total_def unat_sat_add) linarith
  finally show ?thesis .
qed

lemma quality_bounds_pass:
  "(\<forall>p \<in> set (quality_bounds c @ quality_relations relays c). \<not> fst p) \<longleftrightarrow>
     quality_bounds_valid c \<and> (qc_enabled c \<longrightarrow> 2 \<le> length relays \<and> 2 \<le> unat (qc_max_candidates c))"
proof -
  have s: "unat (qc_probe_samples c) \<le> 20 \<Longrightarrow> (Suc 0 \<le> unat (qc_primary_probe_samples c) \<and> unat (qc_primary_probe_samples c) \<le> 20
      \<and> unat (qc_primary_probe_samples c) \<le> unat (qc_probe_samples c))
      \<longleftrightarrow> (Suc 0 \<le> unat (qc_primary_probe_samples c) \<and> unat (qc_primary_probe_samples c) \<le> unat (qc_probe_samples c))"
    by linarith
  show ?thesis
    unfolding quality_bounds_def quality_relations_def Let_def quality_bounds_valid_def in_range_unat weights_exact
    by (simp add: not_less word_le_nat_alt word_less_nat_alt) (use s in auto)
qed

lemma lowercased_subset: "lowercased xs \<subseteq> S \<longleftrightarrow> filter (\<lambda>r. to_ascii_lowercase r \<notin> S) xs = []"
  by (auto simp: lowercased_def filter_empty_conv)

lemma quality_enabled_pass:
  assumes "quality_bounds_valid c" "health_limits h"
  shows "(\<forall>p \<in> set (quality_enabled_checks env relays h c). \<not> fst p) \<longleftrightarrow>
     length (quality_relays_of relays c) \<ge> 2
     \<and> lowercased (quality_relays_of relays c) \<subseteq> lowercased (map ec_relay (hc_endpoints h))
     \<and> lowercased (map ec_relay (hc_endpoints h)) \<subseteq> lowercased relays
     \<and> (\<forall>e \<in> set (hc_endpoints h). to_ascii_lowercase (ec_relay e) \<notin> lowercased (qc_legacy_fallback_relays c)
          \<longrightarrow> telemetry_secured env e)
     \<and> unat (hc_interval_seconds h) + (unat (hc_timeout_ms h) + 999) div 1000 \<le> unat (qc_max_telemetry_age_seconds c)
     \<and> report_time c \<le> unat (qc_report_timeout_ms c)
     \<and> unat (qc_report_timeout_ms c) < 1000 * unat (qc_allocation_ttl_seconds c)"
proof -
  have f: "qc_max_telemetry_age_seconds c < minimum_freshness h \<longleftrightarrow>
      \<not> unat (hc_interval_seconds h) + (unat (hc_timeout_ms h) + 999) div 1000 \<le> unat (qc_max_telemetry_age_seconds c)"
    by (simp add: word_less_nat_alt freshness_exact [OF assms(2)] not_le)
  have r: "(ucast (qc_report_timeout_ms c) :: u64) < required_report_ms c \<longleftrightarrow> \<not> report_time c \<le> unat (qc_report_timeout_ms c)"
    by (simp add: word_less_nat_alt unat_small_u64 required_exact [OF assms(1)] not_le)
  have "unat (qc_allocation_ttl_seconds c) \<le> 300" using assms(1) by (simp add: quality_bounds_valid_def)
  then have t: "sat_mul (qc_allocation_ttl_seconds c) 1000 \<le> (ucast (qc_report_timeout_ms c) :: u64) \<longleftrightarrow>
      \<not> unat (qc_report_timeout_ms c) < 1000 * unat (qc_allocation_ttl_seconds c)"
    by (simp add: word_le_nat_alt unat_small_u64 unat_sat_mul not_less mult.commute)
  have i: "map ec_relay (filter (\<lambda>e. to_ascii_lowercase (ec_relay e) \<notin> L \<and> \<not> telemetry_secured env e) es) \<noteq> [] \<longleftrightarrow>
      \<not> (\<forall>e \<in> set es. to_ascii_lowercase (ec_relay e) \<notin> L \<longrightarrow> telemetry_secured env e)" for L es
    by (auto simp: filter_empty_conv)
  show ?thesis
    unfolding quality_enabled_checks_def Let_def f r t i quality_relays_of_def [symmetric] lowercased_subset
    by (auto simp: not_less not_le)
qed

lemma normal_quality_fields [simp]:
  "qc_enabled (normal_quality c) = qc_enabled c" "qc_max_candidates (normal_quality c) = qc_max_candidates c"
  "qc_legacy_fallback_relays (normal_quality c) = map trim (qc_legacy_fallback_relays c)"
  by (simp_all add: normal_quality_def)

lemma validate_quality_Inr:
  assumes "health_limits h"
  shows "validate_relay_quality env relays h c = Inr c' \<longleftrightarrow> c' = normal_quality c \<and> quality_valid env relays h c'"
proof -
  have relays: "2 \<le> length (quality_relays_of relays d) \<Longrightarrow> 2 \<le> length relays" for d
    unfolding quality_relays_of_def by (meson length_filter_le order_trans)
  have "validate_relay_quality env relays h c = Inr c' \<longleftrightarrow> c' = normal_quality c \<and> quality_valid env relays h (normal_quality c)"
    unfolding validate_relay_quality_def ebind_Inr ebind_unit normalize_unique_Inr Let_def reject_if_Inr
      quality_bounds_pass if_Inr_unit check_legacy_Inr quality_valid_def
    using quality_enabled_pass [OF _ assms, of "normal_quality c" env relays] relays [of "normal_quality c"]
    by (auto simp: normal_quality_def [of c, symmetric])
  then show ?thesis by blast
qed

lemma fast_capable_iff:
  "x \<in> fast_capable h \<longleftrightarrow> (\<exists>e \<in> set (hc_endpoints h). x = to_ascii_lowercase (ec_relay e)
     \<and> ec_telemetry_secret_file e \<noteq> None \<and> (\<exists>port > 0. ec_fast_media_udp_port e = Some port))"
proof -
  have "(case p of None \<Rightarrow> False | Some port \<Rightarrow> port > 0) \<longleftrightarrow> (\<exists>port > 0. p = Some port)" for p :: "u16 option"
    by (cases p) auto
  then show ?thesis unfolding fast_capable_def lowercased_def by auto
qed

lemma fast_disjoint:
  "lowercased relays \<inter> fast_capable h = {} \<longleftrightarrow>
     \<not> (\<exists>e \<in> set (hc_endpoints h). to_ascii_lowercase (ec_relay e) \<in> lowercased relays
        \<and> ec_telemetry_secret_file e \<noteq> None \<and> (\<exists>port > 0. ec_fast_media_udp_port e = Some port))"
  unfolding disjoint_iff fast_capable_iff by blast

lemma validate_fast_Inr: "validate_fast_mode c = Inr u \<longleftrightarrow> fast_valid c"
proof -
  define E where "E \<longleftrightarrow> (\<exists>e \<in> set (hc_endpoints (ws_relay_health (sc_websocket_signal c))).
      to_ascii_lowercase (ec_relay e) \<in> lowercased (sc_relay_servers c)
      \<and> ec_telemetry_secret_file e \<noteq> None \<and> (\<exists>port > 0. ec_fast_media_udp_port e = Some port))"
  have off: "st_mode (sc_secure_tcp c) = SecureTcpOff \<longleftrightarrow> st_mode (sc_secure_tcp c) \<noteq> SecureTcpAuto"
    by (cases "st_mode (sc_secure_tcp c)") simp_all
  have E: "E \<Longrightarrow> sc_relay_servers c \<noteq> []" by (auto simp: E_def lowercased_def)
  have limits: "in_range 30 300 (fr_authorization_ttl_seconds (sc_fast_mode c))
      \<longleftrightarrow> unat (fr_authorization_ttl_seconds (sc_fast_mode c)) \<in> {30..300}"
    "in_range 1000 200000 (fr_max_bitrate_kbps (sc_fast_mode c))
      \<longleftrightarrow> unat (fr_max_bitrate_kbps (sc_fast_mode c)) \<in> {1000..200000}"
    "in_range 608 1400 (fr_relay_max_datagram (sc_fast_mode c))
      \<longleftrightarrow> unat (fr_relay_max_datagram (sc_fast_mode c)) \<in> {608..1400}"
    by (simp_all add: in_range_unat)
  show ?thesis
    unfolding validate_fast_mode_def reject_if_Inr fast_mode_checks_def fast_valid_def Let_def limits fast_disjoint
      E_def [symmetric] off list.set ball_simps fst_conv not_less [symmetric]
    using E by blast
qed

lemma validate_Inr: "validate env d = Inr d' \<longleftrightarrow> d' = normal_config d \<and> config_valid env d'"
proof -
  have v: "(\<exists>u. reject_if [(\<not> version_supported (sc_version d), m)] = Inr u) \<longleftrightarrow> unat (sc_version d) \<in> {1..5}" for m
    by (simp add: reject_if_Inr version_supported_def in_range_unat)
  have w: "websocket_valid env r x \<Longrightarrow> health_limits (ws_relay_health x)" for r x
    by (simp add: websocket_valid_def health_valid_def)
  let ?ws = "normal_websocket (sc_websocket_signal d)"
  have "validate env d = Inr d' \<longleftrightarrow> d' = normal_config d \<and> config_valid env (normal_config d)"
  proof (cases "websocket_valid env (map trim (sc_relay_servers d)) ?ws")
    case True
    note q = validate_quality_Inr [OF w [OF True]]
    show ?thesis
      unfolding validate_def ebind_unit v ebind_Inr normalize_unique_Inr validate_secure_tcp_Inr validate_mmdb_Inr
        validate_geo_Inr validate_websocket_Inr validate_auth_Inr Let_def validate_fast_Inr
      using True by (auto simp: q normal_config_def config_valid_def)
  next
    case False
    then show ?thesis
      unfolding validate_def ebind_unit v ebind_Inr normalize_unique_Inr validate_secure_tcp_Inr validate_mmdb_Inr
        validate_geo_Inr validate_websocket_Inr validate_auth_Inr Let_def validate_fast_Inr
      by (auto simp: normal_config_def config_valid_def)
  qed
  then show ?thesis by blast
qed

section \<open>Normal forms\<close>

lemma map_trim_trim [simp]: "map (trim \<circ> trim) xs = map trim xs"
  by simp

lemma normalized_expression_idem [simp]: "normalized_expression (normalized_expression t) = normalized_expression t"
proof -
  have "trim (lit ''*'') = lit ''*''" by (simp add: trim_def trim_start_def lit_def is_whitespace_def)
  then show ?thesis by (simp add: normalized_expression_def Let_def)
qed

lemma normal_database_idem [simp]: "normal_database (normal_database d) = normal_database d"
  by (simp add: normal_database_def)

lemma normal_rule_idem [simp]: "normal_rule (normal_rule r) = normal_rule r"
  by (simp add: normal_rule_def)

lemma normalize_endpoint_idem [simp]: "normalize_endpoint (normalize_endpoint e) = normalize_endpoint e"
  by (auto simp: normalize_endpoint_def split: option.split)

lemma trim_auth_idem [simp]: "trim_auth (trim_auth c) = trim_auth c"
  by (simp add: trim_auth_def trim_jwks_def trim_introspection_def)

lemma normal_config_idem [simp]: "normal_config (normal_config c) = normal_config c"
proof -
  have "normal_mmdb (normal_mmdb m) = normal_mmdb m" for m by (simp add: normal_mmdb_def)
  moreover have "normal_geo (normal_geo g) = normal_geo g" for g by (simp add: normal_geo_def comp_def)
  moreover have "normal_websocket (normal_websocket w) = normal_websocket w" for w
    by (simp add: normal_websocket_def comp_def)
  moreover have "normal_quality (normal_quality q) = normal_quality q" for q by (simp add: normal_quality_def)
  ultimately show ?thesis by (simp add: normal_config_def)
qed

end
