(* ===== verification/Starry_Config_Properties.thy ===== *)
theory Starry_Config_Properties
  imports Starry_Config_Valid
begin

text \<open>
  Properties of the configuration document and of the active configuration (\<open>starry_config.rs\<close>):
  what the validator accepts, what is active after any sequence of operations, activation as a
  compare-and-swap, and when the plan of an activation is empty.
\<close>

section \<open>The validator\<close>

text \<open>C25. The validator accepts exactly the configurations whose normal form is valid in the sense of
  the declarative specification, with exact arithmetic in place of saturating words, and what it
  returns is that normal form, which it accepts again unchanged.\<close>

theorem validate_exact:
  "(validate env c = Inr c' \<longleftrightarrow> c' = normal_config c \<and> config_valid env c')
   \<and> (validate env c = Inr c' \<longrightarrow> validate env c' = Inr c')"
  unfolding validate_Inr by auto

section \<open>The configuration as a transition system\<close>

text \<open>
  The log records, beside the state, every document that was activated.  The documents given to an
  activation come out of \<open>validate_config\<close>, which is the only producer of their type.
\<close>

record config_system =
  cy_state :: config_state
  cy_log :: "validated_config list"

definition accepted_load :: "config_error + validated_config option \<Rightarrow> validated_config list" where
  "accepted_load r = (case r of Inr (Some v) \<Rightarrow> [v] | _ \<Rightarrow> [])"

definition accepted_one :: "validated_config \<Rightarrow> config_diagnostic + activation_ack \<Rightarrow> validated_config list" where
  "accepted_one v r = (case r of Inl _ \<Rightarrow> [] | Inr _ \<Rightarrow> [v])"

inductive config_step :: "config_env \<Rightarrow> document_env \<Rightarrow> config_system \<Rightarrow> config_system \<Rightarrow> bool" for env doc where
  init: "config_step env doc y \<lparr>cy_state = snd (initialize env doc now path messages content (cy_state y)),
     cy_log = cy_log y @ accepted_load (load_config env doc content)\<rparr>"
| reload: "config_step env doc y \<lparr>cy_state = snd (reload env doc now content (cy_state y)),
     cy_log = cy_log y @ accepted_load (load_config env doc content)\<rparr>"
| activate: "validate_config env doc parsed = Inr nxt \<Longrightarrow>
     config_step env doc y \<lparr>cy_state = snd (activate now nxt acks (cy_state y)),
       cy_log = cy_log y @ accepted_one nxt (fst (activate now nxt acks (cy_state y)))\<rparr>"
| activate_if: "validate_config env doc parsed = Inr nxt \<Longrightarrow>
     config_step env doc y \<lparr>cy_state = snd (activate_if_base_generation now nxt acks expected (cy_state y)),
       cy_log = cy_log y @ accepted_one nxt (fst (activate_if_base_generation now nxt acks expected (cy_state y)))\<rparr>"
| acknowledge: "config_step env doc y \<lparr>cy_state = snd (acknowledge_active now expected acks (cy_state y)), cy_log = cy_log y\<rparr>"

inductive config_later :: "config_env \<Rightarrow> document_env \<Rightarrow> config_system \<Rightarrow> config_system \<Rightarrow> bool" for env doc where
  here: "config_later env doc y y"
| later: "config_later env doc y y' \<Longrightarrow> config_step env doc y' y'' \<Longrightarrow> config_later env doc y y''"

definition config_start :: config_system where
  "config_start = \<lparr>cy_state = config_state_initial, cy_log = []\<rparr>"

definition config_inv :: "config_env \<Rightarrow> config_system \<Rightarrow> bool" where
  "config_inv env y \<longleftrightarrow>
     cs_config (cy_state y) = (if cy_log y = [] then None else Some (vc_config (last (cy_log y))))
     \<and> unat (cs_generation (cy_state y)) = min (length (cy_log y)) (2 ^ 64 - 1)
     \<and> (\<forall>v \<in> set (cy_log y). validate env (vc_config v) = Inr (vc_config v))"

lemma validate_again: "validate env c = Inr c' \<Longrightarrow> validate env c' = Inr c'"
  unfolding validate_Inr by auto

lemma validate_config_Inr: "validate_config env doc parsed = Inr v \<Longrightarrow> validate env (vc_config v) = Inr (vc_config v)"
  by (auto simp: validate_config_def split: option.splits sum.splits intro: validate_again)

lemma load_config_Inr: "load_config env doc content = Inr (Some v) \<Longrightarrow> validate env (vc_config v) = Inr (vc_config v)"
  by (auto simp: load_config_def split: sum.splits if_splits intro: validate_config_Inr)

text \<open>An operation either leaves configuration and generation, or activates a document.\<close>

lemma config_inv_kept:
  "config_inv env y \<Longrightarrow> cs_config s = cs_config (cy_state y) \<Longrightarrow> cs_generation s = cs_generation (cy_state y) \<Longrightarrow>
     config_inv env \<lparr>cy_state = s, cy_log = cy_log y\<rparr>"
  by (simp add: config_inv_def)

lemma config_inv_activated:
  assumes "config_inv env y" "validate env (vc_config v) = Inr (vc_config v)"
    and "cs_config s = Some (vc_config v)" "cs_generation s = sat_add (cs_generation (cy_state y)) 1"
  shows "config_inv env \<lparr>cy_state = s, cy_log = cy_log y @ [v]\<rparr>"
  using assms by (simp add: config_inv_def unat_sat_add)

lemma activate_state_effect [simp]:
  "cs_config (snd (activate_state now v acks s)) = Some (vc_config v)"
  "cs_generation (snd (activate_state now v acks s)) = sat_add (cs_generation s) 1"
  by (simp_all add: activate_state_def Let_def)

lemma apply_loaded_effect:
  "cs_config (snd (apply_loaded now path ms r s)) = (case r of Inr (Some v) \<Rightarrow> Some (vc_config v) | _ \<Rightarrow> cs_config s)"
  "cs_generation (snd (apply_loaded now path ms r s)) =
     (case r of Inr (Some v) \<Rightarrow> sat_add (cs_generation s) 1 | _ \<Rightarrow> cs_generation s)"
  by (auto simp: apply_loaded_def Let_def split_def split: sum.split option.split)

lemma config_inv_loaded:
  assumes "config_inv env y"
  shows "config_inv env \<lparr>cy_state = snd (apply_loaded now path ms (load_config env doc content) (cy_state y)),
     cy_log = cy_log y @ accepted_load (load_config env doc content)\<rparr>"
proof (cases "\<exists>v. load_config env doc content = Inr (Some v)")
  case True
  then obtain v where v: "load_config env doc content = Inr (Some v)" by blast
  show ?thesis unfolding v
    using config_inv_activated [OF assms load_config_Inr [OF v]]
    by (simp add: accepted_load_def apply_loaded_effect)
next
  case False
  then have "accepted_load (load_config env doc content) = []"
    by (auto simp: accepted_load_def split: sum.split option.split)
  then show ?thesis using False config_inv_kept [OF assms]
    by (auto simp: apply_loaded_effect split: sum.split option.split)
qed

lemma activate_effect:
  "activate now v acks s = (Inl d, s') \<Longrightarrow> s' = s"
  "activate now v acks s = (Inr ack, s') \<Longrightarrow> s' = snd (activate_state now v acks s)"
  "activate_if_base_generation now v acks g s = (Inl d, s') \<Longrightarrow> s' = s"
  "activate_if_base_generation now v acks g s = (Inr ack, s') \<Longrightarrow> s' = snd (activate_state now v acks s) \<and> cs_generation s = g"
  by (auto simp: activate_def activate_if_base_generation_def split_def split: if_splits)

lemma config_inv_step: "config_step env doc y y' \<Longrightarrow> config_inv env y \<Longrightarrow> config_inv env y'"
proof (induction rule: config_step.induct)
  case (init y now path messages content)
  then show ?case by (simp add: initialize_def config_inv_loaded)
next
  case (reload y now content)
  then show ?case by (simp add: reload_def config_inv_loaded)
next
  case (activate parsed nxt y now acks)
  obtain r s where r: "activate now nxt acks (cy_state y) = (r, s)" by (cases "activate now nxt acks (cy_state y)")
  show ?case
    using activate config_inv_activated [OF activate(2) validate_config_Inr [OF activate(1)], of s]
      activate_effect(1,2) [of now nxt acks "cy_state y"] config_inv_kept [OF activate(2), of "cy_state y"]
    by (cases r) (auto simp: r accepted_one_def)
next
  case (activate_if parsed nxt y now acks expected)
  obtain r s where r: "activate_if_base_generation now nxt acks expected (cy_state y) = (r, s)"
    by (cases "activate_if_base_generation now nxt acks expected (cy_state y)")
  show ?case
    using activate_if config_inv_activated [OF activate_if(2) validate_config_Inr [OF activate_if(1)], of s]
      activate_effect(3,4) [of now nxt acks expected "cy_state y"]
      config_inv_kept [OF activate_if(2), of "cy_state y"]
    by (cases r) (auto simp: r accepted_one_def)
next
  case (acknowledge y now expected acks)
  then show ?case by (intro config_inv_kept) (auto simp: acknowledge_active_def split: option.split)
qed

lemma config_later_inv: "config_later env doc y y' \<Longrightarrow> config_inv env y \<Longrightarrow> config_inv env y'"
  by (induction rule: config_later.induct) (auto intro: config_inv_step)

lemma config_start_inv: "config_inv env config_start"
  by (simp add: config_inv_def config_start_def config_state_initial_def)

lemma config_log_grows: "config_later env doc y y' \<Longrightarrow> \<exists>vs. cy_log y' = cy_log y @ vs"
  by (induction rule: config_later.induct) (auto elim!: config_step.cases)

text \<open>C26. The last known good configuration: after any sequence of loads, activations and
  acknowledgements the active configuration is that of the last document that was activated, whatever
  was rejected, empty or unreadable since; the generation counts the activations; and every
  configuration that was ever active passes the validator unchanged.\<close>

theorem active_is_last_activated:
  assumes "config_later env doc config_start y"
  shows "cs_config (cy_state y) = (if cy_log y = [] then None else Some (vc_config (last (cy_log y))))
    \<and> unat (cs_generation (cy_state y)) = min (length (cy_log y)) (2 ^ 64 - 1)
    \<and> (\<forall>v \<in> set (cy_log y). validate env (vc_config v) = Inr (vc_config v))"
  using config_later_inv [OF assms config_start_inv] by (simp add: config_inv_def)

text \<open>C27. Activation on an expected generation is a compare-and-swap: of all plans made at one
  generation, at whatever later moments they are activated and with whatever operations between
  them, at most one is accepted; the others are refused as stale and change nothing.\<close>

theorem plan_activates_once:
  assumes reach: "config_later env doc config_start y"
    and first: "activate_if_base_generation now1 v1 acks1 g (cy_state y) = (Inr ack, s)"
    and after: "config_later env doc \<lparr>cy_state = s, cy_log = cy_log y @ [v1]\<rparr> z"
    and valid: "validate_config env doc parsed = Inr v1"
    and room: "length (cy_log y) < 2 ^ 64 - 1"
    and ok: "list_all sa_accepted acks2"
  shows "activate_if_base_generation now2 v2 acks2 g (cy_state z) = (Inl (plan_stale g (cy_state z)), cy_state z)"
proof -
  have inv: "config_inv env y" by (rule config_later_inv [OF reach config_start_inv])
  have "config_step env doc y \<lparr>cy_state = s, cy_log = cy_log y @ [v1]\<rparr>"
    using config_step.activate_if [OF valid, of y now1 acks1 g] by (simp add: first accepted_one_def)
  then have inv1: "config_inv env \<lparr>cy_state = s, cy_log = cy_log y @ [v1]\<rparr>" using inv by (rule config_inv_step)
  have g: "unat g = length (cy_log y)"
    using activate_effect(4) [OF first] inv room by (simp add: config_inv_def)
  obtain vs where "cy_log z = (cy_log y @ [v1]) @ vs" using config_log_grows [OF after] by auto
  then have "unat (cs_generation (cy_state z)) \<noteq> unat g"
    using config_later_inv [OF after inv1] g room by (auto simp: config_inv_def)
  then have "cs_generation (cy_state z) \<noteq> g" by auto
  moreover have "\<not> list_ex (\<lambda>ack. \<not> sa_accepted ack) acks2" using ok by (auto simp: list_all_iff list_ex_iff)
  ultimately show ?thesis by (simp add: activate_if_base_generation_def)
qed

section \<open>Plans\<close>

text \<open>A value is well formed when the entries of its objects are in the strict order of their keys.\<close>

fun json_ok :: "json \<Rightarrow> bool" where
  "json_ok (JObject entries) = (sorted (map fst entries) \<and> distinct (map fst entries)
     \<and> (\<forall>p \<in> set entries. json_ok (snd p)))"
| "json_ok (JArray vs) = (\<forall>v \<in> set vs. json_ok v)"
| "json_ok _ = True"

lemma json_ok_objects:
  assumes "json_ok (JObject xs)" "json_ok (JObject ys)"
  shows "xs = ys \<longleftrightarrow> (\<forall>k \<in> set (all_keys xs ys). map_of xs k = map_of ys k)"
proof
  assume eq: "\<forall>k \<in> set (all_keys xs ys). map_of xs k = map_of ys k"
  have "map_of xs k = map_of ys k" for k
  proof (cases "k \<in> set (all_keys xs ys)")
    case False
    then show ?thesis by (simp add: map_of_eq_None_iff [THEN iffD2])
  qed (use eq in blast)
  then have "set xs = set ys" using assms map_of_inject_set [of xs ys] by auto
  moreover have "inj_on fst (set xs \<union> set ys)"
    using assms \<open>set xs = set ys\<close> by (simp add: distinct_map)
  ultimately show "xs = ys"
    using assms by (intro map_sorted_distinct_set_unique [of fst]) simp_all
qed simp

lemma json_ok_child: "json_ok (JObject entries) \<Longrightarrow> pred_option json_ok (map_of entries k)"
  by (cases "map_of entries k") (auto dest: map_of_SomeD)

lemma collect_changes_Nil:
  "pred_option json_ok before \<Longrightarrow> pred_option json_ok after \<Longrightarrow>
     collect_changes pointer before after = [] \<longleftrightarrow> before = after"
proof (induction pointer before after rule: collect_changes.induct)
  case (1 pointer current candidate)
  show ?case
  proof (cases "\<exists>xs ys. current = Some (JObject xs) \<and> candidate = Some (JObject ys)")
    case True
    then obtain xs ys where eq: "current = Some (JObject xs)" "candidate = Some (JObject ys)" by blast
    have "collect_changes p (map_of xs k) (map_of ys k) = [] \<longleftrightarrow> map_of xs k = map_of ys k"
      if "p = pointer @ lit ''/'' @ escape_key k" "k \<in> set (all_keys xs ys)" for k p
      using 1 eq json_ok_child [of xs k] json_ok_child [of ys k] that by simp
    then show ?thesis
      using json_ok_objects [of xs ys] 1(2,3) by (simp add: collect_changes.simps [of _ "Some (JObject xs)" "Some (JObject ys)"] eq)
  next
    case False
    then show ?thesis
      by (auto simp: collect_changes.simps [of _ current] split: option.split json.split)
  qed
qed

section \<open>A concrete document\<close>

definition cx_url :: "utext \<Rightarrow> parsed_url" where
  "cx_url host = \<lparr>pu_scheme = lit ''wss'', pu_host = Some (HostDomain host), pu_host_str = Some host,
     pu_path = lit ''/ws/telemetry'', pu_query = None, pu_fragment = None, pu_username = [], pu_password = None\<rparr>"

definition cx_env :: config_env where
  "cx_env = \<lparr>ev_url_parse = (\<lambda>t. if t = lit ''wss://a/ws/telemetry'' then Inr (cx_url (lit ''a''))
       else if t = lit ''wss://b/ws/telemetry'' then Inr (cx_url (lit ''b'')) else Inl (lit ''relative URL without a base'')),
     ev_host_parse = (\<lambda>t. Inr (HostDomain t)), ev_network_parse = (\<lambda>_. None), ev_debug_list = (\<lambda>_. [])\<rparr>"

definition cx_endpoint :: "string \<Rightarrow> string \<Rightarrow> relay_endpoint_config" where
  "cx_endpoint relay url = \<lparr>ec_relay = lit relay, ec_url = lit url,
     ec_telemetry_secret_file = Some (lit ''/run/secret''), ec_fast_media_udp_port = None\<rparr>"

definition cx_wire :: starry_config_wire where
  "cx_wire = \<lparr>sw_version = 5, sw_relay_servers = [lit '' a '', lit ''b''], sw_secure_tcp = secure_tcp_config_default,
     sw_mmdb = mmdb_config_default, sw_geo = \<lparr>gc_enabled = False, gc_rules = []\<rparr>,
     sw_websocket_signal = Some (websocket_signal_config_default\<lparr>ws_relay_health :=
       relay_health_config_default\<lparr>hc_endpoints := [cx_endpoint ''a'' '' wss://a/ws/telemetry'', cx_endpoint ''b '' ''wss://b/ws/telemetry'']\<rparr>\<rparr>),
     sw_connection_auth = None, sw_relay_quality = Some (relay_quality_config_default\<lparr>qc_enabled := True\<rparr>),
     sw_fast_mode = None\<rparr>"

definition cx_doc :: document_env where
  "cx_doc = \<lparr>dv_yaml = (\<lambda>_. Inr cx_wire), dv_json = (\<lambda>_. Inr []), dv_sha256_hex = (\<lambda>raw. print_nat (length raw))\<rparr>"

lemmas text_eval = lit_def trim_def trim_start_def is_whitespace_def

lemma cx_trim:
  "trim [] = []" "trim (lit '' a '') = lit ''a''" "trim (lit ''a'') = lit ''a''" "trim (lit ''b'') = lit ''b''" "trim (lit ''b '') = lit ''b''"
  "trim (lit ''/run/secret'') = lit ''/run/secret''" "trim (lit '' wss://a/ws/telemetry'') = lit ''wss://a/ws/telemetry''"
  "trim (lit ''wss://b/ws/telemetry'') = lit ''wss://b/ws/telemetry''"
  "trim (lit ''mmdb/GeoLite2-Country.mmdb'') = lit ''mmdb/GeoLite2-Country.mmdb''"
  "trim (lit ''mmdb/GeoLite2-City.mmdb'') = lit ''mmdb/GeoLite2-City.mmdb''"
  "trim (lit ''mmdb/GeoLite2-ASN.mmdb'') = lit ''mmdb/GeoLite2-ASN.mmdb''"
  "trim (lit ''127.0.0.1/32'') = lit ''127.0.0.1/32''" "trim (lit ''::1/128'') = lit ''::1/128''"
  "trim (lit ''access'') = lit ''access''" "trim (lit ''connect:initiate'') = lit ''connect:initiate''"
  by (simp_all add: text_eval)

lemma cx_paths:
  "mmdb_path_ok (lit ''mmdb/GeoLite2-Country.mmdb'')" "mmdb_path_ok (lit ''mmdb/GeoLite2-City.mmdb'')"
  "mmdb_path_ok (lit ''mmdb/GeoLite2-ASN.mmdb'')"
  by code_simp+

lemma lit_Nil: "lit s = [] \<longleftrightarrow> s = []"
  by (simp add: lit_def)

lemma lit_inject: "lit s = lit t \<longleftrightarrow> s = t"
  by (simp add: lit_def inj_map_eq_map inj_on_def)

lemma cx_mmdb_valid: "normal_mmdb mmdb_config_default = mmdb_config_default" "mmdb_valid mmdb_config_default"
  by (simp_all add: mmdb_config_default_def normal_mmdb_def normal_database_def database_with_path_def cx_trim
    mmdb_valid_def database_valid_def cx_paths lit_Nil)

lemma cx_auth_valid:
  "trim_auth connection_auth_config_default = connection_auth_config_default"
  "auth_valid env connection_auth_config_default"
  by (simp_all add: connection_auth_config_default_def trim_auth_def trim_jwks_def trim_introspection_def
    jwks_config_default_def introspection_config_default_def cx_trim auth_valid_def auth_fields_def mtls_valid_def)
    (simp add: lit_def)

definition cx_health :: relay_health_config where
  "cx_health = relay_health_config_default\<lparr>hc_endpoints :=
     [cx_endpoint ''a'' ''wss://a/ws/telemetry'', cx_endpoint ''b'' ''wss://b/ws/telemetry'']\<rparr>"

definition cx_quality :: relay_quality_config where
  "cx_quality = relay_quality_config_default\<lparr>qc_enabled := True\<rparr>"

definition cx_config :: starry_config where
  "cx_config = \<lparr>sc_version = 5, sc_relay_servers = [lit ''a'', lit ''b''], sc_secure_tcp = secure_tcp_config_default,
     sc_mmdb = mmdb_config_default, sc_geo = \<lparr>gc_enabled = False, gc_rules = []\<rparr>,
     sc_websocket_signal = websocket_signal_config_default\<lparr>ws_relay_health := cx_health\<rparr>,
     sc_connection_auth = connection_auth_config_default, sc_relay_quality = cx_quality,
     sc_fast_mode = fast_relay_config_default\<rparr>"

lemma cx_lower: "to_ascii_lowercase (lit ''a'') = lit ''a''" "to_ascii_lowercase (lit ''b'') = lit ''b''"
  "to_ascii_lowercase (lit ''wss://a/ws/telemetry'') = lit ''wss://a/ws/telemetry''"
  "to_ascii_lowercase (lit ''wss://b/ws/telemetry'') = lit ''wss://b/ws/telemetry''"
  by code_simp+

lemmas cx_eval = lit_Nil lit_inject cx_lower lowercased_def cx_endpoint_def

lemma cx_urls: "ev_url_parse cx_env (lit ''wss://a/ws/telemetry'') = Inr (cx_url (lit ''a''))"
  "ev_url_parse cx_env (lit ''wss://b/ws/telemetry'') = Inr (cx_url (lit ''b''))"
  "telemetry_url_ok (cx_url h)" "pu_path (cx_url h) = lit ''/ws/telemetry''"
  by (simp_all add: cx_env_def cx_url_def telemetry_url_ok_def cx_eval)

lemma cx_health_valid: "health_valid cx_env cx_health"
proof -
  have "is_absolute (lit ''/run/secret'')" by (simp add: is_absolute_def starts_with_def lit_def)
  then show ?thesis
    by (simp add: health_valid_def health_limits_def cx_health_def relay_health_config_default_def endpoint_valid_def
      cx_eval cx_urls)
qed

lemma cx_websocket_valid:
  "websocket_valid cx_env [lit ''a'', lit ''b''] (websocket_signal_config_default\<lparr>ws_relay_health := cx_health\<rparr>)"
  using cx_health_valid
  by (simp add: websocket_valid_def websocket_limits_def websocket_signal_config_default_def unique_texts_def cx_env_def
    lit_Nil) (simp add: lit_def to_ascii_lowercase_def)

lemma cx_quality_valid: "quality_valid cx_env [lit ''a'', lit ''b''] cx_health cx_quality"
  by (simp add: quality_valid_def quality_bounds_valid_def cx_quality_def relay_quality_config_default_def
    relay_quality_weights_default_def unique_texts_def quality_relays_of_def telemetry_secured_def cx_eval cx_urls
    cx_health_def relay_health_config_default_def report_time_def window_def)

lemma cx_config_valid: "config_valid cx_env cx_config"
  using cx_websocket_valid cx_quality_valid
  by (simp add: config_valid_def cx_config_def secure_tcp_valid_def secure_tcp_config_default_def geo_valid_def cx_auth_valid
    cx_mmdb_valid fast_valid_def fast_relay_config_default_def unique_texts_def lit_inject lit_Nil cx_lower)

lemma cx_normal: "normal_config (config_of_wire cx_wire) = cx_config"
  by (simp add: normal_config_def config_of_wire_def cx_wire_def cx_config_def cx_trim cx_mmdb_valid cx_auth_valid
    normal_geo_def normal_quality_def cx_quality_def relay_quality_config_default_def normal_websocket_def
    websocket_signal_config_default_def cx_health_def relay_health_config_default_def normalize_endpoint_def cx_endpoint_def
    lit_Nil into_config_def fast_relay_wire_default_def fast_relay_config_default_def)

lemma cx_validate: "validate cx_env (config_of_wire cx_wire) = Inr cx_config"
  using cx_config_valid by (simp add: validate_Inr cx_normal)

theorem validate_exact_witness:
  "validate cx_env (config_of_wire cx_wire) = Inr cx_config \<and> validate cx_env cx_config = Inr cx_config"
  using validate_exact [of cx_env "config_of_wire cx_wire" cx_config] cx_normal cx_config_valid by simp

definition cx_parsed :: parsed_config where
  "cx_parsed = \<lparr>pc_raw = [65], pc_wire = cx_wire\<rparr>"

definition cx_validated :: validated_config where
  "cx_validated = \<lparr>vc_config = cx_config, vc_source_digest = sha256_digest cx_doc [65], vc_effective_digest = sha256_digest cx_doc []\<rparr>"

lemma cx_validate_config: "validate_config cx_env cx_doc cx_parsed = Inr cx_validated"
proof -
  have "schema_violation cx_wire = None" by code_simp
  then show ?thesis by (simp add: validate_config_def cx_parsed_def cx_validate cx_doc_def cx_validated_def)
qed

lemma cx_load: "load_config cx_env cx_doc (Inr [65]) = Inr (Some cx_validated)"
proof -
  have "parse_document cx_doc [65] = Inr cx_parsed"
    by (simp add: parse_document_def is_ascii_whitespace_def cx_doc_def cx_parsed_def)
  then show ?thesis by (simp add: load_config_def is_ascii_whitespace_def cx_validate_config)
qed

definition cx_loaded :: config_state where
  "cx_loaded = snd (initialize cx_env cx_doc [] [] [] (Inr [65]) config_state_initial)"

definition cx_kept :: config_state where
  "cx_kept = snd (reload cx_env cx_doc [] (Inl []) cx_loaded)"

lemma cx_config_run: "config_later cx_env cx_doc config_start \<lparr>cy_state = cx_kept, cy_log = [cx_validated]\<rparr>"
proof -
  have "config_step cx_env cx_doc config_start \<lparr>cy_state = cx_loaded, cy_log = [cx_validated]\<rparr>"
    using config_step.init [of cx_env cx_doc config_start "[]" "[]" "[]" "Inr [65]"]
    by (simp add: config_start_def cx_loaded_def cx_load accepted_load_def)
  moreover have "config_step cx_env cx_doc \<lparr>cy_state = cx_loaded, cy_log = [cx_validated]\<rparr> \<lparr>cy_state = cx_kept, cy_log = [cx_validated]\<rparr>"
    using config_step.reload [of cx_env cx_doc "\<lparr>cy_state = cx_loaded, cy_log = [cx_validated]\<rparr>" "[]" "Inl []"]
    by (simp add: cx_kept_def accepted_load_def load_config_def)
  ultimately show ?thesis by (blast intro: config_later.intros)
qed

theorem active_is_last_activated_witness:
  "cs_config cx_kept = Some cx_config \<and> cs_generation cx_kept = 1 \<and> validate cx_env cx_config = Inr cx_config"
proof -
  have "unat (cs_generation cx_kept) = unat (1 :: u64)" "cs_config cx_kept = Some cx_config"
    "validate cx_env cx_config = Inr cx_config"
    using active_is_last_activated [OF cx_config_run] by (simp_all add: cx_validated_def)
  then show ?thesis by (simp only: word_unat_eq_iff)
qed

definition cx_first :: "(config_diagnostic + activation_ack) \<times> config_state" where
  "cx_first = activate_if_base_generation [] cx_validated [] 0 config_state_initial"

theorem plan_activates_once_witness:
  "activate_if_base_generation [] cx_validated [config_core_ack] 0 (snd cx_first)
     = (Inl (plan_stale 0 (snd cx_first)), snd cx_first)"
proof -
  obtain ack s where f: "activate_if_base_generation [] cx_validated [] 0 (cy_state config_start) = (Inr ack, s)" "s = snd cx_first"
    by (simp add: activate_if_base_generation_def config_start_def config_state_initial_def split_def cx_first_def)
  show ?thesis
    using plan_activates_once [OF config_later.here f(1) config_later.here cx_validate_config, of "[config_core_ack]" "[]" cx_validated] f(2)
    by (simp add: config_start_def config_core_ack_def)
qed

end
