(* ===== verification/Connection_Auth.thy ===== *)
theory Connection_Auth
  imports Starry_Config_State
begin

text \<open>
  Authorisation of connection attempts (\<open>connection_auth.rs\<close>): the local verification of an access
  token, introspection with its cache and its permits, the decision of every mode, the preparation of
  a verifier that fails closed, and the refresh of its keys.  An attempt is split where the source
  awaits the introspection endpoint, so attempts interleave.  The JWT and base64 libraries, the hash,
  JSON and the network are parameters or inputs.
\<close>

section \<open>Data\<close>

datatype signal_transport = UnsupportedUdp | Tcp | SecureTcp | WebSocketSignal

type_synonym auth_reason = string

record auth_decision =
  ad_proceed :: bool
  ad_verdict :: string
  ad_reason :: auth_reason
  ad_mode :: connection_auth_mode

record auth_metrics =
  am_attempts :: u64
  am_allowed :: u64
  am_denied :: u64
  am_audit_would_deny :: u64
  am_cache_hits :: u64
  am_introspection_requests :: u64
  am_introspection_failures :: u64

definition auth_metrics_new :: auth_metrics where
  "auth_metrics_new = \<lparr>am_attempts = 0, am_allowed = 0, am_denied = 0, am_audit_would_deny = 0,
     am_cache_hits = 0, am_introspection_requests = 0, am_introspection_failures = 0\<rparr>"

text \<open>\<open>fetch_add(1)\<close> wraps.\<close>

definition count_one :: "((u64 \<Rightarrow> u64) \<Rightarrow> auth_metrics \<Rightarrow> auth_metrics) \<Rightarrow> auth_metrics \<Rightarrow> auth_metrics" where
  "count_one field m = field (\<lambda>n. n + 1) m"

datatype audience = AudOne utext | AudMany "utext list"
datatype scope = ScopeText utext | ScopeValues "utext list"

record claims =
  cl_iss :: utext
  cl_aud :: audience
  cl_token_use :: utext
  cl_scope :: scope
  cl_sub :: utext
  cl_user_id :: u64
  cl_auth_version :: u64
  cl_jti :: utext
  cl_iat :: u64
  cl_nbf :: u64
  cl_exp :: u64

record local_claims =
  lc_subject :: utext
  lc_expires_at :: u64

record jwk =
  jk_kty :: utext
  jk_crv :: utext
  jk_key_use :: utext
  jk_alg :: utext
  jk_kid :: utext
  jk_x :: utext
  jk_key_ops :: "utext list option"

record jwks_cache_metadata =
  jm_version :: u8
  jm_fetched_at_epoch_seconds :: u64
  jm_jwks_sha256 :: utext

record cache_entry =
  ce_active :: bool
  ce_reason :: auth_reason
  ce_expires_at :: instant
  ce_sequence :: u64

record introspection_runtime =
  ir_config :: introspection_config
  ir_entries :: "(bytes, cache_entry) hmap"
  ir_sequence :: u64
  ir_permits :: nat

record auth_runtime =
  ar_configured_mode :: connection_auth_mode
  ar_effective_mode :: connection_auth_mode
  ar_config :: connection_auth_config
  ar_keys :: "(utext, bytes) hmap"
  ar_loaded_at :: "u64 option"
  ar_jwks_file :: "utext option"
  ar_introspection :: "introspection_runtime option"

text \<open>
  The active runtime; \<open>au_id\<close> tells one runtime from its successors, as the \<open>Arc\<close> does.  A replaced
  runtime is cancelled and its keys and cache are seen by no later attempt.
\<close>

record auth_state =
  au_runtime :: auth_runtime
  au_id :: nat
  au_metrics :: auth_metrics

section \<open>Libraries\<close>

record jwt_header =
  jh_eddsa :: bool
  jh_typ :: "utext option"
  jh_kid :: "utext option"

datatype jwt_error = InvalidSignature | InvalidIssuer | InvalidAudience | InvalidAlgorithm
  | InvalidAlgorithmName | OtherJwtError

text \<open>
  \<open>av_decode\<close> verifies a token under a key with the required issuer and audience; \<open>av_jwks\<close> and
  \<open>av_metadata\<close> are the JSON documents, with the text of an error.
\<close>

record auth_env =
  av_decode_header :: "utext \<Rightarrow> jwt_header option"
  av_decode :: "utext \<Rightarrow> bytes \<Rightarrow> utext \<Rightarrow> utext \<Rightarrow> jwt_error + claims"
  av_base64_decode :: "utext \<Rightarrow> bytes option"
  av_base64_encode :: "bytes \<Rightarrow> utext"
  av_uuid_ok :: "utext \<Rightarrow> bool"
  av_sha256 :: "bytes \<Rightarrow> bytes"
  av_sha256_hex :: "bytes \<Rightarrow> utext"
  av_jwks :: "bytes \<Rightarrow> utext + jwk list"
  av_metadata :: "bytes \<Rightarrow> utext + jwks_cache_metadata"

definition checked_sub :: "u64 \<Rightarrow> u64 \<Rightarrow> u64 option" where
  "checked_sub a b = (if b \<le> a then Some (a - b) else None)"

section \<open>Tokens\<close>

definition segment_canonical :: "auth_env \<Rightarrow> utext \<Rightarrow> bool" where
  "segment_canonical env segment \<longleftrightarrow> segment \<noteq> [] \<and>
     (case av_base64_decode env segment of None \<Rightarrow> False | Some decoded \<Rightarrow> av_base64_encode env decoded = segment)"

definition canonical_compact_jwt :: "auth_env \<Rightarrow> utext \<Rightarrow> bool" where
  "canonical_compact_jwt env token \<longleftrightarrow>
     (case split_char 46 token of [a, b, c] \<Rightarrow> list_all (segment_canonical env) [a, b, c] | _ \<Rightarrow> False)"

fun audience_contains :: "audience \<Rightarrow> utext \<Rightarrow> bool" where
  "audience_contains (AudOne v) expected = (v = expected)"
| "audience_contains (AudMany vs) expected = list_ex (\<lambda>v. v = expected) vs"

definition ascii_space :: "uchar \<Rightarrow> bool" where
  "ascii_space c \<longleftrightarrow> c \<in> {32, 9, 10, 12, 13}"

text \<open>\<open>split_ascii_whitespace\<close>: the maximal runs of other characters.\<close>

fun words_from :: "utext \<Rightarrow> utext \<Rightarrow> utext list" where
  "words_from word [] = (if word = [] then [] else [rev word])"
| "words_from word (c # s) = (if ascii_space c
     then (if word = [] then words_from [] s else rev word # words_from [] s) else words_from (c # word) s)"

fun scope_contains :: "scope \<Rightarrow> utext \<Rightarrow> bool" where
  "scope_contains (ScopeText t) expected = list_ex (\<lambda>v. v = expected) (words_from [] t)"
| "scope_contains (ScopeValues vs) expected = list_ex (\<lambda>v. v = expected) vs"

fun decode_reason :: "jwt_error \<Rightarrow> auth_reason" where
  "decode_reason InvalidSignature = ''bad_signature''"
| "decode_reason InvalidIssuer = ''wrong_issuer''"
| "decode_reason InvalidAudience = ''wrong_audience''"
| "decode_reason InvalidAlgorithm = ''unsupported_alg''"
| "decode_reason InvalidAlgorithmName = ''unsupported_alg''"
| "decode_reason OtherJwtError = ''malformed_token''"

definition first_failed :: "(bool \<times> auth_reason) list \<Rightarrow> auth_reason option" where
  "first_failed checks = map_option snd (find fst checks)"

definition claim_checks :: "auth_env \<Rightarrow> connection_auth_config \<Rightarrow> u64 \<Rightarrow> claims \<Rightarrow> (bool \<times> auth_reason) list" where
  "claim_checks env c now k =
     (let skew = ca_clock_skew_seconds c in
      [(cl_iss k \<noteq> ca_issuer c, ''wrong_issuer''),
       (\<not> audience_contains (cl_aud k) (ca_audience c), ''wrong_audience''),
       (cl_token_use k \<noteq> ca_token_use c, ''wrong_token_use''),
       (\<not> scope_contains (cl_scope k) (ca_required_scope c), ''missing_scope''),
       (cl_user_id k = 0 \<or> cl_sub k \<noteq> print_nat (unat (cl_user_id k)), ''subject_mismatch''),
       (cl_auth_version k = 0 \<or> \<not> av_uuid_ok env (cl_jti k), ''malformed_token''),
       (cl_nbf k > sat_add now skew \<or> cl_iat k > sat_add now skew, ''not_yet_valid''),
       (sat_add (cl_exp k) skew < now, ''expired''),
       (cl_exp k \<le> cl_iat k, ''malformed_token'')])"

text \<open>The key of a token: its header, and the keyset read at \<open>clock\<close>.\<close>

definition token_key :: "auth_env \<Rightarrow> auth_runtime \<Rightarrow> utext \<Rightarrow> u64 \<Rightarrow> auth_reason + bytes" where
  "token_key env rt token clock =
     (case av_decode_header env token of None \<Rightarrow> Inl ''malformed_token''
      | Some header \<Rightarrow>
          if \<not> jh_eddsa header then Inl ''unsupported_alg''
          else if jh_typ header \<noteq> Some (lit ''at+jwt'') then Inl ''malformed_token''
          else (case jh_kid header of None \<Rightarrow> Inl ''unknown_kid''
            | Some kid \<Rightarrow>
                if kid = [] then Inl ''unknown_kid''
                else (case Option.bind (ar_loaded_at rt) (checked_sub clock) of None \<Rightarrow> Inl ''key_stale''
                  | Some age \<Rightarrow>
                      if age > jw_max_stale_seconds (ca_jwks (ar_config rt)) then Inl ''key_stale''
                      else (case hm_get (ar_keys rt) kid of None \<Rightarrow> Inl ''unknown_kid'' | Some key \<Rightarrow> Inr key))))"

definition verify_local_at :: "auth_env \<Rightarrow> auth_runtime \<Rightarrow> utext \<Rightarrow> u64 \<Rightarrow> u64 \<Rightarrow> auth_reason + local_claims" where
  "verify_local_at env rt token now clock =
     (let c = ar_config rt in
      if token = [] then Inl ''missing_token''
      else if utf8_len token > unat (ca_max_token_bytes c) then Inl ''malformed_token''
      else if \<not> canonical_compact_jwt env token then Inl ''malformed_token''
      else ebind (token_key env rt token clock) (\<lambda>key.
        (case av_decode env token key (ca_issuer c) (ca_audience c) of
           Inl err \<Rightarrow> Inl (decode_reason err)
         | Inr k \<Rightarrow>
             (case first_failed (claim_checks env c now k) of Some reason \<Rightarrow> Inl reason
              | None \<Rightarrow> Inr \<lparr>lc_subject = cl_sub k, lc_expires_at = cl_exp k\<rparr>))))"

section \<open>The introspection cache\<close>

definition live_entries :: "instant \<Rightarrow> (bytes, cache_entry) hmap \<Rightarrow> (bytes, cache_entry) hmap" where
  "live_entries now m = hm_retain (\<lambda>_ e. ce_expires_at e > now) m"

definition cache_lookup ::
  "instant \<Rightarrow> bytes \<Rightarrow> introspection_runtime \<Rightarrow> (bool \<times> auth_reason) option \<times> introspection_runtime" where
  "cache_lookup now hash ir =
     (let ir' = ir\<lparr>ir_entries := live_entries now (ir_entries ir)\<rparr>
      in (map_option (\<lambda>e. (ce_active e, ce_reason e)) (hm_get (ir_entries ir') hash), ir'))"

text \<open>\<open>min_by_key\<close> on the sequence: the first of the smallest in iteration order.\<close>

fun min_sequence :: "(bytes \<times> cache_entry) option \<Rightarrow> (bytes, cache_entry) hmap \<Rightarrow> bytes option" where
  "min_sequence best [] = map_option fst best"
| "min_sequence best ((k, e) # m) =
     min_sequence (case best of None \<Rightarrow> Some (k, e)
       | Some (k', e') \<Rightarrow> if ce_sequence e < ce_sequence e' then Some (k, e) else best) m"

lemma min_sequence_in: "min_sequence best m = Some k \<Longrightarrow> (\<exists>e. best = Some (k, e)) \<or> k \<in> fst ` set m"
proof (induction best m rule: min_sequence.induct)
  case (2 best k0 e0 m)
  then show ?case by (fastforce split: option.splits if_splits)
qed auto

lemma min_sequence_None: "min_sequence best m = None \<longleftrightarrow> best = None \<and> m = []"
proof (induction best m rule: min_sequence.induct)
  case (2 best k0 e0 m)
  then show ?case by (simp split: option.split if_split)
qed auto

lemma hm_remove_less: "k \<in> fst ` set m \<Longrightarrow> hm_len (hm_remove k m) < hm_len m"
  by (auto simp: hm_len_def hm_remove_def AList.delete_eq intro!: length_filter_less)

function evict_over :: "nat \<Rightarrow> (bytes, cache_entry) hmap \<Rightarrow> (bytes, cache_entry) hmap" where
  "evict_over limit m =
     (if hm_len m > limit
      then (case min_sequence None m of None \<Rightarrow> m | Some k \<Rightarrow> evict_over limit (hm_remove k m)) else m)"
  by pat_completeness auto
termination
proof (relation "measure (\<lambda>(_, m). hm_len m)")
  fix limit k and m :: "(bytes, cache_entry) hmap"
  assume "min_sequence None m = Some k"
  then have "k \<in> fst ` set m" using min_sequence_in by fastforce
  then show "((limit, hm_remove k m), limit, m) \<in> measure (\<lambda>(_, m). hm_len m)" by (simp add: hm_remove_less)
qed simp

declare evict_over.simps [simp del]

definition cache_ttl :: "introspection_config \<Rightarrow> bool \<Rightarrow> u64 \<Rightarrow> u64 \<Rightarrow> u64" where
  "cache_ttl c active token_exp now_epoch =
     (if active then min (is_positive_cache_seconds c) (sat_sub token_exp now_epoch) else is_negative_cache_seconds c)"

definition cache_store ::
  "bytes \<Rightarrow> bool \<Rightarrow> auth_reason \<Rightarrow> u64 \<Rightarrow> u64 \<Rightarrow> instant \<Rightarrow> introspection_runtime \<Rightarrow> introspection_runtime" where
  "cache_store hash active reason token_exp now_epoch now ir =
     (let ttl = cache_ttl (ir_config ir) active token_exp now_epoch in
      if ttl = 0 then ir
      else (let sequence = sat_add (ir_sequence ir) 1;
                entry = \<lparr>ce_active = active, ce_reason = reason, ce_expires_at = now + from_secs (unat ttl),
                  ce_sequence = sequence\<rparr>
            in ir\<lparr>ir_sequence := sequence,
                 ir_entries := evict_over (unat (is_max_cache_entries (ir_config ir))) (hm_insert hash entry (ir_entries ir))\<rparr>))"

section \<open>The introspection request\<close>

record introspection_response =
  ip_active :: bool
  ip_sub :: "utext option"
  ip_reason :: "utext option"

record http_response =
  hr_content_length :: "u64 option"
  hr_chunks :: "(utext + bytes) list"

text \<open>The chunks of a body, at most 64 KiB in all; \<open>Inl None\<close> when the limit is exceeded.\<close>

fun read_chunks :: "bytes \<Rightarrow> (utext + bytes) list \<Rightarrow> utext option + bytes" where
  "read_chunks body [] = Inr body"
| "read_chunks body (Inl err # rest) = Inl (Some err)"
| "read_chunks body (Inr chunk # rest) =
     (if length body + length chunk > 65536 then Inl None else read_chunks (body @ chunk) rest)"

definition too_long :: "http_response \<Rightarrow> bool" where
  "too_long r \<longleftrightarrow> (case hr_content_length r of None \<Rightarrow> False | Some n \<Rightarrow> n > 65536)"

definition read_json_limited ::
  "(bytes \<Rightarrow> introspection_response option) \<Rightarrow> http_response \<Rightarrow> auth_reason + introspection_response" where
  "read_json_limited from_json r =
     (if too_long r then Inl ''introspection_unavailable''
      else (case read_chunks [] (hr_chunks r) of Inl _ \<Rightarrow> Inl ''introspection_unavailable''
        | Inr body \<Rightarrow> (case from_json body of None \<Rightarrow> Inl ''introspection_unavailable'' | Some j \<Rightarrow> Inr j)))"

text \<open>What an attempt brings: the deadline already passed, the time out, an answer or an error.\<close>

datatype request_attempt = NoTimeLeft | AttemptTimeout | AttemptSuccess http_response
  | AttemptStatus bool | AttemptError bool bool

function request_from ::
  "(bytes \<Rightarrow> introspection_response option) \<Rightarrow> (nat \<Rightarrow> request_attempt) \<Rightarrow> nat \<Rightarrow> auth_reason + introspection_response" where
  "request_from from_json outcome n =
     (let attempt = n + 1 in
      case outcome attempt of
        NoTimeLeft \<Rightarrow> Inl ''introspection_timeout''
      | AttemptTimeout \<Rightarrow> Inl ''introspection_timeout''
      | AttemptSuccess r \<Rightarrow> read_json_limited from_json r
      | AttemptStatus server_error \<Rightarrow>
          if server_error \<and> attempt = 1 then request_from from_json outcome attempt
          else Inl ''introspection_unavailable''
      | AttemptError connect timeout \<Rightarrow>
          if (connect \<or> timeout) \<and> attempt = 1 then request_from from_json outcome attempt
          else if timeout then Inl ''introspection_timeout'' else Inl ''introspection_unavailable'')"
  by pat_completeness auto
termination
  by (relation "measure (\<lambda>(_, _, n). 1 - n)") auto

declare request_from.simps [simp del]

definition introspection_reason :: "utext option \<Rightarrow> auth_reason" where
  "introspection_reason reason =
     (if reason = Some (lit ''user_disabled'') then ''user_disabled''
      else if reason = Some (lit ''expired'') then ''expired''
      else if reason = Some (lit ''deleted_user'') then ''user_disabled'' else ''revoked'')"

section \<open>Attempts\<close>

text \<open>What an attempt that waits for the endpoint carries.\<close>

record auth_flight =
  fl_id :: nat
  fl_mode :: connection_auth_mode
  fl_hash :: bytes
  fl_local :: local_claims
  fl_now :: u64

definition verdict_of ::
  "connection_auth_mode \<Rightarrow> auth_reason option \<Rightarrow> auth_metrics \<Rightarrow> auth_decision \<times> auth_metrics" where
  "verdict_of mode failure m =
     (case failure of
        None \<Rightarrow> (\<lparr>ad_proceed = True, ad_verdict = ''allow'', ad_reason = ''allow'', ad_mode = mode\<rparr>,
          count_one am_allowed_update m)
      | Some reason \<Rightarrow>
          if mode = AuthAudit
          then (\<lparr>ad_proceed = True, ad_verdict = ''would_deny'', ad_reason = reason, ad_mode = mode\<rparr>,
            count_one am_audit_would_deny_update m)
          else (\<lparr>ad_proceed = False, ad_verdict = ''deny'', ad_reason = reason, ad_mode = mode\<rparr>,
            count_one am_denied_update m))"

datatype introspect_begun = IntrospectDone "auth_reason option" | IntrospectWait bytes

text \<open>\<open>introspect\<close> up to the request: no endpoint, a cached answer, no permit, or the request.\<close>

definition introspect_begin ::
  "auth_env \<Rightarrow> utext \<Rightarrow> instant \<Rightarrow> auth_runtime \<Rightarrow> auth_metrics \<Rightarrow> introspect_begun \<times> auth_runtime \<times> auth_metrics" where
  "introspect_begin env token inst rt m =
     (case ar_introspection rt of
        None \<Rightarrow> (IntrospectDone (if is_required (ca_introspection (ar_config rt))
          then Some ''introspection_unavailable'' else None), rt, m)
      | Some ir \<Rightarrow>
          (let hash = av_sha256 env (as_bytes token); (cached, ir') = cache_lookup inst hash ir in
           case cached of
             Some (active, reason) \<Rightarrow> (IntrospectDone (if active then None else Some reason),
               rt\<lparr>ar_introspection := Some ir'\<rparr>, count_one am_cache_hits_update m)
           | None \<Rightarrow>
               if ir_permits ir' = 0
               then (IntrospectDone (Some ''introspection_unavailable''), rt\<lparr>ar_introspection := Some ir'\<rparr>, m)
               else (IntrospectWait hash, rt\<lparr>ar_introspection := Some (ir'\<lparr>ir_permits := ir_permits ir' - 1\<rparr>)\<rparr>,
                 count_one am_introspection_requests_update m)))"

definition response_verdict :: "auth_reason + introspection_response \<Rightarrow> local_claims \<Rightarrow> bool \<times> auth_reason" where
  "response_verdict r local =
     (case r of Inl reason \<Rightarrow> (False, reason)
      | Inr response \<Rightarrow>
          if ip_active response
          then (if ip_sub response = Some (lc_subject local) then (True, ''allow'') else (False, ''subject_mismatch''))
          else (False, introspection_reason (ip_reason response)))"

definition authorize_begin ::
  "auth_env \<Rightarrow> utext \<Rightarrow> signal_transport \<Rightarrow> u64 \<Rightarrow> u64 \<Rightarrow> instant \<Rightarrow> auth_state
     \<Rightarrow> (auth_decision + auth_flight) \<times> auth_state" where
  "authorize_begin env token transport now clock inst s =
     (let rt = au_runtime s; mode = ar_effective_mode rt; m = count_one am_attempts_update (au_metrics s) in
      if transport = UnsupportedUdp
      then (Inl \<lparr>ad_proceed = False, ad_verdict = ''deny'', ad_reason = ''unsupported_transport'', ad_mode = mode\<rparr>,
        s\<lparr>au_metrics := count_one am_denied_update m\<rparr>)
      else if mode = AuthOff
      then (Inl \<lparr>ad_proceed = True, ad_verdict = ''skipped'', ad_reason = ''mode_off'', ad_mode = mode\<rparr>,
        s\<lparr>au_metrics := count_one am_allowed_update m\<rparr>)
      else (case verify_local_at env rt token now clock of
          Inl reason \<Rightarrow> (case verdict_of mode (Some reason) m of (d, m') \<Rightarrow> (Inl d, s\<lparr>au_metrics := m'\<rparr>))
        | Inr local \<Rightarrow>
            (case introspect_begin env token inst rt m of (begun, rt', m') \<Rightarrow>
               (case begun of
                  IntrospectDone failure \<Rightarrow>
                    (case verdict_of mode failure m' of (d, m'') \<Rightarrow> (Inl d, s\<lparr>au_runtime := rt', au_metrics := m''\<rparr>))
                | IntrospectWait hash \<Rightarrow>
                    (Inr \<lparr>fl_id = au_id s, fl_mode = mode, fl_hash = hash, fl_local = local, fl_now = now\<rparr>,
                     s\<lparr>au_runtime := rt', au_metrics := m'\<rparr>)))))"

text \<open>
  The rest of \<open>introspect\<close> and of the attempt, with the result of the request.  The permit is dropped
  before the answer is stored in the cache of the attempt's own runtime.
\<close>

definition store_answer :: "auth_flight \<Rightarrow> bool \<times> auth_reason \<Rightarrow> instant \<Rightarrow> auth_runtime \<Rightarrow> auth_runtime" where
  "store_answer f verdict inst rt =
     (case ar_introspection rt of None \<Rightarrow> rt
      | Some ir \<Rightarrow> rt\<lparr>ar_introspection := Some (cache_store (fl_hash f) (fst verdict) (snd verdict)
          (lc_expires_at (fl_local f)) (fl_now f) inst (ir\<lparr>ir_permits := ir_permits ir + 1\<rparr>))\<rparr>)"

definition authorize_finish ::
  "auth_flight \<Rightarrow> auth_reason + introspection_response \<Rightarrow> instant \<Rightarrow> auth_state \<Rightarrow> auth_decision \<times> auth_state" where
  "authorize_finish f result inst s =
     (let m = (case result of Inl _ \<Rightarrow> count_one am_introspection_failures_update (au_metrics s) | Inr _ \<Rightarrow> au_metrics s);
          verdict = response_verdict result (fl_local f);
          (d, m') = verdict_of (fl_mode f) (if fst verdict then None else Some (snd verdict)) m
      in (d, s\<lparr>au_metrics := m', au_runtime := (if fl_id f = au_id s then store_answer f verdict inst (au_runtime s)
            else au_runtime s)\<rparr>))"

text \<open>An attempt on its own, from its start to its decision.\<close>

definition authorize_connection_attempt ::
  "auth_env \<Rightarrow> utext \<Rightarrow> signal_transport \<Rightarrow> u64 \<Rightarrow> u64 \<Rightarrow> instant \<Rightarrow> auth_reason + introspection_response \<Rightarrow> instant
     \<Rightarrow> auth_state \<Rightarrow> auth_decision \<times> auth_state" where
  "authorize_connection_attempt env token transport now clock inst result inst' s =
     (case authorize_begin env token transport now clock inst s of
        (Inl d, s') \<Rightarrow> (d, s') | (Inr f, s') \<Rightarrow> authorize_finish f result inst' s')"

section \<open>Keys\<close>

definition jwk_profile :: "jwk \<Rightarrow> bool" where
  "jwk_profile k \<longleftrightarrow> jk_kty k = lit ''OKP'' \<and> jk_crv k = lit ''Ed25519'' \<and> jk_key_use k = lit ''sig''
     \<and> jk_alg k = lit ''EdDSA'' \<and> jk_kid k \<noteq> [] \<and> utf8_len (jk_kid k) \<le> 128"

fun jwks_keys :: "auth_env \<Rightarrow> (utext, bytes) hmap \<Rightarrow> jwk list \<Rightarrow> utext + (utext, bytes) hmap" where
  "jwks_keys env keys [] = Inr keys"
| "jwks_keys env keys (k # rest) =
     (if \<not> jwk_profile k then Inl (lit ''JWKS contains a key outside the OKP/Ed25519/EdDSA signing profile'')
      else if (case jk_key_ops k of None \<Rightarrow> False | Some operations \<Rightarrow> operations \<noteq> [lit ''verify''])
      then Inl (lit ''JWKS key_ops must contain only verify'')
      else (case av_base64_decode env (jk_x k) of
          None \<Rightarrow> Inl (lit ''JWKS contains an invalid base64url public key'')
        | Some raw_key \<Rightarrow>
            if length raw_key \<noteq> 32 then Inl (lit ''Ed25519 JWK public key must contain exactly 32 bytes'')
            else if hm_contains keys (jk_kid k) then Inl (lit ''JWKS contains a duplicate kid'')
            else jwks_keys env (hm_insert (jk_kid k) raw_key keys) rest))"

definition parse_jwks :: "auth_env \<Rightarrow> bytes \<Rightarrow> utext + (utext, bytes) hmap" where
  "parse_jwks env raw =
     (case av_jwks env raw of Inl err \<Rightarrow> Inl (lit ''invalid JWKS document: '' @ err)
      | Inr keys \<Rightarrow> if keys = [] then Inl (lit ''JWKS document contains no keys'') else jwks_keys env [] keys)"

text \<open>A fetch: the request fails, or it has a status, or it succeeds with a body.\<close>

datatype fetch_result = FetchFailed utext | FetchStatus utext | FetchBody http_response

definition fetch_limited :: "fetch_result \<Rightarrow> utext + bytes" where
  "fetch_limited r =
     (case r of FetchFailed err \<Rightarrow> Inl (lit ''JWKS request failed: '' @ err)
      | FetchStatus status \<Rightarrow> Inl (lit ''JWKS endpoint returned HTTP '' @ status)
      | FetchBody response \<Rightarrow>
          if too_long response then Inl (lit ''JWKS response exceeds 64 KiB'')
          else (case read_chunks [] (hr_chunks response) of
              Inl None \<Rightarrow> Inl (lit ''JWKS response exceeds 64 KiB'')
            | Inl (Some err) \<Rightarrow> Inl (lit ''cannot read JWKS response: '' @ err)
            | Inr body \<Rightarrow> Inr body))"

text \<open>The metadata file: its content, absent with the key file's time of modification, or an error.\<close>

datatype metadata_read = MetadataBytes bytes | MetadataMissing "utext + u64" | MetadataError utext

definition load_jwks_freshness ::
  "auth_env \<Rightarrow> metadata_read \<Rightarrow> bytes \<Rightarrow> bool \<Rightarrow> u64 \<Rightarrow> utext + u64 option" where
  "load_jwks_freshness env metadata raw require_metadata clock =
     (case metadata of
        MetadataBytes metadata_raw \<Rightarrow>
          if length metadata_raw > 4096 then Inl (lit ''JWKS cache metadata exceeds 4 KiB'')
          else (case av_metadata env metadata_raw of Inl err \<Rightarrow> Inl (lit ''invalid JWKS cache metadata: '' @ err)
            | Inr m \<Rightarrow>
                if jm_version m \<noteq> 1 then Inl (lit ''unsupported JWKS cache metadata version'')
                else if jm_jwks_sha256 m \<noteq> av_sha256_hex env raw
                then Inl (lit ''JWKS cache metadata digest does not match the keyset'')
                else if jm_fetched_at_epoch_seconds m > sat_add clock 300
                then Inl (lit ''JWKS cache metadata has an invalid future timestamp'')
                else Inr (Some (jm_fetched_at_epoch_seconds m)))
      | MetadataMissing modified \<Rightarrow>
          if require_metadata then Inr None
          else (case modified of Inl err \<Rightarrow> Inl (lit ''cannot read JWKS file freshness: '' @ err)
            | Inr t \<Rightarrow> if t > sat_add clock 300 then Inl (lit ''JWKS file has an invalid future modification time'')
                else Inr (Some t))
      | MetadataError err \<Rightarrow> Inl (lit ''cannot read JWKS cache metadata '' @ err))"

section \<open>Preparing a verifier\<close>

text \<open>
  What the preparation reads: the key file and its metadata, the clients it builds, the fetch, the
  result of writing the cache, and the clock at each reading.
\<close>

record prepare_input =
  pi_file :: "utext + bytes"
  pi_metadata :: metadata_read
  pi_jwks_client :: "utext + unit"
  pi_fetch :: fetch_result
  pi_write :: "utext + unit"
  pi_introspection_client :: "utext + unit"
  pi_clock_file :: u64
  pi_clock_fetch :: u64
  pi_clock_retain :: u64
  pi_clock_final :: u64

record key_load =
  kd_keys :: "(utext, bytes) hmap"
  kd_loaded_at :: "u64 option"
  kd_freshness_error :: "utext option"

definition auth_disabled :: auth_runtime where
  "auth_disabled = \<lparr>ar_configured_mode = AuthOff, ar_effective_mode = AuthOff,
     ar_config = connection_auth_config_default, ar_keys = [], ar_loaded_at = None, ar_jwks_file = None,
     ar_introspection = None\<rparr>"

definition load_key_file :: "auth_env \<Rightarrow> connection_auth_config \<Rightarrow> prepare_input \<Rightarrow> utext + key_load" where
  "load_key_file env c i =
     (if jw_file (ca_jwks c) = [] then Inr \<lparr>kd_keys = [], kd_loaded_at = None, kd_freshness_error = None\<rparr>
      else (case pi_file i of Inl err \<Rightarrow> Inl (lit ''cannot read JWKS '' @ err)
        | Inr raw \<Rightarrow> ebind (parse_jwks env raw) (\<lambda>keys.
            Inr (case load_jwks_freshness env (pi_metadata i) raw (jw_url (ca_jwks c) \<noteq> []) (pi_clock_file i) of
               Inr fetched_at \<Rightarrow> \<lparr>kd_keys = keys, kd_loaded_at = fetched_at, kd_freshness_error = None\<rparr>
             | Inl err \<Rightarrow> \<lparr>kd_keys = keys, kd_loaded_at = None, kd_freshness_error = Some err\<rparr>))))"

text \<open>A failed fetch keeps the keys of the file; in enforce mode only while they are known to be fresh.\<close>

definition retain_keys ::
  "connection_auth_config \<Rightarrow> connection_auth_mode \<Rightarrow> u64 \<Rightarrow> utext \<Rightarrow> key_load \<Rightarrow> utext + key_load" where
  "retain_keys c mode clock err k =
     (if kd_keys k = [] \<and> mode = AuthEnforce then Inl (lit ''initial JWKS refresh failed: '' @ err)
      else if mode \<noteq> AuthEnforce then Inr k
      else (case kd_freshness_error k of
          Some freshness_error \<Rightarrow> Inl (lit ''initial JWKS refresh failed and cached freshness is invalid: '' @ err
            @ lit ''; '' @ freshness_error)
        | None \<Rightarrow>
            (case Option.bind (kd_loaded_at k) (checked_sub clock) of
               None \<Rightarrow> Inl (lit ''initial JWKS refresh failed and cached freshness is unavailable: '' @ err)
             | Some age \<Rightarrow>
                 if age > jw_max_stale_seconds (ca_jwks c)
                 then Inl (lit ''initial JWKS refresh failed and cached keyset is stale: '' @ err) else Inr k)))"

definition write_keys :: "connection_auth_config \<Rightarrow> prepare_input \<Rightarrow> utext + unit" where
  "write_keys c i = (if jw_file (ca_jwks c) = [] then Inr () else pi_write i)"

definition fetch_keys ::
  "auth_env \<Rightarrow> connection_auth_config \<Rightarrow> connection_auth_mode \<Rightarrow> prepare_input \<Rightarrow> key_load \<Rightarrow> utext + key_load" where
  "fetch_keys env c mode i k =
     (if jw_url (ca_jwks c) = [] then Inr k
      else (case fetch_limited (pi_fetch i) of
          Inr raw \<Rightarrow> ebind (parse_jwks env raw) (\<lambda>refreshed.
            ebind (write_keys c i) (\<lambda>_.
              Inr (k\<lparr>kd_keys := refreshed, kd_loaded_at := Some (pi_clock_fetch i)\<rparr>)))
        | Inl err \<Rightarrow> retain_keys c mode (pi_clock_retain i) err k))"

definition enforce_fresh :: "connection_auth_config \<Rightarrow> connection_auth_mode \<Rightarrow> u64 \<Rightarrow> key_load \<Rightarrow> utext + unit" where
  "enforce_fresh c mode clock k =
     (if mode \<noteq> AuthEnforce then Inr ()
      else if kd_keys k = [] then Inl (lit ''enforce mode has no valid Ed25519 verification key'')
      else (case Option.bind (kd_loaded_at k) (checked_sub clock) of
          None \<Rightarrow> Inl (lit ''enforce mode cannot prove JWKS freshness'')
        | Some age \<Rightarrow> if age > jw_max_stale_seconds (ca_jwks c) then Inl (lit ''enforce mode JWKS cache is stale'')
            else Inr ()))"

definition build_introspection :: "introspection_config \<Rightarrow> introspection_runtime" where
  "build_introspection c = \<lparr>ir_config = c, ir_entries = [], ir_sequence = 0, ir_permits = 64\<rparr>"

definition prepare_introspection ::
  "connection_auth_config \<Rightarrow> prepare_input \<Rightarrow> utext + introspection_runtime option" where
  "prepare_introspection c i =
     (let n = ca_introspection c in
      ebind (if is_url n = [] then Inr None
        else ebind (pi_introspection_client i) (\<lambda>_. Inr (Some (build_introspection n)))) (\<lambda>built.
      if is_required n \<and> built = None then Inl (lit ''required introspection client is unavailable'') else Inr built))"

definition prepare :: "auth_env \<Rightarrow> connection_auth_config \<Rightarrow> bool \<Rightarrow> prepare_input \<Rightarrow> utext + auth_runtime" where
  "prepare env c must_login i =
     (let mode = effective_connection_auth_mode (ca_mode c) must_login in
      if mode = AuthOff then Inr auth_disabled
      else if ca_mode c = AuthOff \<and> must_login
      then Inl (lit ''must-login requires an explicit v3 connection_auth verifier configuration'')
      else
        ebind (load_key_file env c i) (\<lambda>k0.
        ebind (if jw_url (ca_jwks c) = [] then Inr () else pi_jwks_client i) (\<lambda>_.
        ebind (fetch_keys env c mode i k0) (\<lambda>k.
        ebind (enforce_fresh c mode (pi_clock_final i) k) (\<lambda>_.
        ebind (prepare_introspection c i) (\<lambda>introspection.
          Inr \<lparr>ar_configured_mode = ca_mode c, ar_effective_mode = mode, ar_config = c, ar_keys = kd_keys k,
            ar_loaded_at = (if kd_keys k \<noteq> [] then kd_loaded_at k else None),
            ar_jwks_file = (if jw_file (ca_jwks c) \<noteq> [] then Some (jw_file (ca_jwks c)) else None),
            ar_introspection = introspection\<rparr>))))))"

section \<open>Activation, refresh and observation\<close>

fun mode_debug :: "connection_auth_mode \<Rightarrow> utext" where
  "mode_debug AuthOff = lit ''Off''"
| "mode_debug AuthAudit = lit ''Audit''"
| "mode_debug AuthEnforce = lit ''Enforce''"

definition auth_ack :: "auth_runtime \<Rightarrow> subsystem_ack" where
  "auth_ack rt = \<lparr>sa_subsystem = lit ''connection_auth'', sa_accepted = True,
     sa_detail = to_ascii_lowercase (mode_debug (ar_effective_mode rt) @ lit '' verifier ready with ''
       @ print_nat (hm_len (ar_keys rt)) @ lit '' Ed25519 key(s)'')\<rparr>"

definition auth_activate :: "auth_runtime \<Rightarrow> auth_state \<Rightarrow> subsystem_ack \<times> auth_state" where
  "auth_activate rt s = (auth_ack rt, s\<lparr>au_runtime := rt, au_id := Suc (au_id s)\<rparr>)"

definition auth_restore ::
  "auth_env \<Rightarrow> connection_auth_config option \<Rightarrow> bool \<Rightarrow> prepare_input \<Rightarrow> auth_state \<Rightarrow> utext \<times> auth_state" where
  "auth_restore env config must_login i s =
     (case prepare env (case config of None \<Rightarrow> connection_auth_config_default | Some c \<Rightarrow> c) must_login i of
        Inr rt \<Rightarrow> (lit ''connection authentication restored'', snd (auth_activate rt s))
      | Inl err \<Rightarrow> (lit ''connection authentication restore failed: '' @ err, s))"

text \<open>One round of the refresh task of the active runtime; an error keeps the keys.\<close>

definition refresh_jwks ::
  "auth_env \<Rightarrow> fetch_result \<Rightarrow> utext + unit \<Rightarrow> u64 \<Rightarrow> auth_runtime \<Rightarrow> utext + auth_runtime" where
  "refresh_jwks env fetch write clock rt =
     (if jw_url (ca_jwks (ar_config rt)) = [] then Inr rt
      else ebind (fetch_limited fetch) (\<lambda>raw.
        ebind (parse_jwks env raw) (\<lambda>keys.
        ebind (if ar_jwks_file rt = None then Inr () else write) (\<lambda>_.
          Inr (rt\<lparr>ar_keys := keys, ar_loaded_at := Some clock\<rparr>)))))"

definition refresh_step :: "auth_env \<Rightarrow> fetch_result \<Rightarrow> utext + unit \<Rightarrow> u64 \<Rightarrow> auth_state \<Rightarrow> auth_state" where
  "refresh_step env fetch write clock s =
     (case refresh_jwks env fetch write clock (au_runtime s) of Inl _ \<Rightarrow> s | Inr rt \<Rightarrow> s\<lparr>au_runtime := rt\<rparr>)"

definition key_state :: "u64 \<Rightarrow> auth_runtime \<Rightarrow> nat \<times> u64 option \<times> bool" where
  "key_state clock rt =
     (let age = Option.bind (ar_loaded_at rt) (checked_sub clock)
      in (hm_len (ar_keys rt), age,
          (case age of None \<Rightarrow> True | Some a \<Rightarrow> a > jw_max_stale_seconds (ca_jwks (ar_config rt)))))"

record auth_status =
  at_configured_mode :: connection_auth_mode
  at_effective_mode :: connection_auth_mode
  at_verifier_state :: string
  at_key_count :: nat
  at_key_age_seconds :: "u64 option"
  at_metrics :: auth_metrics

definition auth_status_of :: "u64 \<Rightarrow> auth_state \<Rightarrow> auth_status" where
  "auth_status_of clock s =
     (let rt = au_runtime s; (key_count, key_age, stale) = key_state clock rt in
      \<lparr>at_configured_mode = ar_configured_mode rt, at_effective_mode = ar_effective_mode rt,
       at_verifier_state = (if ar_effective_mode rt = AuthOff then ''disabled'' else if key_count = 0 then ''unavailable''
         else if stale then ''degraded'' else ''ready''),
       at_key_count = key_count, at_key_age_seconds = key_age, at_metrics = au_metrics s\<rparr>)"

definition login_enabled :: "utext \<Rightarrow> bool" where
  "login_enabled value \<longleftrightarrow>
     to_ascii_lowercase (trim value) \<in> {lit ''1'', lit ''y'', lit ''yes'', lit ''true'', lit ''on''}"

text \<open>The two environment variables, when they are set and Unicode, and the arguments.\<close>

definition must_login_floor :: "utext option \<Rightarrow> utext option \<Rightarrow> utext list \<Rightarrow> bool" where
  "must_login_floor underscore hyphen args \<longleftrightarrow>
     (case underscore of None \<Rightarrow> False | Some v \<Rightarrow> login_enabled v)
     \<or> (case hyphen of None \<Rightarrow> False | Some v \<Rightarrow> login_enabled v)
     \<or> list_ex (\<lambda>arg. arg = lit ''--must-login'') args"

end
