(* ===== verification/Connection_Auth_Properties.thy ===== *)
theory Connection_Auth_Properties
  imports Connection_Auth
begin

text \<open>
  Properties of the authorisation of connection attempts (\<open>connection_auth.rs\<close>): local verification
  decides a declarative specification, attempts, answers, refreshes and activations are interleaved
  steps with an invariant, what enforcement guarantees at the start and at the answer of an attempt,
  and the preparation of a verifier.
\<close>

section \<open>Local verification\<close>

text \<open>The key of a token, under a keyset that is known and not stale.\<close>

definition trusted_key :: "auth_env \<Rightarrow> auth_runtime \<Rightarrow> utext \<Rightarrow> u64 \<Rightarrow> bytes \<Rightarrow> bool" where
  "trusted_key env rt token clock key \<longleftrightarrow>
     (\<exists>header kid loaded. av_decode_header env token = Some header \<and> jh_eddsa header
        \<and> jh_typ header = Some (lit ''at+jwt'') \<and> jh_kid header = Some kid \<and> kid \<noteq> []
        \<and> hm_get (ar_keys rt) kid = Some key \<and> ar_loaded_at rt = Some loaded \<and> unat loaded \<le> unat clock
        \<and> unat clock \<le> unat loaded + unat (jw_max_stale_seconds (ca_jwks (ar_config rt))))"

text \<open>What the claims must say, with exact arithmetic on the times.\<close>

definition claims_valid :: "auth_env \<Rightarrow> connection_auth_config \<Rightarrow> u64 \<Rightarrow> claims \<Rightarrow> bool" where
  "claims_valid env c now k \<longleftrightarrow>
     cl_iss k = ca_issuer c \<and> audience_contains (cl_aud k) (ca_audience c) \<and> cl_token_use k = ca_token_use c
     \<and> scope_contains (cl_scope k) (ca_required_scope c)
     \<and> cl_user_id k \<noteq> 0 \<and> cl_sub k = print_nat (unat (cl_user_id k))
     \<and> cl_auth_version k \<noteq> 0 \<and> av_uuid_ok env (cl_jti k)
     \<and> unat (cl_nbf k) \<le> unat now + unat (ca_clock_skew_seconds c)
     \<and> unat (cl_iat k) \<le> unat now + unat (ca_clock_skew_seconds c)
     \<and> unat now \<le> unat (cl_exp k) + unat (ca_clock_skew_seconds c) \<and> cl_iat k < cl_exp k"

definition token_valid :: "auth_env \<Rightarrow> auth_runtime \<Rightarrow> utext \<Rightarrow> u64 \<Rightarrow> u64 \<Rightarrow> local_claims \<Rightarrow> bool" where
  "token_valid env rt token now clock local \<longleftrightarrow>
     token \<noteq> [] \<and> utf8_len token \<le> unat (ca_max_token_bytes (ar_config rt)) \<and> canonical_compact_jwt env token
     \<and> (\<exists>key k. trusted_key env rt token clock key
          \<and> av_decode env token key (ca_issuer (ar_config rt)) (ca_audience (ar_config rt)) = Inr k
          \<and> claims_valid env (ar_config rt) now k \<and> local = \<lparr>lc_subject = cl_sub k, lc_expires_at = cl_exp k\<rparr>)"

lemma checked_sub_Some: "checked_sub a b = Some d \<longleftrightarrow> unat b \<le> unat a \<and> unat d = unat a - unat b"
  by (auto simp: checked_sub_def word_le_nat_alt unat_sub word_unat_eq_iff)

lemma token_key_Inr: "token_key env rt token clock = Inr key \<longleftrightarrow> trusted_key env rt token clock key"
proof -
  have "(\<exists>age. Option.bind l (checked_sub clock) = Some age \<and> \<not> age > m)
      \<longleftrightarrow> (\<exists>loaded. l = Some loaded \<and> unat loaded \<le> unat clock \<and> unat clock \<le> unat loaded + unat m)" for l m
    by (cases l) (auto simp: checked_sub_def word_le_nat_alt word_less_nat_alt unat_sub)
  note fresh = this [of "ar_loaded_at rt" "jw_max_stale_seconds (ca_jwks (ar_config rt))"]
  have "token_key env rt token clock = Inr key \<longleftrightarrow>
     (\<exists>header kid. av_decode_header env token = Some header \<and> jh_eddsa header
        \<and> jh_typ header = Some (lit ''at+jwt'') \<and> jh_kid header = Some kid \<and> kid \<noteq> []
        \<and> hm_get (ar_keys rt) kid = Some key
        \<and> (\<exists>age. Option.bind (ar_loaded_at rt) (checked_sub clock) = Some age
             \<and> \<not> age > jw_max_stale_seconds (ca_jwks (ar_config rt))))"
    by (auto simp: token_key_def split: option.splits if_splits)
  then show ?thesis unfolding fresh trusted_key_def by blast
qed

lemma first_failed_None: "first_failed checks = None \<longleftrightarrow> (\<forall>p \<in> set checks. \<not> fst p)"
  by (auto simp: first_failed_def find_None_iff)

lemma sat_add_bound:
  fixes a b x :: u64
  shows "x \<le> sat_add a b \<longleftrightarrow> unat x \<le> unat a + unat b" and "sat_add a b < x \<longleftrightarrow> unat a + unat b < unat x"
  using unsigned_less [of x, where ?'a = nat] by (auto simp: word_le_nat_alt word_less_nat_alt unat_sat_add)

lemma claim_checks_pass: "first_failed (claim_checks env c now k) = None \<longleftrightarrow> claims_valid env c now k"
  unfolding first_failed_None claim_checks_def claims_valid_def Let_def list.set ball_simps fst_conv
    not_less not_le sat_add_bound [symmetric] by auto

lemma verify_local_Inr: "verify_local_at env rt token now clock = Inr local \<longleftrightarrow> token_valid env rt token now clock local"
proof -
  have "verify_local_at env rt token now clock = Inr local \<longleftrightarrow>
     token \<noteq> [] \<and> utf8_len token \<le> unat (ca_max_token_bytes (ar_config rt)) \<and> canonical_compact_jwt env token
     \<and> (\<exists>key k. token_key env rt token clock = Inr key
          \<and> av_decode env token key (ca_issuer (ar_config rt)) (ca_audience (ar_config rt)) = Inr k
          \<and> first_failed (claim_checks env (ar_config rt) now k) = None
          \<and> local = \<lparr>lc_subject = cl_sub k, lc_expires_at = cl_exp k\<rparr>)"
  proof (cases "token_key env rt token clock")
    case (Inr key)
    then show ?thesis
      by (cases "av_decode env token key (ca_issuer (ar_config rt)) (ca_audience (ar_config rt))")
        (auto simp: verify_local_at_def Let_def ebind_def split: option.splits)
  qed (simp add: verify_local_at_def Let_def ebind_def)
  then show ?thesis unfolding token_key_Inr claim_checks_pass token_valid_def .
qed

section \<open>The cache\<close>

lemma evict_over_len: "hm_len (evict_over limit m) \<le> limit"
proof (induction limit m rule: evict_over.induct)
  case (1 limit m)
  show ?case
  proof (cases "hm_len m > limit")
    case True
    then have "m \<noteq> []" by (auto simp: hm_len_def)
    then obtain k where k: "min_sequence None m = Some k" using min_sequence_None [of None m] by auto
    show ?thesis using 1 True k by (subst evict_over.simps) simp
  next
    case False
    then show ?thesis by (subst evict_over.simps) simp
  qed
qed

lemma evict_over_sub:
  "(hm_ok m \<longrightarrow> hm_ok (evict_over limit m)) \<and> (hm_get (evict_over limit m) k = Some e \<longrightarrow> hm_get m k = Some e)"
proof (induction limit m rule: evict_over.induct)
  case (1 limit m)
  show ?case
  proof (cases "hm_len m > limit \<and> min_sequence None m \<noteq> None")
    case True
    then obtain k0 where k0: "min_sequence None m = Some k0" by auto
    have "evict_over limit m = evict_over limit (hm_remove k0 m)" using True k0 by (subst evict_over.simps) simp
    then show ?thesis using 1 True k0 by (auto split: if_splits)
  next
    case False
    then have "evict_over limit m = m" by (subst evict_over.simps) (auto split: option.split)
    then show ?thesis by simp
  qed
qed

lemma live_entries_get:
  "hm_ok m \<Longrightarrow> hm_get (live_entries now m) h = Some e \<longleftrightarrow> hm_get m h = Some e \<and> now < ce_expires_at e"
  by (simp add: live_entries_def hm.retain_subset)

section \<open>Keysets\<close>

definition keyset_ok :: "(utext, bytes) hmap \<Rightarrow> bool" where
  "keyset_ok keys \<longleftrightarrow> keys \<noteq> [] \<and> hm_ok keys
     \<and> (\<forall>kid key. hm_get keys kid = Some key \<longrightarrow> kid \<noteq> [] \<and> utf8_len kid \<le> 128 \<and> length key = 32)"

lemma jwks_keys_ok:
  assumes "jwks_keys env keys docs = Inr keys'" "keys = [] \<and> docs \<noteq> [] \<or> keyset_ok keys"
  shows "keyset_ok keys'"
  using assms
proof (induction env keys docs rule: jwks_keys.induct)
  case (2 env keys k rest)
  then obtain raw where raw: "jwk_profile k" "av_base64_decode env (jk_x k) = Some raw" "length raw = 32"
    "jwks_keys env (hm_insert (jk_kid k) raw keys) rest = Inr keys'"
    by (auto split: if_splits option.splits)
  have "hm_insert (jk_kid k) raw keys \<noteq> []" using hm.get_put [of "jk_kid k" raw keys "jk_kid k"]
    by (auto simp: hm_get_def)
  then have ok: "keyset_ok (hm_insert (jk_kid k) raw keys)"
    using 2(3) raw(1,3) by (auto simp: keyset_ok_def jwk_profile_def)
  show ?case using 2(1) [OF _ _ raw(2)] 2(2) raw ok by (auto split: if_splits option.splits)
qed auto

lemma parse_jwks_ok: "parse_jwks env raw = Inr keys \<Longrightarrow> keyset_ok keys"
  by (auto simp: parse_jwks_def split: sum.splits if_splits intro: jwks_keys_ok)

section \<open>Attempts as interleaved steps\<close>

text \<open>
  The log keeps what the endpoint confirmed: the runtime that asked, the digest of the token, the
  instant of the answer, and the epoch time and the expiry the attempt had read.
\<close>

record confirmation =
  cf_id :: nat
  cf_hash :: bytes
  cf_inst :: instant
  cf_now :: u64
  cf_expires :: u64

record auth_system =
  ay_state :: auth_state
  ay_flights :: "auth_flight list"
  ay_log :: "confirmation list"

definition auth_start :: auth_system where
  "auth_start = \<lparr>ay_state = \<lparr>au_runtime = auth_disabled, au_id = 0, au_metrics = auth_metrics_new\<rparr>,
     ay_flights = [], ay_log = []\<rparr>"

definition begun :: "(auth_decision + auth_flight) \<times> auth_state \<Rightarrow> auth_system \<Rightarrow> auth_system" where
  "begun r y = y\<lparr>ay_state := snd r, ay_flights := (case fst r of Inl _ \<Rightarrow> [] | Inr f \<Rightarrow> [f]) @ ay_flights y\<rparr>"

definition confirmation_of :: "auth_flight \<Rightarrow> auth_reason + introspection_response \<Rightarrow> instant \<Rightarrow> confirmation list" where
  "confirmation_of f result inst = (if fst (response_verdict result (fl_local f))
     then [\<lparr>cf_id = fl_id f, cf_hash = fl_hash f, cf_inst = inst, cf_now = fl_now f,
             cf_expires = lc_expires_at (fl_local f)\<rparr>] else [])"

inductive auth_step :: "auth_env \<Rightarrow> auth_system \<Rightarrow> auth_system \<Rightarrow> bool" for env where
  attempt: "auth_step env y (begun (authorize_begin env token transport now clock inst (ay_state y)) y)"
| answer: "f \<in> set (ay_flights y) \<Longrightarrow>
     auth_step env y \<lparr>ay_state = snd (authorize_finish f result inst (ay_state y)), ay_flights = remove1 f (ay_flights y),
       ay_log = confirmation_of f result inst @ ay_log y\<rparr>"
| refresh: "auth_step env y (y\<lparr>ay_state := refresh_step env fetch write clock (ay_state y)\<rparr>)"
| activate: "prepare env c must_login i = Inr rt \<Longrightarrow>
     auth_step env y (y\<lparr>ay_state := snd (auth_activate rt (ay_state y))\<rparr>)"

inductive auth_reach :: "auth_env \<Rightarrow> auth_system \<Rightarrow> bool" for env where
  start: "auth_reach env auth_start"
| step: "auth_reach env y \<Longrightarrow> auth_step env y y' \<Longrightarrow> auth_reach env y'"

text \<open>A live positive entry rests on a confirmation, and lives no longer than the token it confirms.\<close>

definition confirmed :: "auth_system \<Rightarrow> introspection_config \<Rightarrow> bytes \<Rightarrow> instant \<Rightarrow> bool" where
  "confirmed y c h until \<longleftrightarrow> (\<exists>l \<in> set (ay_log y). cf_id l = au_id (ay_state y) \<and> cf_hash l = h
     \<and> until \<le> cf_inst l + from_secs (min (unat (is_positive_cache_seconds c)) (unat (cf_expires l) - unat (cf_now l))))"

definition cache_inv :: "auth_system \<Rightarrow> introspection_runtime \<Rightarrow> bool" where
  "cache_inv y ir \<longleftrightarrow> hm_ok (ir_entries ir)
     \<and> hm_len (ir_entries ir) \<le> unat (is_max_cache_entries (ir_config ir))
     \<and> ir_permits ir + length (filter (\<lambda>f. fl_id f = au_id (ay_state y)) (ay_flights y)) = 64
     \<and> (\<forall>h e. hm_get (ir_entries ir) h = Some e \<longrightarrow> ce_active e \<longrightarrow> confirmed y (ir_config ir) h (ce_expires_at e))"

definition runtime_inv :: "auth_runtime \<Rightarrow> bool" where
  "runtime_inv rt \<longleftrightarrow>
     (ar_effective_mode rt = AuthEnforce \<longrightarrow> keyset_ok (ar_keys rt) \<and> ar_loaded_at rt \<noteq> None)
     \<and> (ar_effective_mode rt \<noteq> AuthOff \<longrightarrow> is_required (ca_introspection (ar_config rt)) \<longrightarrow> ar_introspection rt \<noteq> None)"

definition flight_ok :: "auth_env \<Rightarrow> auth_flight \<Rightarrow> bool" where
  "flight_ok env f \<longleftrightarrow> (\<exists>rt token clock. ar_effective_mode rt = fl_mode f \<and> fl_hash f = av_sha256 env (as_bytes token)
     \<and> token_valid env rt token (fl_now f) clock (fl_local f))"

definition auth_inv :: "auth_env \<Rightarrow> auth_system \<Rightarrow> bool" where
  "auth_inv env y \<longleftrightarrow> runtime_inv (au_runtime (ay_state y))
     \<and> (\<forall>f \<in> set (ay_flights y). fl_id f \<le> au_id (ay_state y) \<and> flight_ok env f)
     \<and> pred_option (cache_inv y) (ar_introspection (au_runtime (ay_state y)))
     \<and> (ar_introspection (au_runtime (ay_state y)) = None \<longrightarrow> (\<forall>f \<in> set (ay_flights y). fl_id f \<noteq> au_id (ay_state y)))"

subsection \<open>Preparation\<close>

lemma load_key_file_ok:
  "load_key_file env c i = Inr k \<Longrightarrow> kd_keys k = [] \<and> kd_loaded_at k = None \<or> keyset_ok (kd_keys k)"
  by (auto simp: load_key_file_def ebind_def parse_jwks_ok split: if_split_asm sum.split_asm)

lemma retain_keys_same: "retain_keys c mode clock err k = Inr k' \<Longrightarrow> k' = k"
  by (auto simp: retain_keys_def split: if_splits option.splits)

lemma fetch_keys_ok:
  "fetch_keys env c mode i k = Inr k' \<Longrightarrow> kd_keys k = [] \<or> keyset_ok (kd_keys k) \<Longrightarrow> kd_keys k' = [] \<or> keyset_ok (kd_keys k')"
  by (auto simp: fetch_keys_def ebind_Inr parse_jwks_ok dest: retain_keys_same split: if_splits sum.splits)

lemma enforce_fresh_Inr:
  "enforce_fresh c AuthEnforce clock k = Inr u \<Longrightarrow> kd_keys k \<noteq> [] \<and>
     (\<exists>loaded. kd_loaded_at k = Some loaded \<and> unat loaded \<le> unat clock
        \<and> unat clock \<le> unat loaded + unat (jw_max_stale_seconds (ca_jwks c)))"
  by (auto simp: enforce_fresh_def checked_sub_Some word_less_nat_alt bind_eq_Some_conv split: if_splits option.splits)

text \<open>What a prepared verifier guarantees.\<close>

lemma prepare_Inr:
  assumes "prepare env c must_login i = Inr rt"
  shows "ar_effective_mode rt = effective_connection_auth_mode (ca_mode c) must_login"
    and "must_login \<Longrightarrow> ca_mode c \<noteq> AuthOff"
    and "ar_effective_mode rt = AuthEnforce \<Longrightarrow> keyset_ok (ar_keys rt) \<and>
      (\<exists>loaded. ar_loaded_at rt = Some loaded \<and> unat loaded \<le> unat (pi_clock_final i)
        \<and> unat (pi_clock_final i) \<le> unat loaded + unat (jw_max_stale_seconds (ca_jwks c)))"
    and "ar_effective_mode rt \<noteq> AuthOff \<Longrightarrow> ar_config rt = c
      \<and> (is_required (ca_introspection c) \<longrightarrow> ar_introspection rt \<noteq> None)"
    and "ar_introspection rt = None \<or> ar_introspection rt = Some (build_introspection (ca_introspection c))"
proof -
  let ?mode = "effective_connection_auth_mode (ca_mode c) must_login"
  consider (off) "?mode = AuthOff" "rt = auth_disabled"
    | (on) k0 k u v where "?mode \<noteq> AuthOff" "\<not> (ca_mode c = AuthOff \<and> must_login)"
       "load_key_file env c i = Inr k0" "fetch_keys env c ?mode i k0 = Inr k"
       "enforce_fresh c ?mode (pi_clock_final i) k = Inr u" "prepare_introspection c i = Inr v"
       "ar_effective_mode rt = ?mode" "ar_config rt = c" "ar_keys rt = kd_keys k"
       "ar_loaded_at rt = (if kd_keys k \<noteq> [] then kd_loaded_at k else None)" "ar_introspection rt = v"
  proof (cases "?mode = AuthOff")
    case True
    then show ?thesis using assms off by (simp add: prepare_def)
  next
    case False
    have m: "\<not> (ca_mode c = AuthOff \<and> must_login)" using assms False by (auto simp: prepare_def)
    let ?rt = "\<lambda>k v. \<lparr>ar_configured_mode = ca_mode c, ar_effective_mode = ?mode, ar_config = c, ar_keys = kd_keys k,
      ar_loaded_at = (if kd_keys k \<noteq> [] then kd_loaded_at k else None),
      ar_jwks_file = (if jw_file (ca_jwks c) \<noteq> [] then Some (jw_file (ca_jwks c)) else None), ar_introspection = v\<rparr>"
    have "\<exists>k0 w k u v. load_key_file env c i = Inr k0 \<and> fetch_keys env c ?mode i k0 = Inr k
       \<and> enforce_fresh c ?mode (pi_clock_final i) k = Inr u \<and> prepare_introspection c i = Inr v \<and> w \<and> rt = ?rt k v"
      using assms unfolding prepare_def Let_def if_not_P [OF False] if_not_P [OF m] ebind_Inr by blast
    then obtain k0 k u v where "load_key_file env c i = Inr k0" "fetch_keys env c ?mode i k0 = Inr k"
       "enforce_fresh c ?mode (pi_clock_final i) k = Inr u" "prepare_introspection c i = Inr v" "rt = ?rt k v" by blast
    then show ?thesis using on [OF False m] by simp
  qed
  note R = this
  show "ar_effective_mode rt = ?mode" by (rule R) (simp_all add: auth_disabled_def)
  show "must_login \<Longrightarrow> ca_mode c \<noteq> AuthOff"
    by (rule R) (auto simp: effective_connection_auth_mode_def split: if_splits)
  show "ar_effective_mode rt = AuthEnforce \<Longrightarrow> keyset_ok (ar_keys rt) \<and>
      (\<exists>loaded. ar_loaded_at rt = Some loaded \<and> unat loaded \<le> unat (pi_clock_final i)
        \<and> unat (pi_clock_final i) \<le> unat loaded + unat (jw_max_stale_seconds (ca_jwks c)))"
  proof (rule R)
    fix k0 k u v
    assume e: "ar_effective_mode rt = AuthEnforce" and a: "load_key_file env c i = Inr k0" "fetch_keys env c ?mode i k0 = Inr k"
      "enforce_fresh c ?mode (pi_clock_final i) k = Inr u" "ar_effective_mode rt = ?mode" "ar_keys rt = kd_keys k"
      "ar_loaded_at rt = (if kd_keys k \<noteq> [] then kd_loaded_at k else None)"
    have f: "enforce_fresh c AuthEnforce (pi_clock_final i) k = Inr u" using a(3,4) e by simp
    show ?thesis using enforce_fresh_Inr [OF f] fetch_keys_ok [OF a(2)] load_key_file_ok [OF a(1)] a(5,6) by auto
  qed (simp add: auth_disabled_def)
  show "ar_effective_mode rt \<noteq> AuthOff \<Longrightarrow> ar_config rt = c
      \<and> (is_required (ca_introspection c) \<longrightarrow> ar_introspection rt \<noteq> None)"
    by (rule R) (auto simp: auth_disabled_def prepare_introspection_def Let_def ebind_Inr split: if_splits)
  show "ar_introspection rt = None \<or> ar_introspection rt = Some (build_introspection (ca_introspection c))"
    by (rule R) (auto simp: auth_disabled_def prepare_introspection_def Let_def ebind_Inr split: if_splits)
qed

lemma prepared_runtime_inv: "prepare env c must_login i = Inr rt \<Longrightarrow> runtime_inv rt"
  using prepare_Inr [of env c must_login i rt] by (auto simp: runtime_inv_def)

subsection \<open>Attempts\<close>

lemma introspect_begin_effect:
  assumes "introspect_begin env token inst rt m = (b, rt', m')"
  obtains (none) x where "ar_introspection rt = None" "rt' = rt" "b = IntrospectDone x"
      "x = None \<longleftrightarrow> \<not> is_required (ca_introspection (ar_config rt))"
    | (hit) ir x where "ar_introspection rt = Some ir" "b = IntrospectDone x"
      "rt' = rt\<lparr>ar_introspection := Some (ir\<lparr>ir_entries := live_entries inst (ir_entries ir)\<rparr>)\<rparr>"
      "x = None \<Longrightarrow> \<exists>e. hm_get (live_entries inst (ir_entries ir)) (av_sha256 env (as_bytes token)) = Some e \<and> ce_active e"
    | (wait) ir where "ar_introspection rt = Some ir" "b = IntrospectWait (av_sha256 env (as_bytes token))" "0 < ir_permits ir"
      "rt' = rt\<lparr>ar_introspection := Some (ir\<lparr>ir_entries := live_entries inst (ir_entries ir),
         ir_permits := ir_permits ir - 1\<rparr>)\<rparr>"
proof (cases "ar_introspection rt")
  case None
  then have "rt' = rt" "b = IntrospectDone (if is_required (ca_introspection (ar_config rt))
      then Some ''introspection_unavailable'' else None)"
    using assms by (auto simp: introspect_begin_def)
  then show ?thesis by (intro none [OF None]) auto
next
  case (Some ir)
  let ?h = "av_sha256 env (as_bytes token)" and ?ir = "ir\<lparr>ir_entries := live_entries inst (ir_entries ir)\<rparr>"
  show ?thesis
  proof (cases "hm_get (live_entries inst (ir_entries ir)) ?h")
    case None
    show ?thesis
    proof (cases "ir_permits ir = 0")
      case True
      then have "rt' = rt\<lparr>ar_introspection := Some ?ir\<rparr>" "b = IntrospectDone (Some ''introspection_unavailable'')"
        using assms Some None by (auto simp: introspect_begin_def cache_lookup_def)
      then show ?thesis by (intro hit [OF Some]) auto
    next
      case False
      then have "rt' = rt\<lparr>ar_introspection := Some (?ir\<lparr>ir_permits := ir_permits ir - 1\<rparr>)\<rparr>" "b = IntrospectWait ?h"
        using assms Some None by (auto simp: introspect_begin_def cache_lookup_def)
      then show ?thesis using False by (intro wait [OF Some]) auto
    qed
  next
    case e: (Some e)
    then have "rt' = rt\<lparr>ar_introspection := Some ?ir\<rparr>" "b = IntrospectDone (if ce_active e then None else Some (ce_reason e))"
      using assms Some by (auto simp: introspect_begin_def cache_lookup_def)
    then show ?thesis using e by (intro hit [OF Some]) (auto split: if_splits)
  qed
qed

lemma verdict_of_proceed:
  "ad_proceed (fst (verdict_of mode failure m)) \<longleftrightarrow> failure = None \<or> mode = AuthAudit"
  "ad_verdict (fst (verdict_of mode failure m)) = ''allow'' \<longleftrightarrow> failure = None"
  by (auto simp: verdict_of_def split: option.split)

lemma authorize_begin_effect:
  assumes "authorize_begin env token transport now clock inst s = (r, s')"
  obtains (early) d where "r = Inl d" "au_runtime s' = au_runtime s" "au_id s' = au_id s"
      "ad_proceed d \<longrightarrow> ar_effective_mode (au_runtime s) \<noteq> AuthEnforce" "ad_verdict d \<noteq> ''allow''"
    | (late) local b m rt' m' where "verify_local_at env (au_runtime s) token now clock = Inr local" "transport \<noteq> UnsupportedUdp"
      "ar_effective_mode (au_runtime s) \<noteq> AuthOff"
      "introspect_begin env token inst (au_runtime s) m = (b, rt', m')" "au_runtime s' = rt'" "au_id s' = au_id s"
      "\<And>x. b = IntrospectDone x \<Longrightarrow> \<exists>d. r = Inl d \<and> (ad_proceed d \<longrightarrow> x = None \<or> ar_effective_mode (au_runtime s) = AuthAudit)
         \<and> (ad_verdict d = ''allow'' \<longrightarrow> x = None)"
      "\<And>h. b = IntrospectWait h \<Longrightarrow> r = Inr \<lparr>fl_id = au_id s, fl_mode = ar_effective_mode (au_runtime s), fl_hash = h,
         fl_local = local, fl_now = now\<rparr>"
proof (cases "transport = UnsupportedUdp \<or> ar_effective_mode (au_runtime s) = AuthOff")
  case True
  then show ?thesis using assms early by (auto simp: authorize_begin_def Let_def split: if_splits)
next
  case False
  let ?mode = "ar_effective_mode (au_runtime s)" and ?m = "count_one am_attempts_update (au_metrics s)"
  show ?thesis
  proof (cases "verify_local_at env (au_runtime s) token now clock")
    case (Inl reason)
    then show ?thesis using assms False early verdict_of_proceed [of ?mode "Some reason" ?m]
      by (auto simp: authorize_begin_def Let_def split_def)
  next
    case (Inr local)
    obtain b rt' m' where i: "introspect_begin env token inst (au_runtime s) ?m = (b, rt', m')"
      by (cases "introspect_begin env token inst (au_runtime s) ?m")
    show ?thesis
    proof (cases b)
      case (IntrospectDone x)
      then have "r = Inl (fst (verdict_of ?mode x m'))" "au_runtime s' = rt'" "au_id s' = au_id s"
        using assms False Inr i by (auto simp: authorize_begin_def Let_def split_def)
      then show ?thesis using late [OF Inr _ _ i] False IntrospectDone verdict_of_proceed [of ?mode x m'] by simp
    next
      case (IntrospectWait h)
      then have "r = Inr \<lparr>fl_id = au_id s, fl_mode = ?mode, fl_hash = h, fl_local = local, fl_now = now\<rparr>"
        "au_runtime s' = rt'" "au_id s' = au_id s"
        using assms False Inr i by (auto simp: authorize_begin_def Let_def)
      then show ?thesis using late [OF Inr _ _ i] False IntrospectWait by simp
    qed
  qed
qed

lemma confirmed_mono:
  "confirmed y c h t \<Longrightarrow> au_id (ay_state y') = au_id (ay_state y) \<Longrightarrow> set (ay_log y) \<subseteq> set (ay_log y') \<Longrightarrow> confirmed y' c h t"
  unfolding confirmed_def by fastforce

lemma cache_inv_same:
  assumes "cache_inv y ir" "au_id (ay_state y') = au_id (ay_state y)" "set (ay_log y) \<subseteq> set (ay_log y')"
    "length (filter (\<lambda>f. fl_id f = au_id (ay_state y)) (ay_flights y')) = length (filter (\<lambda>f. fl_id f = au_id (ay_state y)) (ay_flights y))"
  shows "cache_inv y' ir"
  using assms confirmed_mono [of y "ir_config ir" _ _ y'] by (auto simp: cache_inv_def)

lemma cache_inv_live:
  assumes "cache_inv y ir"
  shows "cache_inv y (ir\<lparr>ir_entries := live_entries now (ir_entries ir)\<rparr>)"
proof -
  have "hm_len (live_entries now (ir_entries ir)) \<le> hm_len (ir_entries ir)"
    by (simp add: live_entries_def hm.len_retain)
  moreover have "hm_ok (live_entries now (ir_entries ir))" using assms by (simp add: live_entries_def cache_inv_def)
  ultimately show ?thesis using assms by (auto simp: cache_inv_def live_entries_get)
qed

lemma runtime_inv_introspection [simp]:
  "ar_introspection rt = Some ir \<Longrightarrow> runtime_inv (rt\<lparr>ar_introspection := Some ir'\<rparr>) \<longleftrightarrow> runtime_inv rt"
  by (simp add: runtime_inv_def)

lemma begun_state [simp]:
  "ay_state (begun (r, s) y) = s" "ay_log (begun (r, s) y) = ay_log y"
  "ay_flights (begun (Inl d, s) y) = ay_flights y" "ay_flights (begun (Inr f, s) y) = f # ay_flights y"
  by (simp_all add: begun_def)

lemma attempt_inv:
  assumes inv: "auth_inv env y"
  shows "auth_inv env (begun (authorize_begin env token transport now clock inst (ay_state y)) y)"
proof -
  obtain r s' where r: "authorize_begin env token transport now clock inst (ay_state y) = (r, s')"
    by (cases "authorize_begin env token transport now clock inst (ay_state y)")
  note same = cache_inv_same [where y = y and y' = "begun (r, s') y"]
  show ?thesis unfolding r
  proof (cases rule: authorize_begin_effect [OF r])
    case (1 d)
    then show "auth_inv env (begun (r, s') y)" using inv same
      by (cases "ar_introspection (au_runtime (ay_state y))") (simp_all add: auth_inv_def)
  next
    case (2 local b m rt' m')
    show "auth_inv env (begun (r, s') y)"
    proof (cases rule: introspect_begin_effect [OF 2(4)])
      case (1 x)
      then show ?thesis using 2 inv by (auto simp: auth_inv_def)
    next
      case (2 ir x)
      then obtain d where d: "r = Inl d" using \<open>\<And>x. b = IntrospectDone x \<Longrightarrow> _ x\<close> by blast
      have "cache_inv y ir" using inv 2 by (simp add: auth_inv_def)
      from same [OF cache_inv_live [OF this, of inst]]
      show ?thesis using inv 2 d \<open>au_runtime s' = rt'\<close> \<open>au_id s' = au_id (ay_state y)\<close> by (simp add: auth_inv_def)
    next
      case (3 ir)
      note s' = \<open>au_runtime s' = rt'\<close> \<open>au_id s' = au_id (ay_state y)\<close>
      let ?f = "\<lparr>fl_id = au_id (ay_state y), fl_mode = ar_effective_mode (au_runtime (ay_state y)),
        fl_hash = av_sha256 env (as_bytes token), fl_local = local, fl_now = now\<rparr>"
      have f: "r = Inr ?f" using 2(8) 3(2) by simp
      have "flight_ok env ?f" using 2(1) verify_local_Inr by (fastforce simp: flight_ok_def)
      moreover have "cache_inv y ir" using inv 3 by (simp add: auth_inv_def)
      then have "cache_inv (begun (r, s') y) (ir\<lparr>ir_entries := live_entries inst (ir_entries ir), ir_permits := ir_permits ir - 1\<rparr>)"
        using cache_inv_live [of y ir inst] 3(3) confirmed_mono [of y "ir_config ir" _ _ "begun (r, s') y"]
        by (auto simp: cache_inv_def f s')
      ultimately show ?thesis using inv 3 f s' by (auto simp: auth_inv_def)
    qed
  qed
qed

subsection \<open>Answers, refreshes and activations\<close>

lemma cache_store_frame [simp]:
  "ir_config (cache_store h a r e n i ir) = ir_config ir" "ir_permits (cache_store h a r e n i ir) = ir_permits ir"
  by (simp_all add: cache_store_def Let_def)

lemma cache_store_entries:
  assumes "hm_ok (ir_entries ir)" "hm_len (ir_entries ir) \<le> unat (is_max_cache_entries (ir_config ir))"
  shows "hm_ok (ir_entries (cache_store h a r e n i ir))"
    and "hm_len (ir_entries (cache_store h a r e n i ir)) \<le> unat (is_max_cache_entries (ir_config ir))"
    and "hm_get (ir_entries (cache_store h a r e n i ir)) k = Some x \<Longrightarrow>
      hm_get (ir_entries ir) k = Some x \<or>
      (k = h \<and> ce_active x = a \<and> ce_expires_at x = i + from_secs (unat (cache_ttl (ir_config ir) a e n)))"
proof -
  let ?ttl = "cache_ttl (ir_config ir) a e n" and ?limit = "unat (is_max_cache_entries (ir_config ir))"
  let ?entry = "\<lparr>ce_active = a, ce_reason = r, ce_expires_at = i + from_secs (unat ?ttl), ce_sequence = sat_add (ir_sequence ir) 1\<rparr>"
  have s: "ir_entries (cache_store h a r e n i ir) =
      (if ?ttl = 0 then ir_entries ir else evict_over ?limit (hm_insert h ?entry (ir_entries ir)))"
    by (simp add: cache_store_def Let_def)
  show "hm_ok (ir_entries (cache_store h a r e n i ir))"
    unfolding s using assms(1) evict_over_sub [of "hm_insert h ?entry (ir_entries ir)" ?limit] by auto
  show "hm_len (ir_entries (cache_store h a r e n i ir)) \<le> ?limit"
    unfolding s using assms(2) evict_over_len by simp
  show "hm_get (ir_entries ir) k = Some x \<or> (k = h \<and> ce_active x = a \<and> ce_expires_at x = i + from_secs (unat ?ttl))"
    if "hm_get (ir_entries (cache_store h a r e n i ir)) k = Some x"
    using that evict_over_sub [of "hm_insert h ?entry (ir_entries ir)" ?limit k x] unfolding s by (auto split: if_splits)
qed

lemma positive_ttl: "unat (cache_ttl c True e n) = min (unat (is_positive_cache_seconds c)) (unat e - unat n)"
  by (simp add: cache_ttl_def unat_sat_sub min_def word_le_nat_alt)

lemma count_remove1:
  "f \<in> set xs \<Longrightarrow> P f \<Longrightarrow> Suc (length (filter P (remove1 f xs))) = length (filter P xs)"
  "\<not> P f \<Longrightarrow> filter P (remove1 f xs) = filter P xs"
  by (induction xs) auto

lemma answer_inv:
  assumes inv: "auth_inv env y" and f: "f \<in> set (ay_flights y)"
  shows "auth_inv env \<lparr>ay_state = snd (authorize_finish f result inst (ay_state y)), ay_flights = remove1 f (ay_flights y),
       ay_log = confirmation_of f result inst @ ay_log y\<rparr>" (is "auth_inv env ?y")
proof -
  let ?rt = "au_runtime (ay_state y)" and ?v = "response_verdict result (fl_local f)"
  define z where "z = ?y"
  have s: "au_id (ay_state z) = au_id (ay_state y)"
    "au_runtime (ay_state z) = (if fl_id f = au_id (ay_state y) then store_answer f ?v inst ?rt else ?rt)"
    "ay_flights z = remove1 f (ay_flights y)" "ay_log z = confirmation_of f result inst @ ay_log y"
    by (simp_all add: z_def authorize_finish_def Let_def split_def)
  have fl: "\<forall>g \<in> set (ay_flights z). fl_id g \<le> au_id (ay_state y) \<and> flight_ok env g"
    using inv set_remove1_subset [of f "ay_flights y"] by (auto simp: auth_inv_def s)
  show ?thesis
  proof (cases "fl_id f = au_id (ay_state y)")
    case False
    then have "filter (\<lambda>g. fl_id g = au_id (ay_state y)) (ay_flights z) = filter (\<lambda>g. fl_id g = au_id (ay_state y)) (ay_flights y)"
      unfolding s(3) by (rule count_remove1(2))
    then have "cache_inv z ir" if "cache_inv y ir" for ir
      using cache_inv_same [OF that, of z] by (simp add: s(1,4))
    moreover have "\<forall>g \<in> set (ay_flights z). fl_id g \<noteq> au_id (ay_state y)" if "ar_introspection ?rt = None"
      using that inv set_remove1_subset [of f "ay_flights y"] by (auto simp: auth_inv_def s)
    ultimately have "auth_inv env z" using inv fl False
      by (cases "ar_introspection ?rt") (simp_all add: auth_inv_def s)
    then show ?thesis by (simp only: z_def)
  next
    case True
    then obtain ir where ir: "ar_introspection ?rt = Some ir" using inv f by (cases "ar_introspection ?rt") (auto simp: auth_inv_def)
    let ?ir = "cache_store (fl_hash f) (fst ?v) (snd ?v) (lc_expires_at (fl_local f)) (fl_now f) inst (ir\<lparr>ir_permits := ir_permits ir + 1\<rparr>)"
    have c: "cache_inv y ir" using inv ir by (simp add: auth_inv_def)
    note e = cache_store_entries [of "ir\<lparr>ir_permits := ir_permits ir + 1\<rparr>" "fl_hash f" "fst ?v" "snd ?v" "lc_expires_at (fl_local f)" "fl_now f" inst]
    have "confirmed z (ir_config ir) h (ce_expires_at x)"
      if x: "hm_get (ir_entries ?ir) h = Some x" "ce_active x" for h x
    proof (cases "hm_get (ir_entries ir) h = Some x")
      case True
      then show ?thesis using c x confirmed_mono [of y "ir_config ir" h "ce_expires_at x" z] by (simp add: cache_inv_def s)
    next
      case False
      then have "h = fl_hash f" "fst ?v" "ce_expires_at x = inst + from_secs (unat (cache_ttl (ir_config ir) True (lc_expires_at (fl_local f)) (fl_now f)))"
        using e(3) [of h x] x c by (auto simp: cache_inv_def)
      then show ?thesis using \<open>fl_id f = au_id (ay_state y)\<close>
        by (auto simp: confirmed_def confirmation_of_def positive_ttl s)
    qed
    moreover have "ir_permits ir + 1 + length (filter (\<lambda>g. fl_id g = au_id (ay_state y)) (remove1 f (ay_flights y))) = 64"
      using c count_remove1(1) [of f "ay_flights y" "\<lambda>g. fl_id g = au_id (ay_state y)"] f True by (simp add: cache_inv_def)
    ultimately have "cache_inv z ?ir" using e(1,2) c by (simp add: cache_inv_def s)
    moreover have "store_answer f ?v inst ?rt = ?rt\<lparr>ar_introspection := Some ?ir\<rparr>" by (simp add: store_answer_def ir)
    ultimately have "auth_inv env z" using inv fl ir True by (simp add: auth_inv_def s)
    then show ?thesis by (simp only: z_def)
  qed
qed

lemma refresh_jwks_effect:
  assumes "refresh_jwks env fetch written clock rt = Inr rt'"
  shows "rt' = rt \<or> (\<exists>keys. keyset_ok keys \<and> rt' = rt\<lparr>ar_keys := keys, ar_loaded_at := Some clock\<rparr>)"
proof (cases "jw_url (ca_jwks (ar_config rt)) = []")
  case False
  then obtain raw keys where "parse_jwks env raw = Inr keys" "rt' = rt\<lparr>ar_keys := keys, ar_loaded_at := Some clock\<rparr>"
    using assms unfolding refresh_jwks_def if_not_P [OF False] ebind_Inr by blast
  then show ?thesis using parse_jwks_ok by blast
qed (use assms in \<open>simp add: refresh_jwks_def\<close>)

lemma refresh_inv:
  assumes "auth_inv env y"
  shows "auth_inv env (y\<lparr>ay_state := refresh_step env fetch written clock (ay_state y)\<rparr>)"
proof -
  obtain rt where rt: "refresh_step env fetch written clock (ay_state y) = (ay_state y)\<lparr>au_runtime := rt\<rparr>"
    "rt = au_runtime (ay_state y) \<or> (\<exists>keys. keyset_ok keys \<and> rt = (au_runtime (ay_state y))\<lparr>ar_keys := keys, ar_loaded_at := Some clock\<rparr>)"
  proof (cases "refresh_jwks env fetch written clock (au_runtime (ay_state y))")
    case (Inl err)
    then show ?thesis using that [of "au_runtime (ay_state y)"] by (simp add: refresh_step_def)
  next
    case (Inr rt')
    then show ?thesis using that [of rt'] refresh_jwks_effect [OF Inr] by (simp add: refresh_step_def)
  qed
  have "ar_introspection rt = ar_introspection (au_runtime (ay_state y))" "runtime_inv rt"
    using rt(2) assms by (auto simp: auth_inv_def runtime_inv_def)
  moreover have "cache_inv (y\<lparr>ay_state := (ay_state y)\<lparr>au_runtime := rt\<rparr>\<rparr>) ir \<longleftrightarrow> cache_inv y ir" for ir
    by (simp add: cache_inv_def confirmed_def)
  ultimately show ?thesis using assms unfolding rt(1)
    by (cases "ar_introspection (au_runtime (ay_state y))") (simp_all add: auth_inv_def)
qed

lemma activate_inv:
  assumes "auth_inv env y" "prepare env c must_login i = Inr rt"
  shows "auth_inv env (y\<lparr>ay_state := snd (auth_activate rt (ay_state y))\<rparr>)"
proof -
  have old: "\<forall>f \<in> set (ay_flights y). fl_id f \<noteq> Suc (au_id (ay_state y))" using assms(1) by (force simp: auth_inv_def)
  then have "filter (\<lambda>f. fl_id f = Suc (au_id (ay_state y))) (ay_flights y) = []" by (simp add: filter_empty_conv)
  then have "cache_inv (y\<lparr>ay_state := snd (auth_activate rt (ay_state y))\<rparr>) (build_introspection (ca_introspection c))"
    by (simp add: cache_inv_def auth_activate_def build_introspection_def)
  then show ?thesis
    using assms(1) prepared_runtime_inv [OF assms(2)] prepare_Inr(5) [OF assms(2)] old
    by (auto simp: auth_inv_def auth_activate_def)
qed

lemma auth_reach_inv: "auth_reach env y \<Longrightarrow> auth_inv env y"
proof (induction rule: auth_reach.induct)
  case start
  then show ?case by (simp add: auth_inv_def auth_start_def runtime_inv_def auth_disabled_def)
next
  case (step y y')
  from step(2,3) show ?case
    by (cases rule: auth_step.cases) (simp_all add: attempt_inv answer_inv refresh_inv activate_inv)
qed

text \<open>C31. Whatever attempts, answers, key refreshes and activations interleave: the introspection cache
  never exceeds its configured size, the permits of the active verifier and its requests in flight are
  sixty-four together, a verifier in enforce mode has a usable Ed25519 keyset of known age, and one that
  requires introspection has an endpoint for it.\<close>

theorem auth_reachable_bounded:
  assumes "auth_reach env y"
  shows "(\<forall>ir. ar_introspection (au_runtime (ay_state y)) = Some ir \<longrightarrow>
        hm_len (ir_entries ir) \<le> unat (is_max_cache_entries (ir_config ir))
        \<and> ir_permits ir + length (filter (\<lambda>f. fl_id f = au_id (ay_state y)) (ay_flights y)) = 64)
    \<and> (ar_effective_mode (au_runtime (ay_state y)) = AuthEnforce \<longrightarrow>
        keyset_ok (ar_keys (au_runtime (ay_state y))) \<and> ar_loaded_at (au_runtime (ay_state y)) \<noteq> None)
    \<and> (ar_effective_mode (au_runtime (ay_state y)) \<noteq> AuthOff \<longrightarrow>
        is_required (ca_introspection (ar_config (au_runtime (ay_state y)))) \<longrightarrow> ar_introspection (au_runtime (ay_state y)) \<noteq> None)"
  using auth_reach_inv [OF assms] by (auto simp: auth_inv_def runtime_inv_def cache_inv_def)

text \<open>C29. Enforcement at the start of an attempt: when it is let through without waiting for the
  endpoint, its transport is not plain UDP, its token is valid by every local check at the times read,
  and either no endpoint is configured and none is required, or the active verifier was given a
  confirmation for this very digest that is still within its cache time and the token's own expiry.\<close>

theorem enforced_attempt_is_valid:
  assumes reach: "auth_reach env y" and mode: "ar_effective_mode (au_runtime (ay_state y)) = AuthEnforce"
    and decided: "authorize_begin env token transport now clock inst (ay_state y) = (Inl d, s)" and go: "ad_proceed d"
  shows "transport \<noteq> UnsupportedUdp \<and> (\<exists>local. token_valid env (au_runtime (ay_state y)) token now clock local)
    \<and> (case ar_introspection (au_runtime (ay_state y)) of
         None \<Rightarrow> \<not> is_required (ca_introspection (ar_config (au_runtime (ay_state y))))
       | Some ir \<Rightarrow> \<exists>l \<in> set (ay_log y). cf_id l = au_id (ay_state y) \<and> cf_hash l = av_sha256 env (as_bytes token)
           \<and> inst < cf_inst l + from_secs (min (unat (is_positive_cache_seconds (ir_config ir))) (unat (cf_expires l) - unat (cf_now l))))"
proof -
  have inv: "auth_inv env y" by (rule auth_reach_inv [OF reach])
  show ?thesis
  proof (cases rule: authorize_begin_effect [OF decided])
    case (1 d')
    then show ?thesis using mode go by simp
  next
    case (2 local b m rt' m')
    have v: "\<exists>local. token_valid env (au_runtime (ay_state y)) token now clock local"
      using 2(1) verify_local_Inr by blast
    show ?thesis
    proof (cases rule: introspect_begin_effect [OF 2(4)])
      case (1 x)
      then show ?thesis using 2(2) 2(7) [of x] v go mode by auto
    next
      case (2 ir x)
      then have "x = None" using \<open>\<And>x. b = IntrospectDone x \<Longrightarrow> _ x\<close> [of x] go mode by auto
      then obtain e where "hm_get (live_entries inst (ir_entries ir)) (av_sha256 env (as_bytes token)) = Some e" "ce_active e"
        using 2(4) by blast
      moreover have c: "cache_inv y ir" using inv 2(1) by (simp add: auth_inv_def)
      ultimately have "inst < ce_expires_at e \<and> confirmed y (ir_config ir) (av_sha256 env (as_bytes token)) (ce_expires_at e)"
        by (auto simp: cache_inv_def live_entries_get)
      then show ?thesis using \<open>transport \<noteq> UnsupportedUdp\<close> v 2(1) by (auto simp: confirmed_def)
    next
      case (3 ir)
      then show ?thesis using 2(8) by simp
    qed
  qed
qed

text \<open>C30. Enforcement at the answer of the endpoint: an attempt that waited is let through in enforce mode
  only when the endpoint said the token is active for the very subject of the token, and the token had
  passed every local check of the verifier that sent the request; in audit mode nothing is refused.\<close>

theorem enforced_answer_is_confirmed:
  assumes reach: "auth_reach env y" and flight: "f \<in> set (ay_flights y)"
  shows "(ad_proceed (fst (authorize_finish f result inst (ay_state y))) \<longleftrightarrow>
       (\<exists>response. result = Inr response \<and> ip_active response \<and> ip_sub response = Some (lc_subject (fl_local f)))
       \<or> fl_mode f = AuthAudit)
    \<and> (\<exists>rt token clock. ar_effective_mode rt = fl_mode f \<and> fl_hash f = av_sha256 env (as_bytes token)
         \<and> token_valid env rt token (fl_now f) clock (fl_local f))"
proof -
  have "flight_ok env f" using auth_reach_inv [OF reach] flight by (auto simp: auth_inv_def)
  moreover have "fst (response_verdict result (fl_local f)) \<longleftrightarrow>
      (\<exists>response. result = Inr response \<and> ip_active response \<and> ip_sub response = Some (lc_subject (fl_local f)))"
    by (cases result) (simp_all add: response_verdict_def)
  ultimately show ?thesis
    unfolding authorize_finish_def Let_def split_def verdict_of_proceed flight_ok_def fst_conv
    by (auto simp: verdict_of_proceed)
qed

text \<open>C32. A verifier is prepared fail-closed: with must-login the mode is enforce whatever is configured,
  and preparation fails when no verifier is configured; in enforce mode it succeeds only with a keyset
  of 32-byte keys whose age is known and within the configured staleness when it is prepared, and a
  required introspection always has its client.\<close>

theorem prepare_fails_closed:
  assumes "prepare env c must_login i = Inr rt"
  shows "(must_login \<longrightarrow> ca_mode c \<noteq> AuthOff \<and> ar_effective_mode rt = AuthEnforce)
    \<and> (ar_effective_mode rt = AuthEnforce \<longrightarrow> keyset_ok (ar_keys rt) \<and>
        (\<exists>loaded. ar_loaded_at rt = Some loaded \<and> unat loaded \<le> unat (pi_clock_final i)
          \<and> unat (pi_clock_final i) \<le> unat loaded + unat (jw_max_stale_seconds (ca_jwks c))))
    \<and> (ar_effective_mode rt \<noteq> AuthOff \<longrightarrow> is_required (ca_introspection c) \<longrightarrow> ar_introspection rt \<noteq> None)"
  using prepare_Inr [OF assms] by (auto simp: effective_connection_auth_mode_def)

section \<open>A concrete verifier\<close>

definition ax_claims :: claims where
  "ax_claims = \<lparr>cl_iss = lit ''i'', cl_aud = AudOne (lit ''a''), cl_token_use = lit ''access'',
     cl_scope = ScopeValues [lit ''connect:initiate''], cl_sub = [55], cl_user_id = 7, cl_auth_version = 1,
     cl_jti = [], cl_iat = 900, cl_nbf = 900, cl_exp = 2000\<rparr>"

definition ax_jwk :: jwk where
  "ax_jwk = \<lparr>jk_kty = lit ''OKP'', jk_crv = lit ''Ed25519'', jk_key_use = lit ''sig'', jk_alg = lit ''EdDSA'',
     jk_kid = lit ''k'', jk_x = replicate 32 65, jk_key_ops = None\<rparr>"

definition ax_env :: auth_env where
  "ax_env = \<lparr>av_decode_header = (\<lambda>_. Some \<lparr>jh_eddsa = True, jh_typ = Some (lit ''at+jwt''), jh_kid = Some (lit ''k'')\<rparr>),
     av_decode = (\<lambda>_ _ _ _. Inr ax_claims), av_base64_decode = (\<lambda>s. Some (map of_nat s)),
     av_base64_encode = map unat, av_uuid_ok = (\<lambda>_. True), av_sha256 = (\<lambda>b. b), av_sha256_hex = map unat,
     av_jwks = (\<lambda>_. Inr [ax_jwk]), av_metadata = (\<lambda>_. Inl [])\<rparr>"

definition ax_config :: connection_auth_config where
  "ax_config = connection_auth_config_default\<lparr>ca_mode := AuthEnforce, ca_issuer := lit ''i'', ca_audience := lit ''a'',
     ca_jwks := jwks_config_default\<lparr>jw_file := lit ''f''\<rparr>,
     ca_introspection := introspection_config_default\<lparr>is_url := lit ''u'', is_required := True\<rparr>\<rparr>"

definition ax_input :: prepare_input where
  "ax_input = \<lparr>pi_file = Inr [], pi_metadata = MetadataMissing (Inr 1000), pi_jwks_client = Inr (), pi_fetch = FetchFailed [],
     pi_write = Inr (), pi_introspection_client = Inr (), pi_clock_file = 1000, pi_clock_fetch = 1000,
     pi_clock_retain = 1000, pi_clock_final = 1000\<rparr>"

definition ax_runtime :: auth_runtime where
  "ax_runtime = \<lparr>ar_configured_mode = AuthEnforce, ar_effective_mode = AuthEnforce, ar_config = ax_config,
     ar_keys = [(lit ''k'', replicate 32 65)], ar_loaded_at = Some 1000, ar_jwks_file = Some (lit ''f''),
     ar_introspection = Some (build_introspection (ca_introspection ax_config))\<rparr>"

lemma ax_lit: "lit ''f'' = [102]" "lit ''u'' = [117]" "lit ''k'' = [107]" by (simp_all add: lit_def)

lemma ax_prepare: "prepare ax_env ax_config True ax_input = Inr ax_runtime"
proof -
  have p: "jwk_profile ax_jwk" by (simp add: jwk_profile_def ax_jwk_def ax_lit utf8_len_def len_utf8_def)
  have k: "parse_jwks ax_env [] = Inr [(lit ''k'', replicate 32 65)]"
    using p by (simp add: parse_jwks_def ax_env_def) (simp add: ax_jwk_def hm_eval)
  have f: "load_key_file ax_env ax_config ax_input
      = Inr \<lparr>kd_keys = [(lit ''k'', replicate 32 65)], kd_loaded_at = Some 1000, kd_freshness_error = None\<rparr>"
    using k by (simp add: load_key_file_def ax_config_def ax_input_def jwks_config_default_def ax_lit ebind_def
      load_jwks_freshness_def sat_add_def)
  have u: "jw_url (ca_jwks ax_config) = []" "ca_mode ax_config = AuthEnforce" "jw_file (ca_jwks ax_config) = lit ''f''"
    "jw_max_stale_seconds (ca_jwks ax_config) = 3600" "is_url (ca_introspection ax_config) = lit ''u''"
    by (simp_all add: ax_config_def jwks_config_default_def)
  have n: "prepare_introspection ax_config ax_input = Inr (Some (build_introspection (ca_introspection ax_config)))"
    using u by (simp add: prepare_introspection_def ax_input_def ebind_def ax_lit Let_def)
  show ?thesis
    using f n u by (simp add: prepare_def effective_connection_auth_mode_def ebind_def fetch_keys_def enforce_fresh_def
      checked_sub_def ax_input_def ax_runtime_def Let_def ax_lit)
qed

theorem prepare_fails_closed_witness:
  "ar_effective_mode ax_runtime = AuthEnforce \<and> keyset_ok (ar_keys ax_runtime) \<and> ar_introspection ax_runtime \<noteq> None"
  using prepare_fails_closed [OF ax_prepare] by (auto simp: ax_config_def ax_runtime_def)

definition ax_state :: auth_state where
  "ax_state = \<lparr>au_runtime = ax_runtime, au_id = 1, au_metrics = auth_metrics_new\<rparr>"

definition ax_active :: auth_system where
  "ax_active = \<lparr>ay_state = ax_state, ay_flights = [], ay_log = []\<rparr>"

definition ax_token :: utext where
  "ax_token = [97, 46, 98, 46, 99]"

lemma ax_active_reach: "auth_reach ax_env ax_active"
proof -
  have "auth_step ax_env auth_start ax_active"
    using auth_step.activate [OF ax_prepare, of auth_start]
    by (simp add: auth_start_def ax_active_def ax_state_def auth_activate_def)
  then show ?thesis using auth_reach.start auth_reach.step by blast
qed

lemma ax_verify:
  assumes "ar_config rt = ax_config" "ar_keys rt = ar_keys ax_runtime" "ar_loaded_at rt = Some 1000"
  shows "verify_local_at ax_env rt ax_token 1000 1000 = Inr \<lparr>lc_subject = [55], lc_expires_at = 2000\<rparr>"
proof -
  have "canonical_compact_jwt ax_env ax_token"
    by (simp add: canonical_compact_jwt_def ax_token_def segment_canonical_def ax_env_def)
  moreover have "trusted_key ax_env rt ax_token 1000 (replicate 32 65)"
    using assms by (simp add: trusted_key_def ax_env_def ax_runtime_def hm_eval ax_lit ax_config_def jwks_config_default_def)
  moreover have "print_nat 7 = [55]" by (subst print_nat.simps) simp
  then have "claims_valid ax_env ax_config 1000 ax_claims"
    by (simp add: claims_valid_def ax_claims_def ax_config_def connection_auth_config_default_def ax_env_def)
  moreover have "av_decode ax_env t k i a = Inr ax_claims" for t k i a by (simp add: ax_env_def)
  ultimately have "token_valid ax_env rt ax_token 1000 1000 \<lparr>lc_subject = [55], lc_expires_at = 2000\<rparr>"
    using assms(1) by (auto simp: token_valid_def ax_token_def utf8_len_def len_utf8_def ax_config_def
      connection_auth_config_default_def ax_claims_def)
  then show ?thesis by (simp add: verify_local_Inr)
qed

definition ax_flight :: auth_flight where
  "ax_flight = \<lparr>fl_id = 1, fl_mode = AuthEnforce, fl_hash = as_bytes ax_token,
     fl_local = \<lparr>lc_subject = [55], lc_expires_at = 2000\<rparr>, fl_now = 1000\<rparr>"

definition ax_waiting :: auth_system where
  "ax_waiting = begun (authorize_begin ax_env ax_token SecureTcp 1000 1000 0 ax_state) ax_active"

lemma ax_begin: "\<exists>m. authorize_begin ax_env ax_token SecureTcp 1000 1000 0 ax_state = (Inr ax_flight,
    ax_state\<lparr>au_runtime := ax_runtime\<lparr>ar_introspection := Some ((build_introspection (ca_introspection ax_config))
      \<lparr>ir_permits := 63\<rparr>)\<rparr>, au_metrics := m\<rparr>)"
proof -
  have v: "verify_local_at ax_env ax_runtime ax_token 1000 1000 = Inr \<lparr>lc_subject = [55], lc_expires_at = 2000\<rparr>"
    by (rule ax_verify) (simp_all add: ax_runtime_def)
  have "ar_introspection ax_runtime = Some (build_introspection (ca_introspection ax_config))" by (simp add: ax_runtime_def)
  moreover have "ar_effective_mode ax_runtime = AuthEnforce" "av_sha256 ax_env b = b" for b
    by (simp_all add: ax_runtime_def ax_env_def)
  ultimately show ?thesis using v
    by (simp add: authorize_begin_def introspect_begin_def cache_lookup_def live_entries_def hm_retain_def hm_get_def
      build_introspection_def ax_state_def ax_flight_def Let_def)
qed

lemma ax_waiting_reach: "auth_reach ax_env ax_waiting"
proof -
  have "auth_step ax_env ax_active ax_waiting"
    using auth_step.attempt [of ax_env ax_active ax_token SecureTcp 1000 1000 0]
    by (simp add: ax_waiting_def ax_active_def)
  then show ?thesis using ax_active_reach auth_reach.step by blast
qed

lemma ax_waiting_flights: "ay_flights ax_waiting = [ax_flight]"
  using ax_begin by (auto simp: ax_waiting_def ax_active_def)

theorem auth_reachable_bounded_witness:
  "\<exists>ir. ar_introspection (au_runtime (ay_state ax_waiting)) = Some ir \<and> ir_permits ir = 63
     \<and> keyset_ok (ar_keys (au_runtime (ay_state ax_waiting)))"
proof -
  obtain m where "ay_state ax_waiting = ax_state\<lparr>au_runtime := ax_runtime\<lparr>ar_introspection := Some ((build_introspection
      (ca_introspection ax_config))\<lparr>ir_permits := 63\<rparr>)\<rparr>, au_metrics := m\<rparr>"
    using ax_begin by (auto simp: ax_waiting_def)
  then show ?thesis using auth_reachable_bounded [OF ax_waiting_reach] by (auto simp: ax_runtime_def)
qed

definition ax_answer :: introspection_response where
  "ax_answer = \<lparr>ip_active = True, ip_sub = Some [55], ip_reason = None\<rparr>"

theorem enforced_answer_is_confirmed_witness:
  "ad_proceed (fst (authorize_finish ax_flight (Inr ax_answer) 5 (ay_state ax_waiting)))"
  using enforced_answer_is_confirmed [OF ax_waiting_reach, of ax_flight "Inr ax_answer" 5]
  by (simp add: ax_waiting_flights ax_answer_def ax_flight_def)

definition ax_cached :: auth_system where
  "ax_cached = \<lparr>ay_state = snd (authorize_finish ax_flight (Inr ax_answer) 5 (ay_state ax_waiting)), ay_flights = [],
     ay_log = [\<lparr>cf_id = 1, cf_hash = as_bytes ax_token, cf_inst = 5, cf_now = 1000, cf_expires = 2000\<rparr>]\<rparr>"

lemma ax_cached_reach: "auth_reach ax_env ax_cached"
proof -
  have "confirmation_of ax_flight (Inr ax_answer) 5 =
      [\<lparr>cf_id = 1, cf_hash = as_bytes ax_token, cf_inst = 5, cf_now = 1000, cf_expires = 2000\<rparr>]"
    by (simp add: confirmation_of_def response_verdict_def ax_answer_def ax_flight_def)
  moreover have "ay_log ax_waiting = []" using ax_begin by (auto simp: ax_waiting_def ax_active_def)
  ultimately have "auth_step ax_env ax_waiting ax_cached"
    using auth_step.answer [of ax_flight ax_waiting ax_env "Inr ax_answer" 5] by (simp add: ax_waiting_flights ax_cached_def)
  then show ?thesis using ax_waiting_reach auth_reach.step by blast
qed

lemma ax_cached_runtime: "\<exists>e seq. ce_active e \<and> ce_expires_at e = 10000000005 \<and> au_runtime (ay_state ax_cached) =
    ax_runtime\<lparr>ar_introspection := Some \<lparr>ir_config = ca_introspection ax_config, ir_entries = [(as_bytes ax_token, e)],
      ir_sequence = seq, ir_permits = 64\<rparr>\<rparr>"
proof -
  obtain m where w: "ay_state ax_waiting = ax_state\<lparr>au_runtime := ax_runtime\<lparr>ar_introspection := Some ((build_introspection
      (ca_introspection ax_config))\<lparr>ir_permits := 63\<rparr>)\<rparr>, au_metrics := m\<rparr>"
    using ax_begin by (auto simp: ax_waiting_def)
  have c: "is_positive_cache_seconds (ca_introspection ax_config) = 10"
    "unat (is_max_cache_entries (ca_introspection ax_config)) = 100000"
    by (simp_all add: ax_config_def introspection_config_default_def)
  have ev: "hm_len m \<le> 100000 \<Longrightarrow> evict_over 100000 m = m" for m by (subst evict_over.simps) simp
  show ?thesis
    by (intro exI [of _ "\<lparr>ce_active = True, ce_reason = ''allow'', ce_expires_at = 10000000005, ce_sequence = sat_add 0 1\<rparr>"]
        exI [of _ "sat_add 0 1"])
      (simp add: ax_cached_def authorize_finish_def w ax_state_def store_answer_def ax_flight_def response_verdict_def
      ax_answer_def build_introspection_def cache_store_def cache_ttl_def c Let_def split_def sat_sub_def min_def
      hm_insert_def ev hm_len_def from_secs_def)
qed

theorem enforced_attempt_is_valid_witness:
  "\<exists>d s. authorize_begin ax_env ax_token SecureTcp 1000 1000 6 (ay_state ax_cached) = (Inl d, s) \<and> ad_proceed d
     \<and> (\<exists>l \<in> set (ay_log ax_cached). 6 < cf_inst l + from_secs (min 10 (unat (cf_expires l) - unat (cf_now l))))"
proof -
  obtain e seq where e: "ce_active e" "ce_expires_at e = 10000000005" and rt: "au_runtime (ay_state ax_cached) =
      ax_runtime\<lparr>ar_introspection := Some \<lparr>ir_config = ca_introspection ax_config, ir_entries = [(as_bytes ax_token, e)],
        ir_sequence = seq, ir_permits = 64\<rparr>\<rparr>"
    using ax_cached_runtime by blast
  let ?rt = "au_runtime (ay_state ax_cached)"
  have v: "verify_local_at ax_env ?rt ax_token 1000 1000 = Inr \<lparr>lc_subject = [55], lc_expires_at = 2000\<rparr>"
    by (rule ax_verify) (simp_all add: rt ax_runtime_def)
  have mode: "ar_effective_mode ?rt = AuthEnforce" by (simp add: rt ax_runtime_def)
  have "av_sha256 ax_env b = b" for b by (simp add: ax_env_def)
  then obtain d s where d: "authorize_begin ax_env ax_token SecureTcp 1000 1000 6 (ay_state ax_cached) = (Inl d, s)" "ad_proceed d"
    using v mode e
    by (simp add: authorize_begin_def introspect_begin_def cache_lookup_def live_entries_def hm_retain_def hm_get_def rt
      verdict_of_def Let_def)
  have "ar_introspection ?rt = Some \<lparr>ir_config = ca_introspection ax_config, ir_entries = [(as_bytes ax_token, e)],
        ir_sequence = seq, ir_permits = 64\<rparr>" by (simp add: rt)
  moreover have "is_positive_cache_seconds (ca_introspection ax_config) = 10"
    by (simp add: ax_config_def introspection_config_default_def)
  ultimately show ?thesis using enforced_attempt_is_valid [OF ax_cached_reach mode d] d by auto
qed

end
