(* ===== verification/Fast_Relay.thy ===== *)
theory Fast_Relay
  imports Connection_Auth Relay_Quality Fast_Media_Wire
begin

text \<open>
  Fast relay authorisations of the rendezvous server (\<open>fast_relay.rs\<close>): the grants signed for the two
  endpoints of a session, their reuse and delivery, the rate of signatures per source, eviction and
  clean-up.  Signing and the encoding of the protobuf message are parameters; clocks and the fresh
  allocation id are inputs, and an operation runs under the write lock as one step.
\<close>

section \<open>State\<close>

record grant_key =
  gk_session_uuid :: utext
  gk_initiator_ip :: ip_addr
  gk_target_ip :: ip_addr

record response_key =
  rs_session_uuid :: utext
  rs_target_ip :: ip_addr

record grant_record =
  gr_target_signed :: bytes
  gr_controller_signed :: bytes
  gr_selected_relay :: utext
  gr_quality_allocation_id :: "bytes option"
  gr_config_generation :: u64
  gr_expires_at :: u64
  gr_created :: instant
  gr_fast_media :: bool

record signing_rate =
  sr_window_started :: instant
  sr_count :: u32

record policy_snapshot =
  po_generation :: u64
  po_config :: fast_relay_config
  po_max_authorizations :: usize

record fast_relay_counters =
  fk_issued_sessions :: u64
  fk_target_grants_issued :: u64
  fk_controller_grants_issued :: u64
  fk_fast_compat_sessions :: u64
  fk_fast_media_sessions :: u64
  fk_reused :: u64
  fk_delivered :: u64
  fk_disabled :: u64
  fk_insecure_requests :: u64
  fk_invalid_configuration :: u64
  fk_invalid_uuids :: u64
  fk_invalid_server_selection :: u64
  fk_missing_signing_keys :: u64
  fk_signing_failures :: u64
  fk_quality_selection_failures :: u64
  fk_rate_limited :: u64
  fk_response_misses :: u64
  fk_expired_cache_evictions :: u64
  fk_fast_media_unavailable :: u64
  fk_reliable_fallbacks :: u64

record fast_relay_state =
  ft_grants :: "(grant_key, grant_record) hmap"
  ft_sessions :: "(utext, grant_key) hmap"
  ft_responses :: "(response_key, grant_key) hmap"
  ft_signing_rates :: "(ip_addr, signing_rate) hmap"
  ft_counters :: fast_relay_counters

definition fast_relay_counters_default :: fast_relay_counters where
  "fast_relay_counters_default = \<lparr>fk_issued_sessions = 0, fk_target_grants_issued = 0,
     fk_controller_grants_issued = 0, fk_fast_compat_sessions = 0, fk_fast_media_sessions = 0, fk_reused = 0,
     fk_delivered = 0, fk_disabled = 0, fk_insecure_requests = 0, fk_invalid_configuration = 0, fk_invalid_uuids = 0,
     fk_invalid_server_selection = 0, fk_missing_signing_keys = 0, fk_signing_failures = 0,
     fk_quality_selection_failures = 0, fk_rate_limited = 0, fk_response_misses = 0, fk_expired_cache_evictions = 0,
     fk_fast_media_unavailable = 0, fk_reliable_fallbacks = 0\<rparr>"

definition fast_relay_state_default :: fast_relay_state where
  "fast_relay_state_default = \<lparr>ft_grants = [], ft_sessions = [], ft_responses = [], ft_signing_rates = [],
     ft_counters = fast_relay_counters_default\<rparr>"

definition tally ::
  "((u64 \<Rightarrow> u64) \<Rightarrow> fast_relay_counters \<Rightarrow> fast_relay_counters) \<Rightarrow> fast_relay_state \<Rightarrow> fast_relay_state" where
  "tally field s = s\<lparr>ft_counters := field bump (ft_counters s)\<rparr>"

section \<open>Policy and clean-up\<close>

definition current_policy :: "active_config \<Rightarrow> policy_snapshot" where
  "current_policy active = (case ac_config active of
     None \<Rightarrow> \<lparr>po_generation = ac_generation active, po_config = fast_relay_config_default, po_max_authorizations = 10000\<rparr>
   | Some config \<Rightarrow> \<lparr>po_generation = ac_generation active, po_config = sc_fast_mode config,
       po_max_authorizations = qc_max_allocations (sc_relay_quality config)\<rparr>)"

definition fast_relay_enabled :: "active_config \<Rightarrow> bool" where
  "fast_relay_enabled active \<longleftrightarrow> (let c = po_config (current_policy active)
     in fr_fast_compat_enabled c \<or> fr_fast_media_v1_enabled c)"

definition grant_live :: "policy_snapshot \<Rightarrow> u64 \<Rightarrow> instant \<Rightarrow> grant_record \<Rightarrow> bool" where
  "grant_live policy now inst r \<longleftrightarrow>
     since inst (gr_created r) \<le> from_secs (unat (fr_authorization_ttl_seconds (po_config policy))) \<and> gr_expires_at r > now"

definition fast_relay_cleanup :: "policy_snapshot \<Rightarrow> u64 \<Rightarrow> instant \<Rightarrow> fast_relay_state \<Rightarrow> fast_relay_state" where
  "fast_relay_cleanup policy now inst s =
     (let grants = hm_retain (\<lambda>_ r. grant_live policy now inst r) (ft_grants s);
          dropped = of_nat (hm_len (ft_grants s) - hm_len grants);
          active = hm_contains grants
      in s\<lparr>ft_grants := grants,
           ft_counters := fk_expired_cache_evictions_update (\<lambda>n. sat_add n dropped) (ft_counters s),
           ft_sessions := hm_retain (\<lambda>_ k. active k) (ft_sessions s),
           ft_responses := hm_retain (\<lambda>_ k. active k) (ft_responses s),
           ft_signing_rates := hm_retain (\<lambda>_ r. since inst (sr_window_started r) \<le> from_secs 60) (ft_signing_rates s)\<rparr>)"

definition remove_grant :: "grant_key \<Rightarrow> fast_relay_state \<Rightarrow> fast_relay_state" where
  "remove_grant key s =
     (if \<not> hm_contains (ft_grants s) key then s
      else s\<lparr>ft_grants := hm_remove key (ft_grants s),
             ft_sessions := hm_retain (\<lambda>_ v. v \<noteq> key) (ft_sessions s),
             ft_responses := hm_retain (\<lambda>_ v. v \<noteq> key) (ft_responses s)\<rparr>)"

definition remove_oldest_grant :: "instant \<Rightarrow> fast_relay_state \<Rightarrow> fast_relay_state" where
  "remove_oldest_grant inst s =
     (case oldest inst gr_created (ft_grants s) of None \<Rightarrow> s | Some key \<Rightarrow> remove_grant key s)"

definition remove_oldest_signing_rate :: "instant \<Rightarrow> fast_relay_state \<Rightarrow> fast_relay_state" where
  "remove_oldest_signing_rate inst s =
     s\<lparr>ft_signing_rates := remove_oldest inst sr_window_started (ft_signing_rates s)\<rparr>"

definition current_rate :: "instant \<Rightarrow> ip_addr \<Rightarrow> fast_relay_state \<Rightarrow> signing_rate" where
  "current_rate inst ip s =
     (let rate = (case hm_get (ft_signing_rates s) ip of None \<Rightarrow> \<lparr>sr_window_started = inst, sr_count = 0\<rparr> | Some r \<Rightarrow> r)
      in if since inst (sr_window_started rate) \<ge> from_secs 60 then \<lparr>sr_window_started = inst, sr_count = 0\<rparr> else rate)"

definition consume_signing_rate ::
  "instant \<Rightarrow> ip_addr \<Rightarrow> nat \<Rightarrow> fast_relay_state \<Rightarrow> bool \<times> fast_relay_state" where
  "consume_signing_rate inst ip maximum s0 =
     (let s = (if \<not> hm_contains (ft_signing_rates s0) ip \<and> hm_len (ft_signing_rates s0) \<ge> max maximum 1
               then remove_oldest_signing_rate inst s0 else s0);
          rate = current_rate inst ip s
      in if sr_count rate \<ge> 120 then (False, s\<lparr>ft_signing_rates := hm_insert ip rate (ft_signing_rates s)\<rparr>)
         else (True, s\<lparr>ft_signing_rates := hm_insert ip (rate\<lparr>sr_count := sat_add (sr_count rate) 1\<rparr>) (ft_signing_rates s)\<rparr>))"

section \<open>Signed authorisations\<close>

text \<open>\<open>write_to_bytes\<close> and \<open>sign::sign\<close> with a secret key.\<close>

record grant_signer =
  gs_write :: "fast_relay_authorization \<Rightarrow> bytes option"
  gs_sign :: "bytes \<Rightarrow> bytes \<Rightarrow> bytes"

definition utf8_string :: "utext \<Rightarrow> string" where
  "utf8_string t = map (\<lambda>b. char_of (unat b)) (as_bytes t)"

definition authorization_payload ::
  "utext \<Rightarrow> u64 \<Rightarrow> fast_relay_config \<Rightarrow> utext \<Rightarrow> fast_media_endpoint_view option \<Rightarrow> bytes option \<Rightarrow> u32
     \<Rightarrow> fast_relay_authorization" where
  "authorization_payload uuid expires_at config relay endpoint allocation_id role =
     (let fast_media = (endpoint \<noteq> None) in
      \<lparr>fa_version = 1, fa_session_uuid = utf8_string uuid, fa_expires_at = expires_at,
       fa_allow_fast_compat = (fr_fast_compat_enabled config \<or> fast_media), fa_allow_fast_media_v1 = fast_media,
       fa_max_bitrate_kbps = fr_max_bitrate_kbps config,
       fa_relay_udp_protocol = (case endpoint of None \<Rightarrow> 0 | Some e \<Rightarrow> fe_protocol e),
       fa_relay_server = utf8_string relay,
       fa_relay_udp_port = (case endpoint of None \<Rightarrow> 0 | Some e \<Rightarrow> ucast (fe_udp_port e)),
       fa_relay_allocation_id = (case allocation_id of None \<Rightarrow> [] | Some i \<Rightarrow> i),
       fa_relay_max_datagram = (if fast_media then fr_relay_max_datagram config else 0),
       fa_relay_endpoint_role = (if fast_media then role else 0)\<rparr>)"

definition build_signed_authorization ::
  "grant_signer \<Rightarrow> utext \<Rightarrow> u64 \<Rightarrow> fast_relay_config \<Rightarrow> utext \<Rightarrow> fast_media_endpoint_view option \<Rightarrow> bytes option \<Rightarrow> u32
     \<Rightarrow> bytes \<Rightarrow> bytes option" where
  "build_signed_authorization sg uuid expires_at config relay endpoint allocation_id role key =
     (if uuid = [] \<or> utf8_len uuid > 128 \<or> \<not> in_range 1000 200000 (fr_max_bitrate_kbps config) \<or> relay = []
         \<or> (endpoint \<noteq> None \<and> (map_option length allocation_id \<noteq> Some 16 \<or> role \<notin> {1, 2}))
      then None
      else map_option (\<lambda>payload. gs_sign sg payload key)
        (gs_write sg (authorization_payload uuid expires_at config relay endpoint allocation_id role)))"

section \<open>Requests\<close>

record authorization_request =
  aq_session_uuid :: utext
  aq_source_ip :: ip_addr
  aq_target_ip :: ip_addr
  aq_selected_relay :: utext
  aq_transport :: signal_transport
  aq_auth :: auth_decision
  aq_quality :: "relay_selection option"
  aq_endpoint :: "fast_media_endpoint_view option"
  aq_signing_key :: "bytes option"

definition request_key :: "authorization_request \<Rightarrow> grant_key" where
  "request_key q = \<lparr>gk_session_uuid = aq_session_uuid q, gk_initiator_ip = normalize_ip (aq_source_ip q),
     gk_target_ip = normalize_ip (aq_target_ip q)\<rparr>"

text \<open>The refusals before any lookup, each with the counter it adds to.\<close>

definition policy_refusals ::
  "policy_snapshot \<Rightarrow> authorization_request
     \<Rightarrow> (bool \<times> ((u64 \<Rightarrow> u64) \<Rightarrow> fast_relay_counters \<Rightarrow> fast_relay_counters)) list" where
  "policy_refusals policy q =
     (let c = po_config policy; relay = trim (aq_selected_relay q) in
      [(\<not> fr_fast_compat_enabled c \<and> \<not> fr_fast_media_v1_enabled c, fk_disabled_update),
       (\<not> in_range 30 300 (fr_authorization_ttl_seconds c) \<or> \<not> in_range 1000 200000 (fr_max_bitrate_kbps c)
          \<or> \<not> in_range 608 1400 (fr_relay_max_datagram c), fk_invalid_configuration_update),
       (aq_transport q \<notin> {SecureTcp, WebSocketSignal} \<or> \<not> ad_proceed (aq_auth q) \<or> ad_verdict (aq_auth q) \<noteq> ''allow'',
          fk_insecure_requests_update),
       (aq_session_uuid q = [] \<or> utf8_len (aq_session_uuid q) > 128, fk_invalid_uuids_update),
       (relay = [] \<or> utf8_len relay > 256, fk_invalid_server_selection_update)])"

definition quality_mismatch :: "policy_snapshot \<Rightarrow> authorization_request \<Rightarrow> relay_selection \<Rightarrow> bool" where
  "quality_mismatch policy q selection \<longleftrightarrow>
     se_config_generation selection \<noteq> po_generation policy \<or> de_protocol_version (se_decision selection) \<noteq> 1
     \<or> \<not> text_eq_ignore_case (de_relay_server (se_decision selection)) (trim (aq_selected_relay q))
     \<or> length (de_allocation_id (se_decision selection)) \<noteq> 16
     \<or> normalize_ip (se_target_ip selection) \<noteq> normalize_ip (aq_target_ip q)"

definition quality_id :: "authorization_request \<Rightarrow> bytes option" where
  "quality_id q = map_option (\<lambda>selection. de_allocation_id (se_decision selection)) (aq_quality q)"

definition reusable :: "policy_snapshot \<Rightarrow> authorization_request \<Rightarrow> u64 \<Rightarrow> grant_record \<Rightarrow> bool" where
  "reusable policy q now r \<longleftrightarrow> gr_config_generation r = po_generation policy
     \<and> gr_quality_allocation_id r = quality_id q
     \<and> text_eq_ignore_case (gr_selected_relay r) (trim (aq_selected_relay q)) \<and> gr_expires_at r > now"

definition checked_add :: "u64 \<Rightarrow> u64 \<Rightarrow> u64 option" where
  "checked_add a b = (if unat a + unat b < 2 ^ 64 then Some (a + b) else None)"

text \<open>The two grants: one for each role of a FastMedia allocation, or one for both endpoints.\<close>

definition sign_grants ::
  "grant_signer \<Rightarrow> policy_snapshot \<Rightarrow> authorization_request \<Rightarrow> u64 \<Rightarrow> bytes \<Rightarrow> bytes \<Rightarrow> (bytes \<times> bytes) option" where
  "sign_grants sg policy q expires_at allocation_id key =
     (let c = po_config policy; relay = trim (aq_selected_relay q) in
      case (fr_fast_media_v1_enabled c, aq_endpoint q) of
        (True, Some endpoint) \<Rightarrow>
          Option.bind (build_signed_authorization sg (aq_session_uuid q) expires_at c relay (Some endpoint)
              (Some allocation_id) 2 key) (\<lambda>target.
            map_option (\<lambda>controller. (target, controller))
              (build_signed_authorization sg (aq_session_uuid q) expires_at c relay (Some endpoint)
                (Some allocation_id) 1 key))
      | _ \<Rightarrow> map_option (\<lambda>signed. (signed, signed))
          (build_signed_authorization sg (aq_session_uuid q) expires_at c relay None None 0 key))"

definition insert_grant :: "grant_key \<Rightarrow> grant_record \<Rightarrow> fast_relay_state \<Rightarrow> fast_relay_state" where
  "insert_grant key r s = s\<lparr>ft_sessions := hm_insert (gk_session_uuid key) key (ft_sessions s),
     ft_responses := hm_insert \<lparr>rs_session_uuid = gk_session_uuid key, rs_target_ip = gk_target_ip key\<rparr> key (ft_responses s),
     ft_grants := hm_insert key r (ft_grants s)\<rparr>"

definition store_grant ::
  "policy_snapshot \<Rightarrow> grant_key \<Rightarrow> grant_record \<Rightarrow> instant \<Rightarrow> fast_relay_state \<Rightarrow> fast_relay_state" where
  "store_grant policy key r inst s0 =
     (let s1 = (if \<not> hm_contains (ft_grants s0) key
                   \<and> hm_len (ft_grants s0) \<ge> max (unat (po_max_authorizations policy)) 1
                then remove_oldest_grant inst s0 else s0);
          s2 = insert_grant key r (remove_grant key s1);
          s3 = tally fk_fast_compat_sessions_update (tally fk_controller_grants_issued_update
                 (tally fk_target_grants_issued_update (tally fk_issued_sessions_update s2)))
      in if gr_fast_media r then tally fk_fast_media_sessions_update s3 else s3)"

definition issue_grant ::
  "grant_signer \<Rightarrow> policy_snapshot \<Rightarrow> authorization_request \<Rightarrow> bytes \<Rightarrow> u64 \<Rightarrow> instant \<Rightarrow> bytes \<Rightarrow> fast_relay_state
     \<Rightarrow> bytes option \<times> fast_relay_state" where
  "issue_grant sg policy q key now inst allocation_id s0 =
     (case checked_add now (fr_authorization_ttl_seconds (po_config policy)) of None \<Rightarrow> (None, s0)
      | Some expires_at \<Rightarrow>
          (let c = po_config policy; fast_media = (fr_fast_media_v1_enabled c \<and> aq_endpoint q \<noteq> None);
               s = (if fr_fast_media_v1_enabled c \<and> \<not> fast_media
                    then tally fk_reliable_fallbacks_update (tally fk_fast_media_unavailable_update s0) else s0)
           in if \<not> fr_fast_compat_enabled c \<and> \<not> fast_media then (None, s)
              else (case sign_grants sg policy q expires_at allocation_id key of None \<Rightarrow> (None, s)
                | Some (target, controller) \<Rightarrow>
                    (Some target, store_grant policy (request_key q)
                      \<lparr>gr_target_signed = target, gr_controller_signed = controller,
                       gr_selected_relay = trim (aq_selected_relay q), gr_quality_allocation_id = quality_id q,
                       gr_config_generation = po_generation policy, gr_expires_at = expires_at, gr_created = inst,
                       gr_fast_media = fast_media\<rparr> inst s))))"

definition authorize_locked ::
  "grant_signer \<Rightarrow> policy_snapshot \<Rightarrow> authorization_request \<Rightarrow> u64 option \<Rightarrow> instant \<Rightarrow> bytes \<Rightarrow> fast_relay_state
     \<Rightarrow> bytes option \<times> fast_relay_state" where
  "authorize_locked sg policy q now' inst allocation_id s =
     (case find fst (policy_refusals policy q) of Some (_, counter) \<Rightarrow> (None, tally counter s)
      | None \<Rightarrow>
          if (case aq_quality q of None \<Rightarrow> False | Some selection \<Rightarrow> quality_mismatch policy q selection)
          then (None, tally fk_quality_selection_failures_update s)
          else (case aq_signing_key q of None \<Rightarrow> (None, tally fk_missing_signing_keys_update s)
            | Some key \<Rightarrow>
                (case now' of None \<Rightarrow> (None, tally fk_signing_failures_update s)
                 | Some now \<Rightarrow>
                     if (case hm_get (ft_sessions s) (aq_session_uuid q) of None \<Rightarrow> False
                         | Some existing \<Rightarrow> existing \<noteq> request_key q)
                     then (None, tally fk_invalid_uuids_update s)
                     else (case hm_get (ft_grants s) (request_key q) of
                         Some r \<Rightarrow>
                           if reusable policy q now r then (Some (gr_target_signed r), tally fk_reused_update s)
                           else (case consume_signing_rate inst (normalize_ip (aq_source_ip q))
                               (unat (po_max_authorizations policy)) s of
                               (False, s') \<Rightarrow> (None, tally fk_rate_limited_update s')
                             | (True, s') \<Rightarrow> issue_grant sg policy q key now inst allocation_id s')
                       | None \<Rightarrow>
                           (case consume_signing_rate inst (normalize_ip (aq_source_ip q))
                               (unat (po_max_authorizations policy)) s of
                               (False, s') \<Rightarrow> (None, tally fk_rate_limited_update s')
                             | (True, s') \<Rightarrow> issue_grant sg policy q key now inst allocation_id s')))))"

definition or_zero :: "u64 option \<Rightarrow> u64" where
  "or_zero t = (case t of None \<Rightarrow> 0 | Some n \<Rightarrow> n)"

definition authorization_for_request ::
  "grant_signer \<Rightarrow> active_config \<Rightarrow> authorization_request \<Rightarrow> u64 option \<Rightarrow> instant \<Rightarrow> bytes \<Rightarrow> fast_relay_state
     \<Rightarrow> bytes option \<times> fast_relay_state" where
  "authorization_for_request sg active q now inst allocation_id s =
     (let policy = current_policy active
      in authorize_locked sg policy q now inst allocation_id (fast_relay_cleanup policy (or_zero now) inst s))"

section \<open>Responses and observation\<close>

definition response_grant ::
  "policy_snapshot \<Rightarrow> u64 \<Rightarrow> utext \<Rightarrow> ip_addr \<Rightarrow> fast_relay_state \<Rightarrow> grant_record option" where
  "response_grant policy now uuid ip s =
     (case Option.bind (hm_get (ft_responses s) \<lparr>rs_session_uuid = uuid, rs_target_ip = normalize_ip ip\<rparr>)
         (hm_get (ft_grants s)) of None \<Rightarrow> None
      | Some r \<Rightarrow> if gr_config_generation r = po_generation policy \<and> gr_expires_at r > now then Some r else None)"

definition selected_relay_for_response ::
  "active_config \<Rightarrow> utext \<Rightarrow> ip_addr \<Rightarrow> u64 option \<Rightarrow> instant \<Rightarrow> fast_relay_state \<Rightarrow> utext option \<times> fast_relay_state" where
  "selected_relay_for_response active uuid ip now inst s0 =
     (let policy = current_policy active; s = fast_relay_cleanup policy (or_zero now) inst s0
      in (map_option gr_selected_relay (response_grant policy (or_zero now) uuid ip s), s))"

definition response_locked ::
  "policy_snapshot \<Rightarrow> utext \<Rightarrow> ip_addr \<Rightarrow> utext \<Rightarrow> u64 \<Rightarrow> fast_relay_state \<Rightarrow> bytes option \<times> fast_relay_state" where
  "response_locked policy uuid ip relay now s =
     (if uuid = [] \<or> utf8_len uuid > 128 then (None, s)
      else (case response_grant policy now uuid ip s of
          Some r \<Rightarrow> if text_eq_ignore_case (gr_selected_relay r) relay
            then (Some (gr_controller_signed r), tally fk_delivered_update s) else (None, tally fk_response_misses_update s)
        | None \<Rightarrow> (None, tally fk_response_misses_update s)))"

definition authorization_for_response ::
  "active_config \<Rightarrow> utext \<Rightarrow> ip_addr \<Rightarrow> utext \<Rightarrow> u64 option \<Rightarrow> instant \<Rightarrow> fast_relay_state \<Rightarrow> bytes option \<times> fast_relay_state" where
  "authorization_for_response active uuid ip relay now inst s =
     (let policy = current_policy active
      in response_locked policy uuid ip relay (or_zero now) (fast_relay_cleanup policy (or_zero now) inst s))"

record fast_relay_snapshot =
  fs_fast_compat_enabled :: bool
  fs_fast_media_v1_enabled :: bool
  fs_active_authorizations :: nat
  fs_active_fast_media_authorizations :: nat
  fs_last_fast_media_expiry :: u64
  fs_counters :: fast_relay_counters

definition fast_relay_runtime_snapshot ::
  "active_config \<Rightarrow> u64 option \<Rightarrow> instant \<Rightarrow> fast_relay_state \<Rightarrow> fast_relay_snapshot \<times> fast_relay_state" where
  "fast_relay_runtime_snapshot active now inst s0 =
     (let policy = current_policy active; s = fast_relay_cleanup policy (or_zero now) inst s0;
          media = filter gr_fast_media (map snd (ft_grants s))
      in (\<lparr>fs_fast_compat_enabled = fr_fast_compat_enabled (po_config policy),
           fs_fast_media_v1_enabled = fr_fast_media_v1_enabled (po_config policy),
           fs_active_authorizations = hm_len (ft_grants s), fs_active_fast_media_authorizations = length media,
           fs_last_fast_media_expiry = fold max (map gr_expires_at media) 0, fs_counters = ft_counters s\<rparr>, s))"

end
