(* ===== verification/Fast_Relay_Properties.thy ===== *)
theory Fast_Relay_Properties
  imports Fast_Relay Fast_Media_Properties
begin

text \<open>
  The properties of the fast relay authorisations.  \<open>fast_inv\<close> ties the three tables of grants together and
  bounds them; every operation keeps it (\<open>fast_reach_inv\<close>).  \<open>authorization_granted\<close> lists how a request
  can leave with a grant, from which follow who receives its halves and that the relay binds them.  The
  example (\<open>fx_\<close>) is one session with a FastMedia relay.
\<close>

section \<open>The tables\<close>

definition grant_tables :: "fast_relay_state \<Rightarrow> bool" where
  "grant_tables s \<longleftrightarrow> hm_ok (ft_grants s) \<and> hm_ok (ft_sessions s) \<and> hm_ok (ft_responses s)
     \<and> (\<forall>u k. hm_get (ft_sessions s) u = Some k \<longleftrightarrow> gk_session_uuid k = u \<and> hm_get (ft_grants s) k \<noteq> None)
     \<and> (\<forall>p k. hm_get (ft_responses s) p = Some k \<longleftrightarrow>
          p = \<lparr>rs_session_uuid = gk_session_uuid k, rs_target_ip = gk_target_ip k\<rparr> \<and> hm_get (ft_grants s) k \<noteq> None)"

definition rates_ok :: "nat \<Rightarrow> fast_relay_state \<Rightarrow> bool" where
  "rates_ok M s \<longleftrightarrow> hm_ok (ft_signing_rates s) \<and> hm_len (ft_signing_rates s) \<le> M
     \<and> (\<forall>ip r. hm_get (ft_signing_rates s) ip = Some r \<longrightarrow> unat (sr_count r) \<le> 120)"

definition fast_inv :: "nat \<Rightarrow> fast_relay_state \<Rightarrow> bool" where
  "fast_inv M s \<longleftrightarrow> grant_tables s \<and> hm_len (ft_grants s) \<le> M \<and> rates_ok M s"

lemma tally_frame [simp]:
  "ft_grants (tally f s) = ft_grants s" "ft_sessions (tally f s) = ft_sessions s"
  "ft_responses (tally f s) = ft_responses s" "ft_signing_rates (tally f s) = ft_signing_rates s"
  by (simp_all add: tally_def)

lemma grant_tables_cong:
  "ft_grants s' = ft_grants s \<Longrightarrow> ft_sessions s' = ft_sessions s \<Longrightarrow> ft_responses s' = ft_responses s \<Longrightarrow>
     grant_tables s' \<longleftrightarrow> grant_tables s"
  by (simp add: grant_tables_def)

lemma fast_inv_tally [simp]: "fast_inv M (tally f s) \<longleftrightarrow> fast_inv M s"
  by (simp add: fast_inv_def grant_tables_def rates_ok_def)

text \<open>Dropping grants with their entries in the two indexes keeps the tables together.\<close>

lemma grant_tables_retain:
  assumes s: "grant_tables s" and ok: "hm_ok (ft_grants s')"
    and g: "\<And>k. hm_get (ft_grants s') k = (if P k then hm_get (ft_grants s) k else None)"
    and i: "ft_sessions s' = hm_retain (\<lambda>_ k. Q k) (ft_sessions s)" "ft_responses s' = hm_retain (\<lambda>_ k. Q k) (ft_responses s)"
    and PQ: "\<And>k. hm_get (ft_grants s) k \<noteq> None \<Longrightarrow> Q k \<longleftrightarrow> P k"
  shows "grant_tables s'"
proof -
  have h: "hm_ok (ft_sessions s)" "hm_ok (ft_responses s)" using s by (simp_all add: grant_tables_def)
  show ?thesis unfolding grant_tables_def i hm.retain_subset [OF h(1)] hm.retain_subset [OF h(2)] g
    using s ok h PQ by (auto simp: grant_tables_def i)
qed

lemma hm_get_contains_retain:
  "hm_ok m \<Longrightarrow> hm_get (hm_retain P m) k = (if hm_contains (hm_retain P m) k then hm_get m k else None)"
  by (auto simp: hm_contains_def hm.get_retain split: option.split)

lemma cleanup_tables:
  assumes "grant_tables s"
  shows "grant_tables (fast_relay_cleanup policy now inst s)"
proof -
  let ?g = "hm_retain (\<lambda>_ r. grant_live policy now inst r) (ft_grants s)"
  have ok: "hm_ok (ft_grants s)" using assms by (simp add: grant_tables_def)
  show ?thesis
    by (rule grant_tables_retain [OF assms, where P = "hm_contains ?g" and Q = "hm_contains ?g"])
      (simp_all add: fast_relay_cleanup_def Let_def ok hm_get_contains_retain [OF ok])
qed

lemma fast_cleanup_inv:
  assumes "fast_inv M s"
  shows "fast_inv M (fast_relay_cleanup policy now inst s)"
proof -
  have "rates_ok M (fast_relay_cleanup policy now inst s)"
    using assms by (auto simp: fast_inv_def rates_ok_def fast_relay_cleanup_def Let_def hm.retain_subset
      intro: hm.retain_within_capacity)
  moreover have "hm_len (ft_grants (fast_relay_cleanup policy now inst s)) \<le> M"
    using assms by (simp add: fast_inv_def fast_relay_cleanup_def Let_def hm.retain_within_capacity)
  ultimately show ?thesis using assms cleanup_tables by (simp add: fast_inv_def)
qed

lemma remove_grant_get [simp]:
  "hm_get (ft_grants (remove_grant key s)) k = (if k = key then None else hm_get (ft_grants s) k)"
  by (auto simp: remove_grant_def hm_contains_def)

lemma remove_grant_tables:
  assumes "grant_tables s"
  shows "grant_tables (remove_grant key s)"
proof (cases "hm_contains (ft_grants s) key")
  case True
  have "hm_ok (ft_grants s)" using assms by (simp add: grant_tables_def)
  then show ?thesis
    by (intro grant_tables_retain [OF assms, where P = "\<lambda>k. k \<noteq> key" and Q = "\<lambda>k. k \<noteq> key"])
      (simp_all add: remove_grant_def True)
qed (simp add: remove_grant_def assms)

lemma remove_grant_frame [simp]: "ft_signing_rates (remove_grant key s) = ft_signing_rates s"
  by (simp add: remove_grant_def)

lemma remove_grant_len:
  "hm_ok (ft_grants s) \<Longrightarrow> hm_len (ft_grants (remove_grant key s)) =
     (if hm_get (ft_grants s) key = None then hm_len (ft_grants s) else hm_len (ft_grants s) - 1)"
  by (simp add: remove_grant_def hm_contains_def hm.len_del)

text \<open>A grant is inserted where no grant has its session.\<close>

lemma insert_grant_tables:
  assumes s: "grant_tables s" and new: "\<And>k. hm_get (ft_grants s) k \<noteq> None \<Longrightarrow> gk_session_uuid k \<noteq> gk_session_uuid key"
  shows "grant_tables (insert_grant key r s)"
proof -
  have "hm_get (ft_sessions (insert_grant key r s)) u = Some k \<longleftrightarrow>
      gk_session_uuid k = u \<and> hm_get (ft_grants (insert_grant key r s)) k \<noteq> None" for u k
    using s new [of k] by (cases "hm_get (ft_grants s) k") (auto simp: insert_grant_def grant_tables_def)
  moreover have "hm_get (ft_responses (insert_grant key r s)) p = Some k \<longleftrightarrow>
      p = \<lparr>rs_session_uuid = gk_session_uuid k, rs_target_ip = gk_target_ip k\<rparr>
        \<and> hm_get (ft_grants (insert_grant key r s)) k \<noteq> None" for p k
    using s new [of k] by (cases "hm_get (ft_grants s) k") (auto simp: insert_grant_def grant_tables_def)
  ultimately show ?thesis using s by (simp add: grant_tables_def insert_grant_def)
qed

lemma session_grant:
  "grant_tables s \<Longrightarrow> hm_get (ft_grants s) k \<noteq> None \<Longrightarrow> hm_get (ft_sessions s) (gk_session_uuid k) = Some k"
  by (simp add: grant_tables_def)

lemma session_unique:
  assumes t: "grant_tables s" and k: "hm_get (ft_grants s) k \<noteq> None" "hm_get (ft_grants s) k' \<noteq> None"
    and u: "gk_session_uuid k = gk_session_uuid k'"
  shows "k = k'"
  using trans [OF session_grant [OF t k(1), symmetric] session_grant [OF t k(2), folded u]]
  by (rule option.inject [THEN iffD1])

lemma store_grant_grants:
  "hm_get (ft_grants (store_grant policy key r inst s)) key = Some r"
  by (simp add: store_grant_def insert_grant_def Let_def)

lemma store_grant_frame [simp]: "ft_signing_rates (store_grant policy key r inst s) = ft_signing_rates s"
  by (simp add: store_grant_def insert_grant_def remove_oldest_grant_def Let_def split: option.split)

lemma remove_oldest_grant_tables:
  "grant_tables s \<Longrightarrow> grant_tables (remove_oldest_grant inst s)"
  by (simp add: remove_oldest_grant_def remove_grant_tables split: option.split)

lemma remove_oldest_grant_get:
  "hm_get (ft_grants (remove_oldest_grant inst s)) k \<noteq> None \<Longrightarrow> hm_get (ft_grants s) k \<noteq> None"
  by (auto simp: remove_oldest_grant_def split: option.splits if_splits)

lemma remove_oldest_grant_len:
  assumes "grant_tables s" "0 < hm_len (ft_grants s)"
  shows "hm_len (ft_grants (remove_oldest_grant inst s)) = hm_len (ft_grants s) - 1"
proof -
  have "ft_grants s \<noteq> []" using assms(2) by (auto simp: hm_len_def)
  then obtain k where k: "oldest inst gr_created (ft_grants s) = Some k" by (metis not_None_eq oldest_None)
  then have "hm_get (ft_grants s) k \<noteq> None" using oldest_in [OF k] by (simp add: hm_get_def map_of_eq_None_iff)
  moreover have "hm_ok (ft_grants s)" using assms(1) by (simp add: grant_tables_def)
  ultimately show ?thesis by (auto simp: remove_oldest_grant_def k remove_grant_len)
qed

lemma store_grant_inv:
  assumes inv: "fast_inv M s" and M: "1 \<le> M" "unat (po_max_authorizations policy) \<le> M"
    and free: "\<And>k. hm_get (ft_sessions s) (gk_session_uuid key) = Some k \<Longrightarrow> k = key"
  shows "fast_inv M (store_grant policy key r inst s)"
proof -
  let ?full = "\<not> hm_contains (ft_grants s) key \<and> hm_len (ft_grants s) \<ge> max (unat (po_max_authorizations policy)) 1"
  define s1 where "s1 = (if ?full then remove_oldest_grant inst s else s)"
  have t: "grant_tables s" "hm_len (ft_grants s) \<le> M" using inv by (simp_all add: fast_inv_def)
  have t1: "grant_tables s1" using t by (simp add: s1_def remove_oldest_grant_tables)
  have "gk_session_uuid k \<noteq> gk_session_uuid key" if "hm_get (ft_grants (remove_grant key s1)) k \<noteq> None" for k
  proof
    assume e: "gk_session_uuid k = gk_session_uuid key"
    have "k \<noteq> key" "hm_get (ft_grants s1) k \<noteq> None" using that by (auto split: if_splits)
    moreover from this have "hm_get (ft_grants s) k \<noteq> None"
      using remove_oldest_grant_get [of inst s k] by (auto simp: s1_def split: if_splits)
    ultimately show False using session_grant [OF t(1), of k] free [of k] e by simp
  qed
  then have g: "grant_tables (insert_grant key r (remove_grant key s1))"
    by (intro insert_grant_tables remove_grant_tables t1)
  have len: "hm_len (ft_grants (insert_grant key r (remove_grant key s1))) \<le> M"
  proof (cases ?full)
    case True
    then have "hm_get (ft_grants s) key = None" "0 < hm_len (ft_grants s)" by (auto simp: hm_contains_def)
    moreover have "s1 = remove_oldest_grant inst s" using True by (simp add: s1_def)
    ultimately have "hm_len (ft_grants s1) = hm_len (ft_grants s) - 1" "0 < hm_len (ft_grants s)" "hm_get (ft_grants s1) key = None"
      using remove_oldest_grant_len [OF t(1)] remove_oldest_grant_get [of inst s key] by metis+
    then show ?thesis using t(2) t1 by (simp add: insert_grant_def hm.len_put remove_grant_len grant_tables_def)
  next
    case False
    then have "hm_get (ft_grants s) key \<noteq> None \<or> hm_len (ft_grants s) < M" using M by (auto simp: hm_contains_def)
    moreover have "hm_get (ft_grants s) key \<noteq> None \<Longrightarrow> 0 < hm_len (ft_grants s)" by (rule hm.len_pos)
    ultimately show ?thesis using t(2) t1 False
      by (auto simp: insert_grant_def hm.len_put remove_grant_len grant_tables_def s1_def)
  qed
  have f: "store_grant policy key r inst s = (let s2 = insert_grant key r (remove_grant key s1);
      s3 = tally fk_fast_compat_sessions_update (tally fk_controller_grants_issued_update
        (tally fk_target_grants_issued_update (tally fk_issued_sessions_update s2)))
      in if gr_fast_media r then tally fk_fast_media_sessions_update s3 else s3)"
    by (simp add: store_grant_def s1_def Let_def)
  have "rates_ok M (insert_grant key r (remove_grant key s1))"
    using inv by (auto simp: fast_inv_def rates_ok_def insert_grant_def s1_def remove_oldest_grant_def split: option.splits)
  then have "fast_inv M (insert_grant key r (remove_grant key s1))" using g len by (simp add: fast_inv_def)
  then show ?thesis unfolding f by (simp add: Let_def)
qed

section \<open>Signatures per source\<close>

lemma consume_frame:
  "ft_grants (snd (consume_signing_rate inst ip m s)) = ft_grants s"
  "ft_sessions (snd (consume_signing_rate inst ip m s)) = ft_sessions s"
  "ft_responses (snd (consume_signing_rate inst ip m s)) = ft_responses s"
  by (simp_all add: consume_signing_rate_def remove_oldest_signing_rate_def Let_def)

lemma current_rate_le: "rates_ok M s \<Longrightarrow> unat (sr_count (current_rate inst ip s)) \<le> 120"
  by (auto simp: current_rate_def rates_ok_def Let_def split: option.split)

lemma remove_oldest_rates:
  assumes "hm_ok m"
  shows "hm_ok (remove_oldest inst f m)" "hm_get (remove_oldest inst f m) k = Some v \<Longrightarrow> hm_get m k = Some v"
    "0 < hm_len m \<Longrightarrow> hm_len (remove_oldest inst f m) < hm_len m"
proof -
  show "hm_ok (remove_oldest inst f m)" using assms by (simp add: remove_oldest_def split: option.split)
  show "hm_get (remove_oldest inst f m) k = Some v \<Longrightarrow> hm_get m k = Some v"
    by (auto simp: remove_oldest_def split: option.splits if_splits)
  assume "0 < hm_len m"
  then have "m \<noteq> []" by (auto simp: hm_len_def)
  then obtain k where k: "oldest inst f m = Some k" by (metis not_None_eq oldest_None)
  then show "hm_len (remove_oldest inst f m) < hm_len m"
    using hm_remove_shrinks [OF oldest_in [OF k]] by (simp add: remove_oldest_def)
qed

lemma consume_rates:
  assumes ok: "rates_ok M s" and M: "1 \<le> M" "m \<le> M"
  shows "rates_ok M (snd (consume_signing_rate inst ip m s))"
proof -
  let ?full = "\<not> hm_contains (ft_signing_rates s) ip \<and> hm_len (ft_signing_rates s) \<ge> max m 1"
  define s1 where "s1 = (if ?full then remove_oldest_signing_rate inst s else s)"
  have h: "hm_ok (ft_signing_rates s)" using ok by (simp add: rates_ok_def)
  note r = remove_oldest_rates [OF h, of inst sr_window_started]
  have ok1: "rates_ok M s1"
    using ok r(1,2) less_imp_le [OF r(3)] by (fastforce simp: s1_def rates_ok_def remove_oldest_signing_rate_def)
  have room: "hm_get (ft_signing_rates s1) ip \<noteq> None \<or> hm_len (ft_signing_rates s1) < M"
  proof (cases ?full)
    case True
    then have "0 < hm_len (ft_signing_rates s)" by simp
    then show ?thesis using True r(3) ok by (auto simp: s1_def remove_oldest_signing_rate_def rates_ok_def)
  next
    case False
    then show ?thesis using M by (auto simp: s1_def hm_contains_def)
  qed
  have put: "rates_ok M (s1\<lparr>ft_signing_rates := hm_insert ip x (ft_signing_rates s1)\<rparr>)" if "unat (sr_count x) \<le> 120" for x
    using ok1 that hm.put_within_capacity [OF _ room, of x] by (auto simp: rates_ok_def)
  have c: "unat (sr_count (current_rate inst ip s1)) \<le> 120" by (rule current_rate_le [OF ok1])
  have "snd (consume_signing_rate inst ip m s) = s1\<lparr>ft_signing_rates := hm_insert ip
      (if sr_count (current_rate inst ip s1) \<ge> 120 then current_rate inst ip s1
       else (current_rate inst ip s1)\<lparr>sr_count := sat_add (sr_count (current_rate inst ip s1)) 1\<rparr>) (ft_signing_rates s1)\<rparr>"
    by (simp add: consume_signing_rate_def s1_def Let_def)
  moreover have "unat (sat_add n 1) \<le> 120" if "\<not> (120 :: u32) \<le> n" for n
    using that by (simp add: unat_sat_add word_le_nat_alt)
  ultimately show ?thesis using put c by simp
qed

section \<open>Requests\<close>

text \<open>The cases of a request: refused, answered with the grant it has, or signed anew.\<close>

lemma authorize_locked_cases:
  assumes "authorize_locked sg policy q now' inst aid s = (res, s')"
  obtains (refused) "res = None" "\<And>M. fast_inv M s' \<longleftrightarrow> fast_inv M s"
    | (reused) now r where "now' = Some now" "find fst (policy_refusals policy q) = None" "hm_get (ft_grants s) (request_key q) = Some r"
      "reusable policy q now r" "res = Some (gr_target_signed r)" "s' = tally fk_reused_update s"
    | (limited) s1 where "res = None" "consume_signing_rate inst (normalize_ip (aq_source_ip q)) (unat (po_max_authorizations policy)) s = (False, s1)"
      "s' = tally fk_rate_limited_update s1"
    | (issued) now key s1 where "now' = Some now" "find fst (policy_refusals policy q) = None" "aq_signing_key q = Some key"
      "\<And>k. hm_get (ft_sessions s) (aq_session_uuid q) = Some k \<Longrightarrow> k = request_key q"
      "consume_signing_rate inst (normalize_ip (aq_source_ip q)) (unat (po_max_authorizations policy)) s = (True, s1)"
      "issue_grant sg policy q key now inst aid s1 = (res, s')"
proof -
  let ?A = "authorize_locked sg policy q now' inst aid s"
  let ?bad = "case aq_quality q of None \<Rightarrow> False | Some selection \<Rightarrow> quality_mismatch policy q selection"
  consider (early) c where "?A = (None, tally c s)" | (late) key now where "find fst (policy_refusals policy q) = None" "\<not> ?bad"
      "aq_signing_key q = Some key" "now' = Some now"
    unfolding authorize_locked_def
    by (cases "find fst (policy_refusals policy q)"; cases ?bad; cases "aq_signing_key q"; cases now') (auto split: prod.splits)
  then show ?thesis
  proof cases
    case early
    then show ?thesis using assms refused by auto
  next
    case (late key now)
    note d = authorize_locked_def if_not_P [OF late(2)] late(1,3,4) option.case
    show ?thesis
    proof (cases "case hm_get (ft_sessions s) (aq_session_uuid q) of None \<Rightarrow> False | Some existing \<Rightarrow> existing \<noteq> request_key q")
      case True
      have "?A = (None, tally fk_invalid_uuids_update s)" unfolding d if_P [OF True] ..
      then show ?thesis using assms refused by auto
    next
      case False
      then have free: "\<And>k. hm_get (ft_sessions s) (aq_session_uuid q) = Some k \<Longrightarrow> k = request_key q" by auto
      obtain ok s1 where c: "consume_signing_rate inst (normalize_ip (aq_source_ip q)) (unat (po_max_authorizations policy)) s = (ok, s1)"
        by (cases "consume_signing_rate inst (normalize_ip (aq_source_ip q)) (unat (po_max_authorizations policy)) s")
      show ?thesis
      proof (cases "\<exists>r. hm_get (ft_grants s) (request_key q) = Some r \<and> reusable policy q now r")
        case True
        then obtain r where r: "hm_get (ft_grants s) (request_key q) = Some r" "reusable policy q now r" by blast
        then have "?A = (Some (gr_target_signed r), tally fk_reused_update s)" unfolding d if_not_P [OF False] by simp
        then show ?thesis using reused [OF late(4,1) r] assms by simp
      next
        case nr: False
        have "?A = (if ok then issue_grant sg policy q key now inst aid s1 else (None, tally fk_rate_limited_update s1))"
          unfolding d if_not_P [OF False] using nr c by (cases ok) (auto split: option.split)
        then show ?thesis using issued [OF late(4,1,3) free] limited assms c by (cases ok) simp_all
      qed
    qed
  qed
qed

lemma issue_grant_cases:
  assumes "issue_grant sg policy q key now inst aid s = (res, s')"
  obtains (failed) "res = None" "ft_grants s' = ft_grants s" "ft_sessions s' = ft_sessions s" "ft_responses s' = ft_responses s"
      "ft_signing_rates s' = ft_signing_rates s"
    | (stored) expires_at target controller s1 r where "checked_add now (fr_authorization_ttl_seconds (po_config policy)) = Some expires_at"
      "sign_grants sg policy q expires_at aid key = Some (target, controller)" "res = Some target"
      "r = \<lparr>gr_target_signed = target, gr_controller_signed = controller,
         gr_selected_relay = trim (aq_selected_relay q), gr_quality_allocation_id = quality_id q,
         gr_config_generation = po_generation policy, gr_expires_at = expires_at, gr_created = inst,
         gr_fast_media = (fr_fast_media_v1_enabled (po_config policy) \<and> aq_endpoint q \<noteq> None)\<rparr>"
      "s' = store_grant policy (request_key q) r inst s1"
      "ft_grants s1 = ft_grants s" "ft_sessions s1 = ft_sessions s" "ft_responses s1 = ft_responses s"
      "ft_signing_rates s1 = ft_signing_rates s"
proof (cases "checked_add now (fr_authorization_ttl_seconds (po_config policy))")
  case None
  then show ?thesis using assms failed by (simp add: issue_grant_def)
next
  case (Some e)
  let ?fm = "fr_fast_media_v1_enabled (po_config policy) \<and> aq_endpoint q \<noteq> None"
  define s1 where "s1 = (if fr_fast_media_v1_enabled (po_config policy) \<and> \<not> ?fm
    then tally fk_reliable_fallbacks_update (tally fk_fast_media_unavailable_update s) else s)"
  have f: "ft_grants s1 = ft_grants s" "ft_sessions s1 = ft_sessions s" "ft_responses s1 = ft_responses s"
    "ft_signing_rates s1 = ft_signing_rates s" by (simp_all add: s1_def)
  let ?bad = "\<not> fr_fast_compat_enabled (po_config policy) \<and> \<not> ?fm"
  have d: "(res, s') = (if ?bad then (None, s1)
      else (case sign_grants sg policy q e aid key of None \<Rightarrow> (None, s1)
        | Some (t, c) \<Rightarrow> (Some t, store_grant policy (request_key q) \<lparr>gr_target_signed = t, gr_controller_signed = c,
         gr_selected_relay = trim (aq_selected_relay q), gr_quality_allocation_id = quality_id q,
         gr_config_generation = po_generation policy, gr_expires_at = e, gr_created = inst, gr_fast_media = ?fm\<rparr> inst s1)))"
    unfolding assms [symmetric] issue_grant_def Some option.case Let_def s1_def ..
  show ?thesis
  proof (cases ?bad)
    case True
    then show ?thesis using d failed f unfolding if_P [OF True] by blast
  next
    case False
    note d' = d [unfolded if_not_P [OF False]]
    show ?thesis
    proof (cases "sign_grants sg policy q e aid key")
      case None
      then show ?thesis using d' failed f by simp
    next
      case tc: (Some p)
      obtain t c where p: "p = (t, c)" by (cases p)
      show ?thesis using d' [unfolded tc p option.case prod.case] stored [OF Some tc [unfolded p] _ refl _ f] by simp
    qed
  qed
qed

lemma fast_inv_frame:
  "ft_grants s' = ft_grants s \<Longrightarrow> ft_sessions s' = ft_sessions s \<Longrightarrow> ft_responses s' = ft_responses s \<Longrightarrow>
     rates_ok M s' \<Longrightarrow> fast_inv M s \<Longrightarrow> fast_inv M s'"
  by (simp add: fast_inv_def grant_tables_def)

lemma authorize_locked_inv:
  assumes inv: "fast_inv M s" and M: "1 \<le> M" "unat (po_max_authorizations policy) \<le> M"
  shows "fast_inv M (snd (authorize_locked sg policy q now' inst aid s))"
proof -
  obtain res s' where a: "authorize_locked sg policy q now' inst aid s = (res, s')" by (cases "authorize_locked sg policy q now' inst aid s")
  have c: "fast_inv M s1" if "consume_signing_rate inst ip (unat (po_max_authorizations policy)) s = (b, s1)" for ip b s1
  proof -
    have e: "snd (consume_signing_rate inst ip (unat (po_max_authorizations policy)) s) = s1" using that by simp
    have "rates_ok M s1" using consume_rates [OF _ M, of s inst ip] inv unfolding e by (simp add: fast_inv_def)
    then show ?thesis using fast_inv_frame [OF _ _ _ _ inv, of s1] consume_frame [of inst ip "unat (po_max_authorizations policy)" s]
      unfolding e by blast
  qed
  show ?thesis unfolding a snd_conv
  proof (cases rule: authorize_locked_cases [OF a])
    case 1
    then show "fast_inv M s'" using inv by simp
  next
    case (2 now r)
    then show "fast_inv M s'" using inv by simp
  next
    case (3 s1)
    then show "fast_inv M s'" using c [OF 3(2)] by simp
  next
    case (4 now key s1)
    note i1 = c [OF 4(5)]
    have f: "ft_sessions s1 = ft_sessions s"
      using consume_frame(2) [of inst "normalize_ip (aq_source_ip q)" "unat (po_max_authorizations policy)" s] 4(5) by simp
    show "fast_inv M s'"
    proof (cases rule: issue_grant_cases [OF 4(6)])
      case 1
      then show ?thesis using fast_inv_frame [OF 1(2-4) _ i1] i1 by (simp add: fast_inv_def rates_ok_def)
    next
      case (2 e t co s2 r)
      have "rates_ok M s2" using i1 2(9) by (simp add: fast_inv_def rates_ok_def)
      then have i2: "fast_inv M s2" by (rule fast_inv_frame [OF 2(6-8) _ i1])
      have "\<And>k. hm_get (ft_sessions s2) (gk_session_uuid (request_key q)) = Some k \<Longrightarrow> k = request_key q"
        using 4(4) by (simp add: 2(7) f request_key_def)
      then show ?thesis unfolding 2(5) by (rule store_grant_inv [OF i2 M])
    qed
  qed
qed

section \<open>The transition system\<close>

text \<open>The steps under configurations that allow at most \<open>M\<close> authorisations.\<close>

definition policy_within :: "nat \<Rightarrow> active_config \<Rightarrow> bool" where
  "policy_within M active \<longleftrightarrow> unat (po_max_authorizations (current_policy active)) \<le> M"

inductive fast_step :: "nat \<Rightarrow> fast_relay_state \<Rightarrow> fast_relay_state \<Rightarrow> bool" for M where
  request: "policy_within M active \<Longrightarrow> fast_step M s (snd (authorization_for_request sg active q now inst aid s))"
| response: "fast_step M s (snd (authorization_for_response active uuid ip relay now inst s))"
| select: "fast_step M s (snd (selected_relay_for_response active uuid ip now inst s))"
| observe: "fast_step M s (snd (fast_relay_runtime_snapshot active now inst s))"

inductive fast_reach :: "nat \<Rightarrow> fast_relay_state \<Rightarrow> bool" for M where
  start: "fast_reach M fast_relay_state_default"
| step: "fast_reach M s \<Longrightarrow> fast_step M s s' \<Longrightarrow> fast_reach M s'"

lemma response_locked_frame: "fast_inv M (snd (response_locked policy uuid ip relay now s)) \<longleftrightarrow> fast_inv M s"
  by (simp add: response_locked_def split: option.split)

lemma fast_reach_inv:
  assumes "fast_reach M s" "1 \<le> M"
  shows "fast_inv M s"
  using assms(1)
proof (induction rule: fast_reach.induct)
  case start
  then show ?case by (simp add: fast_inv_def grant_tables_def rates_ok_def fast_relay_state_default_def)
next
  case (step s s')
  note c = fast_cleanup_inv [OF step(3)]
  from step(2) show ?case
    by (cases rule: fast_step.cases)
      (simp_all add: authorization_for_request_def authorization_for_response_def selected_relay_for_response_def
        fast_relay_runtime_snapshot_def Let_def c response_locked_frame authorize_locked_inv [OF c assms(2)] policy_within_def)
qed

text \<open>C33. In every reachable state the grants and the table of signing rates are within the configured
  limit, no source has more than 120 signatures counted in its window, and a session identifier belongs
  to one pair of endpoints: two grants with the same identifier are the same grant, and the indexes by
  session and by responding target name exactly the grants there are.\<close>

theorem fast_relay_bounded:
  assumes "fast_reach M s" "1 \<le> M"
  shows "hm_len (ft_grants s) \<le> M \<and> hm_len (ft_signing_rates s) \<le> M
    \<and> (\<forall>ip r. hm_get (ft_signing_rates s) ip = Some r \<longrightarrow> unat (sr_count r) \<le> 120)
    \<and> (\<forall>k k'. hm_get (ft_grants s) k \<noteq> None \<longrightarrow> hm_get (ft_grants s) k' \<noteq> None \<longrightarrow>
         gk_session_uuid k = gk_session_uuid k' \<longrightarrow> k = k')
    \<and> (\<forall>u k. hm_get (ft_sessions s) u = Some k \<longleftrightarrow> gk_session_uuid k = u \<and> hm_get (ft_grants s) k \<noteq> None)
    \<and> (\<forall>p k. hm_get (ft_responses s) p = Some k \<longleftrightarrow>
         p = \<lparr>rs_session_uuid = gk_session_uuid k, rs_target_ip = gk_target_ip k\<rparr> \<and> hm_get (ft_grants s) k \<noteq> None)"
proof -
  have inv: "fast_inv M s" by (rule fast_reach_inv [OF assms])
  then have t: "grant_tables s" and r: "rates_ok M s" by (simp_all add: fast_inv_def)
  from session_unique [OF t] have "\<forall>k k'. hm_get (ft_grants s) k \<noteq> None \<longrightarrow> hm_get (ft_grants s) k' \<noteq> None \<longrightarrow>
      gk_session_uuid k = gk_session_uuid k' \<longrightarrow> k = k'" by blast
  moreover note t [unfolded grant_tables_def, THEN conjunct2, THEN conjunct2, THEN conjunct2]
  moreover note r [unfolded rates_ok_def, THEN conjunct2]
  moreover have "hm_len (ft_grants s) \<le> M" using inv by (simp add: fast_inv_def)
  ultimately show ?thesis by (elim conjE) (intro conjI; assumption)
qed

section \<open>Responses\<close>

lemma cleanup_subset:
  "hm_get (ft_grants (fast_relay_cleanup policy now inst s)) k = Some r \<Longrightarrow> hm_get (ft_grants s) k \<noteq> None"
  by (drule map_of_SomeD [folded hm_get_def])
    (auto simp: fast_relay_cleanup_def Let_def hm_get_def hm_retain_def map_of_eq_None_iff intro: rev_image_eqI)

text \<open>The cases in which a request leaves with a grant.\<close>

lemma authorization_granted:
  assumes "authorization_for_request sg active q now' inst aid s = (Some g, s')"
  obtains (held) r now where "find fst (policy_refusals (current_policy active) q) = None" "now' = Some now"
      "hm_get (ft_grants s') (request_key q) = Some r" "gr_target_signed r = g" "reusable (current_policy active) q now r"
      "hm_get (ft_grants s) (request_key q) \<noteq> None"
    | (fresh) r now key controller where "find fst (policy_refusals (current_policy active) q) = None" "now' = Some now"
      "hm_get (ft_grants s') (request_key q) = Some r" "aq_signing_key q = Some key"
      "checked_add now (fr_authorization_ttl_seconds (po_config (current_policy active))) = Some (gr_expires_at r)"
      "sign_grants sg (current_policy active) q (gr_expires_at r) aid key = Some (g, controller)"
      "r = \<lparr>gr_target_signed = g, gr_controller_signed = controller,
         gr_selected_relay = trim (aq_selected_relay q), gr_quality_allocation_id = quality_id q,
         gr_config_generation = po_generation (current_policy active), gr_expires_at = gr_expires_at r, gr_created = inst,
         gr_fast_media = (fr_fast_media_v1_enabled (po_config (current_policy active)) \<and> aq_endpoint q \<noteq> None)\<rparr>"
proof -
  define p where "p = current_policy active"
  have a: "authorize_locked sg p q now' inst aid (fast_relay_cleanup p (or_zero now') inst s) = (Some g, s')"
    using assms by (simp add: authorization_for_request_def p_def Let_def)
  show ?thesis
  proof (cases rule: authorize_locked_cases [OF a])
    case (2 now r)
    have "hm_get (ft_grants s') (request_key q) = Some r" using 2(3,6) by simp
    then show ?thesis using held [OF 2(2) [unfolded p_def] 2(1) _ _ 2(4) [unfolded p_def] cleanup_subset [OF 2(3)]] 2(5) by simp
  next
    case (4 now key s1)
    show ?thesis
    proof (cases rule: issue_grant_cases [OF 4(6)])
      case (2 e t c s2 r)
      have "hm_get (ft_grants s') (request_key q) = Some r" unfolding 2(5) by (rule store_grant_grants)
      moreover have e: "gr_expires_at r = e" "t = g" using 2(3,4) by simp_all
      ultimately show ?thesis
        using fresh [OF 4(2) [unfolded p_def] 4(1) _ 4(3), of r c] 2(1,2,4) unfolding e p_def by simp
    qed simp
  qed simp_all
qed

lemma granted_generation:
  assumes "authorization_for_request sg active q now' inst aid s = (Some g, s')"
  obtains r where "hm_get (ft_grants s') (request_key q) = Some r" "gr_target_signed r = g"
    "gr_config_generation r = po_generation (current_policy active)"
    "text_eq_ignore_case (gr_selected_relay r) (trim (aq_selected_relay q))"
    "aq_session_uuid q \<noteq> []" "utf8_len (aq_session_uuid q) \<le> 128"
proof -
  have u: "aq_session_uuid q \<noteq> [] \<and> utf8_len (aq_session_uuid q) \<le> 128"
    if "find fst (policy_refusals (current_policy active) q) = None"
    using that by (auto simp: policy_refusals_def Let_def split: if_splits)
  from assms show ?thesis
  proof (cases rule: authorization_granted)
    case (held r now)
    then show ?thesis using that u by (auto simp: reusable_def)
  next
    case (fresh r now key controller)
    have "gr_target_signed r = g" "gr_config_generation r = po_generation (current_policy active)"
      "gr_selected_relay r = trim (aq_selected_relay q)" by (subst fresh(7), simp)+
    then show ?thesis using that [OF fresh(3)] u [OF fresh(1)] by (simp add: text_eq_ignore_case_def)
  qed
qed

lemma response_entry:
  "grant_tables s \<Longrightarrow> hm_get (ft_responses s) p = Some k \<longleftrightarrow>
     p = \<lparr>rs_session_uuid = gk_session_uuid k, rs_target_ip = gk_target_ip k\<rparr> \<and> hm_get (ft_grants s) k \<noteq> None"
  unfolding grant_tables_def by blast

text \<open>A response finds the grant of its session exactly from the target it was signed for.\<close>

lemma response_grant_of_session:
  assumes t: "grant_tables s" and r: "hm_get (ft_grants s) k = Some r"
  shows "response_grant policy now (gk_session_uuid k) ip (fast_relay_cleanup policy now inst s) =
    (if normalize_ip ip = gk_target_ip k \<and> grant_live policy now inst r \<and> gr_config_generation r = po_generation policy
     then Some r else None)"
proof -
  let ?s = "fast_relay_cleanup policy now inst s"
  let ?p = "\<lparr>rs_session_uuid = gk_session_uuid k, rs_target_ip = normalize_ip ip\<rparr>"
  have t': "grant_tables ?s" by (rule cleanup_tables [OF t])
  have ok: "hm_ok (ft_grants s)" using t by (simp add: grant_tables_def)
  have g: "hm_get (ft_grants ?s) k' = (case hm_get (ft_grants s) k' of None \<Rightarrow> None
      | Some x \<Rightarrow> if grant_live policy now inst x then Some x else None)" for k'
    by (simp add: fast_relay_cleanup_def Let_def hm.get_retain [OF ok])
  have only: "k' = k" if "hm_get (ft_responses ?s) ?p = Some k'" for k'
  proof -
    have k': "gk_session_uuid k' = gk_session_uuid k" "hm_get (ft_grants ?s) k' \<noteq> None"
      using that [unfolded response_entry [OF t']] by simp_all
    then have "hm_get (ft_grants s) k' \<noteq> None" using g [of k'] by (auto split: option.splits)
    then show ?thesis using session_unique [OF t _ _ k'(1)] r by simp
  qed
  have "hm_get (ft_responses ?s) ?p = Some k \<longleftrightarrow> normalize_ip ip = gk_target_ip k \<and> grant_live policy now inst r"
    unfolding response_entry [OF t'] using r g [of k] by auto
  then have "hm_get (ft_responses ?s) ?p =
      (if normalize_ip ip = gk_target_ip k \<and> grant_live policy now inst r then Some k else None)"
    using only by (cases "hm_get (ft_responses ?s) ?p") auto
  then show ?thesis using g [of k] r by (auto simp: response_grant_def grant_live_def)
qed

text \<open>C34. A request that obtained a grant for a session leaves the controller's half of that grant for the
  target alone.  Under the same configuration a response for the session is answered with it exactly when
  it comes from the target's address (as normalised), names the relay of the grant up to letter case, and
  the grant is still live: within its lifetime by the monotonic clock and before its expiry by the wall
  clock.  Every other response gets nothing.\<close>

theorem grant_reaches_only_its_endpoints:
  assumes "fast_reach M s" "1 \<le> M" "policy_within M active"
    and "authorization_for_request sg active q now' inst aid s = (Some g, s')"
  shows "\<exists>r. hm_get (ft_grants s') (request_key q) = Some r \<and> gr_target_signed r = g
    \<and> (\<forall>ip relay later inst'. fst (authorization_for_response active (aq_session_uuid q) ip relay later inst' s') =
        (if normalize_ip ip = normalize_ip (aq_target_ip q) \<and> text_eq_ignore_case (trim (aq_selected_relay q)) relay
            \<and> grant_live (current_policy active) (or_zero later) inst' r
         then Some (gr_controller_signed r) else None))"
proof -
  have "fast_reach M s'"
    using fast_reach.step [OF assms(1) fast_step.request [OF assms(3), of s sg q now' inst aid]] assms(4) by simp
  then have "grant_tables s'" using fast_reach_inv assms(2) by (simp add: fast_inv_def)
  obtain r where r: "hm_get (ft_grants s') (request_key q) = Some r" "gr_target_signed r = g"
    "gr_config_generation r = po_generation (current_policy active)"
    "text_eq_ignore_case (gr_selected_relay r) (trim (aq_selected_relay q))"
    "aq_session_uuid q \<noteq> []" "utf8_len (aq_session_uuid q) \<le> 128"
    using assms(4) by (rule granted_generation)
  have k: "gk_session_uuid (request_key q) = aq_session_uuid q" "gk_target_ip (request_key q) = normalize_ip (aq_target_ip q)"
    by (simp_all add: request_key_def)
  have "fst (authorization_for_response active (aq_session_uuid q) ip relay later inst' s') =
      (if normalize_ip ip = normalize_ip (aq_target_ip q) \<and> text_eq_ignore_case (trim (aq_selected_relay q)) relay
          \<and> grant_live (current_policy active) (or_zero later) inst' r
       then Some (gr_controller_signed r) else None)" for ip relay later inst'
    using r response_grant_of_session [OF \<open>grant_tables s'\<close> r(1), unfolded k, of "current_policy active" "or_zero later" ip inst']
    by (auto simp: authorization_for_response_def response_locked_def Let_def text_eq_ignore_case_def)
  then show ?thesis using r(1,2) by blast
qed

section \<open>Grants at the relay\<close>

definition grant_of :: "authorization_request \<Rightarrow> policy_snapshot \<Rightarrow> u64 \<Rightarrow> bytes \<Rightarrow> fast_media_endpoint_view \<Rightarrow> u32 \<Rightarrow> fast_relay_authorization" where
  "grant_of q policy expires_at aid endpoint role =
     authorization_payload (aq_session_uuid q) expires_at (po_config policy) (trim (aq_selected_relay q)) (Some endpoint) (Some aid) role"

lemma length_utf8_string: "length (utf8_string t) = utf8_len t"
  by (simp add: utf8_string_def length_as_bytes)

lemma utf8_len_pos: "t \<noteq> [] \<Longrightarrow> 0 < utf8_len t"
  by (cases t) (simp_all add: utf8_len_def len_utf8_def)

lemma sign_grants_media:
  assumes "sign_grants sg policy q expires_at aid key = Some (target, controller)"
    and "fr_fast_media_v1_enabled (po_config policy)" "aq_endpoint q = Some endpoint"
  shows "length aid = 16"
    and "\<exists>b. gs_write sg (grant_of q policy expires_at aid endpoint 2) = Some b \<and> target = gs_sign sg b key"
    and "\<exists>b. gs_write sg (grant_of q policy expires_at aid endpoint 1) = Some b \<and> controller = gs_sign sg b key"
  using assms
  by (auto simp: sign_grants_def Let_def build_signed_authorization_def grant_of_def bind_eq_Some_conv split: if_splits)

lemma grant_of_validated:
  assumes ok: "find fst (policy_refusals policy q) = None"
    and e: "checked_add now (fr_authorization_ttl_seconds (po_config policy)) = Some expires_at"
    and t: "now \<le> unix" "unix < expires_at"
    and p: "fe_protocol endpoint = 1" "eq_ignore_ascii_case (utf8_string (trim (aq_selected_relay q))) server"
    and h: "h_allocation_id h = aid" "role = ucast (h_role h)"
  shows "grant_validated cr (grant_of q policy expires_at aid endpoint role) h server (fe_udp_port endpoint) unix =
    Inr \<lparr>gi_session_uuid_digest = sha256 cr (ascii_bytes (utf8_string (aq_session_uuid q))), gi_expires_at = expires_at,
      gi_max_bitrate_kbps = fr_max_bitrate_kbps (po_config policy), gi_max_datagram = fr_relay_max_datagram (po_config policy)\<rparr>"
proof -
  have c: "fr_authorization_ttl_seconds (po_config policy) \<le> 300" "in_range 1000 200000 (fr_max_bitrate_kbps (po_config policy))"
    "in_range 608 1400 (fr_relay_max_datagram (po_config policy))"
    "aq_session_uuid q \<noteq> []" "utf8_len (aq_session_uuid q) \<le> 128"
    using ok by (auto simp: policy_refusals_def Let_def in_range_def split: if_splits)
  have u: "utf8_string (aq_session_uuid q) \<noteq> []" "length (utf8_string (aq_session_uuid q)) \<le> 128"
    using c(4,5) length_utf8_string [of "aq_session_uuid q"] utf8_len_pos [of "aq_session_uuid q"] by fastforce+
  have "expires_at \<le> sat_add unix 300"
    using e t c(1) by (auto simp: checked_add_def word_le_nat_alt unat_sat unat_word_ariths split: if_splits)
  then show ?thesis using c(2,3) u t p h by (simp add: grant_validated_def grant_of_def authorization_payload_def Let_def in_range_def not_le not_less)
qed

text \<open>The datagram a client sends to bind: the header and cookie, the length of the grant, the grant.\<close>

definition bind_packet :: "bytes \<Rightarrow> bytes \<Rightarrow> bytes" where
  "bind_packet front token = front @ to_le_bytes 2 (of_nat (length token) :: u16) @ token"

lemma handle_bind_packet:
  assumes "length front = 56" "0 < length token" "length token \<le> MAX_AUTHORIZATION_BYTES"
    and "cookie_valid cr e src h (bind_packet front token) unix"
    and "sign_verify cr token (fc_public_key (en_config e)) = Some payload" "parse_grant cr payload = Some g"
    and "grant_validated cr g h (fc_relay_server (en_config e)) (fc_udp_port (en_config e)) unix = Inr i"
  shows "handle_bind cr e src (bind_packet front token) h inst unix = bind_granted e src h g i inst"
proof -
  let ?p = "bind_packet front token" and ?n = "of_nat (length token) :: u16"
  have two: "length (to_le_bytes 2 ?n) = 2" by simp
  then have "?p ! 56 = to_le_bytes 2 ?n ! 0" "?p ! 57 = to_le_bytes 2 ?n ! 1"
    using assms(1) by (simp_all add: bind_packet_def nth_append del: length_to_le_bytes)
  then have "[?p ! 56, ?p ! 57] = to_le_bytes 2 ?n" using two by (auto intro!: nth_equalityI simp: less_Suc_eq)
  then have "from_le_bytes [?p ! 56, ?p ! 57] = ?n" using from_to_le_bytes [of 2 ?n] by simp
  then have "unat (from_le_bytes [?p ! 56, ?p ! 57] :: u16) = length token"
    using assms(3) by (simp add: unat_of_nat take_bit_nat_eq_self)
  moreover have "length ?p = 58 + length token" "drop 58 ?p = token" using assms(1) by (simp_all add: bind_packet_def)
  ultimately show ?thesis using assms(2-) by (simp add: handle_bind_def Let_def del: from_le_bytes.simps)
qed

text \<open>
  An endpoint can join an allocation when the relay does not know it and has room, or knows it under the
  session and the invariant of the grant and the role is free.  It has joined when its role is bound to
  its address there.
\<close>

definition can_join :: "engine \<Rightarrow> header \<Rightarrow> grant_invariant \<Rightarrow> bool" where
  "can_join e h i \<longleftrightarrow> (case hm_get (en_allocations e) (h_allocation_id h) of
     None \<Rightarrow> hm_len (en_allocations e) < fc_max_allocations (en_config e)
   | Some a \<Rightarrow> al_session_id a = h_session_id h \<and> al_invariant a = i \<and> al_binding (h_role h) a = None)"

definition joined :: "engine \<Rightarrow> header \<Rightarrow> grant_invariant \<Rightarrow> socket_addr \<Rightarrow> bool" where
  "joined e h i src \<longleftrightarrow> (\<exists>a b. hm_get (en_allocations e) (h_allocation_id h) = Some a \<and> al_session_id a = h_session_id h
     \<and> al_invariant a = i \<and> al_binding (h_role h) a = Some b \<and> bd_source b = src)"

lemma bind_granted_new:
  fixes now :: instant
  assumes "can_join e h i" "h_role h \<in> {1, 2}"
  defines "a \<equiv> (case hm_get (en_allocations e) (h_allocation_id h) of None \<Rightarrow> allocation_new (h_session_id h) i now | Some a \<Rightarrow> a)"
  obtains e' b where "bind_granted e src h g i now = (e', bind_reply src h)" "en_config e' = en_config e" "bd_source b = src"
    "hm_get (en_allocations e') (h_allocation_id h) = Some ((set_binding (h_role h) (Some b) a)\<lparr>al_last_activity := now\<rparr>)"
    "al_session_id a = h_session_id h" "al_invariant a = i"
proof -
  have a: "al_session_id a = h_session_id h" "al_invariant a = i" "al_binding (h_role h) a = None"
    using assms(1) by (auto simp: a_def can_join_def allocation_new_def al_binding_def split: option.splits)
  define b where "b = \<lparr>bd_source = src, bd_replay = replay_window_default, bd_limiter = role_limit_new (fa_max_bitrate_kbps g) now\<rparr>"
  have n: "\<not> (\<not> hm_contains (en_allocations e) (h_allocation_id h) \<and> fc_max_allocations (en_config e) \<le> hm_len (en_allocations e))"
    using assms(1) by (auto simp: can_join_def hm_contains_def split: option.splits)
  have g: "(case hm_get (en_allocations e) (h_allocation_id h) of Some a \<Rightarrow> a
      | None \<Rightarrow> allocation_new (h_session_id h) i now) = a" by (simp add: a_def split: option.split)
  define e' where "e' = fst (bind_granted e src h g i now)"
  have "bind_granted e src h g i now = (e', bind_reply src h)"
    unfolding e'_def bind_granted_def Let_def g if_not_P [OF n] by (simp add: a bind_reply_def)
  moreover have "en_config e' = en_config e"
    unfolding e'_def bind_granted_def Let_def g if_not_P [OF n] by (simp add: a)
  moreover have "hm_get (en_allocations e') (h_allocation_id h) = Some ((set_binding (h_role h) (Some b) a)\<lparr>al_last_activity := now\<rparr>)"
    unfolding e'_def bind_granted_def Let_def g if_not_P [OF n] by (simp add: a b_def)
  ultimately show ?thesis by (intro that [of e' b]) (simp_all add: b_def a)
qed

lemma bind_granted_joins:
  assumes "can_join e h i" "h_role h \<in> {1, 2}"
  shows "\<exists>e'. bind_granted e src h g i now = (e', bind_reply src h) \<and> en_config e' = en_config e \<and> joined e' h i src
    \<and> (\<forall>h'. h_allocation_id h' = h_allocation_id h \<and> h_session_id h' = h_session_id h \<and> h_role h' = 3 - h_role h
         \<and> can_join e h' i \<longrightarrow> can_join e' h' i)"
proof -
  define a where "a = (case hm_get (en_allocations e) (h_allocation_id h) of None \<Rightarrow> allocation_new (h_session_id h) i now | Some a \<Rightarrow> a)"
  obtain e' b where e': "bind_granted e src h g i now = (e', bind_reply src h)" "en_config e' = en_config e" "bd_source b = src"
    "hm_get (en_allocations e') (h_allocation_id h) = Some ((set_binding (h_role h) (Some b) a)\<lparr>al_last_activity := now\<rparr>)"
    "al_session_id a = h_session_id h" "al_invariant a = i"
    by (rule bind_granted_new [OF assms, where now = now and src = src and g = g, folded a_def])
  have "joined e' h i src" using e'(3-6) assms(2) by (auto simp: joined_def al_binding_def set_binding_def)
  moreover have "can_join e' h' i"
    if h': "h_allocation_id h' = h_allocation_id h" "h_session_id h' = h_session_id h" "h_role h' = 3 - h_role h" "can_join e h' i" for h'
  proof -
    have "al_binding (h_role h') a = None"
      using h'(4) by (auto simp: a_def can_join_def h'(1) al_binding_def allocation_new_def split: option.splits)
    then show ?thesis using e'(4-6) h'(1-3) assms(2) by (auto simp: can_join_def al_binding_def set_binding_def)
  qed
  ultimately show ?thesis using e'(1,2) by blast
qed

text \<open>C35. What the rendezvous server signs, the relay accepts and binds.  When a request for a FastMedia
  relay is granted and no grant of the session was held, each half of the grant lets its endpoint join:
  from issue until its expiry, a BIND for the allocation that fits the authorisation field, with a valid
  cookie and the role the half was signed for, at a relay that has room for the allocation or knows it
  under the same grant with the role free, is answered and binds the role to the sender's address under
  the session, expiry, bitrate and datagram size of the grant; and if the other endpoint of the session
  could join before, it still can, so that the two halves meet in one allocation.\<close>

theorem issued_grant_binds:
  assumes keys: "\<forall>m. sign_verify cr (gs_sign sg m key) (fc_public_key cfg) = Some m"
    and codec: "\<forall>a b. gs_write sg a = Some b \<longrightarrow> parse_grant cr b = Some a"
    and request: "authorization_for_request sg active q (Some now) inst aid s = (Some g, s')"
    and new: "hm_get (ft_grants s) (request_key q) = None"
    and media: "fr_fast_media_v1_enabled (po_config (current_policy active))" "aq_signing_key q = Some key"
      "aq_endpoint q = Some \<lparr>fe_protocol = 1, fe_udp_port = fc_udp_port cfg\<rparr>"
    and relay: "eq_ignore_ascii_case (utf8_string (trim (aq_selected_relay q))) (fc_relay_server cfg)"
  shows "\<exists>r i. hm_get (ft_grants s') (request_key q) = Some r \<and> gr_target_signed r = g \<and> gi_expires_at i = gr_expires_at r
    \<and> gi_session_uuid_digest i = sha256 cr (ascii_bytes (utf8_string (aq_session_uuid q)))
    \<and> gi_max_bitrate_kbps i = fr_max_bitrate_kbps (po_config (current_policy active))
    \<and> gi_max_datagram i = fr_relay_max_datagram (po_config (current_policy active))
    \<and> (\<forall>e front h src inst' unix token.
        en_config e = cfg \<and> length front = 56 \<and> h_role h \<in> {1, 2} \<and> h_allocation_id h = aid
        \<and> token = (if h_role h = 2 then g else gr_controller_signed r) \<and> 0 < length token \<and> length token \<le> MAX_AUTHORIZATION_BYTES
        \<and> now \<le> unix \<and> unix < gr_expires_at r \<and> cookie_valid cr e src h (bind_packet front token) unix \<and> can_join e h i
        \<longrightarrow> (\<exists>e'. handle_bind cr e src (bind_packet front token) h inst' unix = (e', bind_reply src h)
             \<and> en_config e' = cfg \<and> joined e' h i src
             \<and> (\<forall>h'. h_allocation_id h' = aid \<and> h_session_id h' = h_session_id h \<and> h_role h' = 3 - h_role h
                  \<and> can_join e h' i \<longrightarrow> can_join e' h' i)))"
proof -
  let ?p = "current_policy active" and ?ep = "\<lparr>fe_protocol = 1, fe_udp_port = fc_udp_port cfg\<rparr>"
  from request show ?thesis
  proof (cases rule: authorization_granted)
    case (held r now)
    then show ?thesis using new by simp
  next
    case (fresh r n k c)
    have n: "n = now" "k = key" using fresh(2,4) media(2) by simp_all
    have r: "gr_target_signed r = g" "gr_controller_signed r = c" by (subst fresh(7), simp)+
    note signed = sign_grants_media [OF fresh(6) [unfolded n] media(1,3)]
    define grant where "grant = (\<lambda>role :: u8. grant_of q ?p (gr_expires_at r) aid ?ep (ucast role))"
    define i where "i = \<lparr>gi_session_uuid_digest = sha256 cr (ascii_bytes (utf8_string (aq_session_uuid q))), gi_expires_at = gr_expires_at r,
      gi_max_bitrate_kbps = fr_max_bitrate_kbps (po_config ?p), gi_max_datagram = fr_relay_max_datagram (po_config ?p)\<rparr>"
    have "\<exists>e'. handle_bind cr e src (bind_packet front token) h inst' unix = (e', bind_reply src h)
             \<and> en_config e' = cfg \<and> joined e' h i src
             \<and> (\<forall>h'. h_allocation_id h' = aid \<and> h_session_id h' = h_session_id h \<and> h_role h' = 3 - h_role h
                  \<and> can_join e h' i \<longrightarrow> can_join e' h' i)"
      if e: "en_config e = cfg" "length front = 56" and role: "h_role h \<in> {1, 2}" and aid: "h_allocation_id h = aid"
        and token: "token = (if h_role h = 2 then g else c)" and size: "0 < length token" "length token \<le> MAX_AUTHORIZATION_BYTES"
        and time: "now \<le> unix" "unix < gr_expires_at r"
        and cookie: "cookie_valid cr e src h (bind_packet front token) unix" and join: "can_join e h i"
      for e front h src inst' unix token
    proof -
      have "\<exists>b. gs_write sg (grant (h_role h)) = Some b \<and> token = gs_sign sg b key"
        using signed role token unfolding grant_def by (cases "h_role h = 2") simp_all
      then obtain b where b: "gs_write sg (grant (h_role h)) = Some b" "token = gs_sign sg b key" by blast
      have "grant_validated cr (grant (h_role h)) h (fc_relay_server cfg) (fc_udp_port cfg) unix = Inr i"
        using grant_of_validated [OF fresh(1,5) [unfolded n] time _ relay aid refl, of ?ep] by (simp add: grant_def i_def)
      then have "handle_bind cr e src (bind_packet front token) h inst' unix = bind_granted e src h (grant (h_role h)) i inst'"
        using handle_bind_packet [OF e(2) size cookie] b keys codec e(1) by simp
      with bind_granted_joins [OF join role, of src "grant (h_role h)" inst'] show ?thesis unfolding aid e(1) by simp
    qed
    moreover have "gi_expires_at i = gr_expires_at r" "gi_max_bitrate_kbps i = fr_max_bitrate_kbps (po_config ?p)"
      "gi_max_datagram i = fr_relay_max_datagram (po_config ?p)"
      "gi_session_uuid_digest i = sha256 cr (ascii_bytes (utf8_string (aq_session_uuid q)))" by (simp_all add: i_def)
    ultimately show ?thesis using fresh(3) r(1) unfolding r(2) [symmetric]
      by (intro exI [of _ r] exI [of _ i]) blast
  qed
qed

section \<open>An example\<close>

definition fx_config :: fast_relay_config where
  "fx_config = fast_relay_config_default\<lparr>fr_fast_compat_enabled := True, fr_fast_media_v1_enabled := True\<rparr>"

definition fx_active :: active_config where
  "fx_active = \<lparr>ac_generation = 1, ac_config = Some \<lparr>sc_version = 5, sc_relay_servers = [lit ''r''],
     sc_secure_tcp = secure_tcp_config_default, sc_mmdb = mmdb_config_default, sc_geo = \<lparr>gc_enabled = False, gc_rules = []\<rparr>,
     sc_websocket_signal = websocket_signal_config_default, sc_connection_auth = connection_auth_config_default,
     sc_relay_quality = relay_quality_config_default\<lparr>qc_max_allocations := 8\<rparr>, sc_fast_mode = fx_config\<rparr>\<rparr>"

definition fx_policy :: policy_snapshot where
  "fx_policy = \<lparr>po_generation = 1, po_config = fx_config, po_max_authorizations = 8\<rparr>"

definition fx_request :: authorization_request where
  "fx_request = \<lparr>aq_session_uuid = lit ''u'', aq_source_ip = IpV4 1, aq_target_ip = IpV4 2, aq_selected_relay = lit ''r'',
     aq_transport = SecureTcp, aq_auth = \<lparr>ad_proceed = True, ad_verdict = ''allow'', ad_reason = ''valid'', ad_mode = AuthEnforce\<rparr>, aq_quality = None,
     aq_endpoint = Some \<lparr>fe_protocol = 1, fe_udp_port = 22119\<rparr>, aq_signing_key = Some [9]\<rparr>"

definition fx_grant :: "u32 \<Rightarrow> fast_relay_authorization" where
  "fx_grant = grant_of fx_request fx_policy 1090 (replicate 16 3) \<lparr>fe_protocol = 1, fe_udp_port = 22119\<rparr>"

text \<open>A codec for the two grants of the example, and signatures that carry their message.\<close>

definition fx_signer :: grant_signer where
  "fx_signer = \<lparr>gs_write = (\<lambda>a. if a = fx_grant 2 then Some [2] else if a = fx_grant 1 then Some [1] else None),
     gs_sign = (\<lambda>m k. m @ k)\<rparr>"

definition fx_crypto :: fm_crypto where
  "fx_crypto = \<lparr>sign_verify = (\<lambda>m k. Some (butlast m)), parse_grant = (\<lambda>b. Some (if b = [2] then fx_grant 2 else fx_grant 1)),
     authenticate = (\<lambda>m k. replicate 32 7), sha256 = (\<lambda>m. replicate 32 9)\<rparr>"

definition fx_record :: grant_record where
  "fx_record = \<lparr>gr_target_signed = [2, 9], gr_controller_signed = [1, 9], gr_selected_relay = lit ''r'',
     gr_quality_allocation_id = None, gr_config_generation = 1, gr_expires_at = 1090, gr_created = 0, gr_fast_media = True\<rparr>"

definition fx_state :: fast_relay_state where
  "fx_state = snd (authorization_for_request fx_signer fx_active fx_request (Some 1000) 0 (replicate 16 3) fast_relay_state_default)"

lemma fx_policy: "current_policy fx_active = fx_policy"
  by (simp add: current_policy_def fx_active_def fx_policy_def)

lemma fx_trim: "trim (lit ''r'') = lit ''r''" "utf8_len (lit ''r'') = 1" "utf8_len (lit ''u'') = 1" "lit ''r'' \<noteq> []" "lit ''u'' \<noteq> []"
  by code_simp+

lemma fx_grant_roles: "fx_grant 1 \<noteq> fx_grant 2"
  by (simp add: fx_grant_def grant_of_def authorization_payload_def Let_def)

lemma fx_sign: "sign_grants fx_signer fx_policy fx_request 1090 (replicate 16 3) [9] = Some ([2, 9], [1, 9])"
proof -
  have "build_signed_authorization fx_signer (aq_session_uuid fx_request) 1090 fx_config (lit ''r'')
      (Some \<lparr>fe_protocol = 1, fe_udp_port = 22119\<rparr>) (Some (replicate 16 3)) role [9] =
      map_option (\<lambda>m. m @ [9]) (gs_write fx_signer (fx_grant role))" if "role \<in> {1, 2}" for role
    using that by (auto simp: build_signed_authorization_def fx_request_def fx_trim in_range_def fx_config_def
      fast_relay_config_default_def fx_signer_def fx_grant_def grant_of_def fx_policy_def)
  from this [of 2] this [of 1] show ?thesis using fx_grant_roles
    by (simp add: sign_grants_def Let_def fx_policy_def fx_config_def fast_relay_config_default_def fx_request_def fx_trim fx_signer_def)
qed

lemma fx_issued:
  "authorization_for_request fx_signer fx_active fx_request (Some 1000) 0 (replicate 16 3) fast_relay_state_default = (Some [2, 9], fx_state)"
  "ft_grants fx_state = [(request_key fx_request, fx_record)]"
proof -
  have ok: "find fst (policy_refusals fx_policy fx_request) = None"
    by (simp add: policy_refusals_def Let_def fx_policy_def fx_config_def fast_relay_config_default_def fx_request_def fx_trim in_range_def)
  have c: "fast_relay_cleanup fx_policy 1000 0 fast_relay_state_default = fast_relay_state_default"
    by (simp add: fast_relay_cleanup_def fast_relay_state_default_def Let_def hm_eval fast_relay_counters_default_def sat_add_def)
  have q: "aq_quality fx_request = None" "aq_signing_key fx_request = Some [9]" "aq_source_ip fx_request = IpV4 1"
    by (simp_all add: fx_request_def)
  have e: "checked_add 1000 (fr_authorization_ttl_seconds (po_config fx_policy)) = Some 1090"
    by (simp add: checked_add_def fx_policy_def fx_config_def fast_relay_config_default_def)
  have fm: "fr_fast_compat_enabled (po_config fx_policy)" "fr_fast_media_v1_enabled (po_config fx_policy)" "aq_endpoint fx_request \<noteq> None"
    by (simp_all add: fx_policy_def fx_config_def fx_request_def)
  have "\<exists>s. authorize_locked fx_signer fx_policy fx_request (Some 1000) 0 (replicate 16 3) fast_relay_state_default = (Some [2, 9], s)
      \<and> ft_grants s = [(request_key fx_request, fx_record)]"
    using fm
    by (simp add: authorize_locked_def ok q fast_relay_state_default_def consume_signing_rate_def current_rate_def Let_def
      issue_grant_def e fx_sign store_grant_def insert_grant_def remove_grant_def remove_oldest_grant_def hm_eval since_def from_secs_def)
     (simp add: fx_record_def fx_request_def fx_trim quality_id_def fx_policy_def)
  then show "authorization_for_request fx_signer fx_active fx_request (Some 1000) 0 (replicate 16 3) fast_relay_state_default = (Some [2, 9], fx_state)"
    "ft_grants fx_state = [(request_key fx_request, fx_record)]"
    by (auto simp: authorization_for_request_def fx_policy Let_def or_zero_def c fx_state_def)
qed

lemma fx_reach: "fast_reach 8 fx_state" "policy_within 8 fx_active"
proof -
  show p: "policy_within 8 fx_active" by (simp add: policy_within_def fx_policy fx_policy_def)
  show "fast_reach 8 fx_state" unfolding fx_state_def by (rule fast_reach.step [OF fast_reach.start fast_step.request [OF p]])
qed

lemma fx_key: "gk_session_uuid (request_key fx_request) = lit ''u''" "gk_target_ip (request_key fx_request) = IpV4 2"
  by (simp_all add: request_key_def fx_request_def normalize_ip_def)

theorem fast_relay_bounded_witness:
  "hm_get (ft_sessions fx_state) (lit ''u'') = Some (request_key fx_request) \<and> hm_len (ft_grants fx_state) \<le> 8
   \<and> hm_get (ft_responses fx_state) \<lparr>rs_session_uuid = lit ''u'', rs_target_ip = IpV4 2\<rparr> = Some (request_key fx_request)"
  using fast_relay_bounded [OF fx_reach(1)] by (simp add: fx_issued fx_key hm_eval)

theorem grant_reaches_only_its_endpoints_witness:
  "fst (authorization_for_response fx_active (lit ''u'') (IpV4 2) (lit ''R'') (Some 1001) 5 fx_state) = Some [1, 9]
   \<and> fst (authorization_for_response fx_active (lit ''u'') (IpV4 1) (lit ''R'') (Some 1001) 5 fx_state) = None
   \<and> fst (authorization_for_response fx_active (lit ''u'') (IpV4 2) (lit ''R'') (Some 1090) 5 fx_state) = None"
proof -
  have q: "aq_session_uuid fx_request = lit ''u''" "normalize_ip (aq_target_ip fx_request) = IpV4 2" "trim (aq_selected_relay fx_request) = lit ''r''"
    by (simp_all add: fx_request_def normalize_ip_def fx_trim)
  have r: "hm_get (ft_grants fx_state) (request_key fx_request) = Some fx_record" by (simp add: fx_issued hm_eval)
  have "text_eq_ignore_case (lit ''r'') (lit ''R'')" by code_simp
  moreover have "grant_live fx_policy (or_zero (Some t)) 5 fx_record \<longleftrightarrow> t < 1090" for t
    by (simp add: grant_live_def fx_record_def fx_policy_def fx_config_def fast_relay_config_default_def or_zero_def since_def from_secs_def)
  moreover have "normalize_ip (IpV4 1) = IpV4 1" "normalize_ip (IpV4 2) = IpV4 2" "gr_controller_signed fx_record = [1, 9]"
    by (simp_all add: normalize_ip_def fx_record_def)
  ultimately show ?thesis
    using grant_reaches_only_its_endpoints [OF fast_reach.start _ fx_reach(2) fx_issued(1)]
    unfolding q r fx_policy by auto
qed

definition fx_engine :: engine where
  "fx_engine = engine_new (ex_config\<lparr>fc_relay_server := ''R''\<rparr>) [] ex_counters 0"

definition fx_front :: bytes where
  "fx_front = replicate 48 0 @ replicate 8 7"

lemma fx_cookie: "cookie_valid fx_crypto fx_engine src h (bind_packet fx_front token) unix"
proof -
  have "slice 48 56 (bind_packet fx_front token) = replicate 8 7"
    by (simp add: slice_def bind_packet_def fx_front_def del: replicate.simps replicate_Suc)
  then show ?thesis by (simp add: cookie_valid_def Let_def cookie_def fx_crypto_def)
qed

theorem issued_grant_binds_witness:
  "\<exists>i e'. gi_expires_at i = 1090 \<and> handle_bind fx_crypto fx_engine (SockV4 9 9) (bind_packet fx_front [1, 9])
      \<lparr>h_kind = 3, h_role = 1, h_session_id = 77, h_allocation_id = replicate 16 3\<rparr> 5 1001
      = (e', bind_reply (SockV4 9 9) \<lparr>h_kind = 3, h_role = 1, h_session_id = 77, h_allocation_id = replicate 16 3\<rparr>)
    \<and> joined e' \<lparr>h_kind = 3, h_role = 1, h_session_id = 77, h_allocation_id = replicate 16 3\<rparr> i (SockV4 9 9)
    \<and> can_join e' \<lparr>h_kind = 3, h_role = 2, h_session_id = 77, h_allocation_id = replicate 16 3\<rparr> i"
proof -
  let ?cfg = "en_config fx_engine"
  have k: "\<forall>m. sign_verify fx_crypto (gs_sign fx_signer m [9]) (fc_public_key ?cfg) = Some m"
    "\<forall>a b. gs_write fx_signer a = Some b \<longrightarrow> parse_grant fx_crypto b = Some a"
    by (simp_all add: fx_crypto_def fx_signer_def)
  have m: "fr_fast_media_v1_enabled (po_config (current_policy fx_active))" "aq_signing_key fx_request = Some [9]"
    "aq_endpoint fx_request = Some \<lparr>fe_protocol = 1, fe_udp_port = fc_udp_port ?cfg\<rparr>"
    by (simp_all add: fx_policy fx_policy_def fx_config_def fx_request_def fx_engine_def ex_config_def engine_new_def)
  have e: "eq_ignore_ascii_case (utf8_string (trim (aq_selected_relay fx_request))) (fc_relay_server ?cfg)"
  proof -
    have "eq_ignore_ascii_case (utf8_string (lit ''r'')) ''R''" by code_simp
    then show ?thesis by (simp add: fx_request_def fx_trim fx_engine_def engine_new_def)
  qed
  have "hm_get (ft_grants fast_relay_state_default) (request_key fx_request) = None" by (simp add: fast_relay_state_default_def)
  note b = issued_grant_binds [OF k fx_issued(1) this m e]
  have g: "hm_get (ft_grants fx_state) (request_key fx_request) = Some fx_record" by (simp add: fx_issued hm_eval)
  have r: "gr_expires_at fx_record = 1090" "gr_controller_signed fx_record = [1, 9]" by (simp_all add: fx_record_def)
  let ?h = "\<lambda>role. \<lparr>h_kind = 3, h_role = role, h_session_id = 77, h_allocation_id = replicate 16 3\<rparr>"
  have j: "can_join fx_engine (?h role) i" for role i
    by (simp add: can_join_def fx_engine_def engine_new_def ex_config_def hm_eval)
  have l: "length fx_front = 56" by (simp add: fx_front_def)
  from b show ?thesis
  proof (elim exE conjE, goal_cases)
    case (1 r' i)
    have r': "r' = fx_record" using 1(1) g by simp
    have "\<exists>e'. handle_bind fx_crypto fx_engine (SockV4 9 9) (bind_packet fx_front [1, 9]) (?h 1) 5 1001 = (e', bind_reply (SockV4 9 9) (?h 1))
        \<and> en_config e' = ?cfg \<and> joined e' (?h 1) i (SockV4 9 9)
        \<and> (\<forall>h'. h_allocation_id h' = replicate 16 3 \<and> h_session_id h' = h_session_id (?h 1) \<and> h_role h' = 3 - h_role (?h 1)
             \<and> can_join fx_engine h' i \<longrightarrow> can_join e' h' i)"
      by (rule 1(7) [unfolded r', rule_format]) (use l j fx_cookie r in simp)
    then obtain e' where e': "handle_bind fx_crypto fx_engine (SockV4 9 9) (bind_packet fx_front [1, 9]) (?h 1) 5 1001 = (e', bind_reply (SockV4 9 9) (?h 1))"
      "joined e' (?h 1) i (SockV4 9 9)"
      and other: "\<forall>h'. h_allocation_id h' = replicate 16 3 \<and> h_session_id h' = h_session_id (?h 1) \<and> h_role h' = 3 - h_role (?h 1)
             \<and> can_join fx_engine h' i \<longrightarrow> can_join e' h' i" by blast
    have "can_join e' (?h 2) i" by (rule other [rule_format]) (simp add: j)
    then show ?thesis using 1(3) e' r(1) unfolding r' by (intro exI [of _ i] exI [of _ e']) simp
  qed
qed

end
