(* ===== verification/Websocket_Signal.thy ===== *)
theory Websocket_Signal
  imports Profile_Activation Starry_Config_State Relay_Health Relay_Quality_Score
begin

text \<open>
  WebSocket signalling (\<open>websocket_signal.rs\<close>, \<open>routing.rs\<close>, \<open>session.rs\<close>): the bounded queue of a
  connection and its writer task, the sessions of the registered peers, the admitted connections, the
  rate of registrations, and the inspection of an upgrade.  A \<open>WsWriteTransport\<close> is shared by its clones,
  so it is named by its connection id and its queue and flag live in a table; a \<open>last_seen\<close> cell, shared
  by a session and its token, is an index into a list of cells.  Sockets, header maps and the parsers of
  addresses and networks are parameters or inputs.
\<close>

section \<open>Write transports\<close>

datatype send_error = SendClosed | SendFull

datatype outbound_frame = BinaryFrame bytes | PongFrame bytes | CloseFrame

text \<open>
  The writer task awaits a frame, sends one, closes the sink, or has ended; \<open>wt_sent\<close> is what it gave to
  the socket.
\<close>

datatype writer_task = Receiving | Sending outbound_frame | Closing | Ended

record write_transport =
  wt_queue :: "outbound_frame list"
  wt_capacity :: nat
  wt_closed :: bool
  wt_task :: writer_task
  wt_sent :: "outbound_frame list"

definition transport_channel :: "nat \<Rightarrow> write_transport" where
  "transport_channel capacity = \<lparr>wt_queue = [], wt_capacity = capacity, wt_closed = False, wt_task = Receiving, wt_sent = []\<rparr>"

text \<open>\<open>Sender::try_send\<close> of the channel: the receiver is dropped when the task ends.\<close>

definition channel_send :: "outbound_frame \<Rightarrow> write_transport \<Rightarrow> send_error + write_transport" where
  "channel_send frame w =
     (if wt_task w = Ended then Inl SendClosed
      else if length (wt_queue w) \<ge> wt_capacity w then Inl SendFull
      else Inr (w\<lparr>wt_queue := wt_queue w @ [frame]\<rparr>))"

definition channel_offer :: "outbound_frame \<Rightarrow> write_transport \<Rightarrow> write_transport" where
  "channel_offer frame w = (case channel_send frame w of Inl _ \<Rightarrow> w | Inr w' \<Rightarrow> w')"

definition transport_send :: "outbound_frame \<Rightarrow> write_transport \<Rightarrow> (send_error + unit) \<times> write_transport" where
  "transport_send frame w =
     (if wt_closed w then (Inl SendClosed, w)
      else (case channel_send frame w of
          Inr w' \<Rightarrow> (Inr (), w')
        | Inl SendClosed \<Rightarrow> (Inl SendClosed, w\<lparr>wt_closed := True\<rparr>)
        | Inl SendFull \<Rightarrow> (Inl SendFull, channel_offer CloseFrame (w\<lparr>wt_closed := True\<rparr>))))"

definition send_binary :: "bytes \<Rightarrow> write_transport \<Rightarrow> (send_error + unit) \<times> write_transport" where
  "send_binary b = transport_send (BinaryFrame b)"

definition send_pong :: "bytes \<Rightarrow> write_transport \<Rightarrow> (send_error + unit) \<times> write_transport" where
  "send_pong b = transport_send (PongFrame b)"

definition transport_close :: "write_transport \<Rightarrow> write_transport" where
  "transport_close w =
     (if wt_closed w then w
      else (case channel_send CloseFrame w of Inl _ \<Rightarrow> w\<lparr>wt_closed := True\<rparr> | Inr w' \<Rightarrow> w'))"

definition transport_abort :: "write_transport \<Rightarrow> write_transport" where
  "transport_abort w = (if wt_closed w then w else channel_offer CloseFrame (w\<lparr>wt_closed := True\<rparr>))"

text \<open>
  \<open>writer_loop\<close>: one \<open>recv\<close>, the completion of one send, and, after the loop, the flag and \<open>sink.close()\<close>.
  Closing the sink of a WebSocket sends a close frame unless one was sent already; whether it gets out
  is an input, as its result is ignored.  The receiver is dropped when that has returned.
\<close>

definition writer_end :: "write_transport \<Rightarrow> write_transport" where
  "writer_end w = w\<lparr>wt_closed := True, wt_task := Closing\<rparr>"

definition sink_close :: "bool \<Rightarrow> write_transport \<Rightarrow> write_transport" where
  "sink_close gets_out w =
     (if wt_task w = Closing
      then w\<lparr>wt_task := Ended, wt_queue := [],
             wt_sent := wt_sent w @ (if gets_out \<and> CloseFrame \<notin> set (wt_sent w) then [CloseFrame] else [])\<rparr>
      else w)"

definition writer_receive :: "write_transport \<Rightarrow> write_transport" where
  "writer_receive w =
     (case (wt_task w, wt_queue w) of
        (Receiving, frame # rest) \<Rightarrow>
          if wt_closed w \<and> frame \<noteq> CloseFrame then writer_end (w\<lparr>wt_queue := rest\<rparr>)
          else w\<lparr>wt_queue := rest, wt_task := Sending frame\<rparr>
      | _ \<Rightarrow> w)"

definition writer_complete :: "bool \<Rightarrow> write_transport \<Rightarrow> write_transport" where
  "writer_complete ok w =
     (case wt_task w of
        Sending frame \<Rightarrow>
          (let w' = (if ok then w\<lparr>wt_sent := wt_sent w @ [frame]\<rparr> else w)
           in if \<not> ok \<or> wt_closed w \<or> frame = CloseFrame then writer_end w' else w'\<lparr>wt_task := Receiving\<rparr>)
      | _ \<Rightarrow> w)"

section \<open>State\<close>

record ws_session =
  sn_generation :: u64
  sn_writer :: u64
  sn_effective_ip :: ip_addr
  sn_route_addr :: socket_addr
  sn_connected_at_millis :: u64
  sn_last_seen :: nat

record connection_context =
  cc_connection_id :: u64
  cc_effective_addr :: socket_addr
  cc_writer :: u64

record session_token =
  tk_peer_id :: utext
  tk_generation :: u64
  tk_connection_id :: u64
  tk_last_seen :: nat

record routing_counters =
  rk_registered :: usize
  rk_replaced :: usize
  rk_evicted :: usize
  rk_timed_out :: usize
  rk_slow_consumers :: usize

record signal_state =
  sg_sessions :: "(utext, ws_session) hmap"
  sg_connections :: "(socket_addr, connection_context) hmap"
  sg_registrations :: "(ip_addr, instant list) hmap"
  sg_registration_calls :: usize
  sg_counters :: routing_counters
  sg_writers :: "(u64, write_transport) hmap"
  sg_cells :: "u64 list"
  sg_next_connection :: u64
  sg_profile :: registry

definition signal_state_default :: signal_state where
  "signal_state_default = \<lparr>sg_sessions = [], sg_connections = [], sg_registrations = [], sg_registration_calls = 0,
     sg_counters = \<lparr>rk_registered = 0, rk_replaced = 0, rk_evicted = 0, rk_timed_out = 0, rk_slow_consumers = 0\<rparr>,
     sg_writers = [], sg_cells = [], sg_next_connection = 1, sg_profile = registry_default\<rparr>"

definition bump_routing ::
  "((usize \<Rightarrow> usize) \<Rightarrow> routing_counters \<Rightarrow> routing_counters) \<Rightarrow> signal_state \<Rightarrow> signal_state" where
  "bump_routing field s = s\<lparr>sg_counters := field (\<lambda>n. n + 1) (sg_counters s)\<rparr>"

text \<open>A change of the transport of a connection; every transport in use is in the table.\<close>

definition on_writer :: "(write_transport \<Rightarrow> write_transport) \<Rightarrow> u64 \<Rightarrow> signal_state \<Rightarrow> signal_state" where
  "on_writer f c s = (case hm_get (sg_writers s) c of None \<Rightarrow> s
     | Some w \<Rightarrow> s\<lparr>sg_writers := hm_insert c (f w) (sg_writers s)\<rparr>)"

definition abort_all :: "u64 list \<Rightarrow> signal_state \<Rightarrow> signal_state" where
  "abort_all cs s = fold (on_writer transport_abort) cs s"

section \<open>Connections\<close>

definition next_connection_id :: "signal_state \<Rightarrow> u64 \<times> signal_state" where
  "next_connection_id s = (sg_next_connection s, s\<lparr>sg_next_connection := sg_next_connection s + 1\<rparr>)"

definition signal_transport_new :: "u64 \<Rightarrow> nat \<Rightarrow> signal_state \<Rightarrow> signal_state" where
  "signal_transport_new c capacity s = s\<lparr>sg_writers := hm_insert c (transport_channel capacity) (sg_writers s)\<rparr>"

definition register_connection :: "socket_addr \<Rightarrow> socket_addr \<Rightarrow> u64 \<Rightarrow> u64 \<Rightarrow> signal_state \<Rightarrow> signal_state" where
  "register_connection addr effective connection_id writer s = s\<lparr>sg_connections := hm_insert addr
     \<lparr>cc_connection_id = connection_id, cc_effective_addr = effective, cc_writer = writer\<rparr> (sg_connections s)\<rparr>"

definition remove_connection :: "socket_addr \<Rightarrow> u64 \<Rightarrow> signal_state \<Rightarrow> signal_state" where
  "remove_connection addr connection_id s =
     (case hm_get (sg_connections s) addr of None \<Rightarrow> s
      | Some e \<Rightarrow> if cc_connection_id e = connection_id
          then s\<lparr>sg_connections := hm_remove addr (sg_connections s)\<rparr> else s)"

definition connection_effective :: "socket_addr \<Rightarrow> signal_state \<Rightarrow> socket_addr option" where
  "connection_effective addr s = map_option cc_effective_addr (hm_get (sg_connections s) addr)"

definition is_websocket_route :: "socket_addr \<Rightarrow> signal_state \<Rightarrow> bool" where
  "is_websocket_route addr s = hm_contains (sg_connections s) addr"

section \<open>Registrations\<close>

definition pop_old :: "instant \<Rightarrow> instant list \<Rightarrow> instant list" where
  "pop_old now entries = dropWhile (\<lambda>t. since now t \<ge> from_secs 60) entries"

definition sweep_registrations :: "instant \<Rightarrow> (ip_addr, instant list) hmap \<Rightarrow> (ip_addr, instant list) hmap" where
  "sweep_registrations now m = hm_retain_mut (\<lambda>_ entries. let kept = pop_old now entries in if kept = [] then None else Some kept) m"

definition allow_registration :: "instant \<Rightarrow> ip_addr \<Rightarrow> usize \<Rightarrow> signal_state \<Rightarrow> bool \<times> signal_state" where
  "allow_registration now ip limit s =
     (let m = (if sg_registration_calls s mod 256 = 0 then sweep_registrations now (sg_registrations s) else sg_registrations s);
          s' = s\<lparr>sg_registration_calls := sg_registration_calls s + 1, sg_registrations := m\<rparr>
      in if \<not> hm_contains m ip \<and> hm_len m \<ge> 65536 then (False, s')
         else (let entries = pop_old now (case hm_get m ip of None \<Rightarrow> [] | Some e \<Rightarrow> e) in
               if length entries \<ge> unat limit
               then (False, s'\<lparr>sg_registrations := hm_insert ip entries m\<rparr>)
               else (True, s'\<lparr>sg_registrations := hm_insert ip (entries @ [now]) m\<rparr>)))"

section \<open>Sessions\<close>

definition same_ip_sessions :: "utext \<Rightarrow> ip_addr \<Rightarrow> (utext, ws_session) hmap \<Rightarrow> nat" where
  "same_ip_sessions peer ip sessions = length (filter (\<lambda>(p, x). p \<noteq> peer \<and> sn_effective_ip x = ip) sessions)"

definition capacity_available :: "utext \<Rightarrow> ip_addr \<Rightarrow> usize \<Rightarrow> usize \<Rightarrow> signal_state \<Rightarrow> bool" where
  "capacity_available peer ip max_sessions max_per_ip s =
     (if \<not> hm_contains (sg_sessions s) peer \<and> hm_len (sg_sessions s) \<ge> unat max_sessions then False
      else same_ip_sessions peer ip (sg_sessions s) < unat max_per_ip)"

definition bind_generation :: "u64 option \<Rightarrow> signal_state \<Rightarrow> u64 \<times> signal_state" where
  "bind_generation route_generation s =
     (case route_generation of Some g \<Rightarrow> (g, s)
      | None \<Rightarrow> (case next_generation (sg_profile s) of (r, g) \<Rightarrow> (g, s\<lparr>sg_profile := r\<rparr>)))"

definition new_session :: "u64 \<Rightarrow> u64 \<Rightarrow> ip_addr \<Rightarrow> socket_addr \<Rightarrow> u64 \<Rightarrow> nat \<Rightarrow> ws_session" where
  "new_session generation writer ip addr millis cell = \<lparr>sn_generation = generation, sn_writer = writer, sn_effective_ip = ip,
     sn_route_addr = addr, sn_connected_at_millis = millis, sn_last_seen = cell\<rparr>"

definition session_bind ::
  "utext \<Rightarrow> u64 \<Rightarrow> ip_addr \<Rightarrow> socket_addr \<Rightarrow> u64 option \<Rightarrow> usize \<Rightarrow> usize \<Rightarrow> u64 \<Rightarrow> signal_state
     \<Rightarrow> (utext + session_token) \<times> signal_state" where
  "session_bind peer writer ip addr route_generation max_sessions max_per_ip millis s0 =
     (let (generation, s) = bind_generation route_generation s0; cell = length (sg_cells s) in
      if \<not> hm_contains (sg_sessions s) peer \<and> hm_len (sg_sessions s) \<ge> unat max_sessions
      then (Inl (lit ''global WebSocket session limit reached''), s)
      else if same_ip_sessions peer ip (sg_sessions s) \<ge> unat max_per_ip
      then (Inl (lit ''per-effective-IP WebSocket session limit reached''), s)
      else
        (let s1 = s\<lparr>sg_cells := sg_cells s @ [millis],
               sg_sessions := hm_insert peer (new_session generation writer ip addr millis cell) (sg_sessions s)\<rparr>
         in (Inr \<lparr>tk_peer_id = peer, tk_generation = generation, tk_connection_id = writer, tk_last_seen = cell\<rparr>,
             case hm_get (sg_sessions s) peer of
               Some previous \<Rightarrow> bump_routing rk_replaced_update (on_writer transport_abort (sn_writer previous) s1)
             | None \<Rightarrow> bump_routing rk_registered_update s1)))"

definition token_touch :: "session_token \<Rightarrow> u64 \<Rightarrow> signal_state \<Rightarrow> signal_state" where
  "token_touch t millis s = s\<lparr>sg_cells := (sg_cells s)[tk_last_seen t := millis]\<rparr>"

definition idle_millis :: "nat \<Rightarrow> u64 \<Rightarrow> signal_state \<Rightarrow> u64" where
  "idle_millis cell millis s = sat_sub millis (if cell < length (sg_cells s) then sg_cells s ! cell else 0)"

definition token_idle_for :: "session_token \<Rightarrow> u64 \<Rightarrow> signal_state \<Rightarrow> duration" where
  "token_idle_for t millis s = from_millis (unat (idle_millis (tk_last_seen t) millis s))"

record session_route =
  ro_generation :: u64
  ro_route_addr :: socket_addr
  ro_effective_ip :: ip_addr
  ro_idle_millis :: u64

definition session_route_of :: "utext \<Rightarrow> u64 \<Rightarrow> signal_state \<Rightarrow> session_route option" where
  "session_route_of peer millis s = map_option (\<lambda>x. \<lparr>ro_generation = sn_generation x, ro_route_addr = sn_route_addr x,
     ro_effective_ip = sn_effective_ip x, ro_idle_millis = idle_millis (sn_last_seen x) millis s\<rparr>) (hm_get (sg_sessions s) peer)"

definition remove_if_current_inner ::
  "utext \<Rightarrow> u64 \<Rightarrow> u64 option \<Rightarrow> utext \<Rightarrow> bool \<Rightarrow> signal_state \<Rightarrow> bool \<times> signal_state" where
  "remove_if_current_inner peer generation connection reason abort_writer s =
     (case hm_get (sg_sessions s) peer of
        None \<Rightarrow> (False, s)
      | Some x \<Rightarrow>
          if sn_generation x = generation \<and> (case connection of None \<Rightarrow> True | Some c \<Rightarrow> sn_writer x = c)
          then (let s1 = s\<lparr>sg_sessions := hm_remove peer (sg_sessions s)\<rparr>;
                    s2 = (if abort_writer then on_writer transport_abort (sn_writer x) s1 else s1)
                in (True, if reason = lit ''idle timeout'' then bump_routing rk_timed_out_update s2 else s2))
          else (False, s))"

text \<open>\<open>held\<close> are the peers whose lock in the activation registry is taken at the time.\<close>

definition remove_if_current ::
  "utext list \<Rightarrow> instant \<Rightarrow> utext \<Rightarrow> u64 \<Rightarrow> u64 \<Rightarrow> utext \<Rightarrow> signal_state \<Rightarrow> bool \<times> signal_state" where
  "remove_if_current held now peer generation connection reason s =
     (case remove_if_current_inner peer generation (Some connection) reason True s of
        (False, s1) \<Rightarrow> (False, s1)
      | (True, s1) \<Rightarrow> (True, s1\<lparr>sg_profile := fst (disconnect_route held peer (WebSocket generation connection) now (sg_profile s1))\<rparr>))"

definition remove_session ::
  "utext list \<Rightarrow> instant \<Rightarrow> session_token \<Rightarrow> utext \<Rightarrow> signal_state \<Rightarrow> bool \<times> signal_state" where
  "remove_session held now t reason = remove_if_current held now (tk_peer_id t) (tk_generation t) (tk_connection_id t) reason"

definition detach_profile_if_current :: "utext \<Rightarrow> u64 \<Rightarrow> u64 \<Rightarrow> utext \<Rightarrow> signal_state \<Rightarrow> bool \<times> signal_state" where
  "detach_profile_if_current peer generation connection reason = remove_if_current_inner peer generation (Some connection) reason False"

definition remove_profile_if_current :: "utext \<Rightarrow> u64 \<Rightarrow> u64 \<Rightarrow> signal_state \<Rightarrow> bool \<times> signal_state" where
  "remove_profile_if_current peer generation connection =
     remove_if_current_inner peer generation (Some connection) (lit ''profile deactivated'') True"

text \<open>
  \<open>try_send\<close>: the send, which gives the answer and the removal that is to follow, and that removal; no lock
  is held between the two.  A session of a transport that does not exist is answered as a closed one.
\<close>

definition routing_send :: "utext \<Rightarrow> bytes \<Rightarrow> signal_state \<Rightarrow> (bool \<times> (u64 \<times> u64 \<times> utext) option) \<times> signal_state" where
  "routing_send peer b s =
     (case hm_get (sg_sessions s) peer of
        None \<Rightarrow> ((False, None), s)
      | Some x \<Rightarrow>
          (let (result, w) = send_binary b (case hm_get (sg_writers s) (sn_writer x) of
                 None \<Rightarrow> (transport_channel 0)\<lparr>wt_closed := True\<rparr> | Some w \<Rightarrow> w);
               s1 = on_writer (\<lambda>_. w) (sn_writer x) s
           in case result of
                Inr _ \<Rightarrow> ((True, None), s1)
              | Inl SendFull \<Rightarrow> ((False, Some (sn_generation x, sn_writer x, lit ''slow consumer'')), bump_routing rk_slow_consumers_update s1)
              | Inl SendClosed \<Rightarrow> ((False, Some (sn_generation x, sn_writer x, lit ''writer closed'')), s1)))"

definition routing_send_end :: "utext list \<Rightarrow> instant \<Rightarrow> utext \<Rightarrow> (u64 \<times> u64 \<times> utext) option \<Rightarrow> signal_state \<Rightarrow> signal_state" where
  "routing_send_end held now peer removal s =
     (case removal of None \<Rightarrow> s
      | Some (generation, connection, reason) \<Rightarrow> snd (remove_if_current held now peer generation connection reason s))"

definition native_registration :: "utext \<Rightarrow> bool" where
  "native_registration peer = False"

section \<open>Draining and status\<close>

fun drain_each :: "(utext list \<times> instant) list \<Rightarrow> (utext \<times> ws_session) list \<Rightarrow> signal_state \<Rightarrow> signal_state" where
  "drain_each ((held, now) # clocks) ((peer, x) # sessions) s =
     (let s1 = on_writer transport_abort (sn_writer x) s
      in drain_each clocks sessions (s1\<lparr>sg_profile := fst (disconnect_route held peer
           (WebSocket (sn_generation x) (sn_writer x)) now (sg_profile s1))\<rparr>))"
| "drain_each _ _ s = s"

text \<open>\<open>drain_all\<close>; the locks held and the time at each disconnection are an input as long as the table.\<close>

definition drain_all :: "(utext list \<times> instant) list \<Rightarrow> signal_state \<Rightarrow> nat \<times> signal_state" where
  "drain_all clocks s = (hm_len (sg_sessions s), drain_each clocks (sg_sessions s) (s\<lparr>sg_sessions := []\<rparr>))"

definition drain_all_now ::
  "bool \<Rightarrow> bool \<Rightarrow> bool \<Rightarrow> instant \<Rightarrow> signal_state \<Rightarrow> (utext + nat \<times> nat) \<times> signal_state" where
  "drain_all_now sessions_busy connections_busy leases_busy now s =
     (if sessions_busy then (Inl (lit ''WebSocket session registry is busy; retry activation''), s)
      else if connections_busy then (Inl (lit ''WebSocket connection registry is busy; retry activation''), s)
      else
        (let routes = map (\<lambda>(peer, x). (peer, sn_generation x, sn_writer x)) (sg_sessions s);
             s1 = abort_all (map (cc_writer \<circ> snd) (sg_connections s)) (abort_all (map (sn_writer \<circ> snd) (sg_sessions s))
                    (s\<lparr>sg_sessions := [], sg_connections := []\<rparr>))
         in (Inr (hm_len (sg_sessions s), hm_len (sg_connections s)),
             s1\<lparr>sg_profile := fst (disconnect_websocket_routes_now leases_busy routes now (sg_profile s1))\<rparr>)))"

record routing_status =
  rt_sessions :: nat
  rt_draining :: nat
  rt_counters :: routing_counters

definition routing_status_of :: "signal_state \<Rightarrow> routing_status" where
  "routing_status_of s = \<lparr>rt_sessions = hm_len (sg_sessions s),
     rt_draining = length (filter (\<lambda>(_, x). case hm_get (sg_writers s) (sn_writer x) of None \<Rightarrow> False | Some w \<Rightarrow> wt_closed w) (sg_sessions s)),
     rt_counters = sg_counters s\<rparr>"

section \<open>Activation\<close>

record prepared_websocket_signal =
  pw_config :: websocket_signal_config
  pw_health_enabled :: bool

definition websocket_prepare :: "websocket_signal_config \<Rightarrow> bool \<Rightarrow> prepared_websocket_signal" where
  "websocket_prepare config quality_enabled = \<lparr>pw_config = config,
     pw_health_enabled = (ws_enabled config \<or> (quality_enabled \<and> hc_endpoints (ws_relay_health config) \<noteq> []))\<rparr>"

record drain_input =
  di_sessions_busy :: bool
  di_connections_busy :: bool
  di_leases_busy :: bool
  di_now :: instant

definition health_detail :: "bool \<Rightarrow> health_state \<Rightarrow> utext" where
  "health_detail enabled h = (if enabled
     then lit ''WebSocket Relay health generation '' @ print_nat (unat (hs_generation h)) @ lit '' scheduled for immediate probe''
     else lit ''WebSocket Relay health disabled'')"

text \<open>
  \<open>activate_prepared\<close>: an error of the drain leaves the health state alone.  \<open>relay_health::reconfigure\<close> fails
  only on a poisoned lock, which is taken not to occur here as elsewhere.
\<close>

definition websocket_activate ::
  "drain_input \<Rightarrow> prepared_websocket_signal \<Rightarrow> signal_state \<times> health_state
     \<Rightarrow> (utext + subsystem_ack) \<times> signal_state \<times> health_state" where
  "websocket_activate d prepared sh =
     (case (if ws_enabled (pw_config prepared) then (Inr (0, 0), fst sh)
            else drain_all_now (di_sessions_busy d) (di_connections_busy d) (di_leases_busy d) (di_now d) (fst sh)) of
        (Inl err, s) \<Rightarrow> (Inl err, s, snd sh)
      | (Inr _, s) \<Rightarrow>
          (let h = health_reconfigure (pw_health_enabled prepared) (ws_relay_health (pw_config prepared)) (snd sh)
           in (Inr \<lparr>sa_subsystem = lit ''websocket_signal'', sa_accepted = True,
                sa_detail = health_detail (pw_health_enabled prepared) h\<rparr>, s, h)))"

definition websocket_reconfigure ::
  "drain_input \<Rightarrow> active_config \<Rightarrow> signal_state \<times> health_state \<Rightarrow> utext \<times> signal_state \<times> health_state" where
  "websocket_reconfigure d active sh =
     (let config = (case ac_config active of None \<Rightarrow> websocket_signal_config_default | Some c \<Rightarrow> sc_websocket_signal c);
          quality = (case ac_config active of None \<Rightarrow> False | Some c \<Rightarrow> qc_enabled (sc_relay_quality c));
          (result, sh') = websocket_activate d (websocket_prepare config quality) sh
      in (case result of Inr ack \<Rightarrow> sa_detail ack
          | Inl err \<Rightarrow> lit ''WebSocket Signal reload rejected; retained last-known-good state: '' @ err, sh'))"

section \<open>Upgrades\<close>

text \<open>
  The request and what other libraries read in it: a header is absent, not printable, or a text;
  \<open>IpNetwork\<close> and \<open>IpAddr\<close> are parsed by their libraries.
\<close>

datatype header_value = Absent | Unprintable | Header utext

record upgrade_request =
  up_path :: utext
  up_has_query :: bool
  up_header :: "utext \<Rightarrow> header_value"

record address_parsers =
  ap_network_contains :: "utext \<Rightarrow> ip_addr \<Rightarrow> bool option"
  ap_parse_ip :: "utext \<Rightarrow> ip_addr option"

definition trusted_proxy :: "address_parsers \<Rightarrow> websocket_signal_config \<Rightarrow> ip_addr \<Rightarrow> bool" where
  "trusted_proxy ap config ip \<longleftrightarrow>
     list_ex (\<lambda>cidr. case ap_network_contains ap cidr ip of None \<Rightarrow> False
       | Some direct \<Rightarrow> direct \<or> (normalize_ip ip \<noteq> ip \<and> ap_network_contains ap cidr (normalize_ip ip) = Some True))
       (ws_trusted_proxies config)"

definition real_ip :: "address_parsers \<Rightarrow> utext \<Rightarrow> utext + ip_addr" where
  "real_ip ap raw =
     (let value = trim raw in
      if 44 \<in> set value \<or> utf8_len value > 64 then Inl (lit ''X-Real-IP is malformed'')
      else (case ap_parse_ip ap value of None \<Rightarrow> Inl (lit ''X-Real-IP is not an IP address'') | Some ip \<Rightarrow> Inr ip))"

definition forwarded_for :: "address_parsers \<Rightarrow> utext \<Rightarrow> utext + ip_addr" where
  "forwarded_for ap value =
     (if utf8_len value > 2048 then Inl (lit ''X-Forwarded-For is too long'')
      else (let values = map trim (split_char 44 value) in
        if values = [] \<or> length values > 16 \<or> list_ex (\<lambda>v. v = []) values
        then Inl (lit ''X-Forwarded-For has an invalid chain length'')
        else if list_ex (\<lambda>v. ap_parse_ip ap v = None) values then Inl (lit ''X-Forwarded-For contains a non-IP entry'')
        else Inr (the (ap_parse_ip ap (hd values)))))"

definition forwarded_ip :: "address_parsers \<Rightarrow> upgrade_request \<Rightarrow> utext + ip_addr option" where
  "forwarded_ip ap u =
     (case up_header u (lit ''x-real-ip'') of
        Unprintable \<Rightarrow> Inl (lit ''X-Real-IP is not valid ASCII'')
      | Header value \<Rightarrow> map_sum id Some (real_ip ap value)
      | Absent \<Rightarrow>
          (case up_header u (lit ''x-forwarded-for'') of
             Unprintable \<Rightarrow> Inl (lit ''X-Forwarded-For is not valid ASCII'')
           | Header value \<Rightarrow> map_sum id Some (forwarded_for ap value)
           | Absent \<Rightarrow> Inr None))"

definition origin_checked :: "websocket_signal_config \<Rightarrow> upgrade_request \<Rightarrow> utext + unit" where
  "origin_checked config u =
     (case up_header u (lit ''origin'') of
        Absent \<Rightarrow> Inr ()
      | Unprintable \<Rightarrow> Inl (lit ''Origin header is not valid ASCII'')
      | Header origin \<Rightarrow> if origin \<in> set (ws_allowed_origins config) then Inr () else Inl (lit ''Origin is not explicitly allowed''))"

definition inspect_upgrade ::
  "address_parsers \<Rightarrow> upgrade_request \<Rightarrow> socket_addr \<Rightarrow> websocket_signal_config \<Rightarrow> utext + socket_addr" where
  "inspect_upgrade ap u direct config =
     (if up_path u \<noteq> lit ''/ws/id'' \<or> up_has_query u then Inl (lit ''WebSocket Signal requires the exact /ws/id path'')
      else (case origin_checked config u of Inl e \<Rightarrow> Inl e
        | Inr _ \<Rightarrow>
            if \<not> trusted_proxy ap config (sock_ip direct) then Inr direct
            else (case forwarded_ip ap u of Inl e \<Rightarrow> Inl e
              | Inr ip \<Rightarrow> Inr (socket_new (case ip of None \<Rightarrow> sock_ip direct | Some a \<Rightarrow> a) (sock_port direct)))))"

end
