(* ===== verification/Websocket_Signal_Properties.thy ===== *)
theory Websocket_Signal_Properties
  imports Websocket_Signal
begin

text \<open>
  The properties of WebSocket signalling, over runs of labelled events (\<open>signal_run\<close>).  \<open>signal_inv\<close> holds the
  limits; \<open>remove_inner_effect\<close>, \<open>session_bind_cases\<close> and \<open>step_session\<close> say what an operation does to the
  sessions, and \<open>winding\<close> what a closed transport can still become.  The example (\<open>sx_\<close>) is one peer on two
  connections.
\<close>

section \<open>Events\<close>

text \<open>
  A run interleaves connections, registrations, sends, the turns of the writer tasks, removals with any
  arguments and drains.  The limits are those of the configurations in force: at most \<open>M\<close> sessions, \<open>K\<close>
  for an address, \<open>L\<close> registrations a minute.
\<close>

datatype signal_event =
    Connected u64 | Disconnected | Admission | Bound utext u64 | Touched | Removed utext u64 u64 | Sent utext
  | Frame u64 | Drained | Activation

inductive signal_step :: "nat \<Rightarrow> nat \<Rightarrow> nat \<Rightarrow> signal_state \<Rightarrow> signal_event \<Rightarrow> signal_state \<Rightarrow> bool" for M K L where
  connect: "next_connection_id s = (c, s1) \<Longrightarrow> hm_get (sg_writers s) c = None \<Longrightarrow>
    signal_step M K L s (Connected c) (register_connection addr effective c c (signal_transport_new c capacity s1))"
| disconnect: "signal_step M K L s Disconnected (remove_connection addr c s)"
| admit: "unat limit \<le> L \<Longrightarrow> signal_step M K L s Admission (snd (allow_registration now ip limit s))"
| session_bind: "hm_get (sg_writers s) c \<noteq> None \<Longrightarrow> unat max_sessions \<le> M \<Longrightarrow> unat max_per_ip \<le> K \<Longrightarrow>
    signal_step M K L s (Bound peer c) (snd (session_bind peer c ip addr generation max_sessions max_per_ip millis s))"
| touch: "signal_step M K L s Touched (token_touch t millis s)"
| remove: "signal_step M K L s (Removed peer g c) (snd (remove_if_current held now peer g c reason s))"
| detach: "signal_step M K L s (Removed peer g c) (snd (detach_profile_if_current peer g c reason s))"
| remove_profile: "signal_step M K L s (Removed peer g c) (snd (remove_profile_if_current peer g c s))"
| send: "signal_step M K L s (Sent peer) (snd (routing_send peer b s))"
| send_end: "signal_step M K L s (Removed peer g c) (routing_send_end held now peer (Some (g, c, reason)) s)"
| pong: "signal_step M K L s (Frame c) (on_writer (\<lambda>w. snd (send_pong b w)) c s)"
| reply: "signal_step M K L s (Frame c) (on_writer (\<lambda>w. snd (send_binary b w)) c s)"
| close: "signal_step M K L s (Frame c) (on_writer transport_close c s)"
| abort: "signal_step M K L s (Frame c) (on_writer transport_abort c s)"
| receive: "signal_step M K L s (Frame c) (on_writer writer_receive c s)"
| complete: "signal_step M K L s (Frame c) (on_writer (writer_complete ok) c s)"
| sink_close: "signal_step M K L s (Frame c) (on_writer (sink_close gets_out) c s)"
| drain: "length clocks = hm_len (sg_sessions s) \<Longrightarrow> signal_step M K L s Drained (snd (drain_all clocks s))"
| drain_now: "signal_step M K L s Drained (snd (drain_all_now b1 b2 b3 now s))"
| activation: "signal_step M K L s Activation (s\<lparr>sg_profile := r\<rparr>)"

inductive signal_run :: "nat \<Rightarrow> nat \<Rightarrow> nat \<Rightarrow> signal_state \<Rightarrow> signal_event list \<Rightarrow> signal_state \<Rightarrow> bool" for M K L where
  nothing: "signal_run M K L s [] s"
| event: "signal_run M K L s es s' \<Longrightarrow> signal_step M K L s' e s'' \<Longrightarrow> signal_run M K L s (es @ [e]) s''"

section \<open>Frames of the operations\<close>

lemma on_writer_frame [simp]:
  "sg_sessions (on_writer f c s) = sg_sessions s" "sg_connections (on_writer f c s) = sg_connections s"
  "sg_registrations (on_writer f c s) = sg_registrations s" "sg_profile (on_writer f c s) = sg_profile s"
  by (simp_all add: on_writer_def split: option.split)

lemma on_writer_get [simp]:
  "hm_get (sg_writers (on_writer f c s)) k = (if k = c then map_option f (hm_get (sg_writers s) c) else hm_get (sg_writers s) k)"
  by (simp add: on_writer_def split: option.split)

lemma bump_routing_frame [simp]:
  "sg_sessions (bump_routing f s) = sg_sessions s" "sg_connections (bump_routing f s) = sg_connections s"
  "sg_registrations (bump_routing f s) = sg_registrations s" "sg_writers (bump_routing f s) = sg_writers s"
  "sg_profile (bump_routing f s) = sg_profile s"
  by (simp_all add: bump_routing_def)

lemma abort_all_frame [simp]:
  "sg_sessions (abort_all cs s) = sg_sessions s" "sg_connections (abort_all cs s) = sg_connections s"
  "sg_registrations (abort_all cs s) = sg_registrations s" "sg_profile (abort_all cs s) = sg_profile s"
  unfolding abort_all_def by (induction cs arbitrary: s) simp_all

lemma abort_closed [simp]: "transport_abort (transport_abort w) = transport_abort w"
  by (simp add: transport_abort_def channel_offer_def channel_send_def)

lemma abort_all_get:
  "hm_get (sg_writers (abort_all cs s)) k =
     (if k \<in> set cs then map_option transport_abort (hm_get (sg_writers s) k) else hm_get (sg_writers s) k)"
  unfolding abort_all_def by (induction cs arbitrary: s) (auto simp: option.map_comp comp_def)

lemma bind_generation_frame:
  assumes "bind_generation g s = (g', s')"
  shows "sg_sessions s' = sg_sessions s" "sg_connections s' = sg_connections s"
    "sg_registrations s' = sg_registrations s" "sg_writers s' = sg_writers s" "sg_cells s' = sg_cells s"
  using assms by (auto simp: bind_generation_def split: option.splits prod.splits)

text \<open>A removal takes away the session it names, or nothing.\<close>

lemma remove_inner_effect:
  assumes "remove_if_current_inner peer g (Some c) reason ab s = (b, s')"
  obtains (nothing) "\<not> b" "s' = s" "\<And>x. hm_get (sg_sessions s) peer = Some x \<Longrightarrow> sn_generation x \<noteq> g \<or> sn_writer x \<noteq> c"
    | (removed) x where "b" "hm_get (sg_sessions s) peer = Some x" "sn_generation x = g" "sn_writer x = c"
      "sg_sessions s' = hm_remove peer (sg_sessions s)" "sg_connections s' = sg_connections s" "sg_registrations s' = sg_registrations s"
      "\<And>k. hm_get (sg_writers s') k = (if ab \<and> k = c then map_option transport_abort (hm_get (sg_writers s) c) else hm_get (sg_writers s) k)"
proof (cases "hm_get (sg_sessions s) peer")
  case None
  show ?thesis by (rule nothing) (use assms None in \<open>auto simp: remove_if_current_inner_def\<close>)
next
  case (Some x)
  show ?thesis
  proof (cases "sn_generation x = g \<and> sn_writer x = c")
    case True
    then show ?thesis using assms removed [of x] Some
      by (auto simp: remove_if_current_inner_def Let_def split: if_splits)
  next
    case False
    show ?thesis by (rule nothing) (use False assms Some in \<open>auto simp: remove_if_current_inner_def\<close>)
  qed
qed

lemma remove_current_effect:
  assumes "remove_if_current held now peer g c reason s = (b, s')"
  obtains (nothing) "\<not> b" "s' = s" "\<And>x. hm_get (sg_sessions s) peer = Some x \<Longrightarrow> sn_generation x \<noteq> g \<or> sn_writer x \<noteq> c"
    | (removed) x where "b" "hm_get (sg_sessions s) peer = Some x" "sn_generation x = g" "sn_writer x = c"
      "sg_sessions s' = hm_remove peer (sg_sessions s)" "sg_connections s' = sg_connections s" "sg_registrations s' = sg_registrations s"
      "\<And>k. hm_get (sg_writers s') k = (if k = c then map_option transport_abort (hm_get (sg_writers s) c) else hm_get (sg_writers s) k)"
proof -
  obtain b1 s1 where i: "remove_if_current_inner peer g (Some c) reason True s = (b1, s1)" by fastforce
  show ?thesis
  proof (cases rule: remove_inner_effect [OF i])
    case 1
    show ?thesis by (rule nothing) (use 1 assms i in \<open>auto simp: remove_if_current_def\<close>)
  next
    case (2 x)
    then show ?thesis using assms i removed [of x] by (auto simp: remove_if_current_def)
  qed
qed

section \<open>Bounds\<close>

definition ip_sessions :: "ip_addr \<Rightarrow> (utext, ws_session) hmap \<Rightarrow> nat" where
  "ip_sessions ip m = length (filter (\<lambda>(_, x). sn_effective_ip x = ip) m)"

definition sessions_ok :: "nat \<Rightarrow> nat \<Rightarrow> (utext, ws_session) hmap \<Rightarrow> bool" where
  "sessions_ok M K m \<longleftrightarrow> hm_ok m \<and> hm_len m \<le> M \<and> (\<forall>ip. ip_sessions ip m \<le> K)"

definition registrations_ok :: "nat \<Rightarrow> (ip_addr, instant list) hmap \<Rightarrow> bool" where
  "registrations_ok L m \<longleftrightarrow> hm_ok m \<and> hm_len m \<le> 65536 \<and> (\<forall>ip es. hm_get m ip = Some es \<longrightarrow> length es \<le> L)"

definition queue_ok :: "write_transport \<Rightarrow> bool" where
  "queue_ok w \<longleftrightarrow> length (wt_queue w) \<le> wt_capacity w"

definition writers_ok :: "signal_state \<Rightarrow> bool" where
  "writers_ok s \<longleftrightarrow> (\<forall>c w. hm_get (sg_writers s) c = Some w \<longrightarrow> queue_ok w)
     \<and> (\<forall>p x. hm_get (sg_sessions s) p = Some x \<longrightarrow> hm_get (sg_writers s) (sn_writer x) \<noteq> None)
     \<and> (\<forall>a e. hm_get (sg_connections s) a = Some e \<longrightarrow> hm_get (sg_writers s) (cc_writer e) \<noteq> None)"

definition signal_inv :: "nat \<Rightarrow> nat \<Rightarrow> nat \<Rightarrow> signal_state \<Rightarrow> bool" where
  "signal_inv M K L s \<longleftrightarrow> sessions_ok M K (sg_sessions s) \<and> registrations_ok L (sg_registrations s) \<and> writers_ok s"

lemma same_ip_insert:
  "hm_ok m \<Longrightarrow> ip_sessions ip (hm_insert p x m) = same_ip_sessions p ip m + (if sn_effective_ip x = ip then 1 else 0)"
proof (induction m)
  case (Cons kv m)
  obtain k v where kv: "kv = (k, v)" by (cases kv)
  show ?case
  proof (cases "k = p")
    case True
    then have "filter (\<lambda>(q, y). q \<noteq> p \<and> sn_effective_ip y = ip) m = filter (\<lambda>(_, y). sn_effective_ip y = ip) m"
      using Cons.prems by (intro filter_cong refl) (auto simp: hm_ok_def kv rev_image_eqI)
    then show ?thesis by (simp add: True kv ip_sessions_def same_ip_sessions_def hm_insert_def)
  next
    case False
    have "hm_ok m" using Cons.prems by (simp add: hm_ok_def)
    from Cons.IH [OF this] show ?thesis using False
      by (simp add: kv ip_sessions_def same_ip_sessions_def hm_insert_def)
  qed
qed (simp add: ip_sessions_def same_ip_sessions_def hm_insert_def)

lemma same_ip_le: "same_ip_sessions p ip m \<le> ip_sessions ip m"
  unfolding same_ip_sessions_def ip_sessions_def by (induction m) auto

lemma sessions_ok_insert:
  assumes ok: "sessions_ok M K m" and room: "hm_contains m p \<or> hm_len m < M" and ip: "same_ip_sessions p (sn_effective_ip x) m < K"
  shows "sessions_ok M K (hm_insert p x m)"
proof -
  have "ip_sessions i (hm_insert p x m) \<le> K" for i
    using ok ip same_ip_le [of p i m] same_ip_insert [of m i p x] by (auto simp: sessions_ok_def intro: order_trans)
  then show ?thesis using ok room hm.put_within_capacity [of m M p x] by (auto simp: sessions_ok_def hm_contains_def)
qed

lemma sessions_ok_remove: "sessions_ok M K m \<Longrightarrow> sessions_ok M K (hm_remove p m)"
proof -
  assume ok: "sessions_ok M K m"
  have "ip_sessions i (hm_remove p m) \<le> ip_sessions i m" for i
    unfolding ip_sessions_def hm_remove_def AList.delete_eq by (induction m) auto
  then have "ip_sessions i (hm_remove p m) \<le> K" for i using ok order_trans unfolding sessions_ok_def by blast
  then show ?thesis using ok hm.del_within_capacity [of m M p] by (simp add: sessions_ok_def)
qed

lemma sessions_ok_Nil [simp]: "sessions_ok M K []"
  by (simp add: sessions_ok_def ip_sessions_def)

lemma registrations_ok_insert:
  "registrations_ok L m \<Longrightarrow> hm_contains m ip \<or> hm_len m < 65536 \<Longrightarrow> length es \<le> L \<Longrightarrow> registrations_ok L (hm_insert ip es m)"
  using hm.put_within_capacity [of m 65536 ip es] by (auto simp: registrations_ok_def hm_contains_def)

lemma registrations_ok_sweep: "registrations_ok L m \<Longrightarrow> registrations_ok L (sweep_registrations now m)"
  using hm_len_retain_mut [of _ m] length_dropWhile_le
  by (fastforce simp: registrations_ok_def sweep_registrations_def hm_get_retain_mut Let_def pop_old_def
      bind_eq_Some_conv intro: order_trans split: if_splits)

lemma allow_registration_ok:
  assumes "registrations_ok L (sg_registrations s)" "unat limit \<le> L"
  shows "registrations_ok L (sg_registrations (snd (allow_registration now ip limit s)))"
proof -
  define m where "m = (if sg_registration_calls s mod 256 = 0 then sweep_registrations now (sg_registrations s) else sg_registrations s)"
  define es where "es = pop_old now (case hm_get m ip of None \<Rightarrow> [] | Some e \<Rightarrow> e)"
  have m: "registrations_ok L m" using assms(1) by (simp add: m_def registrations_ok_sweep)
  then have es: "length es \<le> L"
    using length_dropWhile_le by (fastforce simp: es_def pop_old_def registrations_ok_def intro: order_trans split: option.split)
  have "sg_registrations (snd (allow_registration now ip limit s)) =
     (if \<not> hm_contains m ip \<and> hm_len m \<ge> 65536 then m
      else if length es \<ge> unat limit then hm_insert ip es m else hm_insert ip (es @ [now]) m)"
    by (simp add: allow_registration_def Let_def m_def es_def)
  then show ?thesis using m es assms(2) by (auto intro!: registrations_ok_insert)
qed

lemma allow_registration_frame [simp]:
  "sg_sessions (snd (allow_registration now ip limit s)) = sg_sessions s"
  "sg_connections (snd (allow_registration now ip limit s)) = sg_connections s"
  "sg_writers (snd (allow_registration now ip limit s)) = sg_writers s"
  by (simp_all add: allow_registration_def Let_def)

lemma queue_ok_offer: "queue_ok w \<Longrightarrow> queue_ok (channel_offer f w)"
  by (auto simp: queue_ok_def channel_offer_def channel_send_def)

lemma queue_ok_ops:
  assumes "queue_ok w"
  shows "queue_ok (snd (transport_send f w))" "queue_ok (transport_close w)" "queue_ok (transport_abort w)"
    "queue_ok (writer_receive w)" "queue_ok (writer_complete b w)" "queue_ok (sink_close b w)"
proof -
  have closed: "queue_ok (w\<lparr>wt_closed := True\<rparr>)" using assms by (simp add: queue_ok_def)
  show "queue_ok (snd (transport_send f w))"
    using assms closed queue_ok_offer [OF closed]
    by (auto simp: transport_send_def channel_send_def queue_ok_def)
  show "queue_ok (transport_close w)" using assms closed by (auto simp: transport_close_def channel_send_def queue_ok_def)
  show "queue_ok (transport_abort w)" using assms queue_ok_offer [OF closed] by (simp add: transport_abort_def)
  show "queue_ok (writer_receive w)" using assms
    by (auto simp: writer_receive_def writer_end_def queue_ok_def split: writer_task.split list.split)
  show "queue_ok (writer_complete b w)" using assms
    by (auto simp: writer_complete_def writer_end_def queue_ok_def Let_def split: writer_task.split)
  show "queue_ok (sink_close b w)" using assms by (simp add: sink_close_def queue_ok_def)
qed

lemma writers_ok_on:
  "writers_ok s \<Longrightarrow> (\<And>w. queue_ok w \<Longrightarrow> queue_ok (f w)) \<Longrightarrow> writers_ok (on_writer f c s)"
  by (fastforce simp: writers_ok_def)

lemma signal_inv_on:
  "signal_inv M K L s \<Longrightarrow> (\<And>w. queue_ok w \<Longrightarrow> queue_ok (f w)) \<Longrightarrow> signal_inv M K L (on_writer f c s)"
  by (simp add: signal_inv_def writers_ok_on)

text \<open>Changes of other fields do not matter, and neither does a smaller table of sessions or connections.\<close>

lemma signal_inv_sub:
  assumes "signal_inv M K L s" "sessions_ok M K (sg_sessions s')" "sg_registrations s' = sg_registrations s"
    and "\<And>p x. hm_get (sg_sessions s') p = Some x \<Longrightarrow> hm_get (sg_sessions s) p = Some x"
    and "\<And>a e. hm_get (sg_connections s') a = Some e \<Longrightarrow> hm_get (sg_connections s) a = Some e"
    and "\<And>c. hm_get (sg_writers s') c = map_option (f c) (hm_get (sg_writers s) c)" "\<And>c w. queue_ok w \<Longrightarrow> queue_ok (f c w)"
  shows "signal_inv M K L s'"
proof -
  have "writers_ok s'"
    using assms(1) unfolding signal_inv_def writers_ok_def assms(6)
    using assms(4,5,7) by (fastforce simp: option.map_disc_iff)
  then show ?thesis using assms(1-3) by (simp add: signal_inv_def)
qed

lemma remove_current_inv:
  assumes "signal_inv M K L s"
  shows "signal_inv M K L (snd (remove_if_current held now peer g c reason s))"
proof -
  obtain b s' where r: "remove_if_current held now peer g c reason s = (b, s')" by fastforce
  show ?thesis unfolding r snd_conv
  proof (cases rule: remove_current_effect [OF r])
    case 1
    then show "signal_inv M K L s'" using assms by simp
  next
    case (2 x)
    show "signal_inv M K L s'"
      by (rule signal_inv_sub [OF assms, where f = "\<lambda>k. if k = c then transport_abort else id"])
        (use assms 2(5-8) in \<open>auto simp: signal_inv_def sessions_ok_remove queue_ok_ops option.map_id split: if_splits\<close>)
  qed
qed

lemma remove_inner_inv:
  assumes "signal_inv M K L s"
  shows "signal_inv M K L (snd (remove_if_current_inner peer g (Some c) reason ab s))"
proof -
  obtain b s' where r: "remove_if_current_inner peer g (Some c) reason ab s = (b, s')" by fastforce
  show ?thesis unfolding r snd_conv
  proof (cases rule: remove_inner_effect [OF r])
    case 1
    then show "signal_inv M K L s'" using assms by simp
  next
    case (2 x)
    show "signal_inv M K L s'"
      by (rule signal_inv_sub [OF assms, where f = "\<lambda>k. if ab \<and> k = c then transport_abort else id"])
        (use assms 2(5-8) in \<open>auto simp: signal_inv_def sessions_ok_remove queue_ok_ops option.map_id split: if_splits\<close>)
  qed
qed

text \<open>The cases of a registration and of a send.\<close>

lemma session_bind_cases:
  assumes "session_bind peer c ip addr g ms mi millis s = (r, s')"
  obtains (refused) e where "r = Inl e" "sg_sessions s' = sg_sessions s" "sg_connections s' = sg_connections s"
      "sg_registrations s' = sg_registrations s" "sg_writers s' = sg_writers s"
    | (bound) g' cell where "r = Inr \<lparr>tk_peer_id = peer, tk_generation = g', tk_connection_id = c, tk_last_seen = cell\<rparr>"
      "sg_sessions s' = hm_insert peer (new_session g' c ip addr millis cell) (sg_sessions s)"
      "hm_contains (sg_sessions s) peer \<or> hm_len (sg_sessions s) < unat ms" "same_ip_sessions peer ip (sg_sessions s) < unat mi"
      "sg_connections s' = sg_connections s" "sg_registrations s' = sg_registrations s"
      "\<And>k. hm_get (sg_writers s') k = (if (\<exists>x. hm_get (sg_sessions s) peer = Some x \<and> sn_writer x = k)
         then map_option transport_abort (hm_get (sg_writers s) k) else hm_get (sg_writers s) k)"
proof -
  obtain g' s1 where b: "bind_generation g s = (g', s1)" by fastforce
  note f = bind_generation_frame [OF b]
  consider "\<exists>e. (r, s') = (Inl e, s1)" | "\<not> (\<not> hm_contains (sg_sessions s) peer \<and> hm_len (sg_sessions s) \<ge> unat ms)"
    "\<not> same_ip_sessions peer ip (sg_sessions s) \<ge> unat mi"
    using assms f by (auto simp: session_bind_def b Let_def split: if_splits)
  then show ?thesis
  proof cases
    case 1
    then show ?thesis using refused f by auto
  next
    case 2
    define s2 where "s2 = s1\<lparr>sg_cells := sg_cells s1 @ [millis],
      sg_sessions := hm_insert peer (new_session g' c ip addr millis (length (sg_cells s1))) (sg_sessions s)\<rparr>"
    have "(r, s') = (Inr \<lparr>tk_peer_id = peer, tk_generation = g', tk_connection_id = c, tk_last_seen = length (sg_cells s1)\<rparr>,
        case hm_get (sg_sessions s) peer of
          Some previous \<Rightarrow> bump_routing rk_replaced_update (on_writer transport_abort (sn_writer previous) s2)
        | None \<Rightarrow> bump_routing rk_registered_update s2)"
      unfolding assms [symmetric] session_bind_def b Let_def prod.case s2_def f(1) if_not_P [OF 2(1)] if_not_P [OF 2(2)] ..
    then have r: "r = Inr \<lparr>tk_peer_id = peer, tk_generation = g', tk_connection_id = c, tk_last_seen = length (sg_cells s1)\<rparr>"
      and s': "s' = (case hm_get (sg_sessions s) peer of
          Some previous \<Rightarrow> bump_routing rk_replaced_update (on_writer transport_abort (sn_writer previous) s2)
        | None \<Rightarrow> bump_routing rk_registered_update s2)" by (simp_all only: prod.inject)
    have s2: "sg_connections s2 = sg_connections s" "sg_registrations s2 = sg_registrations s" "sg_writers s2 = sg_writers s"
      "sg_sessions s2 = hm_insert peer (new_session g' c ip addr millis (length (sg_cells s1))) (sg_sessions s)"
      using f by (simp_all add: s2_def)
    show ?thesis
      by (rule bound [OF r]) (use 2 s2 in \<open>auto simp: s' split: option.split\<close>)
  qed
qed

lemma session_bind_inv:
  assumes inv: "signal_inv M K L s" and c: "hm_get (sg_writers s) c \<noteq> None" and lim: "unat ms \<le> M" "unat mi \<le> K"
  shows "signal_inv M K L (snd (session_bind peer c ip addr g ms mi millis s))"
proof -
  obtain r s' where b: "session_bind peer c ip addr g ms mi millis s = (r, s')" by fastforce
  show ?thesis unfolding b snd_conv
  proof (cases rule: session_bind_cases [OF b])
    case (1 e)
    then show "signal_inv M K L s'" using inv by (simp add: signal_inv_def writers_ok_def)
  next
    case (2 g' cell)
    have "sn_effective_ip (new_session g' c ip addr millis cell) = ip" "sn_writer (new_session g' c ip addr millis cell) = c"
      by (simp_all add: new_session_def)
    moreover from this have "sessions_ok M K (sg_sessions s')"
      unfolding 2(2) using inv 2(3,4) lim by (intro sessions_ok_insert) (auto simp: signal_inv_def)
    moreover have "writers_ok s'"
      using inv c queue_ok_ops(3) calculation(2) unfolding signal_inv_def writers_ok_def 2(2,5,7)
      by (fastforce simp: option.map_disc_iff split: if_splits)
    ultimately show "signal_inv M K L s'" using inv 2(6) by (simp add: signal_inv_def)
  qed
qed

lemma routing_send_inv:
  assumes "signal_inv M K L s"
  shows "signal_inv M K L (snd (routing_send peer b s))"
proof (cases "hm_get (sg_sessions s) peer")
  case None
  then show ?thesis using assms by (simp add: routing_send_def)
next
  case (Some x)
  then obtain w where w: "hm_get (sg_writers s) (sn_writer x) = Some w" using assms by (fastforce simp: signal_inv_def writers_ok_def)
  obtain res w' where t: "send_binary b w = (res, w')" by fastforce
  define s1 where "s1 = on_writer (\<lambda>_. w') (sn_writer x) s"
  have "queue_ok w" using assms w by (simp add: signal_inv_def writers_ok_def)
  then have "queue_ok w'" using t queue_ok_ops(1) [of w "BinaryFrame b"] by (simp add: send_binary_def)
  then have i: "signal_inv M K L s1" unfolding s1_def by (intro signal_inv_on [OF assms])
  have i': "signal_inv M K L (bump_routing f s1)" for f using i by (simp add: signal_inv_def writers_ok_def)
  show ?thesis using i i'
    by (auto simp: routing_send_def Some w t s1_def Let_def split: sum.split send_error.split)
qed

lemma drain_each_frame:
  "sg_sessions (drain_each cl xs s) = sg_sessions s \<and> sg_connections (drain_each cl xs s) = sg_connections s
   \<and> sg_registrations (drain_each cl xs s) = sg_registrations s"
  by (induction cl xs s rule: drain_each.induct) (simp_all add: Let_def)

lemma drain_each_get:
  "length cl = length xs \<Longrightarrow> hm_get (sg_writers (drain_each cl xs s)) k =
     (if k \<in> sn_writer ` snd ` set xs then map_option transport_abort (hm_get (sg_writers s) k) else hm_get (sg_writers s) k)"
  by (induction cl xs s rule: drain_each.induct) (auto simp: Let_def option.map_comp comp_def image_iff)

lemma drain_inv:
  assumes "signal_inv M K L s" "length cl = hm_len (sg_sessions s)"
  shows "signal_inv M K L (snd (drain_all cl s))"
proof -
  let ?d = "drain_each cl (sg_sessions s) (s\<lparr>sg_sessions := []\<rparr>)"
  note f = drain_each_frame [of cl "sg_sessions s" "s\<lparr>sg_sessions := []\<rparr>"]
  have "hm_get (sg_writers ?d) k = map_option (if k \<in> sn_writer ` snd ` set (sg_sessions s) then transport_abort else id) (hm_get (sg_writers s) k)" for k
    using drain_each_get [of cl "sg_sessions s" "s\<lparr>sg_sessions := []\<rparr>" k] assms(2) by (simp add: hm_len_def option.map_id)
  then show ?thesis unfolding drain_all_def snd_conv
    by (rule signal_inv_sub [OF assms(1), rotated 4]) (use f in \<open>auto simp: queue_ok_ops split: if_splits\<close>)
qed

lemma drain_now_inv:
  assumes "signal_inv M K L s"
  shows "signal_inv M K L (snd (drain_all_now b1 b2 b3 now s))"
proof (cases "b1 \<or> b2")
  case True
  then show ?thesis using assms by (auto simp: drain_all_now_def)
next
  case False
  let ?cs = "map (cc_writer \<circ> snd) (sg_connections s)" and ?xs = "map (sn_writer \<circ> snd) (sg_sessions s)"
  show ?thesis
    by (rule signal_inv_sub [OF assms, where f = "\<lambda>k. if k \<in> set ?cs \<union> set ?xs then transport_abort else id"])
      (use False in \<open>auto simp: drain_all_now_def Let_def abort_all_get queue_ok_ops option.map_comp comp_def option.map_id split: if_splits\<close>)
qed

lemma connect_inv:
  assumes "signal_inv M K L s" "next_connection_id s = (c, s1)" "hm_get (sg_writers s) c = None"
  shows "signal_inv M K L (register_connection addr effective c c (signal_transport_new c capacity s1))"
proof -
  have "sg_sessions s1 = sg_sessions s" "sg_connections s1 = sg_connections s" "sg_registrations s1 = sg_registrations s"
    "sg_writers s1 = sg_writers s" using assms(2) by (auto simp: next_connection_id_def)
  then show ?thesis using assms(1,3)
    by (auto simp: signal_inv_def writers_ok_def register_connection_def signal_transport_new_def transport_channel_def queue_ok_def)
qed

lemma remove_connection_inv:
  assumes "signal_inv M K L s"
  shows "signal_inv M K L (remove_connection addr c s)"
proof -
  have "sg_sessions (remove_connection addr c s) = sg_sessions s" "sg_registrations (remove_connection addr c s) = sg_registrations s"
    "sg_writers (remove_connection addr c s) = sg_writers s"
    "\<And>a e. hm_get (sg_connections (remove_connection addr c s)) a = Some e \<Longrightarrow> hm_get (sg_connections s) a = Some e"
    by (auto simp: remove_connection_def split: option.splits if_splits)
  then show ?thesis using assms by (simp add: signal_inv_def writers_ok_def) blast
qed

lemma signal_step_inv:
  assumes "signal_step M K L s e s'" "signal_inv M K L s"
  shows "signal_inv M K L s'"
  using assms(1)
proof (cases rule: signal_step.cases)
  case (admit limit now ip)
  then show ?thesis using assms(2) allow_registration_ok by (simp add: signal_inv_def writers_ok_def)
qed (use assms(2) in \<open>simp_all add: connect_inv remove_connection_inv session_bind_inv remove_current_inv routing_send_inv
    detach_profile_if_current_def remove_profile_if_current_def remove_inner_inv routing_send_end_def send_pong_def send_binary_def
    signal_inv_on queue_ok_ops drain_inv drain_now_inv\<close>, simp_all add: token_touch_def signal_inv_def writers_ok_def)

lemma signal_run_inv: "signal_run M K L s es s' \<Longrightarrow> signal_inv M K L s \<Longrightarrow> signal_inv M K L s'"
  by (induction rule: signal_run.induct) (auto intro: signal_step_inv)

lemma signal_start: "signal_inv M K L signal_state_default"
  by (simp add: signal_inv_def signal_state_default_def writers_ok_def registrations_ok_def)

text \<open>C37. Whatever connections, registrations, removals, sends and drains happen, the registry keeps to
  the limits of its configuration: at most \<open>M\<close> sessions in all and \<open>K\<close> from one effective address, at most
  65536 addresses with remembered registrations and \<open>L\<close> for each, and no queue is longer than its
  capacity; the transport of every session and connection exists.\<close>

theorem signal_bounded:
  assumes "signal_run M K L signal_state_default es s"
  shows "hm_len (sg_sessions s) \<le> M
    \<and> length (filter (\<lambda>(_, x). sn_effective_ip x = ip) (sg_sessions s)) \<le> K
    \<and> hm_len (sg_registrations s) \<le> 65536 \<and> (\<forall>es. hm_get (sg_registrations s) ip = Some es \<longrightarrow> length es \<le> L)
    \<and> (\<forall>c w. hm_get (sg_writers s) c = Some w \<longrightarrow> length (wt_queue w) \<le> wt_capacity w)
    \<and> (\<forall>p x. hm_get (sg_sessions s) p = Some x \<longrightarrow> hm_get (sg_writers s) (sn_writer x) \<noteq> None)"
proof -
  have "signal_inv M K L s" using signal_run_inv [OF assms signal_start] .
  then show ?thesis
    unfolding signal_inv_def sessions_ok_def registrations_ok_def writers_ok_def queue_ok_def ip_sessions_def by blast
qed

section \<open>Replacement\<close>

text \<open>A step leaves a session, removes it, or binds it anew.\<close>

lemma send_sessions [simp]: "sg_sessions (snd (routing_send peer b s)) = sg_sessions s"
  by (simp add: routing_send_def Let_def split: option.split prod.split sum.split send_error.split)

lemma removal_sessions:
  "hm_get (sg_sessions (snd (remove_if_current held now peer g c reason s))) p = Some x \<Longrightarrow> hm_get (sg_sessions s) p = Some x"
  "hm_get (sg_sessions (snd (remove_if_current_inner peer g (Some c) reason ab s))) p = Some x \<Longrightarrow> hm_get (sg_sessions s) p = Some x"
  by (cases rule: remove_current_effect [OF surjective_pairing, of held now peer g c reason s]; auto split: if_splits)
    (cases rule: remove_inner_effect [OF surjective_pairing, of peer g c reason ab s]; auto split: if_splits)

lemma bind_sessions:
  assumes "hm_get (sg_sessions (snd (session_bind peer c ip addr g ms mi millis s))) p = Some x"
  shows "hm_get (sg_sessions s) p = Some x \<or> (p = peer \<and> sn_writer x = c)"
  by (cases rule: session_bind_cases [OF surjective_pairing, of peer c ip addr g ms mi millis s])
    (use assms in \<open>auto simp: new_session_def split: if_splits\<close>)

lemma drain_now_sessions:
  "hm_get (sg_sessions (snd (drain_all_now b1 b2 b3 now s))) p = Some x \<Longrightarrow> hm_get (sg_sessions s) p = Some x"
  by (auto simp: drain_all_now_def Let_def split: if_splits)

lemma step_session:
  assumes "signal_step M K L s e s'" "hm_get (sg_sessions s') p = Some x"
  shows "hm_get (sg_sessions s) p = Some x \<or> e = Bound p (sn_writer x)"
  using assms(1)
proof (cases rule: signal_step.cases)
  case (connect c s1 addr effective capacity)
  then show ?thesis using assms(2) by (auto simp: next_connection_id_def register_connection_def signal_transport_new_def)
next
  case (disconnect addr c)
  then show ?thesis using assms(2) by (auto simp: remove_connection_def split: option.splits if_splits)
next
  case (session_bind c max_sessions max_per_ip peer ip addr generation millis)
  show ?thesis using bind_sessions [OF assms(2) [unfolded session_bind(2)]] session_bind(1) by auto
next
  case (drain clocks)
  then show ?thesis using assms(2) by (simp add: drain_all_def drain_each_frame)
qed (use assms(2) in \<open>auto simp: token_touch_def detach_profile_if_current_def remove_profile_if_current_def
    routing_send_end_def dest: removal_sessions drain_now_sessions\<close>)

lemma run_not_bound:
  assumes "signal_run M K L s es s'" "Bound p c \<notin> set es" "\<And>x. hm_get (sg_sessions s) p = Some x \<Longrightarrow> sn_writer x \<noteq> c"
  shows "hm_get (sg_sessions s') p = Some x \<Longrightarrow> sn_writer x \<noteq> c"
  using assms
proof (induction arbitrary: x rule: signal_run.induct)
  case (event s es s' e s'')
  from step_session [OF event(2,4)] show ?case using event(3) [of x] event(5,6) by auto
qed blast

text \<open>C38. The reader of a replaced connection cannot touch the session that replaced it.  Once a peer is
  bound on another connection, then under every later interleaving a removal or detachment with the old
  connection's token does nothing, whatever its generation, unless that connection itself binds the peer
  again.\<close>

theorem stale_token_inert:
  assumes "session_bind p c' ip addr g' max_sessions max_per_ip millis s0 = (Inr t', s)" "c' \<noteq> tk_connection_id t"
    and "signal_run M K L s es s'" "tk_peer_id t = p" "Bound p (tk_connection_id t) \<notin> set es"
  shows "remove_session held now t reason s' = (False, s')
    \<and> detach_profile_if_current p (tk_generation t) (tk_connection_id t) reason s' = (False, s')
    \<and> remove_profile_if_current p (tk_generation t) (tk_connection_id t) s' = (False, s')"
proof -
  have "sn_writer x \<noteq> tk_connection_id t" if "hm_get (sg_sessions s) p = Some x" for x
    using assms(1)
  proof (cases rule: session_bind_cases)
    case (bound g'' cell)
    then show ?thesis using that assms(2) by (auto simp: new_session_def)
  qed simp
  from run_not_bound [OF assms(3,5) this]
  have n: "sn_writer x \<noteq> tk_connection_id t" if "hm_get (sg_sessions s') p = Some x" for x using that by blast
  have "remove_if_current_inner p g (Some (tk_connection_id t)) r ab s' = (False, s')" for g r ab
    by (cases "hm_get (sg_sessions s') p") (auto simp: remove_if_current_inner_def dest: n)
  then show ?thesis using assms(4)
    by (simp add: remove_session_def remove_if_current_def detach_profile_if_current_def remove_profile_if_current_def)
qed

section \<open>Closed transports\<close>

text \<open>
  What a closed transport \<open>w0\<close> can still become: its task is where it was, or sends the close frame it
  found next, or closes the sink or has ended, after at most the frame that was under way and at most
  one close frame.
\<close>

definition under_way :: "write_transport \<Rightarrow> outbound_frame list \<Rightarrow> bool" where
  "under_way w0 f \<longleftrightarrow> f = [] \<or> (\<exists>b. wt_task w0 = Sending b \<and> b \<noteq> CloseFrame \<and> f = [b])"

definition winding :: "write_transport \<Rightarrow> write_transport \<Rightarrow> bool" where
  "winding w0 w \<longleftrightarrow> wt_closed w \<and>
     (if wt_task w \<in> {Closing, Ended}
      then \<exists>f c. wt_sent w = wt_sent w0 @ f @ c \<and> under_way w0 f \<and> c \<in> {[], [CloseFrame]}
      else (wt_task w = wt_task w0 \<or> (wt_task w0 = Receiving \<and> wt_task w = Sending CloseFrame)) \<and> wt_sent w = wt_sent w0)"

lemma winding_end: "wt_sent w = wt_sent w0 @ f @ c \<Longrightarrow> under_way w0 f \<Longrightarrow> c \<in> {[], [CloseFrame]} \<Longrightarrow> winding w0 (writer_end w)"
  by (auto simp: winding_def writer_end_def)

lemma closed_ops [simp]:
  "wt_closed w \<Longrightarrow> transport_send f w = (Inl SendClosed, w)"
  "wt_closed w \<Longrightarrow> transport_close w = w" "wt_closed w \<Longrightarrow> transport_abort w = w"
  by (simp_all add: transport_send_def transport_close_def transport_abort_def)

lemma winding_receive:
  assumes "winding w0 w"
  shows "winding w0 (writer_receive w)"
proof (cases "wt_task w = Receiving \<and> wt_queue w \<noteq> []")
  case True
  then obtain frame rest where q: "wt_queue w = frame # rest" by (auto simp: neq_Nil_conv)
  have w: "wt_closed w" "wt_task w0 = Receiving" "wt_sent w = wt_sent w0" using assms True by (auto simp: winding_def)
  have "winding w0 (writer_end (w\<lparr>wt_queue := rest\<rparr>))" by (rule winding_end [of _ _ "[]" "[]"]) (simp_all add: w under_way_def)
  then show ?thesis using True q w by (auto simp: writer_receive_def winding_def)
qed (use assms in \<open>auto simp: writer_receive_def split: writer_task.split list.split\<close>)

lemma winding_complete:
  assumes "winding w0 w"
  shows "winding w0 (writer_complete ok w)"
proof (cases "wt_task w")
  case (Sending b)
  have w: "wt_closed w" "wt_task w0 = Sending b \<or> b = CloseFrame" "wt_sent w = wt_sent w0"
    using assms Sending by (auto simp: winding_def)
  define sent where "sent = (if ok then [b] else [])"
  have "winding w0 (writer_end (w\<lparr>wt_sent := wt_sent w @ sent\<rparr>))"
  proof (cases "b = CloseFrame")
    case True
    then show ?thesis by (intro winding_end [of _ _ "[]" sent]) (auto simp: w under_way_def sent_def)
  next
    case False
    then show ?thesis by (intro winding_end [of _ _ sent "[]"]) (use w in \<open>auto simp: under_way_def sent_def\<close>)
  qed
  then show ?thesis using Sending w(1) by (auto simp: writer_complete_def sent_def Let_def split: if_splits)
qed (use assms in \<open>simp_all add: writer_complete_def\<close>)

lemma winding_sink_close:
  assumes "winding w0 w"
  shows "winding w0 (sink_close gets_out w)"
proof (cases "wt_task w = Closing")
  case True
  then obtain f c where w: "wt_closed w" "wt_sent w = wt_sent w0 @ f @ c" "under_way w0 f" "c \<in> {[], [CloseFrame]}"
    using assms by (auto simp: winding_def)
  define last_frame where "last_frame = (if gets_out \<and> CloseFrame \<notin> set (wt_sent w) then [CloseFrame] else [])"
  have "c @ last_frame \<in> {[], [CloseFrame]}" using w(2,4) by (auto simp: last_frame_def)
  moreover have "wt_sent w @ last_frame = wt_sent w0 @ f @ (c @ last_frame)" by (simp add: w(2))
  ultimately have "\<exists>f c. wt_sent w @ last_frame = wt_sent w0 @ f @ c \<and> under_way w0 f \<and> c \<in> {[], [CloseFrame]}"
    using w(3) by blast
  then show ?thesis using True w(1) by (simp add: winding_def sink_close_def last_frame_def)
qed (use assms in \<open>simp add: sink_close_def\<close>)

lemma winding_ops:
  "winding w0 w \<Longrightarrow> winding w0 (snd (transport_send f w))" "winding w0 w \<Longrightarrow> winding w0 (transport_close w)"
  "winding w0 w \<Longrightarrow> winding w0 (transport_abort w)"
  by (metis closed_ops snd_conv winding_def)+

text \<open>Every step changes a transport by operations of its own, and none makes it anew.\<close>

definition winds :: "write_transport \<Rightarrow> u64 \<Rightarrow> signal_state \<Rightarrow> bool" where
  "winds w0 c s \<longleftrightarrow> (\<exists>w. hm_get (sg_writers s) c = Some w \<and> winding w0 w)"

lemma winds_on: "winds w0 c s \<Longrightarrow> (\<And>w. winding w0 w \<Longrightarrow> winding w0 (f w)) \<Longrightarrow> winds w0 c (on_writer f k s)"
  by (auto simp: winds_def)

lemma winds_frame: "sg_writers s' = sg_writers s \<Longrightarrow> winds w0 c s' \<longleftrightarrow> winds w0 c s"
  by (simp add: winds_def)

lemma winds_map:
  "winds w0 c s \<Longrightarrow> hm_get (sg_writers s') c = (if b then map_option transport_abort (hm_get (sg_writers s) c) else hm_get (sg_writers s) c) \<Longrightarrow>
     winds w0 c s'"
  by (auto simp: winds_def winding_ops)

lemma winds_remove:
  assumes "winds w0 k s"
  shows "winds w0 k (snd (remove_if_current held now peer g c reason s))"
    and "winds w0 k (snd (remove_if_current_inner peer g (Some c) reason ab s))"
proof -
  show "winds w0 k (snd (remove_if_current held now peer g c reason s))"
  proof (cases rule: remove_current_effect [OF surjective_pairing, of held now peer g c reason s])
    case (2 x)
    show ?thesis by (rule winds_map [OF assms, where b = "k = c"]) (simp add: 2(8))
  qed (use assms in simp)
  show "winds w0 k (snd (remove_if_current_inner peer g (Some c) reason ab s))"
  proof (cases rule: remove_inner_effect [OF surjective_pairing, of peer g c reason ab s])
    case (2 x)
    show ?thesis by (rule winds_map [OF assms, where b = "ab \<and> k = c"]) (simp add: 2(8))
  qed (use assms in simp)
qed

lemma winds_bind:
  assumes "winds w0 k s"
  shows "winds w0 k (snd (session_bind peer c ip addr g ms mi millis s))"
proof (cases rule: session_bind_cases [OF surjective_pairing, of peer c ip addr g ms mi millis s])
  case (2 g' cell)
  show ?thesis by (rule winds_map [OF assms 2(7)])
next
  case (1 e)
  show ?thesis unfolding winds_frame [OF 1(5)] by (rule assms)
qed

lemma winds_send:
  assumes "winds w0 k s"
  shows "winds w0 k (snd (routing_send peer b s))"
proof (cases "hm_get (sg_sessions s) peer")
  case None
  then show ?thesis using assms by (simp add: routing_send_def)
next
  case (Some x)
  let ?w = "case hm_get (sg_writers s) (sn_writer x) of None \<Rightarrow> (transport_channel 0)\<lparr>wt_closed := True\<rparr> | Some w \<Rightarrow> w"
  obtain res w' where t: "send_binary b ?w = (res, w')" by fastforce
  define s1 where "s1 = on_writer (\<lambda>_. w') (sn_writer x) s"
  have i: "winds w0 k s1"
  proof (cases "k = sn_writer x")
    case True
    then obtain w where w: "hm_get (sg_writers s) (sn_writer x) = Some w" "winding w0 w" using assms by (auto simp: winds_def)
    then have "winding w0 w'" using t winding_ops(1) [of w0 w "BinaryFrame b"] by (simp add: send_binary_def)
    then show ?thesis using w True by (simp add: winds_def s1_def)
  qed (use assms in \<open>simp add: winds_def s1_def\<close>)
  then have i': "winds w0 k (bump_routing f s1)" for f by (simp add: winds_def)
  show ?thesis using i i'
    by (auto simp: routing_send_def Some t s1_def Let_def split: sum.split send_error.split)
qed

lemma winds_drain:
  assumes "winds w0 k s"
  shows "length cl = hm_len (sg_sessions s) \<Longrightarrow> winds w0 k (snd (drain_all cl s))"
    and "winds w0 k (snd (drain_all_now b1 b2 b3 now s))"
proof -
  show "winds w0 k (snd (drain_all cl s))" if "length cl = hm_len (sg_sessions s)"
    by (rule winds_map [OF assms, where b = "k \<in> sn_writer ` snd ` set (sg_sessions s)"]) (use that in \<open>simp add: drain_all_def drain_each_get hm_len_def\<close>)
  show "winds w0 k (snd (drain_all_now b1 b2 b3 now s))"
    using assms by (auto simp: drain_all_now_def Let_def winds_def abort_all_get winding_ops)
qed

lemma winds_step:
  assumes "signal_step M K L s e s'" "winds w0 k s"
  shows "winds w0 k s'"
  using assms(1)
proof (cases rule: signal_step.cases)
  case (connect c s1 addr effective capacity)
  then have "k \<noteq> c" "sg_writers s1 = sg_writers s" using assms(2) by (auto simp: winds_def next_connection_id_def)
  then show ?thesis using connect assms(2) by (simp add: winds_def register_connection_def signal_transport_new_def)
next
  case (disconnect addr c)
  then show ?thesis using assms(2) by (simp add: winds_def remove_connection_def split: option.split)
qed (use assms(2) in \<open>simp_all add: winds_bind winds_remove winds_send winds_drain winds_on winding_ops winding_receive
    winding_complete winding_sink_close routing_send_end_def send_pong_def send_binary_def detach_profile_if_current_def remove_profile_if_current_def\<close>,
   simp_all add: winds_def token_touch_def)

lemma winds_run: "signal_run M K L s es s' \<Longrightarrow> winds w0 k s \<Longrightarrow> winds w0 k s'"
  by (induction rule: signal_run.induct) (auto intro: winds_step)

text \<open>C39. A replaced connection is silenced.  When a peer is bound on a new connection, then under every
  later interleaving the old connection's socket receives at most the frame its writer was already
  sending and at most one close frame after it, nothing else.  No message queued before or sent after the
  replacement reaches it, and every later send on it is answered \<open>Closed\<close>.\<close>

theorem replaced_connection_silenced:
  assumes "hm_get (sg_sessions s0) p = Some x" "hm_get (sg_writers s0) (sn_writer x) = Some w0"
    and "session_bind p c ip addr g max_sessions max_per_ip millis s0 = (Inr t, s)" "signal_run M K L s es s'"
  shows "\<exists>w f cl. hm_get (sg_writers s') (sn_writer x) = Some w \<and> fst (send_binary b w) = Inl SendClosed
    \<and> wt_sent w = wt_sent w0 @ f @ cl
    \<and> (f = [] \<or> (\<exists>frame. wt_task w0 = Sending frame \<and> frame \<noteq> CloseFrame \<and> f = [frame]))
    \<and> (cl = [] \<or> cl = [CloseFrame])"
proof -
  have a: "wt_sent (transport_abort w0) = wt_sent w0" "wt_task (transport_abort w0) = wt_task w0" "wt_closed (transport_abort w0)"
    by (auto simp: transport_abort_def channel_offer_def channel_send_def)
  have "hm_get (sg_writers s) (sn_writer x) = Some (transport_abort w0)"
    using assms(3) by (cases rule: session_bind_cases) (simp_all add: assms(1,2))
  moreover have "winding w0 (transport_abort w0)"
    by (auto intro!: exI [of _ "[]"] simp: winding_def a under_way_def)
  ultimately have "winds w0 (sn_writer x) s" by (simp add: winds_def)
  from winds_run [OF assms(4) this] obtain w where w: "hm_get (sg_writers s') (sn_writer x) = Some w" "winding w0 w"
    by (auto simp: winds_def)
  have "fst (send_binary b w) = Inl SendClosed" using w(2) by (simp add: winding_def send_binary_def)
  moreover have "\<exists>f cl. wt_sent w = wt_sent w0 @ f @ cl \<and> under_way w0 f \<and> cl \<in> {[], [CloseFrame]}"
  proof (cases "wt_task w \<in> {Closing, Ended}")
    case True
    then show ?thesis using w(2) by (simp add: winding_def)
  next
    case False
    then show ?thesis using w(2) by (intro exI [of _ "[]"]) (simp add: winding_def under_way_def)
  qed
  ultimately show ?thesis using w(1) unfolding under_way_def by blast
qed

section \<open>Disabling\<close>

text \<open>Disconnecting routes leaves no lease on any of them.\<close>

definition off_route :: "utext \<Rightarrow> route_kind \<Rightarrow> registry \<Rightarrow> bool" where
  "off_route peer route r \<longleftrightarrow> (\<forall>l. hm_get (rg_leases r) peer = Some l \<longrightarrow> lr_retired l \<or> lr_route l \<noteq> Some route)"

lemma disconnect_lease_off: "off_route peer route (fst (disconnect_lease peer route now r))"
  by (auto simp: off_route_def disconnect_lease_def clear_route_def split: option.splits)

lemma disconnect_lease_keeps: "off_route peer route r \<Longrightarrow> off_route peer route (fst (disconnect_lease p q now r))"
  by (auto simp: off_route_def disconnect_lease_def clear_route_def split: option.splits)

lemma disconnect_each_keeps: "off_route peer route r \<Longrightarrow> off_route peer route (fst (disconnect_each routes now r))"
  by (induction routes arbitrary: r) (auto simp: Let_def split_def disconnect_lease_keeps)

lemma disconnect_each_off:
  "(peer, g, c) \<in> set routes \<Longrightarrow> off_route peer (WebSocket g c) (fst (disconnect_each routes now r))"
proof (induction routes arbitrary: r)
  case (Cons q routes)
  then show ?case using disconnect_each_keeps [OF disconnect_lease_off [of peer "WebSocket g c" now r], of routes now]
    by (cases q) (auto simp: Let_def split_def)
qed simp

lemma abort_closes [simp]: "wt_closed (transport_abort w)"
  by (simp add: transport_abort_def channel_offer_def channel_send_def)

lemma drain_now_effect:
  assumes inv: "signal_inv M K L s" and d: "drain_all_now False False busy now s = (r, s')"
  shows "sg_sessions s' = [] \<and> sg_connections s' = []"
    and "hm_get (sg_sessions s) p = Some x \<Longrightarrow> \<exists>w. hm_get (sg_writers s') (sn_writer x) = Some w \<and> wt_closed w"
    and "hm_get (sg_connections s) a = Some e \<Longrightarrow> \<exists>w. hm_get (sg_writers s') (cc_writer e) = Some w \<and> wt_closed w"
    and "hm_get (sg_sessions s) p = Some x \<Longrightarrow> \<not> busy \<Longrightarrow> off_route p (WebSocket (sn_generation x) (sn_writer x)) (sg_profile s')"
proof -
  let ?cs = "map (cc_writer \<circ> snd) (sg_connections s)" and ?xs = "map (sn_writer \<circ> snd) (sg_sessions s)"
  have s': "sg_sessions s' = []" "sg_connections s' = []"
    "sg_profile s' = fst (disconnect_websocket_routes_now busy (map (\<lambda>(peer, x). (peer, sn_generation x, sn_writer x)) (sg_sessions s))
        now (sg_profile s))"
    using d by (auto simp: drain_all_now_def Let_def)
  have w: "hm_get (sg_writers s') k = map_option transport_abort (hm_get (sg_writers s) k)" if "k \<in> set ?cs \<union> set ?xs" for k
  proof -
    have "sg_writers s' = sg_writers (abort_all ?cs (abort_all ?xs (s\<lparr>sg_sessions := [], sg_connections := []\<rparr>)))"
      using d by (auto simp: drain_all_now_def Let_def)
    then show ?thesis using that
      by (cases "k \<in> set ?cs"; cases "k \<in> set ?xs") (simp_all add: abort_all_get option.map_comp comp_def del: set_map)
  qed
  show "sg_sessions s' = [] \<and> sg_connections s' = []" using s' by simp
  show "\<exists>w. hm_get (sg_writers s') (sn_writer x) = Some w \<and> wt_closed w" if h: "hm_get (sg_sessions s) p = Some x"
  proof -
    have "sn_writer x \<in> set ?xs" using h by (auto simp: hm_get_def dest!: map_of_SomeD intro: rev_image_eqI)
    moreover obtain y where "hm_get (sg_writers s) (sn_writer x) = Some y" using inv h unfolding signal_inv_def writers_ok_def by blast
    ultimately show ?thesis using w [of "sn_writer x"] by simp
  qed
  show "\<exists>w. hm_get (sg_writers s') (cc_writer e) = Some w \<and> wt_closed w" if h: "hm_get (sg_connections s) a = Some e"
  proof -
    have "cc_writer e \<in> set ?cs" using h by (auto simp: hm_get_def dest!: map_of_SomeD intro: rev_image_eqI)
    moreover obtain y where "hm_get (sg_writers s) (cc_writer e) = Some y" using inv h unfolding signal_inv_def writers_ok_def by blast
    ultimately show ?thesis using w [of "cc_writer e"] by simp
  qed
  show "off_route p (WebSocket (sn_generation x) (sn_writer x)) (sg_profile s')"
    if "hm_get (sg_sessions s) p = Some x" "\<not> busy"
  proof -
    let ?r = "map (\<lambda>(peer, x). (peer, sn_generation x, sn_writer x)) (sg_sessions s)"
    have "(p, sn_generation x, sn_writer x) \<in> set ?r"
      using that(1) by (auto simp: hm_get_def dest!: map_of_SomeD intro: rev_image_eqI)
    from disconnect_each_off [OF this, of now "sg_profile s"] show ?thesis
      using that(2) by (simp add: s'(3) disconnect_websocket_routes_now_def split_def Let_def off_route_def count_def)
  qed
qed

text \<open>C40. Disabling WebSocket signalling is effective when it is acknowledged.  When the activation of a
  configuration without it is accepted in a reachable state, no session and no connection is left, the
  transport of every one that was there is closed, so that nothing can be sent on it, and the leases of
  the drained peers no longer name the drained routes, unless the table of leases was busy.  When it is
  refused, nothing has changed.\<close>

theorem disable_drains:
  assumes reach: "signal_run M K L signal_state_default es s"
    and off: "\<not> ws_enabled config" and act: "websocket_activate d (websocket_prepare config quality) (s, h) = (r, s', h')"
  shows "case r of Inl _ \<Rightarrow> s' = s \<and> h' = h
    | Inr ack \<Rightarrow> sa_accepted ack \<and> sg_sessions s' = [] \<and> sg_connections s' = []
        \<and> (\<forall>p x. hm_get (sg_sessions s) p = Some x \<longrightarrow>
              (\<exists>w. hm_get (sg_writers s') (sn_writer x) = Some w \<and> wt_closed w)
              \<and> (\<not> di_leases_busy d \<longrightarrow> (\<forall>l. hm_get (rg_leases (sg_profile s')) p = Some l \<longrightarrow>
                    lr_retired l \<or> lr_route l \<noteq> Some (WebSocket (sn_generation x) (sn_writer x)))))
        \<and> (\<forall>a e. hm_get (sg_connections s) a = Some e \<longrightarrow>
              (\<exists>w. hm_get (sg_writers s') (cc_writer e) = Some w \<and> wt_closed w))"
proof -
  have inv: "signal_inv M K L s" by (rule signal_run_inv [OF reach signal_start])
  let ?D = "drain_all_now (di_sessions_busy d) (di_connections_busy d) (di_leases_busy d) (di_now d) s"
  show ?thesis
  proof (cases "di_sessions_busy d \<or> di_connections_busy d")
    case True
    then have "\<exists>e. ?D = (Inl e, s)" by (cases "di_sessions_busy d") (simp_all add: drain_all_now_def)
    then obtain e where "?D = (Inl e, s)" by blast
    then show ?thesis using act off by (auto simp: websocket_activate_def websocket_prepare_def)
  next
    case False
    obtain n s2 where D: "drain_all_now False False (di_leases_busy d) (di_now d) s = (Inr n, s2)"
      by (simp add: drain_all_now_def Let_def)
    then obtain ack where r: "r = Inr ack" "sa_accepted ack" "s' = s2"
      using act off False by (auto simp: websocket_activate_def websocket_prepare_def Let_def)
    note e = drain_now_effect [OF inv D, unfolded off_route_def]
    show ?thesis unfolding r(1) sum.case r(3)
    proof (intro conjI allI impI)
      show "sa_accepted ack" by (rule r(2))
      show "sg_sessions (s2) = []" "sg_connections (s2) = []" using e(1) by simp_all
      show "\<exists>w. hm_get (sg_writers (s2)) (cc_writer y) = Some w \<and> wt_closed w" if "hm_get (sg_connections s) a = Some y" for a y
        by (rule e(3) [OF that])
      fix p x
      assume p: "hm_get (sg_sessions s) p = Some x"
      show "\<exists>w. hm_get (sg_writers (s2)) (sn_writer x) = Some w \<and> wt_closed w" by (rule e(2) [OF p])
      show "lr_retired l \<or> lr_route l \<noteq> Some (WebSocket (sn_generation x) (sn_writer x))"
        if "\<not> di_leases_busy d" "hm_get (rg_leases (sg_profile (s2))) p = Some l" for l
        using e(4) [OF p that(1)] that(2) by blast
    qed
  qed
qed

section \<open>Upgrades\<close>

text \<open>The forwarding headers of a client that is not a trusted proxy have no influence.\<close>

lemma untrusted_headers_ignored:
  assumes "\<not> trusted_proxy ap config (sock_ip direct)" "inspect_upgrade ap u direct config = Inr a"
  shows "a = direct"
  using assms by (auto simp: inspect_upgrade_def split: if_splits sum.splits)

lemma upgrade_keeps_port: "inspect_upgrade ap u direct config = Inr a \<Longrightarrow> sock_port a = sock_port direct"
  by (auto simp: inspect_upgrade_def socket_new_def split: if_splits sum.splits ip_addr.splits)

section \<open>An example\<close>

definition sx_connect :: "u16 \<Rightarrow> signal_state \<Rightarrow> signal_state" where
  "sx_connect port s = (case next_connection_id s of (c, s1) \<Rightarrow>
     register_connection (SockV4 1 port) (SockV4 9 port) c c (signal_transport_new c 4 s1))"

definition sx_two :: signal_state where
  "sx_two = sx_connect 2 (sx_connect 1 signal_state_default)"

definition sx_bind :: "u64 \<Rightarrow> signal_state \<Rightarrow> (utext + session_token) \<times> signal_state" where
  "sx_bind c = session_bind (lit ''p'') c (IpV4 9) (SockV4 1 1) (Some 7) 8 4 0"

definition sx_bound :: signal_state where "sx_bound = snd (sx_bind 1 sx_two)"

definition sx_replaced :: signal_state where "sx_replaced = snd (sx_bind 2 sx_bound)"

definition sx_token :: "u64 \<Rightarrow> nat \<Rightarrow> session_token" where
  "sx_token c cell = \<lparr>tk_peer_id = lit ''p'', tk_generation = 7, tk_connection_id = c, tk_last_seen = cell\<rparr>"

lemma sx_session: "hm_get (sg_sessions sx_bound) (lit ''p'') = Some (new_session 7 1 (IpV4 9) (SockV4 1 1) 0 0)"
  by code_simp

lemma sx_writers: "hm_get (sg_writers sx_two) 1 = Some (transport_channel 4)" "hm_get (sg_writers sx_bound) 1 = Some (transport_channel 4)"
  "hm_get (sg_writers sx_bound) 2 = Some (transport_channel 4)"
  by code_simp+

lemma sx_tokens: "fst (sx_bind 1 sx_two) = Inr (sx_token 1 0)" "fst (sx_bind 2 sx_bound) = Inr (sx_token 2 1)"
  by code_simp+

lemma sx_connect_step:
  assumes "signal_run M K L s es s'" "hm_get (sg_writers s') (sg_next_connection s') = None"
  shows "signal_run M K L s (es @ [Connected (sg_next_connection s')]) (sx_connect port s')"
proof -
  have "next_connection_id s' = (sg_next_connection s', s'\<lparr>sg_next_connection := sg_next_connection s' + 1\<rparr>)"
    by (simp add: next_connection_id_def)
  from signal_run.event [OF assms(1) signal_step.connect [OF this assms(2)]] show ?thesis
    by (simp add: sx_connect_def next_connection_id_def)
qed

lemma sx_run: "\<exists>es. signal_run 8 4 3 signal_state_default es sx_bound"
proof -
  have n: "hm_get (sg_writers signal_state_default) (sg_next_connection signal_state_default) = None"
    "hm_get (sg_writers (sx_connect 1 signal_state_default)) (sg_next_connection (sx_connect 1 signal_state_default)) = None"
    by code_simp+
  from sx_connect_step [OF sx_connect_step [OF signal_run.nothing n(1)] n(2)]
  obtain es where es: "signal_run 8 4 3 signal_state_default es sx_two" unfolding sx_two_def by blast
  have "signal_step 8 4 3 sx_two (Bound (lit ''p'') 1) sx_bound"
    unfolding sx_bound_def sx_bind_def by (rule signal_step.session_bind) (simp_all add: sx_writers)
  then show ?thesis using signal_run.event [OF es] by blast
qed

theorem signal_bounded_witness:
  "hm_get (sg_sessions sx_bound) (lit ''p'') \<noteq> None
   \<and> length (filter (\<lambda>(_, x). sn_effective_ip x = IpV4 9) (sg_sessions sx_bound)) \<le> 4"
proof -
  obtain es where "signal_run 8 4 3 signal_state_default es sx_bound" using sx_run by blast
  from signal_bounded [OF this, of "IpV4 9"] show ?thesis by (simp add: sx_session)
qed

theorem stale_token_inert_witness:
  "remove_session [] 0 (sx_token 1 0) (lit ''reader closed'') sx_replaced = (False, sx_replaced)
   \<and> hm_get (sg_sessions sx_replaced) (lit ''p'') = Some (new_session 7 2 (IpV4 9) (SockV4 1 1) 0 1)"
proof -
  have b: "session_bind (lit ''p'') 2 (IpV4 9) (SockV4 1 1) (Some 7) 8 4 0 sx_bound = (Inr (sx_token 2 1), sx_replaced)"
    using sx_tokens(2) by (simp add: sx_replaced_def sx_bind_def prod_eq_iff)
  have "hm_get (sg_sessions sx_replaced) (lit ''p'') = Some (new_session 7 2 (IpV4 9) (SockV4 1 1) 0 1)" by code_simp
  moreover have "remove_session [] 0 (sx_token 1 0) (lit ''reader closed'') sx_replaced = (False, sx_replaced)"
    using stale_token_inert [OF b _ signal_run.nothing, of "sx_token 1 0"] by (simp add: sx_token_def)
  ultimately show ?thesis by blast
qed

theorem replaced_connection_silenced_witness:
  "\<exists>w. hm_get (sg_writers sx_replaced) 1 = Some w \<and> fst (send_binary [5] w) = Inl SendClosed
     \<and> (wt_sent w = [] \<or> wt_sent w = [CloseFrame])"
proof -
  have b: "session_bind (lit ''p'') 2 (IpV4 9) (SockV4 1 1) (Some 7) 8 4 0 sx_bound = (Inr (sx_token 2 1), sx_replaced)"
    using sx_tokens(2) by (simp add: sx_replaced_def sx_bind_def prod_eq_iff)
  have "hm_get (sg_writers sx_bound) (sn_writer (new_session 7 1 (IpV4 9) (SockV4 1 1) 0 0)) = Some (transport_channel 4)"
    by (simp add: new_session_def sx_writers)
  from replaced_connection_silenced [OF sx_session this b signal_run.nothing, of "[5]"] show ?thesis
    by (auto simp: new_session_def transport_channel_def)
qed

definition sx_health :: health_state where
  "sx_health = \<lparr>hs_enabled = False, hs_generation = 0, hs_completed_generation = 0, hs_snapshot_id = 0,
     hs_config = relay_health_config_default, hs_endpoints = [], hs_generations = 0, hs_snapshots = 0\<rparr>"

theorem disable_drains_witness:
  "\<exists>ack s h w. websocket_activate \<lparr>di_sessions_busy = False, di_connections_busy = False, di_leases_busy = False, di_now = 5\<rparr>
       (websocket_prepare (websocket_signal_config_default\<lparr>ws_enabled := False\<rparr>) False) (sx_bound, sx_health) = (Inr ack, s, h)
     \<and> sg_sessions s = [] \<and> hm_get (sg_writers s) 1 = Some w \<and> wt_closed w"
proof -
  let ?d = "\<lparr>di_sessions_busy = False, di_connections_busy = False, di_leases_busy = False, di_now = 5\<rparr>"
  let ?c = "websocket_signal_config_default\<lparr>ws_enabled := False\<rparr>"
  obtain es where run: "signal_run 8 4 3 signal_state_default es sx_bound" using sx_run by blast
  obtain ack s h where a: "websocket_activate ?d (websocket_prepare ?c False) (sx_bound, sx_health) = (Inr ack, s, h)"
    by (simp add: websocket_activate_def websocket_prepare_def drain_all_now_def Let_def)
  have "sn_writer (new_session 7 1 (IpV4 9) (SockV4 1 1) 0 0) = 1" by (simp add: new_session_def)
  then have "\<exists>w. hm_get (sg_writers s) 1 = Some w \<and> wt_closed w" "sg_sessions s = []"
    using disable_drains [OF run _ a] sx_session by fastforce+
  then show ?thesis using a by blast
qed

end
