(* ===== verification/Spec2Isabelle.thy ===== *)
theory Spec2Isabelle
  imports Fast_Media_Properties Geo_Properties Profile_Activation_Properties Relay_Observer_Properties
    Relay_Quality_Properties Starry_Config_Properties Connection_Auth_Properties Fast_Relay_Properties
    Websocket_Signal_Properties
begin

text \<open>
  A verification library for the Starry extensions of the RustDesk rendezvous server and relay
  (the crate under \<open>src/overlay/src/\<close>).

  \<^bold>\<open>The program.\<close>  The rendezvous server HBBS reads a configuration document and keeps the last known
  good one active (\<open>starry_config.rs\<close>).  Under it, it probes the relays over WebSocket and verifies
  their signed telemetry (\<open>websocket_signal/relay_health.rs\<close>), chooses relays by the location of the two
  clients (\<open>geo_relay.rs\<close>, \<open>geo_relay/rules.rs\<close>), joins configuration, health and location to one view
  (\<open>relay_observer.rs\<close>) whose choices it can explain (\<open>allocation_explain.rs\<close>), and lets the two clients
  measure candidates before it decides (\<open>relay_quality.rs\<close>).  A connection attempt needs a valid access
  token (\<open>connection_auth.rs\<close>), and an allowed one obtains signed grants for the fast relay modes
  (\<open>fast_relay.rs\<close>).  Identities of profiles are activated and
  leased (\<open>profile_activation.rs\<close>), and peers behind a proxy are signalled over WebSocket sessions
  (\<open>websocket_signal.rs\<close>, \<open>routing.rs\<close>, \<open>session.rs\<close>).  The relay HBBR forwards media datagrams of authorised sessions
  (\<open>fast_media_relay.rs\<close>) when they present such a grant.

  \<^bold>\<open>Theories.\<close>
    \<^item> \<open>Starry_Prelude\<close>, \<open>Hash_Map\<close>, \<open>Rust_Text\<close>, \<open>Rust_Float\<close>: what the code uses of Rust.  Words of
      their width with saturating operations, instants and durations in nanoseconds, hash maps with an
      interface locale that the model of \<open>HashMap\<close> interprets, texts as lists of Unicode scalar values, the
      floating point comparisons of location expressions.
    \<^item> \<open>Fast_Media_Wire\<close>, \<open>Fast_Media_Limits\<close>, \<open>Fast_Media_Engine\<close>, \<open>Fast_Media_Safety\<close>,
      \<open>Fast_Media_Properties\<close>: header and grant validation, token buckets, replay and rebind windows,
      \<open>Engine\<close> with every handler; its tables stay bounded, a forwarded datagram was admitted for its
      session and role and is forwarded once, nothing is amplified before a binding, bursts are bounded.
    \<^item> \<open>Geo_Rules\<close>, \<open>Geo_Select\<close>, \<open>Geo_Print\<close>, \<open>Geo_Properties\<close>: the parser and evaluator of expressions,
      compiled rules and selection; parsing ends within its depth limit, printing is inverted by parsing,
      selection takes the first rule that offers a usable relay.
    \<^item> \<open>Profile_Activation\<close>, \<open>Profile_Activation_System\<close>, \<open>Profile_Activation_Properties\<close>: the registry
      and its claims as interleaved steps; bounds, no roll-back of an activation, no downgrade,
      the burst limit in every window.
    \<^item> \<open>Relay_Health\<close>, \<open>Relay_Health_Properties\<close>: the debounced state of an endpoint, telemetry with its
      order of checks, cycles and generations; health is the debounced history of its own generation,
      and the messages are determined on which the sanitiser panics.
    \<^item> \<open>Relay_Observer\<close>, \<open>Relay_Observer_Properties\<close>: views, exclusions, candidates and explanations.
    \<^item> \<open>Relay_Quality_Score\<close>, \<open>Relay_Quality\<close>, \<open>Relay_Quality_System\<close>, \<open>Relay_Quality_Properties\<close>: scores
      and every operation of quality allocations; bounded tables, decisions that name a reached
      candidate, idempotent requests, reports that are never replaced, deadlines that are answered.
    \<^item> \<open>Starry_Config_Data\<close>, \<open>Starry_Config\<close>, \<open>Starry_Config_State\<close>, \<open>Starry_Config_Valid\<close>,
      \<open>Starry_Config_Properties\<close>: the document with its defaults, the validator with its messages, loading
      and activation; the validator decides a declarative specification, and the active configuration is
      the last one activated.
    \<^item> \<open>Connection_Auth\<close>, \<open>Connection_Auth_Properties\<close>: verification of tokens, introspection with its
      cache and permits, the keyset and its refresh, decisions; an enforced attempt passes only with a
      valid and confirmed token, and preparation fails closed.
    \<^item> \<open>Fast_Relay\<close>, \<open>Fast_Relay_Properties\<close>: the grants of the fast relay modes, their reuse, delivery and
      eviction; the tables stay bounded and consistent, a grant reaches only its two endpoints, and what
      the rendezvous server signs the relay binds.
    \<^item> \<open>Websocket_Signal\<close>, \<open>Websocket_Signal_Properties\<close>: transports shared by their clones, with queue and
      writer task, sessions, connections, registration rates, draining and upgrades; the limits hold under
      every interleaving, a replaced connection is silenced and its reader cannot touch its successor, and
      disabling is effective when it is acknowledged.
    \<^item> this theory: what a validated configuration promises to the allocations made under it, and that a
      fast relay grant follows only a verified login.

  \<^bold>\<open>State and steps.\<close>  A structure of the source is a record with its fields, an enumeration a datatype
  with its constructors, a function one definition.  An operation that runs under a lock is one step; the
  time, random identifiers and the content of files are arguments.  Reachability is an inductive
  predicate over all operations, and the invariants hold by rule induction.

  \<^bold>\<open>Parameters.\<close>  Code outside the repository is an argument: signatures and message authentication
  codes, hashes, YAML, JSON, URL and network parsers, database lookups.  What a property needs of them
  is a hypothesis that its witness instantiates.

  \<^bold>\<open>Bounds and termination.\<close>  The recursive-descent parser of Geo expressions runs on fuel, three units per
  character and three more, which is proved to be enough for every text and never to matter beyond; every
  other loop is structural recursion or a function with a measure.  Machine integers keep their width wherever the source can wrap, saturate or truncate.

  \<^bold>\<open>Not modelled.\<close>  Sockets, TLS, files, threads and logging; poisoned locks, which are taken not to
  occur; serialisation derived by libraries; the download of location databases.  The components that
  are outside the library so far are listed with their reasons in the manifest.
\<close>

section \<open>Validated configurations and quality allocations\<close>

lemma probe_window_is_quality_window:
  "probe_window_ms samples (qc_probe_timeout_ms c) (qc_probe_interval_ms c) = quality_window_ms c samples"
  by (simp add: probe_window_ms_def quality_window_ms_def)

lemma enabled_quality_valid:
  assumes "validate env c0 = Inr c" "qc_enabled (sc_relay_quality c)"
  shows "quality_bounds_valid (sc_relay_quality c)"
    and "report_time (sc_relay_quality c) \<le> unat (qc_report_timeout_ms (sc_relay_quality c))"
    and "unat (qc_report_timeout_ms (sc_relay_quality c)) < 1000 * unat (qc_allocation_ttl_seconds (sc_relay_quality c))"
  using assms by (auto simp: validate_Inr config_valid_def quality_valid_def)

lemma primary_budget_exact:
  assumes "quality_bounds_valid c"
  shows "unat (primary_stage_budget_ms c) =
     2 * (unat (qc_p2p_probe_grace_ms c) + window c (unat (qc_primary_probe_samples c))) + 500"
proof -
  have b: "unat (qc_primary_probe_samples c) \<le> 20" "unat (qc_probe_timeout_ms c) \<le> 5000"
    "unat (qc_probe_interval_ms c) \<le> 2000" "unat (qc_p2p_probe_grace_ms c) \<le> 5000"
    using assms by (auto simp: quality_bounds_valid_def)
  show ?thesis
    using window_exact [OF b(1-3)] b(4)
    by (simp add: primary_stage_budget_ms_def probe_window_is_quality_window Let_def unat_sat unat_small_u64)
qed

lemma validated_deadlines:
  assumes c: "validate env c0 = Inr c" "qc_enabled (sc_relay_quality c)"
    and a: "a = allocation_of active rq fresh (sc_relay_quality c) views"
    and clock: "on_now fresh + from_millis (unat (qc_report_timeout_ms (sc_relay_quality c))) < INSTANT_END"
  shows "qa_stage_deadline a \<le> qa_total_deadline a"
    and "qa_total_deadline a < qa_created a + from_secs (unat (qc_allocation_ttl_seconds (sc_relay_quality c)))"
    and "qc_strategy (sc_relay_quality c) = Adaptive \<Longrightarrow>
      qa_stage_deadline a + from_millis (window (sc_relay_quality c) (unat (qc_probe_samples (sc_relay_quality c))) + 500) \<le> qa_total_deadline a"
proof -
  let ?q = "sc_relay_quality c"
  note q = enabled_quality_valid [OF c]
  have t: "qa_total_deadline a = on_now fresh + 1000000 * unat (qc_report_timeout_ms ?q)" "qa_created a = on_now fresh"
    using clock by (simp_all add: a allocation_of_def Let_def split_def checked_deadline_def from_millis_def unat_small_u64)
  have s: "qa_stage_deadline a = on_now fresh + 1000000 * (case qc_strategy ?q of
      Adaptive \<Rightarrow> min (unat (primary_stage_budget_ms ?q)) (unat (qc_report_timeout_ms ?q)) | Eager \<Rightarrow> unat (qc_report_timeout_ms ?q))"
    using clock by (auto simp: a allocation_of_def Let_def split_def checked_deadline_def from_millis_def unat_small_u64 unat_min
      split: relay_quality_strategy.split)
  show "qa_stage_deadline a \<le> qa_total_deadline a"
    by (simp add: s t split: relay_quality_strategy.split)
  show "qa_total_deadline a < qa_created a + from_secs (unat (qc_allocation_ttl_seconds ?q))"
    using q(3) by (simp add: t from_secs_def)
  show "qa_stage_deadline a + from_millis (window ?q (unat (qc_probe_samples ?q)) + 500) \<le> qa_total_deadline a"
    if "qc_strategy ?q = Adaptive"
    using q(2) that primary_budget_exact [OF q(1)] by (simp add: s t from_millis_def report_time_def)
qed

lemma create_offer_Some:
  assumes "create_offer \<lparr>ac_generation = g, ac_config = Some c\<rparr> snapshot rq fresh s = (Some offer, s')"
  obtains views where "qc_enabled (sc_relay_quality c)"
    "hm_get (q_allocations s') (on_allocation_id fresh)
      = Some (allocation_of \<lparr>ac_generation = g, ac_config = Some c\<rparr> rq fresh (sc_relay_quality c) views)"
proof (cases "offer_views \<lparr>ac_generation = g, ac_config = Some c\<rparr> snapshot rq")
  case (Inl reason)
  then show ?thesis using assms by (simp add: create_offer_def)
next
  case (Inr r)
  then obtain views where r: "r = (sc_relay_quality c, views)" "qc_enabled (sc_relay_quality c)"
    by (auto simp: offer_views_def Let_def split: if_splits)
  have "qa_allocation_id (allocation_of \<lparr>ac_generation = g, ac_config = Some c\<rparr> rq fresh (sc_relay_quality c) views) = on_allocation_id fresh"
    by (simp add: allocation_of_def Let_def split_def)
  then show ?thesis using assms that [OF r(2), of views]
    by (auto simp: create_offer_def Inr r(1) Let_def put_allocation_def)
qed


lemma hm_ok_member: "hm_ok m \<Longrightarrow> (k, v) \<in> set m \<Longrightarrow> hm_get m k = Some v"
  by (simp add: hm_ok_def hm_get_def)

text \<open>C28. The bounds of the validator are what the stages of a quality allocation need: under a
  configuration that passed validation, an allocation created by an offer has its stage deadline no
  later than its total deadline, no clean-up up to the total deadline removes it, so that its deadline
  can still be answered, and under the adaptive strategy the end of the primary stage leaves a whole
  expanded probe window and half a second before the total deadline.  The clock has to be able to
  represent the total deadline: the code falls back to the time of creation where it cannot.\<close>

theorem validated_allocation_lives:
  assumes valid: "validate env c0 = Inr c" and reach: "quality_reach M s"
    and M: "unat (qc_max_allocations (sc_relay_quality c)) \<le> M"
    and fresh: "hm_get (q_allocations s) (on_allocation_id fresh) = None"
    and offer: "create_offer \<lparr>ac_generation = g, ac_config = Some c\<rparr> snapshot rq fresh s = (Some offer, s')"
    and clock: "on_now fresh + from_millis (unat (qc_report_timeout_ms (sc_relay_quality c))) < INSTANT_END"
  shows "\<exists>a. hm_get (q_allocations s') (on_allocation_id fresh) = Some a
    \<and> qa_stage_deadline a \<le> qa_total_deadline a
    \<and> (\<forall>now \<le> qa_total_deadline a.
         hm_get (q_allocations (quality_cleanup now (sc_relay_quality c) s')) (on_allocation_id fresh) = Some a)
    \<and> (qc_strategy (sc_relay_quality c) = Adaptive \<longrightarrow> qa_stage_deadline a
         + from_millis (window (sc_relay_quality c) (unat (qc_probe_samples (sc_relay_quality c))) + 500) \<le> qa_total_deadline a)"
proof -
  let ?active = "\<lparr>ac_generation = g, ac_config = Some c\<rparr>" and ?q = "sc_relay_quality c"
  obtain views where on: "qc_enabled ?q"
    and get: "hm_get (q_allocations s') (on_allocation_id fresh) = Some (allocation_of ?active rq fresh ?q views)"
    by (rule create_offer_Some [OF offer])
  note d = validated_deadlines [OF valid on refl clock, of ?active rq views]
  have "1 \<le> M" using M enabled_quality_valid(1) [OF valid on] by (simp add: quality_bounds_valid_def)
  then have "quality_inv M s'"
    using create_offer_inv [OF quality_reach_inv [OF reach] _ fresh, of ?active snapshot rq] M offer by simp
  then have "hm_ok (q_allocations s')" using alloc_inv_tables by (auto simp: quality_inv_def)
  then have "hm_get (q_allocations (quality_cleanup now ?q s')) (on_allocation_id fresh)
      = Some (allocation_of ?active rq fresh ?q views)"
    if "now \<le> qa_total_deadline (allocation_of ?active rq fresh ?q views)" for now
    using get d(2) that hm_ok_member [of "q_allocations s'"]
    by (auto simp: cleanup_retains hm.get_retain quality_allocation_expired_def since_def)
  then show ?thesis using get d(1,3) by blast
qed

definition rx_active :: active_config where
  "rx_active = \<lparr>ac_generation = 1, ac_config = Some cx_config\<rparr>"

lemma rx_offer_views: "offer_views rx_active ex_offer_snapshot ex_offer_request
   = Inr (cx_quality, [ex_relay_view (lit ''r1''), ex_relay_view (lit ''r2'')])"
proof -
  have "offer_views rx_active ex_offer_snapshot ex_offer_request
      = map_sum (\<lambda>x. x) (\<lambda>(_, views). (cx_quality, views)) (offer_views ex_quality_active ex_offer_snapshot ex_offer_request)"
    by (simp add: offer_views_def rx_active_def ex_quality_active_def cx_config_def cx_quality_def ex_quality_starry_def
      ex_quality_def relay_quality_config_default_def Let_def)
  then show ?thesis by (simp add: ex_offer_views)
qed

theorem validated_allocation_lives_witness:
  "\<exists>a. hm_get (q_allocations (snd (create_offer rx_active ex_offer_snapshot ex_offer_request ex_offer_fresh quality_state_default)))
      (replicate 16 7) = Some a
    \<and> qa_stage_deadline a + from_millis 5700 \<le> qa_total_deadline a"
proof -
  obtain offer s' where o: "create_offer rx_active ex_offer_snapshot ex_offer_request ex_offer_fresh quality_state_default = (Some offer, s')"
    by (simp add: create_offer_def rx_offer_views Let_def)
  have q: "sc_relay_quality cx_config = cx_quality" by (simp add: cx_config_def)
  have "qc_strategy cx_quality = Adaptive" "window cx_quality (unat (qc_probe_samples cx_quality)) = 5200"
    "unat (qc_max_allocations cx_quality) = 10000"
    by (simp_all add: cx_quality_def relay_quality_config_default_def window_def)
  moreover have "hm_get (q_allocations quality_state_default) (on_allocation_id ex_offer_fresh) = None"
    by (simp add: quality_state_default_def)
  moreover have "on_allocation_id ex_offer_fresh = replicate 16 7" by (simp add: ex_offer_fresh_def)
  moreover have "on_now ex_offer_fresh + from_millis (unat (qc_report_timeout_ms cx_quality)) < INSTANT_END"
    by (simp add: ex_offer_fresh_def cx_quality_def relay_quality_config_default_def INSTANT_END_def from_millis_def from_secs_def)
  ultimately show ?thesis
    using validated_allocation_lives [OF cx_validate quality_reach.init [of 10000] _ _ o [unfolded rx_active_def]]
    by (auto simp: q o)
qed

section \<open>Connection authorisation and fast grants\<close>

text \<open>An attempt that is allowed, in whatever mode, presented a token that passes every local check.\<close>

lemma attempt_allowed:
  assumes "authorize_connection_attempt env token transport now clock inst result inst' a = (d, a')" "ad_verdict d = ''allow''"
  obtains local where "token_valid env (au_runtime a) token now clock local"
    "\<And>f a1. authorize_begin env token transport now clock inst a = (Inr f, a1) \<Longrightarrow>
       \<exists>response. result = Inr response \<and> ip_active response \<and> ip_sub response = Some (lc_subject local)"
proof -
  obtain r a1 where b: "authorize_begin env token transport now clock inst a = (r, a1)"
    by (cases "authorize_begin env token transport now clock inst a")
  show ?thesis
  proof (cases rule: authorize_begin_effect [OF b])
    case (1 d')
    then show ?thesis using assms b by (simp add: authorize_connection_attempt_def)
  next
    case (2 local begun m rt' m')
    have v: "token_valid env (au_runtime a) token now clock local" using 2(1) by (simp add: verify_local_Inr)
    show ?thesis
    proof (cases r)
      case (Inl d')
      then show ?thesis using that [OF v] b by simp
    next
      case (Inr f)
      then have "fl_local f = local" using 2(7,8) by (cases begun) auto
      moreover have "d = fst (authorize_finish f result inst' a1)" using assms(1) b Inr by (simp add: authorize_connection_attempt_def)
      then have "fst (response_verdict result (fl_local f))"
        using assms(2) by (auto simp: authorize_finish_def Let_def split_def verdict_of_proceed split: if_splits)
      then have "\<exists>response. result = Inr response \<and> ip_active response \<and> ip_sub response = Some (lc_subject (fl_local f))"
        by (cases result) (auto simp: response_verdict_def split: if_splits)
      ultimately show ?thesis using that [OF v] by simp
    qed
  qed
qed

lemma granted_request_allowed:
  assumes "authorization_for_request sg active q now inst aid s = (Some g, s')"
  shows "aq_transport q \<in> {SecureTcp, WebSocketSignal} \<and> ad_proceed (aq_auth q) \<and> ad_verdict (aq_auth q) = ''allow''"
proof -
  have "find fst (policy_refusals (current_policy active) q) = None"
    using assms by (cases rule: authorization_granted) blast+
  then show ?thesis by (auto simp: policy_refusals_def Let_def split: if_splits)
qed

text \<open>C36. A fast relay grant is never handed out without a verified login, in any mode.  When the request
  that carries the decision of a connection attempt obtains a grant, the attempt came over secured TCP or
  WebSocket with a token that passes every local check of the verifier, and where the attempt had to ask
  the introspection endpoint, the endpoint confirmed the token for the same subject.  In audit mode, where
  a failed attempt still proceeds, and in mode off, no grant is signed for an unverified client.\<close>

theorem fast_grant_requires_token:
  assumes attempt: "authorize_connection_attempt env token transport now clock inst result inst' a = (d, a')"
    and request: "aq_transport q = transport" "aq_auth q = d"
    and grant: "authorization_for_request sg active q unix at' aid s = (Some g, s')"
  shows "transport \<in> {SecureTcp, WebSocketSignal} \<and> ar_effective_mode (au_runtime a) \<noteq> AuthOff
    \<and> (\<exists>local. token_valid env (au_runtime a) token now clock local
        \<and> (\<forall>f a1. authorize_begin env token transport now clock inst a = (Inr f, a1) \<longrightarrow>
             (\<exists>response. result = Inr response \<and> ip_active response \<and> ip_sub response = Some (lc_subject local))))"
proof -
  have q: "transport \<in> {SecureTcp, WebSocketSignal}" "ad_verdict d = ''allow''"
    using granted_request_allowed [OF grant] request by simp_all
  then have "ar_effective_mode (au_runtime a) \<noteq> AuthOff"
    using attempt by (auto simp: authorize_connection_attempt_def authorize_begin_def Let_def)
  moreover obtain local where "token_valid env (au_runtime a) token now clock local"
    "\<And>f a1. authorize_begin env token transport now clock inst a = (Inr f, a1) \<Longrightarrow>
       \<exists>response. result = Inr response \<and> ip_active response \<and> ip_sub response = Some (lc_subject local)"
    using attempt_allowed [OF attempt q(2)] by blast
  ultimately show ?thesis using q(1) by blast
qed

theorem fast_grant_requires_token_witness:
  "\<exists>local. token_valid ax_env (au_runtime ax_state) ax_token 1000 1000 local"
proof -
  let ?A = "authorize_connection_attempt ax_env ax_token SecureTcp 1000 1000 0 (Inr ax_answer) 5 ax_state"
  obtain m where b: "authorize_begin ax_env ax_token SecureTcp 1000 1000 0 ax_state = (Inr ax_flight, m)"
    using ax_begin by blast
  have "ip_active ax_answer" "ip_sub ax_answer = Some (lc_subject (fl_local ax_flight))"
    by (simp_all add: ax_answer_def ax_flight_def)
  then have d: "ad_verdict (fst ?A) = ''allow''" "ad_proceed (fst ?A)"
    by (simp_all add: authorize_connection_attempt_def b authorize_finish_def Let_def split_def response_verdict_def verdict_of_proceed)
  define q where "q = fx_request\<lparr>aq_auth := fst ?A\<rparr>"
  have "authorization_for_request fx_signer fx_active q (Some 1000) 0 (replicate 16 3) fast_relay_state_default
      = authorization_for_request fx_signer fx_active fx_request (Some 1000) 0 (replicate 16 3) fast_relay_state_default"
  proof -
    have f: "aq_session_uuid q = aq_session_uuid fx_request" "aq_source_ip q = aq_source_ip fx_request" "aq_target_ip q = aq_target_ip fx_request"
      "aq_selected_relay q = aq_selected_relay fx_request" "aq_quality q = aq_quality fx_request" "aq_endpoint q = aq_endpoint fx_request"
      "aq_signing_key q = aq_signing_key fx_request" by (simp_all add: q_def)
    have "policy_refusals p q = policy_refusals p fx_request" for p
      using d by (simp add: q_def policy_refusals_def Let_def fx_request_def)
    then have "authorize_locked sg p q t i aid s = authorize_locked sg p fx_request t i aid s" for sg p t i aid s
      unfolding authorize_locked_def issue_grant_def sign_grants_def reusable_def quality_mismatch_def request_key_def quality_id_def f by simp
    then show ?thesis by (simp add: authorization_for_request_def)
  qed
  then have g: "authorization_for_request fx_signer fx_active q (Some 1000) 0 (replicate 16 3) fast_relay_state_default = (Some [2, 9], fx_state)"
    by (simp add: fx_issued)
  show ?thesis
    using fast_grant_requires_token [of ax_env ax_token SecureTcp 1000 1000 0 "Inr ax_answer" 5 ax_state "fst ?A" "snd ?A" q, OF _ _ _ g]
    by (auto simp: q_def fx_request_def)
qed

end
